(* ===== verification/Kit_Prelude.thy ===== *)
theory Kit_Prelude
  imports Main "HOL-Library.Word" "HOL-Library.Char_ord" "HOL-Library.List_Lexorder"
    "HOL-Library.Sublist"
begin

text \<open>
  The vocabulary the component theories share. Go strings are byte strings, so they are
  modelled by \<^typ>\<open>string\<close> with the byte order of Go's \<open><\<close> on strings (Char_ord and
  List_Lexorder). The functions of Go's packages \<open>strings\<close> and \<open>strconv\<close> that the kit
  calls are written out here, together with 64-bit wrap-around and the lemmas every
  component uses: splitting and joining, prefixes and suffixes.
\<close>

named_theorems kit_defs \<open>definitions of the prelude that component proofs unfold\<close>

section \<open>64-bit integers\<close>

text \<open>Go's \<open>int\<close>, \<open>int64\<close> and \<open>time.Duration\<close> are 64-bit two's complement; a duration
  counts nanoseconds.\<close>

type_synonym go_int = int
type_synonym duration = int

definition wrap64 :: "int \<Rightarrow> int" where
  "wrap64 x = (x + 2 ^ 63) mod 2 ^ 64 - 2 ^ 63"

lemma wrap64_id: "- (2 ^ 63) \<le> x \<Longrightarrow> x < 2 ^ 63 \<Longrightarrow> wrap64 x = x"
  by (simp add: wrap64_def)

lemma wrap64_range: "- (2 ^ 63) \<le> wrap64 x \<and> wrap64 x < 2 ^ 63"
proof -
  have "0 \<le> (x + 2 ^ 63) mod 2 ^ 64" and "(x + 2 ^ 63) mod 2 ^ 64 < 2 ^ 64"
    by simp_all
  then show ?thesis by (simp add: wrap64_def)
qed

lemma sint_of_nat64: "n < 2 ^ 63 \<Longrightarrow> sint (of_nat n :: 64 word) = int n"
  by (simp add: signed_of_nat signed_take_bit_int_eq_self_iff)

text \<open>Integer division of Go truncates towards zero.\<close>

definition go_div :: "int \<Rightarrow> int \<Rightarrow> int" where
  "go_div a b = (if (a < 0) = (b < 0) then \<bar>a\<bar> div \<bar>b\<bar> else - (\<bar>a\<bar> div \<bar>b\<bar>))"

lemma go_div_nonneg: "0 \<le> a \<Longrightarrow> 0 < b \<Longrightarrow> go_div a b = a div b"
  by (simp add: go_div_def)

section \<open>Package strings\<close>

text \<open>\<open>strings.Split\<close> with a one-byte separator: never empty, \<open>[""]\<close> for \<open>""\<close>.\<close>

fun go_split :: "char \<Rightarrow> string \<Rightarrow> string list" where
  "go_split c [] = [[]]"
| "go_split c (x # xs) =
     (if x = c then [] # go_split c xs
      else (x # hd (go_split c xs)) # tl (go_split c xs))"

fun go_join :: "string \<Rightarrow> string list \<Rightarrow> string" where
  "go_join sep [] = []"
| "go_join sep [s] = s"
| "go_join sep (s # t # ss) = s @ sep @ go_join sep (t # ss)"

definition has_prefix :: "string \<Rightarrow> string \<Rightarrow> bool" where
  "has_prefix s p = (take (length p) s = p)"

definition has_suffix :: "string \<Rightarrow> string \<Rightarrow> bool" where
  "has_suffix s p = (length p \<le> length s \<and> drop (length s - length p) s = p)"

definition trim_prefix :: "string \<Rightarrow> string \<Rightarrow> string" where
  "trim_prefix s p = (if has_prefix s p then drop (length p) s else s)"

definition trim_suffix :: "string \<Rightarrow> string \<Rightarrow> string" where
  "trim_suffix s p = (if has_suffix s p then take (length s - length p) s else s)"

text \<open>\<open>strings.TrimSpace\<close> on ASCII text: tab, line feed, vertical tab, form feed, carriage
  return and blank.\<close>

definition is_space :: "char \<Rightarrow> bool" where
  "is_space c = (of_char c \<in> {9, 10, 11, 12, 13, 32 :: nat})"

definition trim_space :: "string \<Rightarrow> string" where
  "trim_space s = rev (dropWhile is_space (rev (dropWhile is_space s)))"

definition upper_char :: "char \<Rightarrow> char" where
  "upper_char c = (let n = of_char c :: nat in if 97 \<le> n \<and> n \<le> 122 then char_of (n - 32) else c)"

definition lower_char :: "char \<Rightarrow> char" where
  "lower_char c = (let n = of_char c :: nat in if 65 \<le> n \<and> n \<le> 90 then char_of (n + 32) else c)"

definition to_upper :: "string \<Rightarrow> string" where
  "to_upper = map upper_char"

definition to_lower :: "string \<Rightarrow> string" where
  "to_lower = map lower_char"

lemma has_prefix_iff: "has_prefix s p \<longleftrightarrow> prefix p s"
  by (metis append_eq_conv_conj append_take_drop_id has_prefix_def prefix_def)

lemma has_suffix_iff: "has_suffix s p \<longleftrightarrow> suffix p s"
proof
  assume "has_suffix s p"
  then show "suffix p s"
    by (metis append_take_drop_id has_suffix_def suffix_def)
next
  assume "suffix p s"
  then show "has_suffix s p"
    by (auto simp: has_suffix_def suffix_def)
qed

lemma has_prefix_append [simp]: "has_prefix (p @ s) p"
  by (simp add: has_prefix_def)

lemma has_suffix_append [simp]: "has_suffix (s @ p) p"
  by (simp add: has_suffix_def)

lemma trim_suffix_append [simp]: "trim_suffix (s @ p) p = s"
  by (simp add: trim_suffix_def)

lemma trim_prefix_append [simp]: "trim_prefix (p @ s) p = s"
  by (simp add: trim_prefix_def)

section \<open>Splitting and joining\<close>

lemma go_split_not_Nil [simp]: "go_split c s \<noteq> []"
  by (cases s) simp_all

lemma go_split_hd_tl [simp]: "hd (go_split c s) # tl (go_split c s) = go_split c s"
  by simp

lemma go_join_Cons: "ss \<noteq> [] \<Longrightarrow> go_join sep (s # ss) = s @ sep @ go_join sep ss"
  by (cases ss) simp_all

lemma go_join_append:
  "xs \<noteq> [] \<Longrightarrow> ys \<noteq> [] \<Longrightarrow> go_join sep (xs @ ys) = go_join sep xs @ sep @ go_join sep ys"
proof (induction xs)
  case (Cons x xs)
  then show ?case by (cases "xs = []") (simp_all add: go_join_Cons)
qed simp

lemma go_join_split: "go_join [c] (go_split c s) = s"
proof (induction s)
  case (Cons x xs)
  obtain y ys where split: "go_split c xs = y # ys"
    using go_split_not_Nil neq_Nil_conv by metis
  then show ?case using Cons by (cases ys) simp_all
qed simp

lemma go_split_no_sep: "c \<notin> set s \<Longrightarrow> go_split c s = [s]"
  by (induction s) auto

lemma go_split_append:
  "c \<notin> set s \<Longrightarrow> go_split c (s @ c # t) = s # go_split c t"
  by (induction s) auto

lemma go_split_append_sep: "go_split c (s @ c # t) = go_split c s @ go_split c t"
  by (induction s) simp_all

text \<open>Strings with equally many separators can be told apart however they are continued.\<close>

lemma append_sep_inject:
  assumes "s @ c # t = s' @ c # t'" "length (go_split c s) = length (go_split c s')"
  shows "s = s'"
proof -
  have "go_split c s @ go_split c t = go_split c s' @ go_split c t'"
    using assms(1) by (metis go_split_append_sep)
  with assms(2) have "go_split c s = go_split c s'" by simp
  then show ?thesis by (metis go_join_split)
qed

lemma go_split_join:
  "ss \<noteq> [] \<Longrightarrow> (\<And>s. s \<in> set ss \<Longrightarrow> c \<notin> set s) \<Longrightarrow> go_split c (go_join [c] ss) = ss"
proof (induction ss)
  case (Cons s ss)
  then show ?case
    by (cases "ss = []") (simp_all add: go_join_Cons go_split_append go_split_no_sep)
qed simp

lemma go_split_parts: "p \<in> set (go_split c s) \<Longrightarrow> c \<notin> set p"
proof (induction s arbitrary: p)
  case (Cons x xs)
  have hd: "hd (go_split c xs) \<in> set (go_split c xs)" by simp
  have tl: "q \<in> set (tl (go_split c xs)) \<Longrightarrow> q \<in> set (go_split c xs)" for q
    by (meson go_split_not_Nil list.set_sel(2))
  show ?case
    using Cons.prems Cons.IH hd tl by (fastforce split: if_splits)
qed simp

section \<open>Lexicographic order of byte strings\<close>

lemma append_less_append_iff [simp]: "(p @ a :: string) < p @ b \<longleftrightarrow> a < b"
  by (induction p) simp_all

lemma append_le_append_iff [simp]: "(p @ a :: string) \<le> p @ b \<longleftrightarrow> a \<le> b"
  by (induction p) simp_all

lemma string_le_append [simp]: "(s :: string) \<le> s @ t"
  by (induction s) simp_all

text \<open>A string between two strings with a common prefix has that prefix.\<close>

lemma between_common_prefix:
  fixes p d :: string
  assumes "p @ a \<le> d" and "d < p @ b"
  shows "\<exists>c. d = p @ c"
  using assms
proof (induction p arbitrary: d)
  case (Cons x p)
  then obtain y d' where d: "d = y # d'" by (cases d) auto
  with Cons.prems have "y = x" by auto
  with d Cons show ?case by auto
qed simp

text \<open>Strings of equal length that differ keep their order whatever follows.\<close>

lemma less_append_same_length:
  fixes s t :: string
  shows "length s = length t \<Longrightarrow> s < t \<Longrightarrow> s @ x < t @ y"
proof (induction s t rule: list_induct2)
  case (Cons a s b t)
  then show ?case by auto
qed simp

section \<open>Decimal numbers\<close>

text \<open>\<open>strconv.Itoa\<close> and the verb \<open>%d\<close>, and \<open>strconv.Atoi\<close>.\<close>

definition dec_char :: "nat \<Rightarrow> char" where
  "dec_char d = char_of (48 + d)"

definition is_dec :: "char \<Rightarrow> bool" where
  "is_dec c = (let n = of_char c :: nat in 48 \<le> n \<and> n \<le> 57)"

definition dec_val :: "char \<Rightarrow> nat" where
  "dec_val c = of_char c - 48"

fun show_nat :: "nat \<Rightarrow> string" where
  "show_nat n = (if n < 10 then [dec_char n] else show_nat (n div 10) @ [dec_char (n mod 10)])"

declare show_nat.simps [simp del]

definition itoa :: "int \<Rightarrow> string" where
  "itoa i = (if i < 0 then CHR ''-'' # show_nat (nat (- i)) else show_nat (nat i))"

definition dec_number :: "string \<Rightarrow> nat" where
  "dec_number s = foldl (\<lambda>n c. 10 * n + dec_val c) 0 s"

definition sign_body :: "string \<Rightarrow> bool \<times> string" where
  "sign_body s =
     (case s of
        [] \<Rightarrow> (False, [])
      | c # cs \<Rightarrow> if c = CHR ''-'' then (True, cs) else if c = CHR ''+'' then (False, cs) else (False, s))"

definition in_int64 :: "int \<Rightarrow> bool" where
  "in_int64 i = (- (2 ^ 63) \<le> i \<and> i < 2 ^ 63)"

definition atoi :: "string \<Rightarrow> int option" where
  "atoi s =
     (let (neg, body) = sign_body s;
          i = (if neg then - int (dec_number body) else int (dec_number body))
      in if body \<noteq> [] \<and> list_all is_dec body \<and> in_int64 i then Some i else None)"

text \<open>\<open>strconv.Quote\<close> (the verb \<open>%q\<close>) of an ASCII text.\<close>

definition quote_char :: "char \<Rightarrow> string" where
  "quote_char c =
     (let n = of_char c :: nat; hex = (\<lambda>d. char_of (if d < 10 then 48 + d else 87 + d)) in
      if n = 34 \<or> n = 92 then [CHR 0x5C, c]
      else if 7 \<le> n \<and> n \<le> 13 then [CHR 0x5C, ''abtnvfr'' ! (n - 7)]
      else if n < 32 \<or> n = 127 then [CHR 0x5C, CHR ''x'', hex (n div 16), hex (n mod 16)]
      else [c])"

definition quoted :: "string \<Rightarrow> string" where
  "quoted s = CHR 0x22 # concat (map quote_char s) @ [CHR 0x22]"

text \<open>The text of the error of \<open>strconv.Atoi\<close>.\<close>

definition atoi_error :: "string \<Rightarrow> string" where
  "atoi_error s =
     ''strconv.Atoi: parsing '' @ quoted s @
       (if snd (sign_body s) \<noteq> [] \<and> list_all is_dec (snd (sign_body s))
        then '': value out of range'' else '': invalid syntax'')"

text \<open>\<open>fmt.Sscanf(s, "%d", &x)\<close> with \<open>x\<close> initially 0: blanks, an optional sign, then the
  longest run of digits; on an error \<open>x\<close> keeps its value.\<close>

definition sscanf_d :: "string \<Rightarrow> int" where
  "sscanf_d s =
     (let (neg, body) = sign_body (dropWhile (\<lambda>c. of_char c \<in> {9, 11, 12, 13, 32 :: nat}) s);
          ds = takeWhile is_dec body;
          i = (if neg then - int (dec_number ds) else int (dec_number ds))
      in if ds \<noteq> [] \<and> in_int64 i then i else 0)"

lemma dec_char_digit: "d < 10 \<Longrightarrow> is_dec (dec_char d) \<and> dec_val (dec_char d) = d"
  by (simp add: dec_char_def is_dec_def dec_val_def)

lemma show_nat_digits: "show_nat n \<noteq> [] \<and> list_all is_dec (show_nat n) \<and> dec_number (show_nat n) = n"
proof (induction n rule: show_nat.induct)
  case (1 n)
  show ?case
  proof (cases "n < 10")
    case True
    then show ?thesis
      using dec_char_digit [of n] by (simp add: show_nat.simps [of n] dec_number_def)
  next
    case False
    with 1 show ?thesis
      using dec_char_digit [of "n mod 10"]
      by (simp add: show_nat.simps [of n] dec_number_def)
  qed
qed

lemma sign_body_dec: "list_all is_dec s \<Longrightarrow> sign_body s = (False, s)"
  by (cases s) (auto simp: sign_body_def is_dec_def Let_def)

lemma atoi_itoa: "in_int64 i \<Longrightarrow> atoi (itoa i) = Some i"
  using show_nat_digits [of "nat i"] show_nat_digits [of "nat (- i)"]
  by (simp add: itoa_def atoi_def sign_body_dec)
    (simp add: sign_body_def)

lemma sscanf_itoa: "in_int64 i \<Longrightarrow> sscanf_d (itoa i) = i"
proof -
  have blank: "dropWhile (\<lambda>c. of_char c \<in> {9, 11, 12, 13, 32 :: nat}) s = s"
    if "list_all is_dec s" for s
    using that by (cases s) (auto simp: is_dec_def Let_def)
  have run: "takeWhile is_dec s = s" if "list_all is_dec s" for s
    using that by (simp add: list_all_iff takeWhile_eq_all_conv)
  assume "in_int64 i"
  then show ?thesis
    using show_nat_digits [of "nat i"] show_nat_digits [of "nat (- i)"]
    by (simp add: itoa_def sscanf_d_def sign_body_dec blank run del: insert_iff)
      (simp add: sign_body_def run)
qed

lemma itoa_inject: "in_int64 i \<Longrightarrow> in_int64 j \<Longrightarrow> itoa i = itoa j \<longleftrightarrow> i = j"
  by (metis atoi_itoa option.inject)

section \<open>Dynamic values\<close>

text \<open>\<open>interface{}\<close> as JSON gives it; the type of numbers is left open, since the kit copies
  numbers and never computes with them here. A \<open>map[string]interface{}\<close> is an association
  list with distinct keys.\<close>

datatype 'n gval =
    GNil
  | GBool bool
  | GNum 'n
  | GStr string
  | GList "'n gval list"
  | GMap "(string \<times> 'n gval) list"

end
