(* ===== verification/Path_Key.thy ===== *)
theory Path_Key
  imports Kit_Prelude
begin

text \<open>
  Package \<open>utils/pathkey\<close>: the hierarchical keys of the multi-tenant organization tree
  (\<open>"000001/000002/0003"\<close>, one zero-padded Base36 segment per level). The model follows
  \<open>pathkey.go\<close> function by function, with \<open>strconv.ParseInt\<close> and \<open>strconv.FormatInt\<close>
  at base 36 and 64 bits written out. The lemmas show that the range
  \<open>[pathKey, CalculateNextSiblingPathKey pathKey)\<close> selects exactly an organization and its
  descendants as long as the last segment can still be incremented in its width, and what
  the functions do where that fails.
\<close>

section \<open>strconv at base 36\<close>

definition digit_val :: "char \<Rightarrow> nat option" where
  "digit_val c =
     (let n = of_char c :: nat in
      if 48 \<le> n \<and> n \<le> 57 then Some (n - 48)
      else if 97 \<le> n \<and> n \<le> 122 then Some (n - 87)
      else if 65 \<le> n \<and> n \<le> 90 then Some (n - 55)
      else None)"

fun parse_digits :: "nat \<Rightarrow> string \<Rightarrow> nat option" where
  "parse_digits acc [] = Some acc"
| "parse_digits acc (c # cs) =
     (case digit_val c of None \<Rightarrow> None | Some d \<Rightarrow> parse_digits (36 * acc + d) cs)"

definition parse_uint36 :: "string \<Rightarrow> nat option" where
  "parse_uint36 s = (if s = [] then None else parse_digits 0 s)"

text \<open>\<open>strconv.ParseInt(s, 36, 64)\<close>; \<open>None\<close> stands for its syntax and range errors.\<close>

definition parse_int36 :: "string \<Rightarrow> int option" where
  "parse_int36 s =
     (let neg = (s \<noteq> [] \<and> hd s = CHR ''-'');
          body = (if s \<noteq> [] \<and> (hd s = CHR ''-'' \<or> hd s = CHR ''+'') then tl s else s)
      in case parse_uint36 body of
           None \<Rightarrow> None
         | Some n \<Rightarrow>
             if neg then (if int n \<le> 2 ^ 63 then Some (- int n) else None)
             else (if int n < 2 ^ 63 then Some (int n) else None))"

definition digit_char :: "nat \<Rightarrow> char" where
  "digit_char d = (if d < 10 then char_of (48 + d) else char_of (87 + d))"

fun format_nat36 :: "nat \<Rightarrow> string" where
  "format_nat36 n =
     (if n < 36 then [digit_char n] else format_nat36 (n div 36) @ [digit_char (n mod 36)])"

declare format_nat36.simps [simp del]

text \<open>\<open>strconv.FormatInt(i, 36)\<close>.\<close>

definition format_int36 :: "int \<Rightarrow> string" where
  "format_int36 i =
     (if i < 0 then CHR ''-'' # format_nat36 (nat (- i)) else format_nat36 (nat i))"

section \<open>pathkey.go\<close>

definition next_segment :: "string \<Rightarrow> int \<Rightarrow> string" where
  "next_segment lastSegment num =
     (let nextSegment = to_upper (format_int36 (wrap64 (num + 1)))
      in if length nextSegment < length lastSegment
         then replicate (length lastSegment - length nextSegment) (CHR ''0'') @ nextSegment
         else nextSegment)"

definition CalculateNextSiblingPathKey :: "string \<Rightarrow> string" where
  "CalculateNextSiblingPathKey pathKey =
     (if pathKey = [] then []
      else
        let segments = go_split (CHR ''/'') pathKey in
        if segments = [] then pathKey
        else
          let lastSegment = last segments in
          case parse_int36 lastSegment of
            None \<Rightarrow> pathKey
          | Some num \<Rightarrow>
              go_join ''/'' (segments[length segments - 1 := next_segment lastSegment num]))"

definition IsDescendant :: "string \<Rightarrow> string \<Rightarrow> bool" where
  "IsDescendant childPathKey parentPathKey =
     (if parentPathKey = [] then True
      else if \<not> has_prefix childPathKey parentPathKey then False
      else length childPathKey > length parentPathKey)"

definition IsDescendantOrSelf :: "string \<Rightarrow> string \<Rightarrow> bool" where
  "IsDescendantOrSelf childPathKey parentPathKey =
     (if childPathKey = parentPathKey then True else IsDescendant childPathKey parentPathKey)"

text \<open>The loop of \<open>GetAncestorPaths\<close>: \<open>i\<close> runs from 1 to the last index.\<close>

definition GetAncestorPaths :: "string \<Rightarrow> string list" where
  "GetAncestorPaths pathKey =
     (if pathKey = [] then []
      else
        let segments = go_split (CHR ''/'') pathKey in
        if length segments \<le> 1 then []
        else map (\<lambda>i. go_join ''/'' (take i segments)) [1..<length segments])"

section \<open>Well-formed keys\<close>

text \<open>A Base36 digit as the platform writes it: upper case.\<close>

definition is_b36 :: "char \<Rightarrow> bool" where
  "is_b36 c = (let n = of_char c :: nat in (48 \<le> n \<and> n \<le> 57) \<or> (65 \<le> n \<and> n \<le> 90))"

definition b36 :: "char \<Rightarrow> nat" where
  "b36 c = (let n = of_char c :: nat in if n \<le> 57 then n - 48 else n - 55)"

definition is_segment :: "string \<Rightarrow> bool" where
  "is_segment s = (s \<noteq> [] \<and> (\<forall>c \<in> set s. is_b36 c))"

text \<open>The number a segment writes, most significant digit first.\<close>

fun seg_val :: "string \<Rightarrow> nat" where
  "seg_val [] = 0"
| "seg_val (c # cs) = b36 c * 36 ^ length cs + seg_val cs"

text \<open>A key given by its segments; twelve digits always fit into 63 bits.\<close>

definition wf_segments :: "string list \<Rightarrow> bool" where
  "wf_segments ss = (ss \<noteq> [] \<and> (\<forall>s \<in> set ss. is_segment s \<and> length s \<le> 12))"

definition pathkey_of :: "string list \<Rightarrow> string" where
  "pathkey_of ss = go_join ''/'' ss"

subsection \<open>Digits\<close>

lemma b36_less: "is_b36 c \<Longrightarrow> b36 c < 36"
  by (auto simp: is_b36_def b36_def Let_def)

lemma digit_val_b36: "is_b36 c \<Longrightarrow> digit_val c = Some (b36 c)"
  by (auto simp: is_b36_def b36_def digit_val_def Let_def)

lemma b36_less_iff: "is_b36 c \<Longrightarrow> is_b36 d \<Longrightarrow> b36 c < b36 d \<longleftrightarrow> c < d"
  by (auto simp: is_b36_def b36_def Let_def less_char_def)

lemma b36_inj: "is_b36 c \<Longrightarrow> is_b36 d \<Longrightarrow> b36 c = b36 d \<longleftrightarrow> c = d"
  by (metis b36_less_iff less_irrefl linorder_less_linear)

lemma is_b36_not_slash: "is_b36 c \<Longrightarrow> c \<noteq> CHR ''/''"
  by (auto simp: is_b36_def Let_def)

lemma is_b36_not_sign: "is_b36 c \<Longrightarrow> c \<noteq> CHR ''-'' \<and> c \<noteq> CHR ''+''"
  by (auto simp: is_b36_def Let_def)

lemma slash_less_b36: "is_b36 c \<Longrightarrow> CHR ''/'' < c"
  by (auto simp: is_b36_def Let_def less_char_def)

lemma upper_digit_char:
  assumes "d < 36"
  shows "is_b36 (upper_char (digit_char d)) \<and> b36 (upper_char (digit_char d)) = d"
proof (cases "d < 10")
  case True
  then have "of_char (digit_char d) = 48 + d" by (simp add: digit_char_def)
  with True show ?thesis by (simp add: upper_char_def is_b36_def b36_def Let_def)
next
  case False
  with assms have c: "of_char (digit_char d) = 87 + d" by (simp add: digit_char_def)
  with False assms have "of_char (upper_char (digit_char d)) = 55 + d"
    by (simp add: upper_char_def Let_def)
  with False assms show ?thesis by (simp add: is_b36_def b36_def Let_def)
qed

subsection \<open>Values of segments\<close>

lemma seg_val_less: "(\<forall>c \<in> set s. is_b36 c) \<Longrightarrow> seg_val s < 36 ^ length s"
proof (induction s)
  case (Cons c cs)
  then have c: "b36 c + 1 \<le> 36" and cs: "seg_val cs < 36 ^ length cs"
    using b36_less by (auto simp: Suc_le_eq)
  from c have "(b36 c + 1) * 36 ^ length cs \<le> 36 * 36 ^ length cs"
    by (rule mult_le_mono1)
  then have "b36 c * 36 ^ length cs + 36 ^ length cs \<le> 36 ^ length (c # cs)"
    by (simp only: add_mult_distrib mult_1 length_Cons power_Suc)
  with cs have "b36 c * 36 ^ length cs + seg_val cs < 36 ^ length (c # cs)"
    by linarith
  then show ?case by simp
qed simp

lemma seg_val_append: "seg_val (s @ t) = seg_val s * 36 ^ length t + seg_val t"
  by (induction s) (simp_all add: algebra_simps power_add)

lemma parse_digits_val:
  "(\<forall>c \<in> set s. is_b36 c) \<Longrightarrow> parse_digits acc s = Some (acc * 36 ^ length s + seg_val s)"
  by (induction s arbitrary: acc) (simp_all add: digit_val_b36 algebra_simps)

lemma parse_int36_segment:
  assumes "is_segment s" and "length s \<le> 12"
  shows "parse_int36 s = Some (int (seg_val s))"
proof -
  from assms obtain c cs where s: "s = c # cs" and c: "is_b36 c"
    by (auto simp: is_segment_def neq_Nil_conv)
  have "seg_val s < 36 ^ length s"
    using assms by (auto simp: is_segment_def intro: seg_val_less)
  also have "(36 :: nat) ^ length s \<le> 36 ^ 12" using assms by (intro power_increasing) auto
  also have "(36 :: nat) ^ 12 < 2 ^ 63" by simp
  finally have "int (seg_val s) < 2 ^ 63" by simp
  moreover have "parse_uint36 s = Some (seg_val s)"
    using assms by (auto simp: parse_uint36_def is_segment_def parse_digits_val)
  ultimately show ?thesis
    using is_b36_not_sign [OF c] by (simp add: parse_int36_def s)
qed

lemma to_upper_format_nat36:
  "(\<forall>c \<in> set (to_upper (format_nat36 n)). is_b36 c) \<and> seg_val (to_upper (format_nat36 n)) = n"
proof (induction n rule: format_nat36.induct)
  case (1 n)
  show ?case
  proof (cases "n < 36")
    case True
    then show ?thesis
      using upper_digit_char [of n]
      by (simp add: format_nat36.simps [of n] to_upper_def)
  next
    case False
    with 1 upper_digit_char [of "n mod 36"] show ?thesis
      by (auto simp: format_nat36.simps [of n] to_upper_def seg_val_append)
  qed
qed

lemma length_format_nat36: "n < 36 ^ w \<Longrightarrow> 0 < w \<Longrightarrow> length (format_nat36 n) \<le> w"
proof (induction n arbitrary: w rule: format_nat36.induct)
  case (1 n)
  show ?case
  proof (cases "n < 36")
    case True
    with 1 show ?thesis by (simp add: format_nat36.simps [of n])
  next
    case False
    then have w: "1 < w" using "1.prems" by (cases "w = 1") auto
    then have "(36::nat) ^ w = 36 * 36 ^ (w - 1)"
      by (metis One_nat_def Suc_pred gr0I less_nat_zero_code power_Suc)
    with "1.prems" have "n div 36 < 36 ^ (w - 1)" by (simp add: less_mult_imp_div_less)
    with False w 1 have "length (format_nat36 (n div 36)) \<le> w - 1" by auto
    with False w show ?thesis by (simp add: format_nat36.simps [of n])
  qed
qed

lemma seg_val_zeros: "seg_val (replicate k (CHR ''0'') @ s) = seg_val s"
  by (induction k) (simp_all add: b36_def)

text \<open>Same-width segments are ordered as the numbers they write.\<close>

lemma seg_less_iff:
  "length s = length t \<Longrightarrow> (\<forall>c \<in> set s. is_b36 c) \<Longrightarrow> (\<forall>c \<in> set t. is_b36 c) \<Longrightarrow>
     s < t \<longleftrightarrow> seg_val s < seg_val t"
proof (induction s t rule: list_induct2)
  case (Cons c s d t)
  let ?w = "36 ^ length t :: nat"
  have s: "seg_val s < ?w" and t: "seg_val t < ?w"
    using seg_val_less [of s] seg_val_less [of t] Cons.prems by (simp_all add: Cons.hyps)
  have lt: "x * ?w + seg_val s < y * ?w + seg_val t" if "x < y" for x y
  proof -
    from that have "(x + 1) * ?w \<le> y * ?w" by (intro mult_le_mono1) simp
    with s show ?thesis by (simp add: algebra_simps)
  qed
  have gt: "y * ?w + seg_val t < x * ?w + seg_val s" if "y < x" for x y
  proof -
    from that have "(y + 1) * ?w \<le> x * ?w" by (intro mult_le_mono1) simp
    with t show ?thesis by (simp add: algebra_simps)
  qed
  have iff: "s < t \<longleftrightarrow> seg_val s < seg_val t" using Cons by simp
  have cd: "b36 c < b36 d \<longleftrightarrow> c < d" "b36 d < b36 c \<longleftrightarrow> d < c"
    using Cons.prems by (simp_all add: b36_less_iff)
  consider "c < d" | "c = d" | "d < c" using linorder_less_linear by blast
  then show ?case
  proof cases
    case 1
    with lt [of "b36 c" "b36 d"] cd show ?thesis by (simp add: Cons.hyps)
  next
    case 2
    with iff show ?thesis by (simp add: Cons.hyps)
  next
    case 3
    with gt [of "b36 d" "b36 c"] cd have "\<not> seg_val (c # s) < seg_val (d # t)"
      by (simp add: Cons.hyps)
    with 3 show ?thesis by auto
  qed
qed simp

lemma seg_val_inj:
  "length s = length t \<Longrightarrow> (\<forall>c \<in> set s. is_b36 c) \<Longrightarrow> (\<forall>c \<in> set t. is_b36 c) \<Longrightarrow>
     seg_val s = seg_val t \<Longrightarrow> s = t"
  by (metis linorder_less_linear nat_neq_iff seg_less_iff)

section \<open>The next sibling\<close>

lemma is_segment_no_slash: "is_segment s \<Longrightarrow> CHR ''/'' \<notin> set s"
  by (auto simp: is_segment_def dest: is_b36_not_slash)

lemma go_split_pathkey:
  "wf_segments ss \<Longrightarrow> go_split (CHR ''/'') (pathkey_of ss) = ss"
  unfolding pathkey_of_def
  by (rule go_split_join) (auto simp: wf_segments_def dest: is_segment_no_slash)

lemma pathkey_not_empty: "wf_segments ss \<Longrightarrow> pathkey_of ss \<noteq> []"
  using go_split_pathkey [of ss] by (auto simp: wf_segments_def is_segment_def)

text \<open>Everything before the last segment, with its trailing separator.\<close>

definition parent_prefix :: "string list \<Rightarrow> string" where
  "parent_prefix pre = (if pre = [] then [] else go_join ''/'' pre @ ''/'')"

lemma pathkey_snoc: "pathkey_of (pre @ [s]) = parent_prefix pre @ s"
  by (simp add: pathkey_of_def parent_prefix_def go_join_append)

lemma pathkey_snoc_append:
  "rest \<noteq> [] \<Longrightarrow> pathkey_of (pre @ s # rest) = parent_prefix pre @ s @ ''/'' @ pathkey_of rest"
  by (cases "pre = []")
    (simp_all add: pathkey_of_def parent_prefix_def go_join_append go_join_Cons)

lemma go_split_parent_prefix:
  assumes "\<And>p. p \<in> set pre \<Longrightarrow> CHR ''/'' \<notin> set p"
  shows "go_split (CHR ''/'') (parent_prefix pre @ t) = pre @ go_split (CHR ''/'') t"
  using assms
proof (induction pre)
  case (Cons p pre)
  then show ?case
    by (cases "pre = []") (auto simp: parent_prefix_def go_join_Cons go_split_append)
qed (simp add: parent_prefix_def)

lemma go_split_hd: "\<exists>r. s = hd (go_split c s) @ r"
  by (induction s) auto

lemma next_segment_spec:
  assumes s: "is_segment s" "length s \<le> 12" and room: "seg_val s + 1 < 36 ^ length s"
  shows "is_segment (next_segment s (int (seg_val s))) \<and>
    length (next_segment s (int (seg_val s))) = length s \<and>
    seg_val (next_segment s (int (seg_val s))) = seg_val s + 1"
proof -
  let ?n = "seg_val s + 1"
  let ?u = "to_upper (format_nat36 ?n)"
  have "(36 :: nat) ^ length s \<le> 36 ^ 12" using s by (intro power_increasing) auto
  with room have "?n < 36 ^ 12" by linarith
  then have "wrap64 (int (seg_val s) + 1) = int ?n" by (subst wrap64_id) simp_all
  then have fmt: "to_upper (format_int36 (wrap64 (int (seg_val s) + 1))) = ?u"
    by (simp add: format_int36_def nat_add_distrib)
  have len: "length ?u \<le> length s"
    using length_format_nat36 [OF room] s by (simp add: to_upper_def is_segment_def)
  have u: "\<forall>c \<in> set ?u. is_b36 c" "seg_val ?u = ?n"
    using to_upper_format_nat36 by blast+
  have "is_b36 (CHR ''0'')" by (simp add: is_b36_def)
  moreover have "next_segment s (int (seg_val s)) =
      replicate (length s - length ?u) (CHR ''0'') @ ?u"
    using len by (simp add: next_segment_def fmt Let_def)
  ultimately show ?thesis
    using s len u by (auto simp: is_segment_def seg_val_zeros)
qed

lemma next_sibling_snoc:
  assumes "wf_segments (pre @ [s])"
  shows "CalculateNextSiblingPathKey (pathkey_of (pre @ [s])) =
    pathkey_of (pre @ [next_segment s (int (seg_val s))])"
proof -
  have "is_segment s" "length s \<le> 12" using assms by (auto simp: wf_segments_def)
  then have "parse_int36 s = Some (int (seg_val s))" by (rule parse_int36_segment)
  then show ?thesis
    using go_split_pathkey [OF assms] pathkey_not_empty [OF assms]
    by (simp add: CalculateNextSiblingPathKey_def pathkey_of_def list_update_append)
qed

text \<open>An element of the range lies below the parent and starts with the same segment.\<close>

lemma in_sibling_range:
  assumes s: "is_segment s" and s': "is_segment s'" "length s' = length s"
      "seg_val s' = seg_val s + 1"
    and x: "is_segment x" "length x = length s"
    and lo: "p @ s \<le> p @ x @ r" and hi: "p @ x @ r < p @ s'"
  shows "x = s"
proof -
  have b36s: "\<forall>c \<in> set s. is_b36 c" "\<forall>c \<in> set x. is_b36 c" "\<forall>c \<in> set s'. is_b36 c"
    using s s' x by (auto simp: is_segment_def)
  have "\<not> x < s"
  proof
    assume "x < s"
    then have "x @ r < s @ []" using x by (intro less_append_same_length) auto
    with lo show False by simp
  qed
  moreover have "\<not> s' < x \<and> s' \<noteq> x"
  proof (rule ccontr)
    assume "\<not> (\<not> s' < x \<and> s' \<noteq> x)"
    then have "s' @ [] \<le> x @ r"
      using less_append_same_length [of s' x "[]" r] s' x by (auto simp: less_imp_le)
    with hi show False by simp
  qed
  ultimately have "seg_val s \<le> seg_val x" and "seg_val x < seg_val s'"
    using seg_less_iff [of x s] seg_less_iff [of x s'] b36s s' x by auto
  with s' have "seg_val x = seg_val s" by simp
  with b36s x show ?thesis by (intro seg_val_inj) auto
qed

lemma sibling_keys:
  assumes "wf_segments (pre @ [s])"
  shows "pathkey_of (pre @ [s]) = parent_prefix pre @ s"
    and "CalculateNextSiblingPathKey (parent_prefix pre @ s) =
      parent_prefix pre @ next_segment s (int (seg_val s))"
  using next_sibling_snoc [OF assms] by (simp_all add: pathkey_snoc)

lemma less_next_segment:
  assumes "is_segment s" "length s \<le> 12" "seg_val s + 1 < 36 ^ length s"
  shows "s < next_segment s (int (seg_val s))"
  using next_segment_spec [OF assms] assms seg_less_iff
  by (auto simp: is_segment_def)

lemma subtree_in_range:
  assumes wf: "wf_segments (pre @ [s])" and room: "seg_val s + 1 < 36 ^ length s"
    and below: "prefix (pre @ [s]) ts"
  shows "pathkey_of (pre @ [s]) \<le> pathkey_of ts \<and>
    pathkey_of ts < CalculateNextSiblingPathKey (pathkey_of (pre @ [s]))"
proof -
  have s: "is_segment s" "length s \<le> 12" using wf by (auto simp: wf_segments_def)
  note s' = next_segment_spec [OF s room] and less = less_next_segment [OF s room]
  obtain rest where rest: "ts = pre @ s # rest" using below by (auto simp: prefix_def)
  show ?thesis
    using less_append_same_length [OF _ less, of _ "[]"] s' less
    by (cases "rest = []")
      (simp_all add: rest sibling_keys [OF wf] pathkey_snoc_append)
qed

lemma in_range_below:
  assumes wf: "wf_segments (pre @ [s])" and room: "seg_val s + 1 < 36 ^ length s"
    and ts: "wf_segments ts"
    and width: "length pre < length ts \<longrightarrow> length (ts ! length pre) = length s"
    and range: "pathkey_of (pre @ [s]) \<le> pathkey_of ts"
      "pathkey_of ts < CalculateNextSiblingPathKey (pathkey_of (pre @ [s]))"
  shows "prefix (pre @ [s]) ts"
proof -
  let ?s' = "next_segment s (int (seg_val s))"
  have s: "is_segment s" "length s \<le> 12" using wf by (auto simp: wf_segments_def)
  note s' = next_segment_spec [OF s room]
  have range': "parent_prefix pre @ s \<le> pathkey_of ts" "pathkey_of ts < parent_prefix pre @ ?s'"
    using range by (simp_all add: sibling_keys [OF wf])
  then obtain c where c: "pathkey_of ts = parent_prefix pre @ c"
    using between_common_prefix by metis
  have "ts = pre @ go_split (CHR ''/'') c"
    using go_split_parent_prefix [of pre c] go_split_pathkey [OF ts] wf
    by (auto simp: c wf_segments_def dest: is_segment_no_slash)
  then obtain x xs where x: "ts = pre @ x # xs" "go_split (CHR ''/'') c = x # xs"
    by (metis go_split_not_Nil neq_Nil_conv)
  obtain r where r: "c = x @ r" using go_split_hd [of c "CHR ''/''"] x by auto
  have "parent_prefix pre @ s \<le> parent_prefix pre @ x @ r"
      "parent_prefix pre @ x @ r < parent_prefix pre @ ?s'"
    using range' by (simp_all only: c r)
  then have "x = s"
    using s s' x ts width
    by (intro in_sibling_range [of s ?s' x "parent_prefix pre" r])
      (auto simp: wf_segments_def)
  with x show ?thesis by simp
qed

text \<open>
  C7. For a well-formed pathKey whose last segment can be incremented within its width,
  the half-open byte range from the key to \<open>CalculateNextSiblingPathKey\<close> of it, the range
  the MongoDB and ClickHouse filters ask for, contains a well-formed key with the same
  segment width at that depth exactly when that key is the organization itself or one of
  its descendants.
\<close>

theorem sibling_range_selects_subtree:
  assumes wf: "wf_segments (pre @ [s])" and room: "seg_val s + 1 < 36 ^ length s"
    and ts: "wf_segments ts"
    and width: "length pre < length ts \<longrightarrow> length (ts ! length pre) = length s"
  shows "pathkey_of (pre @ [s]) \<le> pathkey_of ts \<and>
      pathkey_of ts < CalculateNextSiblingPathKey (pathkey_of (pre @ [s])) \<longleftrightarrow>
    prefix (pre @ [s]) ts"
  using subtree_in_range [OF wf room] in_range_below [OF wf room ts width] by blast

theorem sibling_range_selects_subtree_witness:
  "pathkey_of [''000001'', ''0001''] \<le> pathkey_of [''000001'', ''0001'', ''00Z''] \<and>
   pathkey_of [''000001'', ''0001'', ''00Z''] <
     CalculateNextSiblingPathKey (pathkey_of [''000001'', ''0001'']) \<longleftrightarrow>
   prefix [''000001'', ''0001''] [''000001'', ''0001'', ''00Z'']"
  using sibling_range_selects_subtree [of "[''000001'']" "''0001''" "[''000001'', ''0001'', ''00Z'']"]
  by (simp add: wf_segments_def is_segment_def is_b36_def b36_def)

section \<open>A segment at the end of its width\<close>

lemma upper_digit_zero: "upper_char (digit_char 0) = CHR ''0''"
  by code_simp

lemma upper_digit_one: "upper_char (digit_char 1) = CHR ''1''"
  by code_simp

lemma format_nat36_power: "to_upper (format_nat36 (36 ^ w)) = CHR ''1'' # replicate w (CHR ''0'')"
proof (induction w)
  case (Suc w)
  have "format_nat36 (36 ^ Suc w) = format_nat36 (36 ^ w) @ [digit_char 0]"
    by (subst format_nat36.simps) simp
  with Suc show ?case
    by (simp add: to_upper_def upper_digit_zero replicate_append_same)
qed (simp add: format_nat36.simps to_upper_def upper_digit_one [simplified])

lemma full_segment_hd:
  assumes "is_segment (c # cs)" and "seg_val (c # cs) + 1 = 36 ^ length (c # cs)"
  shows "b36 c = 35"
proof -
  have c: "b36 c < 36" and cs: "seg_val cs < 36 ^ length cs"
    using assms seg_val_less by (auto simp: is_segment_def b36_less)
  show ?thesis
  proof (rule ccontr)
    assume "b36 c \<noteq> 35"
    with c have "b36 c + 1 \<le> 35" by simp
    then have "(b36 c + 1) * 36 ^ length cs \<le> 35 * 36 ^ length cs" by (rule mult_le_mono1)
    then have "b36 c * 36 ^ length cs + 36 ^ length cs \<le> 35 * 36 ^ length cs"
      by (simp only: add_mult_distrib mult_1)
    with assms(2) cs show False by simp
  qed
qed

text \<open>
  When the last segment is already the largest number of its width (all \<open>Z\<close>), the
  incremented segment is one digit longer and the computed upper bound sorts before the
  key itself: the range the filters build from it contains no key at all.
\<close>

theorem sibling_range_empty_when_full:
  assumes wf: "wf_segments (pre @ [s])" and full: "seg_val s + 1 = 36 ^ length s"
  shows "CalculateNextSiblingPathKey (pathkey_of (pre @ [s])) < pathkey_of (pre @ [s]) \<and>
    \<not> (\<exists>d. pathkey_of (pre @ [s]) \<le> d \<and>
        d < CalculateNextSiblingPathKey (pathkey_of (pre @ [s])))"
proof -
  have s: "is_segment s" "length s \<le> 12" using wf by (auto simp: wf_segments_def)
  then obtain c cs where c: "s = c # cs" by (cases s) (auto simp: is_segment_def)
  have "(36 :: nat) ^ length s \<le> 36 ^ 12" using s by (intro power_increasing) auto
  with full have "seg_val s + 1 \<le> 36 ^ 12" by simp
  then have "wrap64 (int (seg_val s) + 1) = int (seg_val s + 1)" by (subst wrap64_id) simp_all
  then have "format_int36 (wrap64 (int (seg_val s) + 1)) = format_nat36 (36 ^ length s)"
    using full by (simp add: format_int36_def nat_add_distrib)
  then have "next_segment s (int (seg_val s)) = CHR ''1'' # replicate (length s) (CHR ''0'')"
    by (simp add: next_segment_def format_nat36_power)
  moreover have "CHR ''1'' < c"
    using full_segment_hd [of c cs] s full b36_less_iff [of "CHR ''1''" c]
    by (simp add: c is_segment_def is_b36_def b36_def)
  ultimately have "next_segment s (int (seg_val s)) < s" by (simp add: c)
  then have "CalculateNextSiblingPathKey (pathkey_of (pre @ [s])) < pathkey_of (pre @ [s])"
    by (simp add: sibling_keys [OF wf])
  then show ?thesis by (meson less_asym' order.strict_trans1 order_le_less)
qed

theorem sibling_range_empty_when_full_witness:
  "CalculateNextSiblingPathKey (pathkey_of [''000001'', ''ZZZ'']) < pathkey_of [''000001'', ''ZZZ'']"
  using sibling_range_empty_when_full [of "[''000001'']" "''ZZZ''"]
  by (simp add: wf_segments_def is_segment_def is_b36_def b36_def)

section \<open>Ancestors and descendants\<close>

text \<open>
  Between well-formed keys that give the parent's depth the same segment width,
  \<open>IsDescendant\<close> decides the strict prefix order of the segment lists: the child lies
  strictly below the parent in the organization tree.
\<close>

theorem IsDescendant_iff_below:
  assumes wf: "wf_segments (pre @ [s])" and ts: "wf_segments ts"
    and width: "length pre < length ts \<longrightarrow> length (ts ! length pre) = length s"
  shows "IsDescendant (pathkey_of ts) (pathkey_of (pre @ [s])) \<longleftrightarrow>
    strict_prefix (pre @ [s]) ts"
proof
  assume below: "strict_prefix (pre @ [s]) ts"
  then obtain rest where "ts = pre @ s # rest" "rest \<noteq> []"
    by (auto simp: strict_prefix_def prefix_def)
  then show "IsDescendant (pathkey_of ts) (pathkey_of (pre @ [s]))"
    by (simp add: IsDescendant_def has_prefix_iff pathkey_snoc pathkey_snoc_append)
next
  assume desc: "IsDescendant (pathkey_of ts) (pathkey_of (pre @ [s]))"
  then obtain r where r: "pathkey_of ts = parent_prefix pre @ s @ r"
    using pathkey_not_empty [OF wf]
    by (auto simp: IsDescendant_def has_prefix_iff prefix_def pathkey_snoc split: if_splits)
  have "ts = pre @ go_split (CHR ''/'') (s @ r)"
    using go_split_parent_prefix [of pre "s @ r"] go_split_pathkey [OF ts] wf
    by (auto simp: r wf_segments_def dest: is_segment_no_slash)
  then obtain x xs where x: "ts = pre @ x # xs" "go_split (CHR ''/'') (s @ r) = x # xs"
    by (metis go_split_not_Nil neq_Nil_conv)
  moreover obtain q where "s @ r = x @ q" using go_split_hd [of "s @ r" "CHR ''/''"] x by auto
  ultimately have "x = s" using width by (auto simp: append_eq_append_conv)
  moreover have "ts \<noteq> pre @ [s]" using desc pathkey_not_empty [OF wf]
    by (auto simp: IsDescendant_def split: if_splits)
  ultimately show "strict_prefix (pre @ [s]) ts"
    using x by (auto simp: strict_prefix_def)
qed

theorem IsDescendant_iff_below_witness:
  "IsDescendant (pathkey_of [''000001'', ''0001'', ''00A'']) (pathkey_of [''000001'', ''0001'']) \<longleftrightarrow>
    strict_prefix [''000001'', ''0001''] [''000001'', ''0001'', ''00A'']"
  using IsDescendant_iff_below [of "[''000001'']" "''0001''" "[''000001'', ''0001'', ''00A'']"]
  by (simp add: wf_segments_def is_segment_def is_b36_def)

text \<open>The ancestors of a key, from the root down.\<close>

lemma GetAncestorPaths_map:
  "wf_segments ss \<Longrightarrow>
    GetAncestorPaths (pathkey_of ss) = map (\<lambda>i. pathkey_of (take i ss)) [1..<length ss]"
  using go_split_pathkey [of ss] pathkey_not_empty [of ss]
  by (auto simp: GetAncestorPaths_def Let_def pathkey_of_def)

lemma pathkey_take_extends:
  assumes "0 < i" "i < j" "j \<le> length ss"
  shows "\<exists>r. pathkey_of (take j ss) = pathkey_of (take i ss) @ ''/'' @ r"
proof -
  have "take j ss = take i ss @ drop i (take j ss)"
    using assms by (metis append_take_drop_id less_imp_le min.absorb1 take_take)
  moreover have "take i ss \<noteq> []" "drop i (take j ss) \<noteq> []" using assms by auto
  ultimately show ?thesis unfolding pathkey_of_def by (metis go_join_append)
qed

lemma pathkey_take_length:
  "0 < i \<Longrightarrow> i < j \<Longrightarrow> j \<le> length ss \<Longrightarrow>
     length (pathkey_of (take i ss)) < length (pathkey_of (take j ss))"
  by (drule (2) pathkey_take_extends) auto

lemma strict_prefixes_take:
  "{pathkey_of ps | ps. ps \<noteq> [] \<and> strict_prefix ps ss} =
    (\<lambda>i. pathkey_of (take i ss)) ` {1..<length ss}"
proof -
  have iff: "ps \<noteq> [] \<and> strict_prefix ps ss \<longleftrightarrow> (\<exists>i \<in> {1..<length ss}. ps = take i ss)" for ps
  proof
    assume ps: "ps \<noteq> [] \<and> strict_prefix ps ss"
    then have "ps = take (length ps) ss" and len: "length ps < length ss"
      by (auto simp: strict_prefix_def prefix_def)
    moreover from ps len have "length ps \<in> {1..<length ss}" by (simp add: Suc_le_eq)
    ultimately show "\<exists>i \<in> {1..<length ss}. ps = take i ss"
      by (intro bexI [of _ "length ps"])
  qed (auto simp: strict_prefix_def take_is_prefix)
  show ?thesis by (simp only: iff) auto
qed

text \<open>
  \<open>GetAncestorPaths\<close> of a well-formed key returns exactly the keys of the proper
  non-empty prefixes of its segments, the shortest first and without duplicates, and the
  key is a descendant of each of them.
\<close>

theorem GetAncestorPaths_correct:
  assumes wf: "wf_segments ss"
  shows "set (GetAncestorPaths (pathkey_of ss)) =
      {pathkey_of ps | ps. ps \<noteq> [] \<and> strict_prefix ps ss} \<and>
    distinct (GetAncestorPaths (pathkey_of ss)) \<and>
    sorted (map length (GetAncestorPaths (pathkey_of ss))) \<and>
    list_all (IsDescendant (pathkey_of ss)) (GetAncestorPaths (pathkey_of ss))"
proof -
  let ?as = "map (\<lambda>i. pathkey_of (take i ss)) [1..<length ss]"
  have as: "GetAncestorPaths (pathkey_of ss) = ?as" by (rule GetAncestorPaths_map [OF wf])
  have "sorted_wrt (<) (map length ?as)"
    by (auto simp: sorted_wrt_map sorted_wrt_iff_nth_less intro!: pathkey_take_length)
  then have "sorted (map length ?as)" "distinct (map length ?as)"
    by (simp_all only: strict_sorted_iff)
  moreover from this have "distinct ?as" by (metis distinct_map)
  moreover have "list_all (IsDescendant (pathkey_of ss)) ?as"
  proof -
    have "IsDescendant (pathkey_of ss) (pathkey_of (take i ss))" if "1 \<le> i" "i < length ss" for i
      using pathkey_take_extends [of i "length ss" ss] that
      by (auto simp: IsDescendant_def has_prefix_def)
    then show ?thesis by (simp add: list_all_iff)
  qed
  moreover have "set ?as = {pathkey_of ps | ps. ps \<noteq> [] \<and> strict_prefix ps ss}"
    by (simp only: strict_prefixes_take set_map set_upt)
  ultimately show ?thesis by (simp only: as simp_thms)
qed

theorem GetAncestorPaths_correct_witness:
  "wf_segments [''000001'', ''0001'', ''00A''] \<and>
   GetAncestorPaths (pathkey_of [''000001'', ''0001'', ''00A'']) = [''000001'', ''000001/0001''] \<and>
   distinct (GetAncestorPaths (pathkey_of [''000001'', ''0001'', ''00A'']))"
proof (intro conjI)
  show wf: "wf_segments [''000001'', ''0001'', ''00A'']"
    by (simp add: wf_segments_def is_segment_def is_b36_def)
  show "GetAncestorPaths (pathkey_of [''000001'', ''0001'', ''00A'']) = [''000001'', ''000001/0001'']"
    by code_simp
  show "distinct (GetAncestorPaths (pathkey_of [''000001'', ''0001'', ''00A'']))"
    using GetAncestorPaths_correct [OF wf] by (elim conjE)
qed

end
