(* ===== verification/Org_Filter.thy ===== *)
theory Org_Filter
  imports Path_Key "HOL-Library.AList"
begin

text \<open>
  Packages \<open>utils/orgfilter\<close> and \<open>microservices/common/context\<close>: the request context the
  coverage middleware injects, and the database filters every list endpoint builds from it.
  A MongoDB or ClickHouse document (\<open>map[string]interface{}\<close>) is an association list, in the
  order the source writes its keys. \<open>bson.ObjectIDFromHex\<close>, which lives in the MongoDB
  driver, is the parameter \<open>from_hex\<close>.
\<close>

section \<open>request_context.go\<close>

record CoverageOrg =
  co_ID :: string
  co_Name :: string
  co_Type :: string
  co_PathKey :: string

record RequestContext =
  ScopedOrgIds :: "string list"
  CoverageOrgs :: "CoverageOrg list"
  OrgContext :: "string option"
  OrgContextData :: "CoverageOrg option"
  UserId :: string

section \<open>Filters\<close>

datatype 'oid filter_val =
    FBool bool
  | FStr string
  | FOid 'oid
  | FList "'oid filter_val list"
  | FDoc "(string \<times> 'oid filter_val) list"

type_synonym 'oid filter = "(string \<times> 'oid filter_val) list"

datatype org_error =
    ErrPathKeyMissing
  | ErrInvalidOrgContextID
  | ErrNoValidOrgIDs
  | ErrOrgContextRequired
  | ErrOrgPathKeyRequired
  | ErrOrgContextForTemplates
  | ErrNoVendorOrCustomer
  | ErrInvalidOrgType
  | ErrTemplateCreation

definition NextSiblingPathKey :: "string \<Rightarrow> string" where
  "NextSiblingPathKey pathKeyValue =
     (if pathKeyValue = [] then [] else CalculateNextSiblingPathKey pathKeyValue)"

definition pathKey_range :: "string \<Rightarrow> 'oid filter" where
  "pathKey_range pk =
     [(''pathKey'', FDoc [(''$gte'', FStr pk), (''$lt'', FStr (NextSiblingPathKey pk))])]"

text \<open>The query argument is nil or answers \<open>GetIncludeChildren\<close>.\<close>

definition includeChildren :: "bool option \<Rightarrow> bool" where
  "includeChildren query = (case query of None \<Rightarrow> False | Some b \<Rightarrow> b)"

text \<open>The loop over \<open>ScopedOrgIds\<close>: ids that do not parse are skipped.\<close>

fun valid_oids :: "(string \<Rightarrow> 'oid option) \<Rightarrow> string list \<Rightarrow> 'oid list" where
  "valid_oids from_hex [] = []"
| "valid_oids from_hex (orgId # rest) =
     (case from_hex orgId of
        None \<Rightarrow> valid_oids from_hex rest
      | Some oid \<Rightarrow> oid # valid_oids from_hex rest)"

definition BuildOrgFilter ::
  "(string \<Rightarrow> 'oid option) \<Rightarrow> RequestContext \<Rightarrow> bool option \<Rightarrow> org_error + 'oid filter" where
  "BuildOrgFilter from_hex reqCtx query =
     (if OrgContext reqCtx \<noteq> None \<and> includeChildren query then
        (case OrgContextData reqCtx of
           None \<Rightarrow> Inl ErrPathKeyMissing
         | Some org \<Rightarrow>
             if co_PathKey org = [] then Inl ErrPathKeyMissing
             else Inr (pathKey_range (co_PathKey org)))
      else
        case OrgContext reqCtx of
          Some oc \<Rightarrow>
            (case from_hex oc of
               None \<Rightarrow> Inl ErrInvalidOrgContextID
             | Some oid \<Rightarrow> Inr [(''orgId'', FOid oid)])
        | None \<Rightarrow>
            if ScopedOrgIds reqCtx \<noteq> [] then
              let oids = valid_oids from_hex (ScopedOrgIds reqCtx) in
              if oids = [] then Inl ErrNoValidOrgIDs
              else Inr [(''orgId'', FDoc [(''$in'', FList (map FOid oids))])]
            else Inr [])"

definition ValidateOrgContext :: "string \<Rightarrow> string list \<Rightarrow> bool" where
  "ValidateOrgContext orgContext scopedOrgIds =
     (if orgContext = [] then True else list_ex (\<lambda>orgId. orgId = orgContext) scopedOrgIds)"

definition FindOrgInCoverage :: "string \<Rightarrow> CoverageOrg list \<Rightarrow> CoverageOrg option" where
  "FindOrgInCoverage orgId coverageOrgs = List.find (\<lambda>org. co_ID org = orgId) coverageOrgs"

definition BuildOrgFilterClickHouse ::
  "RequestContext \<Rightarrow> bool option \<Rightarrow> org_error + 'oid filter" where
  "BuildOrgFilterClickHouse reqCtx query =
     (if OrgContext reqCtx \<noteq> None \<and> includeChildren query then
        (case OrgContextData reqCtx of
           None \<Rightarrow> Inl ErrPathKeyMissing
         | Some org \<Rightarrow>
             if co_PathKey org = [] then Inl ErrPathKeyMissing
             else Inr (pathKey_range (co_PathKey org)))
      else
        case OrgContext reqCtx of
          Some oc \<Rightarrow> Inr [(''orgId'', FStr oc)]
        | None \<Rightarrow>
            if ScopedOrgIds reqCtx \<noteq> []
            then Inr [(''orgId'', FDoc [(''$in'', FList (map FStr (ScopedOrgIds reqCtx)))])]
            else Inr [])"

text \<open>A projection maps each field to 1; assigning the same field twice keeps one entry.\<close>

fun add_projection :: "string list \<Rightarrow> (string \<times> int) list \<Rightarrow> (string \<times> int) list" where
  "add_projection [] projection = projection"
| "add_projection (f # fs) projection =
     (let field = trim_space f in
      add_projection fs (if field \<noteq> [] then AList.update field 1 projection else projection))"

definition BuildProjection :: "string option \<Rightarrow> (string \<times> int) list option" where
  "BuildProjection projectionStr =
     (case projectionStr of
        None \<Rightarrow> None
      | Some str \<Rightarrow>
          if str = [] then None
          else
            let projection = add_projection (go_split (CHR '','') str) [] in
            if projection = [] then None else Some projection)"

definition ValidateOrgContextForNonSystem :: "RequestContext \<Rightarrow> org_error option" where
  "ValidateOrgContextForNonSystem reqContext =
     (if OrgContext reqContext = None \<or> OrgContext reqContext = Some []
      then Some ErrOrgContextRequired
      else
        case OrgContextData reqContext of
          None \<Rightarrow> Some ErrOrgPathKeyRequired
        | Some org \<Rightarrow> if co_PathKey org = [] then Some ErrOrgPathKeyRequired else None)"

text \<open>The loop of \<open>GetAncestorPathKeysIncludingSelf\<close> grows \<open>current\<close> part by part.\<close>

fun grow_ancestors :: "string \<Rightarrow> bool \<Rightarrow> string list \<Rightarrow> string list" where
  "grow_ancestors current first [] = []"
| "grow_ancestors current first (part # parts) =
     (let current = (if first then current else current @ ''/'') @ part
      in current # grow_ancestors current False parts)"

definition GetAncestorPathKeysIncludingSelf :: "string \<Rightarrow> string list" where
  "GetAncestorPathKeysIncludingSelf pathKey =
     (if pathKey = [] then []
      else
        let trimmed = trim_suffix pathKey ''/'' in
        if trimmed = [] then []
        else grow_ancestors [] True (go_split (CHR ''/'') trimmed))"

section \<open>org_type.go\<close>

datatype OrgType = OrgTypeVendor | OrgTypeCustomer | OrgTypeSite | OrgTypeOther | OrgTypeUnknown

definition GetOrgTypeFromPathKey :: "string \<Rightarrow> OrgType" where
  "GetOrgTypeFromPathKey pathKey =
     (let trimmed = trim_suffix pathKey ''/'' in
      if trimmed = [] then OrgTypeUnknown
      else
        let depth = length (go_split (CHR ''/'') trimmed) in
        if depth = 1 then OrgTypeVendor
        else if depth = 2 then OrgTypeCustomer
        else if depth = 3 then OrgTypeSite
        else if depth > 3 then OrgTypeOther
        else OrgTypeUnknown)"

definition CanCreateTemplate :: "OrgType \<Rightarrow> bool" where
  "CanCreateTemplate orgType = (orgType = OrgTypeVendor \<or> orgType = OrgTypeCustomer)"

definition ValidateTemplateCreation :: "string \<Rightarrow> org_error option" where
  "ValidateTemplateCreation pathKey =
     (if \<not> CanCreateTemplate (GetOrgTypeFromPathKey pathKey) then Some ErrTemplateCreation
      else None)"

text \<open>The keys of the vendor and of the customer a key lies under.\<close>

definition vendorCustomerPathKeys :: "string list \<Rightarrow> string list" where
  "vendorCustomerPathKeys pks =
     filter (\<lambda>pk. GetOrgTypeFromPathKey pk = OrgTypeVendor \<or>
                  GetOrgTypeFromPathKey pk = OrgTypeCustomer) pks"

definition BuildTemplateAncestorFilter :: "RequestContext \<Rightarrow> org_error + 'oid filter" where
  "BuildTemplateAncestorFilter reqContext =
     (case OrgContextData reqContext of
        None \<Rightarrow> Inl ErrOrgContextForTemplates
      | Some org \<Rightarrow>
          let pathKey = co_PathKey org in
          if pathKey = [] then Inl ErrOrgContextForTemplates
          else
            case GetOrgTypeFromPathKey pathKey of
              OrgTypeVendor \<Rightarrow> Inr [(''isTemplate'', FBool True), (''pathKey'', FStr pathKey)]
            | OrgTypeCustomer \<Rightarrow>
                Inr [(''isTemplate'', FBool True),
                     (''pathKey'', FDoc [(''$in'',
                        FList (map FStr (GetAncestorPathKeysIncludingSelf pathKey)))])]
            | OrgTypeUnknown \<Rightarrow> Inl ErrInvalidOrgType
            | _ \<Rightarrow>
                (let keys = vendorCustomerPathKeys (GetAncestorPathKeysIncludingSelf pathKey) in
                 if keys = [] then Inl ErrNoVendorOrCustomer
                 else Inr [(''isTemplate'', FBool True),
                           (''pathKey'', FDoc [(''$in'', FList (map FStr keys))])]))"

section \<open>Scoping\<close>

lemma valid_oids_total:
  "(\<forall>i \<in> set ids. from_hex i \<noteq> None) \<Longrightarrow>
     valid_oids from_hex ids = map (\<lambda>i. the (from_hex i)) ids"
  by (induction ids) auto

lemma pathKey_range_not_Nil [simp]: "pathKey_range pk \<noteq> []"
  by (simp add: pathKey_range_def)

text \<open>
  \<open>BuildOrgFilter\<close> returns the filter that matches every document only for a request
  context without an organization and without scoped organizations: the context the
  coverage middleware builds for ROOT users. In particular an unparsable id never widens
  the filter.
\<close>

theorem BuildOrgFilter_unrestricted_iff:
  "BuildOrgFilter from_hex reqCtx query = Inr [] \<longleftrightarrow>
     OrgContext reqCtx = None \<and> ScopedOrgIds reqCtx = []"
  by (auto simp: BuildOrgFilter_def Let_def split: option.splits if_splits)

text \<open>Reading a ClickHouse filter as a MongoDB filter: organization ids become object ids.\<close>

fun oid_val :: "(string \<Rightarrow> 'oid option) \<Rightarrow> 'oid filter_val \<Rightarrow> 'oid filter_val" where
  "oid_val from_hex (FStr s) = FOid (the (from_hex s))"
| "oid_val from_hex (FList vs) = FList (map (oid_val from_hex) vs)"
| "oid_val from_hex (FDoc kvs) = FDoc (map (\<lambda>(k, v). (k, oid_val from_hex v)) kvs)"
| "oid_val from_hex v = v"

definition oid_filter :: "(string \<Rightarrow> 'oid option) \<Rightarrow> 'oid filter \<Rightarrow> 'oid filter" where
  "oid_filter from_hex f =
     map (\<lambda>(k, v). (k, if k = ''orgId'' then oid_val from_hex v else v)) f"

text \<open>
  C20. The MongoDB and the ClickHouse builders scope a request alike: when every
  organization id of the context parses, \<open>BuildOrgFilter\<close> fails exactly where
  \<open>BuildOrgFilterClickHouse\<close> fails and returns its filter with the organization ids
  converted to object ids.
\<close>

theorem BuildOrgFilter_refines_ClickHouse:
  assumes "\<forall>i \<in> set (ScopedOrgIds reqCtx) \<union> set_option (OrgContext reqCtx).
    from_hex i \<noteq> None"
  shows "BuildOrgFilter from_hex reqCtx query =
    map_sum id (oid_filter from_hex) (BuildOrgFilterClickHouse reqCtx query)"
proof -
  have ids: "valid_oids from_hex (ScopedOrgIds reqCtx) =
      map (\<lambda>i. the (from_hex i)) (ScopedOrgIds reqCtx)"
    using assms by (intro valid_oids_total) auto
  show ?thesis
    using assms
    by (cases "OrgContext reqCtx"; cases "OrgContextData reqCtx")
      (auto simp: BuildOrgFilter_def BuildOrgFilterClickHouse_def oid_filter_def ids
        pathKey_range_def Let_def split: option.splits)
qed

theorem BuildOrgFilter_refines_ClickHouse_witness:
  "BuildOrgFilter (\<lambda>s. Some (length s))
     \<lparr>ScopedOrgIds = [''a'', ''bc''], CoverageOrgs = [], OrgContext = None,
      OrgContextData = None, UserId = ''u''\<rparr> None =
   Inr [(''orgId'', FDoc [(''$in'', FList [FOid 1, FOid 2])])]"
  by (subst BuildOrgFilter_refines_ClickHouse)
    (simp_all add: BuildOrgFilterClickHouse_def oid_filter_def includeChildren_def)

section \<open>Templates\<close>

lemma trim_suffix_pathkey:
  assumes "wf_segments ss"
  shows "trim_suffix (pathkey_of ss) ''/'' = pathkey_of ss"
proof -
  obtain pre s where ss: "ss = pre @ [s]"
    using assms by (metis append_butlast_last_id wf_segments_def)
  with assms have "is_segment s" by (simp add: wf_segments_def)
  then have s: "s \<noteq> []" "CHR ''/'' \<notin> set s"
    by (auto simp: is_segment_def dest: is_b36_not_slash)
  then have "last (pathkey_of ss) \<noteq> CHR ''/''"
    by (metis last_appendR last_in_set pathkey_snoc ss)
  then show ?thesis
    by (auto simp: trim_suffix_def has_suffix_iff suffix_def)
qed

lemma grow_ancestors_False:
  "pre \<noteq> [] \<Longrightarrow> grow_ancestors (pathkey_of pre) False parts =
     map (\<lambda>i. pathkey_of (pre @ take (Suc i) parts)) [0..<length parts]"
proof (induction parts arbitrary: pre)
  case (Cons p parts)
  have "pathkey_of pre @ ''/'' @ p = pathkey_of (pre @ [p])"
    using Cons.prems by (simp add: pathkey_of_def go_join_append)
  then show ?case
    using Cons.IH [of "pre @ [p]"] by (simp add: map_upt_Suc del: upt_Suc)
qed simp

lemma GetAncestorPathKeysIncludingSelf_map:
  assumes "wf_segments ss"
  shows "GetAncestorPathKeysIncludingSelf (pathkey_of ss) =
    map (\<lambda>i. pathkey_of (take i ss)) [1..<Suc (length ss)]"
proof -
  obtain s rest where ss: "ss = s # rest" using assms by (cases ss) (auto simp: wf_segments_def)
  have "grow_ancestors [] True ss = map (\<lambda>i. pathkey_of (take (Suc i) ss)) [0..<length ss]"
    using grow_ancestors_False [of "[s]" rest]
    by (simp add: ss map_upt_Suc pathkey_of_def del: upt_Suc)
  also have "\<dots> = map (\<lambda>i. pathkey_of (take i ss)) [1..<Suc (length ss)]"
    by (simp add: map_Suc_upt [symmetric] comp_def del: map_Suc_upt upt_Suc)
  finally show ?thesis
    using trim_suffix_pathkey [OF assms] go_split_pathkey [OF assms] pathkey_not_empty [OF assms]
    by (simp add: GetAncestorPathKeysIncludingSelf_def)
qed

lemma GetOrgType_pathkey:
  assumes "wf_segments ss"
  shows "GetOrgTypeFromPathKey (pathkey_of ss) =
    (if length ss = 1 then OrgTypeVendor
     else if length ss = 2 then OrgTypeCustomer
     else if length ss = 3 then OrgTypeSite else OrgTypeOther)"
proof -
  obtain n where "length ss = Suc n"
    using assms by (cases "length ss") (auto simp: wf_segments_def)
  then show ?thesis
    using trim_suffix_pathkey [OF assms] go_split_pathkey [OF assms] pathkey_not_empty [OF assms]
    by (simp add: GetOrgTypeFromPathKey_def Let_def)
qed

text \<open>
  The two computations of ancestors agree: including the key itself,
  \<open>GetAncestorPathKeysIncludingSelf\<close> (package orgfilter, an accumulating loop) is
  \<open>GetAncestorPaths\<close> (package pathkey, joins of prefixes) followed by the key.
\<close>

theorem ancestors_including_self:
  assumes "wf_segments ss"
  shows "GetAncestorPathKeysIncludingSelf (pathkey_of ss) =
    GetAncestorPaths (pathkey_of ss) @ [pathkey_of ss]"
proof -
  have "Suc 0 \<le> length ss" using assms by (cases ss) (auto simp: wf_segments_def)
  then show ?thesis
    by (simp add: GetAncestorPathKeysIncludingSelf_map [OF assms] GetAncestorPaths_map [OF assms])
qed

theorem ancestors_including_self_witness:
  "wf_segments [''000001'', ''0001''] \<and>
   GetAncestorPathKeysIncludingSelf ''000001/0001'' = GetAncestorPaths ''000001/0001'' @ [''000001/0001'']"
proof
  show wf: "wf_segments [''000001'', ''0001'']"
    by (simp add: wf_segments_def is_segment_def is_b36_def)
  show "GetAncestorPathKeysIncludingSelf ''000001/0001'' =
      GetAncestorPaths ''000001/0001'' @ [''000001/0001'']"
    using ancestors_including_self [OF wf] by (simp add: pathkey_of_def)
qed

lemma vendorCustomer_of_ancestors:
  assumes wf: "wf_segments ss"
  shows "vendorCustomerPathKeys (GetAncestorPathKeysIncludingSelf (pathkey_of ss)) =
    map (\<lambda>i. pathkey_of (take i ss)) [1..<Suc (min 2 (length ss))]"
proof -
  have type: "GetOrgTypeFromPathKey (pathkey_of (take i ss)) =
      (if i = 1 then OrgTypeVendor else if i = 2 then OrgTypeCustomer
       else if i = 3 then OrgTypeSite else OrgTypeOther)" if "1 \<le> i" "i \<le> length ss" for i
  proof -
    have "wf_segments (take i ss)"
      using wf that by (cases ss; cases i) (auto simp: wf_segments_def dest: in_set_takeD)
    then show ?thesis using that by (simp add: GetOrgType_pathkey min_absorb2)
  qed
  let ?low = "\<lambda>i. GetOrgTypeFromPathKey (pathkey_of (take i ss)) = OrgTypeVendor \<or>
      GetOrgTypeFromPathKey (pathkey_of (take i ss)) = OrgTypeCustomer"
  have "filter ?low [1..<Suc (length ss)] = filter (\<lambda>i. i = 1 \<or> i = 2) [1..<Suc (length ss)]"
    by (rule filter_cong) (auto simp: type type [of "length ss", simplified] simp del: upt_Suc
        split: if_splits)
  also have "filter (\<lambda>i. i = 1 \<or> i = 2) [1..<Suc n] = [1..<Suc (min 2 n)]" for n :: nat
    by (induction n) (auto simp: min_def numeral_2_eq_2)
  finally show ?thesis
    by (simp add: vendorCustomerPathKeys_def GetAncestorPathKeysIncludingSelf_map [OF wf]
        filter_map comp_def del: upt_Suc)
qed

text \<open>
  A template query sees the organization's vendor and customer and nothing below: for
  a well-formed pathKey \<open>BuildTemplateAncestorFilter\<close> always succeeds and asks for the keys
  of the first two levels of the path (the vendor's own key for a vendor), all of which
  \<open>ValidateTemplateCreation\<close> accepts as template creators.
\<close>

theorem BuildTemplateAncestorFilter_correct:
  assumes data: "OrgContextData reqContext = Some org" and key: "co_PathKey org = pathkey_of ss"
    and wf: "wf_segments ss"
  defines "visible \<equiv> map (\<lambda>i. pathkey_of (take i ss)) [1..<Suc (min 2 (length ss))]"
  shows "BuildTemplateAncestorFilter reqContext =
      Inr [(''isTemplate'', FBool True),
           (''pathKey'', if length ss = 1 then FStr (pathkey_of ss)
                         else FDoc [(''$in'', FList (map FStr visible))])] \<and>
    list_all (\<lambda>pk. ValidateTemplateCreation pk = None) visible"
proof
  have "ss \<noteq> []" using wf by (simp add: wf_segments_def)
  then show "BuildTemplateAncestorFilter reqContext =
      Inr [(''isTemplate'', FBool True),
           (''pathKey'', if length ss = 1 then FStr (pathkey_of ss)
                         else FDoc [(''$in'', FList (map FStr visible))])]"
    using pathkey_not_empty [OF wf] vendorCustomer_of_ancestors [OF wf]
      GetAncestorPathKeysIncludingSelf_map [OF wf]
    by (auto simp: BuildTemplateAncestorFilter_def data key GetOrgType_pathkey [OF wf] visible_def
        Let_def min_def simp del: upt_Suc)
  have "set visible \<subseteq> set (vendorCustomerPathKeys (GetAncestorPathKeysIncludingSelf (pathkey_of ss)))"
    by (simp add: vendorCustomer_of_ancestors [OF wf] visible_def)
  then show "list_all (\<lambda>pk. ValidateTemplateCreation pk = None) visible"
    by (auto simp: list_all_iff vendorCustomerPathKeys_def ValidateTemplateCreation_def
        CanCreateTemplate_def)
qed

theorem BuildTemplateAncestorFilter_correct_witness:
  "BuildTemplateAncestorFilter
     \<lparr>ScopedOrgIds = [], CoverageOrgs = [], OrgContext = Some ''o'',
      OrgContextData = Some \<lparr>co_ID = ''o'', co_Name = ''n'', co_Type = ''site'',
        co_PathKey = ''000001/0001/0003''\<rparr>, UserId = ''u''\<rparr> =
   (Inr [(''isTemplate'', FBool True),
        (''pathKey'', FDoc [(''$in'', FList [FStr ''000001'', FStr ''000001/0001''])])] :: org_error + nat filter)"
proof -
  have "wf_segments [''000001'', ''0001'', ''0003'']"
    by (simp add: wf_segments_def is_segment_def is_b36_def)
  from BuildTemplateAncestorFilter_correct [where 'a = nat, OF _ _ this, of
     "\<lparr>ScopedOrgIds = [], CoverageOrgs = [], OrgContext = Some ''o'',
       OrgContextData = Some \<lparr>co_ID = ''o'', co_Name = ''n'', co_Type = ''site'',
        co_PathKey = ''000001/0001/0003''\<rparr>, UserId = ''u''\<rparr>"]
  show ?thesis by (simp add: pathkey_of_def numeral_2_eq_2)
qed

end
