(* ===== verification/Http_Core.thy ===== *)
theory Http_Core
  imports Org_Filter
begin

text \<open>
  Packages \<open>http/response\<close>, \<open>http/customErrors\<close>, \<open>http/auth\<close> and the authentication
  middlewares. A Fiber handler reads its request context and either answers (\<open>Reply\<close>) or
  calls \<open>c.Next()\<close> with the context it has changed (\<open>Next\<close>). The JWT and JWKS libraries
  are parameters: a parser that is given the key callback, and the key set download.
\<close>

section \<open>The request\<close>

datatype 'n local_val =
    LClaims "(string \<times> 'n gval) list"
  | LStr string
  | LReqCtx RequestContext

record 'n fiber_ctx =
  fc_header :: "string \<Rightarrow> string"
  fc_query :: "string \<Rightarrow> string"
  fc_locals :: "(string \<times> 'n local_val) list"

definition get_local :: "'n fiber_ctx \<Rightarrow> string \<Rightarrow> 'n local_val option" where
  "get_local c k = map_of (fc_locals c) k"

definition set_local :: "'n fiber_ctx \<Rightarrow> string \<Rightarrow> 'n local_val \<Rightarrow> 'n fiber_ctx" where
  "set_local c k v = c\<lparr>fc_locals := AList.update k v (fc_locals c)\<rparr>"

lemma get_set_local [simp]:
  "get_local (set_local c k v) k' = (if k = k' then Some v else get_local c k')"
  by (simp add: get_local_def set_local_def update_conv')

lemma header_set_local [simp]: "fc_header (set_local c k v) = fc_header c"
  by (simp add: set_local_def)

section \<open>response\<close>

record 'n Response =
  Status :: int
  Errors :: "string list option"
  Data :: "'n gval option"

datatype 'n outcome = Next "'n fiber_ctx" | Reply "'n Response"

definition Custom :: "int \<Rightarrow> string list \<Rightarrow> 'n Response" where
  "Custom code errors = \<lparr>Status = code, Errors = Some errors, Data = None\<rparr>"

definition BadRequest :: "string list \<Rightarrow> 'n Response" where
  "BadRequest allErrors = \<lparr>Status = 400, Errors = Some allErrors, Data = None\<rparr>"

definition Success :: "'n gval \<Rightarrow> 'n Response" where
  "Success data = \<lparr>Status = 200, Errors = None, Data = Some data\<rparr>"

definition Created :: "'n gval \<Rightarrow> 'n Response" where
  "Created data = \<lparr>Status = 201, Errors = None, Data = Some data\<rparr>"

definition Conflict :: "string list \<Rightarrow> 'n Response" where
  "Conflict allErrors = \<lparr>Status = 409, Errors = Some allErrors, Data = None\<rparr>"

definition default_message :: "string \<Rightarrow> string" where
  "default_message message =
     (if message = [] then ''Internal server error occurred'' else message)"

definition InternalServerError :: "string \<Rightarrow> 'n Response" where
  "InternalServerError message =
     \<lparr>Status = 500, Errors = Some [default_message message], Data = None\<rparr>"

definition TimeoutServerError :: "string \<Rightarrow> 'n Response" where
  "TimeoutServerError message =
     \<lparr>Status = 504, Errors = Some [default_message message], Data = None\<rparr>"

definition NotFound :: "string \<Rightarrow> 'n Response" where
  "NotFound errorMessage =
     \<lparr>Status = 404, Errors = Some [''Resource not found'', errorMessage], Data = None\<rparr>"

section \<open>customErrors\<close>

text \<open>Go error values: \<open>WrapErr\<close> is \<open>fmt.Errorf("...%w")\<close>, the rest are the concrete types
  the handler distinguishes.\<close>

datatype go_error =
    FiberError int string
  | ContextDeadlineExceeded
  | ContextCanceled
  | ValidationError "string list"
  | ServerCustomError int "string list"
  | PlainError string
  | WrapErr string go_error

fun err_text :: "go_error \<Rightarrow> string" where
  "err_text (FiberError code msg) = msg"
| "err_text ContextDeadlineExceeded = ''context deadline exceeded''"
| "err_text ContextCanceled = ''context canceled''"
| "err_text (ValidationError errs) = go_join ''; '' errs"
| "err_text (ServerCustomError code errs) = ''code='' @ itoa code @ '': '' @ go_join ''; '' errs"
| "err_text (PlainError msg) = msg"
| "err_text (WrapErr msg err) = msg @ err_text err"

text \<open>\<open>errors.Is\<close> and \<open>errors.As\<close> follow the chain of wrapped errors; the type assertion
  \<open>err.(*fiber.Error)\<close> does not.\<close>

fun is_context_error :: "go_error \<Rightarrow> bool" where
  "is_context_error (WrapErr msg err) = is_context_error err"
| "is_context_error err = (err = ContextDeadlineExceeded \<or> err = ContextCanceled)"

fun as_ValidationError :: "go_error \<Rightarrow> string list option" where
  "as_ValidationError (ValidationError errs) = Some errs"
| "as_ValidationError (WrapErr msg err) = as_ValidationError err"
| "as_ValidationError _ = None"

fun as_ServerCustomError :: "go_error \<Rightarrow> (int \<times> string list) option" where
  "as_ServerCustomError (ServerCustomError code errs) = Some (code, errs)"
| "as_ServerCustomError (WrapErr msg err) = as_ServerCustomError err"
| "as_ServerCustomError _ = None"

fun fiber_error :: "go_error \<Rightarrow> (int \<times> string) option" where
  "fiber_error (FiberError code msg) = Some (code, msg)"
| "fiber_error _ = None"

definition handleValidationError :: "go_error \<Rightarrow> 'n Response" where
  "handleValidationError err =
     (case as_ValidationError err of
        None \<Rightarrow> InternalServerError (err_text err)
      | Some errs \<Rightarrow> BadRequest errs)"

definition handleServerCustomError :: "go_error \<Rightarrow> 'n Response" where
  "handleServerCustomError err =
     (case as_ServerCustomError err of
        None \<Rightarrow> InternalServerError (err_text err)
      | Some (code, errs) \<Rightarrow> Custom code errs)"

definition FiberErrorHandler :: "go_error \<Rightarrow> 'n Response" where
  "FiberErrorHandler err =
     (case fiber_error err of
        Some (code, message) \<Rightarrow>
          if code = 504 \<or> code = 408 then TimeoutServerError message
          else if code = 404 then NotFound (err_text err)
          else InternalServerError ''Internal error''
      | None \<Rightarrow>
          if is_context_error err then TimeoutServerError ''Request timed out''
          else if as_ValidationError err \<noteq> None then handleValidationError err
          else if as_ServerCustomError err \<noteq> None then handleServerCustomError err
          else InternalServerError ''Internal error'')"

text \<open>Wrapping an error that is not a \<open>*fiber.Error\<close> any number of times.\<close>

fun wrap_all :: "string list \<Rightarrow> go_error \<Rightarrow> go_error" where
  "wrap_all [] err = err"
| "wrap_all (m # ms) err = WrapErr m (wrap_all ms err)"

lemma wrap_all_views [simp]:
  "is_context_error (wrap_all ms err) = is_context_error err"
  "as_ValidationError (wrap_all ms err) = as_ValidationError err"
  "as_ServerCustomError (wrap_all ms err) = as_ServerCustomError err"
  "fiber_error err = None \<Longrightarrow> fiber_error (wrap_all ms err) = None"
  by (induction ms) simp_all

text \<open>
  \<open>FiberErrorHandler\<close> classifies an error by what it wraps, however often it was
  wrapped with context: validation errors answer 400 with their messages, custom errors
  their own code and messages, expired or cancelled contexts 504, and any other wrapped
  error 500 with a constant message that does not depend on the error text.
\<close>

theorem FiberErrorHandler_classifies:
  "FiberErrorHandler (wrap_all ms (ValidationError errs)) = BadRequest errs \<and>
   FiberErrorHandler (wrap_all ms (ServerCustomError code errs)) = Custom code errs \<and>
   FiberErrorHandler (wrap_all ms ContextDeadlineExceeded) = TimeoutServerError ''Request timed out'' \<and>
   FiberErrorHandler (wrap_all ms ContextCanceled) = TimeoutServerError ''Request timed out'' \<and>
   FiberErrorHandler (wrap_all ms (PlainError msg)) = InternalServerError ''Internal error'' \<and>
   FiberErrorHandler (wrap_all (m # ms) (FiberError c msg)) = InternalServerError ''Internal error''"
  by (simp add: FiberErrorHandler_def handleValidationError_def handleServerCustomError_def)

section \<open>Authentication\<close>

record 'n jwt_token =
  tok_Valid :: bool
  tok_Claims :: "(string \<times> 'n gval) list option"

text \<open>\<open>jwt.Parse(token, keyfunc)\<close>: the callback sees the token's algorithm and returns the key
  or refuses.\<close>

type_synonym 'n jwt_parser = "string \<Rightarrow> (string \<Rightarrow> string option) \<Rightarrow> string + 'n jwt_token"
type_synonym jwks_get = "string \<Rightarrow> string + (string \<Rightarrow> string option)"

text \<open>Both parsers return the claims and an error; an invalid token without an error returns
  nil claims and a nil error.\<close>

definition checked_claims ::
  "string + 'n jwt_token \<Rightarrow> (string \<times> 'n gval) list \<times> string option" where
  "checked_claims parsed =
     (case parsed of
        Inl err \<Rightarrow> ([], Some err)
      | Inr token \<Rightarrow>
          if \<not> tok_Valid token then ([], None)
          else
            case tok_Claims token of
              None \<Rightarrow> ([], Some ''invalid claims format'')
            | Some claims \<Rightarrow> (claims, None))"

definition ParseJWTTokenWithSecret ::
  "'n jwt_parser \<Rightarrow> string \<Rightarrow> string \<Rightarrow> string \<Rightarrow> (string \<times> 'n gval) list \<times> string option" where
  "ParseJWTTokenWithSecret parse tokenString secret algorithm =
     checked_claims (parse tokenString (\<lambda>alg. if alg \<noteq> algorithm then None else Some secret))"

definition ParseJWTTokenWithJWKS ::
  "'n jwt_parser \<Rightarrow> jwks_get \<Rightarrow> string \<Rightarrow> string \<Rightarrow> (string \<times> 'n gval) list \<times> string option" where
  "ParseJWTTokenWithJWKS parse jwks tokenString jwksURL =
     (case jwks jwksURL of
        Inl err \<Rightarrow> ([], Some (''failed to load JWKS: '' @ err))
      | Inr keyFunc \<Rightarrow> checked_claims (parse tokenString keyFunc))"

definition convertMapClaimsV4ToV5 :: "(string \<times> 'n gval) list \<Rightarrow> (string \<times> 'n gval) list" where
  "convertMapClaimsV4ToV5 claims = fold (\<lambda>(k, v). AList.update k v) claims []"

record AuthConfig =
  Strategy :: string
  Secret :: string
  JWKSURL :: string
  Algorithm :: string
  RolesPath :: string
  RolesSource :: string
  RolesAPIURL :: string

definition AuthMiddleware ::
  "'n jwt_parser \<Rightarrow> 'n jwt_parser \<Rightarrow> jwks_get \<Rightarrow> AuthConfig \<Rightarrow> 'n fiber_ctx \<Rightarrow> 'n outcome" where
  "AuthMiddleware parse5 parse4 jwks cfg c =
     (let authHeader = fc_header c ''Authorization'' in
      if authHeader = [] then Reply (Custom 401 [''missing Authorization header''])
      else
        let tokenString = trim_prefix authHeader ''Bearer '';
            parsed =
              (if Strategy cfg = ''jwt''
               then Some (ParseJWTTokenWithSecret parse5 tokenString (Secret cfg) (Algorithm cfg))
               else if Strategy cfg = ''oauth2''
               then Some (apfst convertMapClaimsV4ToV5
                 (ParseJWTTokenWithJWKS parse4 jwks tokenString (JWKSURL cfg)))
               else None)
        in case parsed of
             None \<Rightarrow> Reply (Custom 401 [''unsupported auth strategy''])
           | Some (claims, Some err) \<Rightarrow> Reply (Custom 401 [''invalid token'', err])
           | Some (claims, None) \<Rightarrow>
               Next (set_local (set_local c ''user'' (LClaims claims)) ''token'' (LStr tokenString)))"

definition GetUserIdFromToken :: "'n fiber_ctx \<Rightarrow> string option" where
  "GetUserIdFromToken c =
     (case get_local c ''user'' of
        Some (LClaims claims) \<Rightarrow>
          (case map_of claims ''userId'' of
             Some (GStr userID) \<Rightarrow> if userID = [] then None else Some userID
           | _ \<Rightarrow> None)
      | _ \<Rightarrow> None)"

definition ValidateAPIKey :: "'n fiber_ctx \<Rightarrow> string \<Rightarrow> string \<Rightarrow> string \<Rightarrow> bool" where
  "ValidateAPIKey c expectedKey fieldType fieldName =
     (if fieldType = ''header'' \<and> fc_header c fieldName \<noteq> [] \<and> fc_header c fieldName = expectedKey
      then True
      else if fieldType = ''query'' \<and> fc_query c fieldName \<noteq> [] \<and> fc_query c fieldName = expectedKey
      then True
      else False)"

definition ApiKeyAuthMiddleware :: "string \<Rightarrow> 'n fiber_ctx \<Rightarrow> 'n outcome" where
  "ApiKeyAuthMiddleware key c =
     (if key = [] then Reply (Custom 401 [''Unauthorized: API Key not configured on server''])
      else if \<not> ValidateAPIKey c key ''header'' ''X-API-Key''
      then Reply (Custom 401 [''Unauthorized: Invalid API Key''])
      else Next c)"

definition RefreshTokenExtractor :: "'n fiber_ctx \<Rightarrow> 'n outcome" where
  "RefreshTokenExtractor c =
     (let h = fc_header c ''X-Refresh-Token'' in
      if h \<noteq> [] then
        if has_prefix (to_lower h) ''bearer '' \<and> length h > 7
        then Next (set_local c ''refreshToken'' (LStr (drop 7 h)))
        else Next (set_local c ''refreshToken'' (LStr h))
      else Next c)"

text \<open>What the JWT library promises: a token it returns without an error is valid and its
  signature was checked with the key the callback returned for the token's algorithm.\<close>

definition jwt_sound ::
  "'n jwt_parser \<Rightarrow> (string \<Rightarrow> string) \<Rightarrow> (string \<Rightarrow> string \<Rightarrow> bool) \<Rightarrow> bool" where
  "jwt_sound parse alg_of sig_ok \<longleftrightarrow>
     (\<forall>t kf tok. parse t kf = Inr tok \<longrightarrow>
        tok_Valid tok \<and> (\<exists>key. kf (alg_of t) = Some key \<and> sig_ok key t))"

text \<open>
  With strategy \<open>jwt\<close>, \<open>AuthMiddleware\<close> lets a request through only if its bearer
  token is signed with the configured secret under the configured algorithm (a token that
  names another algorithm is refused, so no algorithm confusion), and the handlers behind it
  see exactly that token's claims.
\<close>

theorem AuthMiddleware_jwt_sound:
  assumes sound: "jwt_sound parse5 alg_of sig_ok" and jwt: "Strategy cfg = ''jwt''"
    and pass: "AuthMiddleware parse5 parse4 jwks cfg c = Next c'"
  defines "tok \<equiv> trim_prefix (fc_header c ''Authorization'') ''Bearer ''"
  shows "alg_of tok = Algorithm cfg \<and> sig_ok (Secret cfg) tok \<and>
    (\<exists>claims parsed. parse5 tok (\<lambda>alg. if alg \<noteq> Algorithm cfg then None else Some (Secret cfg)) =
        Inr parsed \<and> tok_Claims parsed = Some claims \<and>
      get_local c' ''user'' = Some (LClaims claims))"
proof -
  let ?kf = "\<lambda>alg. if alg \<noteq> Algorithm cfg then None else Some (Secret cfg)"
  obtain parsed where p: "parse5 tok ?kf = Inr parsed"
    using pass by (cases "parse5 tok ?kf")
      (auto simp: AuthMiddleware_def jwt tok_def ParseJWTTokenWithSecret_def checked_claims_def
        Let_def split: if_splits)
  with sound have valid: "tok_Valid parsed" and "\<exists>key. ?kf (alg_of tok) = Some key \<and> sig_ok key tok"
    unfolding jwt_sound_def by blast+
  then have "alg_of tok = Algorithm cfg \<and> sig_ok (Secret cfg) tok"
    by (auto split: if_splits)
  moreover have "\<exists>claims. tok_Claims parsed = Some claims \<and> get_local c' ''user'' = Some (LClaims claims)"
    using pass p valid
    by (auto simp: AuthMiddleware_def jwt tok_def ParseJWTTokenWithSecret_def checked_claims_def
        Let_def split: if_splits option.splits)
  ultimately show ?thesis using p by blast
qed

definition demo_parser :: "nat jwt_parser" where
  "demo_parser t kf =
     (if kf ''HS256'' = Some (take 2 t)
      then Inr \<lparr>tok_Valid = True, tok_Claims = Some [(''userId'', GStr (drop 2 t))]\<rparr>
      else Inl ''bad signature'')"

definition demo_ctx :: "nat fiber_ctx" where
  "demo_ctx = \<lparr>fc_header = (\<lambda>h. if h = ''Authorization'' then ''Bearer k1alice'' else []),
     fc_query = (\<lambda>_. []), fc_locals = []\<rparr>"

theorem AuthMiddleware_jwt_sound_witness:
  "\<exists>c'. AuthMiddleware demo_parser demo_parser (\<lambda>_. Inl [])
     \<lparr>Strategy = ''jwt'', Secret = ''k1'', JWKSURL = [], Algorithm = ''HS256'',
       RolesPath = [], RolesSource = [], RolesAPIURL = []\<rparr> demo_ctx = Next c' \<and>
   take 2 (trim_prefix (fc_header demo_ctx ''Authorization'') ''Bearer '') = ''k1'' \<and>
   GetUserIdFromToken c' = Some ''alice''"
proof -
  let ?cfg = "\<lparr>Strategy = ''jwt'', Secret = ''k1'', JWKSURL = [], Algorithm = ''HS256'',
       RolesPath = [], RolesSource = [], RolesAPIURL = []\<rparr>"
  let ?c = "set_local (set_local demo_ctx ''user'' (LClaims [(''userId'', GStr ''alice'')]))
     ''token'' (LStr ''k1alice'')"
  have sound: "jwt_sound demo_parser (\<lambda>_. ''HS256'') (\<lambda>key t. take 2 t = key)"
    by (auto simp: jwt_sound_def demo_parser_def split: if_splits)
  have pass: "AuthMiddleware demo_parser demo_parser (\<lambda>_. Inl []) ?cfg demo_ctx = Next ?c"
    by (simp add: AuthMiddleware_def demo_ctx_def demo_parser_def ParseJWTTokenWithSecret_def
        checked_claims_def trim_prefix_def has_prefix_def Let_def)
  show ?thesis
    using AuthMiddleware_jwt_sound [OF sound _ pass] pass
    by (simp add: GetUserIdFromToken_def)
qed

end
