(* ===== verification/Permission_Mw.thy ===== *)
theory Permission_Mw
  imports Http_Core
begin

text \<open>
  Package \<open>http/middlewares/permission\<close>: the check that the authenticated user holds one of
  the permissions a route requires, read from the shared Redis cache (a version pointer and
  a versioned permission list) and rebuilt through the internal API on a miss. Other
  services write the cache between two reads, so a read is indexed by the number of reads
  done before it; the functions thread that number. The shared cache and the HTTP transport
  of the rebuild client are parameters.
\<close>

section \<open>The shared cache and the rebuild client\<close>

datatype cache_error = RedisNil | CacheFailure string

text \<open>The coverage entry of \<open>middlewares/coverage/types.go\<close> (times in nanoseconds).\<close>

record OrganizationCoverage =
  oc_ID :: string
  oc_Name :: string
  oc_Type :: string
  oc_PathKey :: string
  oc_Scope :: string
  oc_MembershipID :: string
  oc_RoleIDs :: "string list"

record UserAccess =
  ua_UserID :: string
  AccessibleOrgIds :: "string list"
  Organizations :: "OrganizationCoverage list"
  LastUpdated :: int
  ua_Version :: int

record shared_cache =
  sc_string :: "nat \<Rightarrow> string \<Rightarrow> cache_error + string"
  sc_perms :: "nat \<Rightarrow> string \<Rightarrow> cache_error + string list"
  sc_access :: "nat \<Rightarrow> string \<Rightarrow> cache_error + UserAccess"

record 'b http_request =
  rq_Method :: string
  rq_URL :: string
  rq_Header :: "(string \<times> string) list"
  rq_Body :: 'b

record BuildAuthorizationRequest =
  ba_UserID :: string
  ba_OrgID :: string

record BuildAuthorizationResponse =
  Permissions :: "string list"
  Version :: int

text \<open>\<open>cb_do\<close> is \<open>http.Client.Do\<close>: a transport error or a status and a body; \<open>cb_decode\<close> the
  decoding of the \<open>data\<close> member of the body.\<close>

record CacheBuildClient =
  baseURL :: string
  apiKey :: string
  cb_url_error :: "string \<Rightarrow> string option"
  cb_do :: "BuildAuthorizationRequest http_request \<Rightarrow> string + (int \<times> string)"
  cb_decode :: "string \<Rightarrow> string + BuildAuthorizationResponse"

definition buildAuthorizationCacheViaAPI ::
  "CacheBuildClient \<Rightarrow> string \<Rightarrow> string \<Rightarrow> string + BuildAuthorizationResponse" where
  "buildAuthorizationCacheViaAPI c userId orgId =
     (let url = baseURL c @ ''/internal/auth/build-authorization'';
          reqBody = \<lparr>ba_UserID = userId, ba_OrgID = orgId\<rparr>
      in case cb_url_error c url of
           Some err \<Rightarrow> Inl (''failed to create request: '' @ err)
         | None \<Rightarrow>
           (case cb_do c \<lparr>rq_Method = ''POST'', rq_URL = url,
                  rq_Header = [(''Content-Type'', ''application/json''), (''X-API-Key'', apiKey c)],
                  rq_Body = reqBody\<rparr> of
             Inl err \<Rightarrow> Inl (''failed to call internal API: '' @ err)
           | Inr (code, body) \<Rightarrow>
               if code \<noteq> 200
               then Inl (''internal API returned status '' @ itoa code @ '': '' @ body)
               else
                 case cb_decode c body of
                   Inl err \<Rightarrow> Inl (''failed to decode response: '' @ err)
                 | Inr result \<Rightarrow> Inr result))"

section \<open>Reading the permissions\<close>

definition normalizedOrgId :: "string \<Rightarrow> string" where
  "normalizedOrgId orgId = (if orgId = [] then ''global'' else orgId)"

definition authKey :: "string \<Rightarrow> string \<Rightarrow> string \<Rightarrow> string" where
  "authKey orgId userId sfx = ''auth:org:'' @ orgId @ '':user:'' @ userId @ '':'' @ sfx"

text \<open>The retry loop: at most \<open>n\<close> reads of the versioned key. \<open>Inr None\<close> means that all of
  them missed.\<close>

fun fetch_versioned ::
  "shared_cache \<Rightarrow> string \<Rightarrow> nat \<Rightarrow> nat \<Rightarrow> (string + string list option) \<times> nat" where
  "fetch_versioned sc key 0 t = (Inr None, t)"
| "fetch_versioned sc key (Suc n) t =
     (case sc_perms sc t key of
        Inr permissions \<Rightarrow> (Inr (Some permissions), Suc t)
      | Inl RedisNil \<Rightarrow> fetch_versioned sc key n (Suc t)
      | Inl (CacheFailure err) \<Rightarrow> (Inl (''failed to get permissions: '' @ err), Suc t))"

definition maxRetries :: nat where
  "maxRetries = 10"

definition build_permissions ::
  "string \<Rightarrow> CacheBuildClient option \<Rightarrow> string \<Rightarrow> string \<Rightarrow> string + string list" where
  "build_permissions msg client userId orgId =
     (case client of
        None \<Rightarrow> Inl ''cache build client not initialized''
      | Some c \<Rightarrow>
          (case buildAuthorizationCacheViaAPI c userId orgId of
             Inl err \<Rightarrow> Inl (msg @ err)
           | Inr result \<Rightarrow> Inr (Permissions result)))"

definition getUserPermissionsWithVersioning ::
  "shared_cache \<Rightarrow> CacheBuildClient option \<Rightarrow> string \<Rightarrow> string \<Rightarrow> nat \<Rightarrow>
     (string + string list) \<times> nat" where
  "getUserPermissionsWithVersioning sc client userId orgId t =
     (let org = normalizedOrgId orgId;
          verKey = authKey org userId ''ver''
      in case sc_string sc t verKey of
           Inl RedisNil \<Rightarrow> (build_permissions ''failed to build cache: '' client userId orgId, Suc t)
         | Inl (CacheFailure err) \<Rightarrow> (Inl (''failed to get version: '' @ err), Suc t)
         | Inr versionStr \<Rightarrow>
             (case atoi versionStr of
                None \<Rightarrow> (Inl (''invalid version format: '' @ atoi_error versionStr), Suc t)
              | Some version \<Rightarrow>
                  let cacheKey = authKey org userId (CHR ''v'' # itoa version)
                  in case fetch_versioned sc cacheKey maxRetries (Suc t) of
                       (Inl err, t') \<Rightarrow> (Inl err, t')
                     | (Inr (Some permissions), t') \<Rightarrow> (Inr permissions, t')
                     | (Inr None, t') \<Rightarrow>
                         (build_permissions ''failed to rebuild cache: '' client userId orgId, t')))"

definition getUserPermissions ::
  "shared_cache \<Rightarrow> CacheBuildClient option \<Rightarrow> string \<Rightarrow> string \<Rightarrow> nat \<Rightarrow>
     (string + string list) \<times> nat" where
  "getUserPermissions sc client userId orgId t =
     (case getUserPermissionsWithVersioning sc client userId orgId t of
        (Inl err, t') \<Rightarrow> (Inr [], t')
      | (Inr permissions, t') \<Rightarrow> (Inr permissions, t'))"

section \<open>Matching\<close>

definition RootPermission :: string where
  "RootPermission = ''mapex.*''"

definition AdminVendorPermission :: string where
  "AdminVendorPermission = ''admin_vendor.*''"

definition AdminCustomerPermission :: string where
  "AdminCustomerPermission = ''admin_customer.*''"

definition AdminPermission :: string where
  "AdminPermission = ''admin.*''"

lemmas permission_consts =
  RootPermission_def AdminVendorPermission_def AdminCustomerPermission_def AdminPermission_def

definition matchesPermission :: "string \<Rightarrow> string \<Rightarrow> bool" where
  "matchesPermission userPerm requiredPerm =
     (if userPerm = RootPermission then True
      else if userPerm = AdminVendorPermission then True
      else if userPerm = AdminCustomerPermission then True
      else if userPerm = AdminPermission then True
      else if userPerm = requiredPerm then True
      else if has_suffix userPerm ''.*'' \<and>
        has_prefix requiredPerm (trim_suffix userPerm ''.*'' @ ''.'') then True
      else False)"

fun hasAnyPermission :: "string list \<Rightarrow> string list \<Rightarrow> bool" where
  "hasAnyPermission [] requiredPerms = False"
| "hasAnyPermission (userPerm # userPerms) requiredPerms =
     (if list_ex (matchesPermission userPerm) requiredPerms then True
      else hasAnyPermission userPerms requiredPerms)"

section \<open>The middleware\<close>

definition check_required ::
  "string + string list \<Rightarrow> string list \<Rightarrow> 'n fiber_ctx \<Rightarrow> 'n outcome" where
  "check_required fetched requiredPermissions c =
     (case fetched of
        Inl err \<Rightarrow> Reply (Custom 500 [''failed to check permissions'', err])
      | Inr permissions \<Rightarrow>
          if \<not> hasAnyPermission permissions requiredPermissions
          then Reply (Custom 403 [''insufficient permissions''])
          else Next c)"

definition RequirePermissions ::
  "shared_cache \<Rightarrow> CacheBuildClient option \<Rightarrow> string list \<Rightarrow> 'n fiber_ctx \<Rightarrow> 'n outcome" where
  "RequirePermissions sc client requiredPermissions c =
     (case GetUserIdFromToken c of
        None \<Rightarrow> Reply (Custom 401 [''missing or invalid userId in token''])
      | Some userId \<Rightarrow>
          let organizationId = fc_header c ''X-Org-Context'' in
          if organizationId = [] then
            (case getUserPermissions sc client userId [] 0 of
               (Inl err, t) \<Rightarrow> Reply (Custom 500 [''failed to check admin permissions'', err])
             | (Inr permissions, t) \<Rightarrow>
                 if \<not> hasAnyPermission permissions
                        [RootPermission, AdminVendorPermission, AdminCustomerPermission]
                 then Reply (Custom 403
                        [''Organization context required (X-Org-Context header missing)''])
                 else check_required (fst (getUserPermissions sc client userId [] t))
                        requiredPermissions c)
          else
            check_required (fst (getUserPermissions sc client userId organizationId 0))
              requiredPermissions c)"

definition RequirePermission ::
  "shared_cache \<Rightarrow> CacheBuildClient option \<Rightarrow> string \<Rightarrow> 'n fiber_ctx \<Rightarrow> 'n outcome" where
  "RequirePermission sc client permission = RequirePermissions sc client [permission]"

section \<open>What a permission grants\<close>

lemma hasAnyPermission_iff:
  "hasAnyPermission userPerms requiredPerms \<longleftrightarrow>
     (\<exists>u \<in> set userPerms. \<exists>r \<in> set requiredPerms. matchesPermission u r)"
  by (induction userPerms) (auto simp: list_ex_iff)

definition admin_permissions :: "string set" where
  "admin_permissions =
     {RootPermission, AdminVendorPermission, AdminCustomerPermission, AdminPermission}"

lemma matchesPermission_cases:
  "matchesPermission u r \<longleftrightarrow>
     u \<in> admin_permissions \<or> u = r \<or> (\<exists>res act. u = res @ ''.*'' \<and> r = res @ ''.'' @ act)"
proof -
  have "has_suffix u ''.*'' \<and> has_prefix r (trim_suffix u ''.*'' @ ''.'') \<longleftrightarrow>
      (\<exists>res act. u = res @ ''.*'' \<and> r = res @ ''.'' @ act)"
    by (auto simp: has_suffix_iff has_prefix_iff suffix_def prefix_def)
  then show ?thesis by (auto simp: matchesPermission_def admin_permissions_def)
qed

lemma dot_unique:
  "CHR ''.'' \<notin> set name \<Longrightarrow> name @ ''.*'' = res @ CHR ''.'' # act \<Longrightarrow> res = name"
proof (induction name arbitrary: res)
  case Nil
  then show ?case by (cases res; cases "tl res") auto
next
  case (Cons n name)
  then show ?case by (cases res) auto
qed

text \<open>
  A permission grants a required permission exactly when it is one of the four
  administrator permissions, or the same permission, or a wildcard \<open>res.*\<close> over a resource
  whose name, followed by a dot, starts the required permission; so \<open>user.*\<close> never grants
  \<open>users.read\<close>.
\<close>

theorem matchesPermission_iff:
  "matchesPermission u r \<longleftrightarrow>
     u \<in> admin_permissions \<or> u = r \<or> (\<exists>res act. u = res @ ''.*'' \<and> r = res @ ''.'' @ act)"
  by (rule matchesPermission_cases)

lemma matches_admin:
  assumes "CHR ''.'' \<notin> set name" and "name @ ''.*'' \<in> admin_permissions"
  shows "matchesPermission u (name @ ''.*'') \<longleftrightarrow> u \<in> admin_permissions"
  using assms dot_unique [OF assms(1)] by (auto simp: matchesPermission_cases)

lemma admin_gate_iff:
  "hasAnyPermission perms [RootPermission, AdminVendorPermission, AdminCustomerPermission] \<longleftrightarrow>
     (\<exists>u \<in> set perms. u \<in> admin_permissions)"
  using matches_admin [of "''mapex''"] matches_admin [of "''admin_vendor''"]
    matches_admin [of "''admin_customer''"]
  by (simp add: hasAnyPermission_iff permission_consts admin_permissions_def)

lemma getUserPermissions_Inr: "\<exists>perms t'. getUserPermissions sc client userId orgId t = (Inr perms, t')"
  by (auto simp: getUserPermissions_def split: prod.splits sum.splits)

lemma check_required_cases:
  "check_required (Inr perms) req c =
     (if \<exists>u \<in> set perms. \<exists>r \<in> set req. matchesPermission u r then Next c
      else Reply (Custom 403 [''insufficient permissions'']))"
  by (simp add: check_required_def hasAnyPermission_iff)

lemma RequirePermissions_Next:
  assumes pass: "RequirePermissions sc client req c = Next c'"
  shows "c' = c \<and>
    (\<exists>userId t perms u r. GetUserIdFromToken c = Some userId \<and>
       fst (getUserPermissions sc client userId (fc_header c ''X-Org-Context'') t) = Inr perms \<and>
       u \<in> set perms \<and> r \<in> set req \<and> matchesPermission u r \<and>
       (fc_header c ''X-Org-Context'' = [] \<longrightarrow>
          (\<exists>perms0. fst (getUserPermissions sc client userId [] 0) = Inr perms0 \<and>
             set perms0 \<inter> admin_permissions \<noteq> {})))"
proof -
  let ?org = "fc_header c ''X-Org-Context''"
  obtain userId where user: "GetUserIdFromToken c = Some userId"
    using pass by (cases "GetUserIdFromToken c") (auto simp: RequirePermissions_def)
  obtain perms0 t0 where p0: "getUserPermissions sc client userId [] 0 = (Inr perms0, t0)"
    using getUserPermissions_Inr by blast
  let ?t = "if ?org = [] then t0 else 0"
  obtain perms t' where p: "getUserPermissions sc client userId ?org ?t = (Inr perms, t')"
    using getUserPermissions_Inr by blast
  have "check_required (Inr perms) req c = Next c'" and
    adm: "?org = [] \<longrightarrow> (\<exists>u \<in> set perms0. u \<in> admin_permissions)"
    using pass p0 p
    by (auto simp: RequirePermissions_def user admin_gate_iff Let_def split: if_splits)
  then have "c' = c" and "\<exists>u \<in> set perms. \<exists>r \<in> set req. matchesPermission u r"
    by (auto simp: check_required_cases split: if_splits)
  moreover have "fst (getUserPermissions sc client userId ?org ?t) = Inr perms"
    "fst (getUserPermissions sc client userId [] 0) = Inr perms0"
    using p p0 by simp_all
  ultimately show ?thesis using user adm by blast
qed

text \<open>
  C3. Safety of \<open>RequirePermissions\<close>: a request reaches the handler only with an
  authenticated user for whom the cache or the internal API returned, for the organization
  of the \<open>X-Org-Context\<close> header, a permission that grants one of the required ones; without
  the header it must also have returned one of the administrator permissions. The request
  context is passed on unchanged.
\<close>

theorem RequirePermissions_sound:
  assumes pass: "RequirePermissions sc client req c = Next c'"
  shows "c' = c \<and>
    (\<exists>userId t perms u r. GetUserIdFromToken c = Some userId \<and>
       fst (getUserPermissions sc client userId (fc_header c ''X-Org-Context'') t) = Inr perms \<and>
       u \<in> set perms \<and> r \<in> set req \<and> matchesPermission u r \<and>
       (fc_header c ''X-Org-Context'' = [] \<longrightarrow>
          (\<exists>perms0. fst (getUserPermissions sc client userId [] 0) = Inr perms0 \<and>
             set perms0 \<inter> admin_permissions \<noteq> {})))"
  using assms by (rule RequirePermissions_Next)

definition demo_user_ctx :: "string \<Rightarrow> string \<Rightarrow> nat fiber_ctx" where
  "demo_user_ctx user org =
     \<lparr>fc_header = (\<lambda>h. if h = ''X-Org-Context'' then org else []), fc_query = (\<lambda>_. []),
      fc_locals = [(''user'', LClaims [(''userId'', GStr user)])]\<rparr>"

definition demo_cache :: "string list \<Rightarrow> shared_cache" where
  "demo_cache perms =
     \<lparr>sc_string = (\<lambda>t key. Inr ''7''), sc_perms = (\<lambda>t key. Inr perms),
      sc_access = (\<lambda>t key. Inl RedisNil)\<rparr>"

lemma demo_fetch:
  "getUserPermissions (demo_cache perms) client user org t = (Inr perms, t + 2)"
proof -
  have "atoi ''7'' = Some 7" by code_simp
  then show ?thesis
    by (simp add: getUserPermissions_def getUserPermissionsWithVersioning_def demo_cache_def
        maxRetries_def numeral_eq_Suc Let_def)
qed

lemma demo_user: "GetUserIdFromToken (demo_user_ctx user org) = (if user = [] then None else Some user)"
  by (simp add: GetUserIdFromToken_def demo_user_ctx_def get_local_def)

theorem RequirePermissions_sound_witness:
  "RequirePermissions (demo_cache [''user.*'']) None [''user.read''] (demo_user_ctx ''u1'' ''org1'') =
     Next (demo_user_ctx ''u1'' ''org1'') \<and>
   (\<exists>u r. u \<in> set [''user.*''] \<and> r \<in> set [''user.read''] \<and> matchesPermission u r)"
proof
  let ?sc = "demo_cache [''user.*'']" and ?c = "demo_user_ctx ''u1'' ''org1''"
  have "matchesPermission ''user.*'' ''user.read''" by code_simp
  then show pass: "RequirePermissions ?sc None [''user.read''] ?c = Next ?c"
    by (simp add: RequirePermissions_def demo_user demo_fetch check_required_cases Let_def)
      (simp add: demo_user_ctx_def)
  show "\<exists>u r. u \<in> set [''user.*''] \<and> r \<in> set [''user.read''] \<and> matchesPermission u r"
    using RequirePermissions_sound [OF pass] by (auto simp: demo_fetch)
qed



section \<open>The cache-build race\<close>

lemma fetch_versioned_first:
  assumes "\<forall>i < k. sc_perms sc (t + i) key = Inl RedisNil"
    and "sc_perms sc (t + k) key = Inr perms" and "k < n"
  shows "fetch_versioned sc key n t = (Inr (Some perms), Suc (t + k))"
  using assms
proof (induction k arbitrary: n t)
  case 0
  then show ?case by (cases n) auto
next
  case (Suc k)
  then obtain m where n: "n = Suc m" by (cases n) auto
  have "\<forall>i < k. sc_perms sc (Suc t + i) key = Inl RedisNil"
    using Suc.prems(1) by (metis Suc_less_eq add_Suc_shift)
  then have "fetch_versioned sc key m (Suc t) = (Inr (Some perms), Suc (Suc t + k))"
    using Suc n by auto
  moreover have "sc_perms sc t key = Inl RedisNil" using Suc.prems(1) by force
  ultimately show ?case by (simp add: n)
qed

lemma fetch_versioned_reads: "snd (fetch_versioned sc key n t) \<le> t + n"
proof (induction n arbitrary: t)
  case (Suc n)
  from Suc [of "Suc t"] show ?case by (auto split: sum.split cache_error.split)
qed simp

text \<open>
  C18. The reader tolerates the cache-build race: if the version pointer is set and the
  versioned list appears within ten reads, its permissions are returned without calling
  the internal API; and whatever the cache answers, one lookup performs at most eleven
  reads before it returns.
\<close>

theorem versioned_read_waits_out_race:
  assumes ver: "sc_string sc t (authKey (normalizedOrgId orgId) userId ''ver'') = Inr (itoa version)"
    and range: "in_int64 version"
    and miss: "\<forall>i < k. sc_perms sc (Suc t + i)
      (authKey (normalizedOrgId orgId) userId (CHR ''v'' # itoa version)) = Inl RedisNil"
    and hit: "sc_perms sc (Suc t + k)
      (authKey (normalizedOrgId orgId) userId (CHR ''v'' # itoa version)) = Inr perms"
    and k: "k < 10"
  shows "getUserPermissionsWithVersioning sc client userId orgId t = (Inr perms, t + k + 2) \<and>
    (\<forall>sc' client' u' o' t'. snd (getUserPermissionsWithVersioning sc' client' u' o' t') \<le> t' + 11)"
proof (intro conjI allI)
  show "getUserPermissionsWithVersioning sc client userId orgId t = (Inr perms, t + k + 2)"
    using fetch_versioned_first [OF miss hit, of maxRetries] k
    by (simp add: getUserPermissionsWithVersioning_def ver atoi_itoa [OF range] maxRetries_def Let_def)
  fix sc' client' u' o' t'
  have "t'' \<le> t' + 11" if "fetch_versioned sc' key maxRetries (Suc t') = (r, t'')" for key r t''
    using fetch_versioned_reads [of sc' key maxRetries "Suc t'"] that by (simp add: maxRetries_def)
  then show "snd (getUserPermissionsWithVersioning sc' client' u' o' t') \<le> t' + 11"
    by (auto simp: getUserPermissionsWithVersioning_def Let_def
        split: sum.split cache_error.split option.split prod.split)
qed

definition racing_cache :: shared_cache where
  "racing_cache =
     \<lparr>sc_string = (\<lambda>t key. Inr (itoa 3)),
      sc_perms = (\<lambda>t key. if t < 5 then Inl RedisNil else Inr [''asset.list'']),
      sc_access = (\<lambda>t key. Inl RedisNil)\<rparr>"

theorem versioned_read_waits_out_race_witness:
  "getUserPermissionsWithVersioning racing_cache None ''u1'' ''org1'' 0 = (Inr [''asset.list''], 6)"
  using versioned_read_waits_out_race [of racing_cache 0 "''org1''" "''u1''" 3 4 "[''asset.list'']" None]
  by (simp add: racing_cache_def in_int64_def)

section \<open>The organization named global\<close>

text \<open>
  The cache keys of the pseudo organization \<open>global\<close> are those of a request without
  organization, but the administrator gate only looks at the missing header: a user whose
  global permission list is not administrative is refused without the header and admitted
  with the header \<open>X-Org-Context: global\<close>, on the same permissions.
\<close>

theorem global_header_skips_admin_gate:
  assumes perms: "\<forall>t. sc_perms sc t (authKey ''global'' userId (CHR ''v'' # itoa version)) = Inr perms"
    and ver: "\<forall>t. sc_string sc t (authKey ''global'' userId ''ver'') = Inr (itoa version)"
    and range: "in_int64 version"
    and user: "GetUserIdFromToken c = Some userId" "GetUserIdFromToken c' = Some userId"
    and hdr: "fc_header c ''X-Org-Context'' = []" "fc_header c' ''X-Org-Context'' = ''global''"
    and notadmin: "set perms \<inter> admin_permissions = {}"
    and grant: "\<exists>u \<in> set perms. \<exists>r \<in> set req. matchesPermission u r"
  shows "RequirePermissions sc client req c =
      Reply (Custom 403 [''Organization context required (X-Org-Context header missing)'']) \<and>
    RequirePermissions sc client req c' = Next c'"
proof -
  have "fst (getUserPermissions sc client userId org t) = Inr perms" if "org \<in> {[], ''global''}" for org t
  proof -
    have "normalizedOrgId org = ''global''" using that by (auto simp: normalizedOrgId_def)
    then show ?thesis
      using perms ver
      by (simp add: getUserPermissions_def getUserPermissionsWithVersioning_def
          atoi_itoa [OF range] maxRetries_def numeral_eq_Suc Let_def)
  qed
  then obtain t0 where "getUserPermissions sc client userId [] 0 = (Inr perms, t0)"
    and "fst (getUserPermissions sc client userId ''global'' 0) = Inr perms"
    by (metis insertI1 insertI2 prod.collapse)
  then show ?thesis
    using user hdr notadmin grant
    by (auto simp: RequirePermissions_def admin_gate_iff check_required_cases Let_def)
qed

theorem global_header_skips_admin_gate_witness:
  "RequirePermissions (demo_cache [''user.read'']) None [''user.read''] (demo_user_ctx ''u1'' []) =
      Reply (Custom 403 [''Organization context required (X-Org-Context header missing)'']) \<and>
   RequirePermissions (demo_cache [''user.read'']) None [''user.read''] (demo_user_ctx ''u1'' ''global'') =
      Next (demo_user_ctx ''u1'' ''global'')"
proof (rule global_header_skips_admin_gate)
  show "\<forall>t. sc_string (demo_cache [''user.read'']) t (authKey ''global'' ''u1'' ''ver'') = Inr (itoa 7)"
    by (simp add: demo_cache_def) code_simp
  show "set [''user.read''] \<inter> admin_permissions = {}"
    by (simp add: admin_permissions_def permission_consts)
  show "\<exists>u \<in> set [''user.read'']. \<exists>r \<in> set [''user.read'']. matchesPermission u r"
    by (simp add: matchesPermission_cases)
qed (simp_all add: demo_cache_def demo_user in_int64_def, simp_all add: demo_user_ctx_def)

end
