(* ===== verification/Coverage_Mw.thy ===== *)
theory Coverage_Mw
  imports Permission_Mw
begin

text \<open>
  Packages \<open>http/middlewares/coverage\<close> and \<open>http/middlewares/orghierarchy\<close>.
  \<open>InjectRequestContext\<close> reads the user's coverage (the organizations he may see) from the
  shared cache, checks the \<open>X-Org-Context\<close> header against it and leaves the request context
  for the handlers; \<open>ValidateOrgHierarchy\<close> checks the creation of an organization against
  that context and the fixed order of organization types. As in \<open>Permission_Mw\<close>, the n-th
  read of the shared cache within a request may see a different cache.
\<close>

section \<open>cache_client.go\<close>

record coverage_client =
  cc_baseURL :: string
  cc_apiKey :: string
  cc_url_error :: "string \<Rightarrow> string option"
  cc_do :: "string http_request \<Rightarrow> string + (int \<times> string)"
  cc_decode :: "string \<Rightarrow> string + UserAccess option"

text \<open>\<open>cc_decode\<close> yields the \<open>data.organizations\<close> member of the body: \<open>Inr None\<close> when it is
  missing or null. The request body carries the user id.\<close>

definition buildCoverageCacheViaAPI :: "coverage_client \<Rightarrow> string \<Rightarrow> string + UserAccess" where
  "buildCoverageCacheViaAPI c userId =
     (let url = cc_baseURL c @ ''/internal/auth/build-coverage'' in
      case cc_url_error c url of
        Some err \<Rightarrow> Inl (''failed to create request: '' @ err)
      | None \<Rightarrow>
        (case cc_do c \<lparr>rq_Method = ''POST'', rq_URL = url,
               rq_Header = [(''Content-Type'', ''application/json''), (''X-API-Key'', cc_apiKey c)],
               rq_Body = userId\<rparr> of
          Inl err \<Rightarrow> Inl (''failed to call internal API: '' @ err)
        | Inr (code, body) \<Rightarrow>
            if code \<noteq> 200 then Inl (''internal API returned status '' @ itoa code @ '': '' @ body)
            else
              case cc_decode c body of
                Inl err \<Rightarrow> Inl (''failed to decode response: '' @ err)
              | Inr None \<Rightarrow> Inl ''invalid response: organizations is nil''
              | Inr (Some access) \<Rightarrow> Inr access))"

definition getCoverageWithLazyBuild ::
  "shared_cache \<Rightarrow> coverage_client option \<Rightarrow> string \<Rightarrow> nat \<Rightarrow> (string + UserAccess) \<times> nat" where
  "getCoverageWithLazyBuild sc client userId t =
     (case sc_access sc t (''coverage:user:'' @ userId) of
        Inr userAccess \<Rightarrow> (Inr userAccess, Suc t)
      | Inl (CacheFailure err) \<Rightarrow> (Inl (''failed to get coverage from cache: '' @ err), Suc t)
      | Inl RedisNil \<Rightarrow>
          (case client of
             None \<Rightarrow> (Inl ''cache build client not initialized'', Suc t)
           | Some c \<Rightarrow>
               (case buildCoverageCacheViaAPI c userId of
                  Inl err \<Rightarrow> (Inl (''failed to build coverage cache: '' @ err), Suc t)
                | Inr result \<Rightarrow> (Inr result, Suc t))))"

section \<open>coverage.go\<close>

definition RootPermissions :: "string list" where
  "RootPermissions = [''mapex.*'']"

text \<open>The retry loop of \<open>hasRootPermissions\<close>: any error is retried, \<open>None\<close> after \<open>n\<close> failures.\<close>

fun fetch_root :: "shared_cache \<Rightarrow> string \<Rightarrow> nat \<Rightarrow> nat \<Rightarrow> string list option" where
  "fetch_root sc key 0 t = None"
| "fetch_root sc key (Suc n) t =
     (case sc_perms sc t key of
        Inl err \<Rightarrow> fetch_root sc key n (Suc t)
      | Inr permissions \<Rightarrow> Some permissions)"

definition hasRootPermissions :: "shared_cache option \<Rightarrow> string \<Rightarrow> nat \<Rightarrow> bool" where
  "hasRootPermissions cache userId t =
     (case cache of
        None \<Rightarrow> False
      | Some sc \<Rightarrow>
          (case sc_string sc t (''auth:org:global:user:'' @ userId @ '':ver'') of
             Inl err \<Rightarrow> False
           | Inr versionStr \<Rightarrow>
               let version = (if versionStr \<noteq> [] then sscanf_d versionStr else 0) in
               if version = 0 then False
               else
                 case fetch_root sc (''auth:org:global:user:'' @ userId @ '':v'' @ itoa version)
                        10 (Suc t) of
                   None \<Rightarrow> False
                 | Some permissions \<Rightarrow>
                     list_ex (\<lambda>userPerm. list_ex (\<lambda>rootPerm. userPerm = rootPerm) RootPermissions)
                       permissions))"

definition coverage_org :: "OrganizationCoverage \<Rightarrow> CoverageOrg" where
  "coverage_org org =
     \<lparr>co_ID = oc_ID org, co_Name = oc_Name org, co_Type = oc_Type org, co_PathKey = oc_PathKey org\<rparr>"

definition InjectRequestContext ::
  "shared_cache \<Rightarrow> coverage_client option \<Rightarrow> 'n fiber_ctx \<Rightarrow> 'n outcome" where
  "InjectRequestContext sc client c =
     (case GetUserIdFromToken c of
        None \<Rightarrow> Reply (Custom 401 [''missing or invalid userId in token''])
      | Some userId \<Rightarrow>
          (case getCoverageWithLazyBuild sc client userId 0 of
             (Inl err, t) \<Rightarrow> Reply (Custom 500 [''Failed to fetch user access information''])
           | (Inr userAccess, t) \<Rightarrow>
               let orgContextHeader = fc_header c ''X-Org-Context'';
                   orgContext = (if orgContextHeader \<noteq> [] then Some orgContextHeader else None)
               in
               if orgContext = None \<and> \<not> hasRootPermissions (Some sc) userId t
               then Reply (Custom 403 [''X-Org-Context header required. Only ROOT users (mapex.*) can query without organization context.''])
               else if orgContext \<noteq> None \<and>
                 \<not> ValidateOrgContext (the orgContext) (AccessibleOrgIds userAccess)
               then Reply (Custom 403 [''Access denied: organization not in your accessible scope''])
               else
                 let coverageOrgs = map coverage_org (Organizations userAccess);
                     orgContextData =
                       (case orgContext of
                          None \<Rightarrow> None
                        | Some oc \<Rightarrow> FindOrgInCoverage oc coverageOrgs)
                 in
                 if orgContext \<noteq> None \<and> orgContextData = None
                 then Reply (Custom 403 [''Organization context data not found''])
                 else
                   let scopedOrgIds = (if orgContext = None then [] else AccessibleOrgIds userAccess);
                       reqContext = \<lparr>ScopedOrgIds = scopedOrgIds, CoverageOrgs = coverageOrgs,
                         OrgContext = orgContext, OrgContextData = orgContextData, UserId = userId\<rparr>
                   in Next (set_local c ''requestContext'' (LReqCtx reqContext))))"

section \<open>orghierarchy.go\<close>

definition ValidChildTypes :: "(string \<times> string) list" where
  "ValidChildTypes =
     [(''vendor'', ''customer''), (''customer'', ''site''), (''site'', ''building''),
      (''building'', ''floor''), (''floor'', ''zone'')]"

record OrganizationCreate =
  GetType :: string
  GetParentOrgID :: "string option"

definition sq :: "string \<Rightarrow> string" where
  "sq s = CHR 0x27 # s @ [CHR 0x27]"

definition ValidateOrgHierarchy ::
  "('n fiber_ctx \<Rightarrow> string + OrganizationCreate) \<Rightarrow> 'n fiber_ctx \<Rightarrow> 'n outcome" where
  "ValidateOrgHierarchy extractor c =
     (case extractor c of
        Inl err \<Rightarrow> Reply (BadRequest [''Invalid request body''])
      | Inr dto \<Rightarrow>
          (case GetParentOrgID dto of
             None \<Rightarrow>
               if GetType dto \<noteq> ''vendor''
               then Reply (BadRequest [''Organization type '' @ sq (GetType dto) @
                      '' requires a parent organization. Only '' @ sq ''vendor'' @
                      '' can be created without a parent.''])
               else Next c
           | Some parentOrgID \<Rightarrow>
               (case get_local c ''requestContext'' of
                  Some (LReqCtx reqCtx) \<Rightarrow>
                    (case List.find (\<lambda>org. co_ID org = parentOrgID) (CoverageOrgs reqCtx) of
                       None \<Rightarrow> Reply (Custom 403 [''No access to parent organization''])
                     | Some parentOrg \<Rightarrow>
                         if co_Type parentOrg = ''zone''
                         then Reply (BadRequest [''Cannot create child organizations under a zone. Zone is the lowest level in the hierarchy.''])
                         else
                           case map_of ValidChildTypes (co_Type parentOrg) of
                             None \<Rightarrow> Reply (BadRequest [''Unknown parent organization type '' @
                                 sq (co_Type parentOrg)])
                           | Some expectedType \<Rightarrow>
                               if GetType dto \<noteq> expectedType
                               then Reply (BadRequest [''Invalid organization type '' @
                                 sq (GetType dto) @ '' for parent type '' @ sq (co_Type parentOrg) @
                                 ''. Expected '' @ sq expectedType @ ''.''])
                               else Next c)
                | _ \<Rightarrow> Reply (Custom 500 [''Request context not available'']))))"

section \<open>Tenant isolation\<close>

lemma fetch_root_sound:
  "fetch_root sc key n t = Some perms \<Longrightarrow> \<exists>i. sc_perms sc i key = Inr perms"
  by (induction n arbitrary: t) (auto split: sum.splits)

text \<open>The cache says that the user holds the ROOT permission.\<close>

definition root_in_cache :: "shared_cache \<Rightarrow> string \<Rightarrow> bool" where
  "root_in_cache sc userId \<longleftrightarrow>
     (\<exists>i version perms.
        sc_perms sc i (authKey ''global'' userId (CHR ''v'' # itoa version)) = Inr perms \<and>
        RootPermission \<in> set perms)"

lemma hasRootPermissions_sound: "hasRootPermissions (Some sc) userId t \<Longrightarrow> root_in_cache sc userId"
  by (fastforce simp: hasRootPermissions_def root_in_cache_def authKey_def RootPermissions_def
      RootPermission_def list_ex_iff Let_def
      dest: fetch_root_sound split: sum.splits option.splits if_splits)

lemma FindOrgInCoverage_Some:
  "FindOrgInCoverage orgId orgs = Some org \<Longrightarrow> org \<in> set orgs \<and> co_ID org = orgId"
  by (auto simp: FindOrgInCoverage_def find_Some_iff)

lemma InjectRequestContext_Next:
  assumes pass: "InjectRequestContext sc client c = Next c'"
  obtains userId access t org where "GetUserIdFromToken c = Some userId"
    "getCoverageWithLazyBuild sc client userId 0 = (Inr access, t)"
    "fc_header c ''X-Org-Context'' = [] \<Longrightarrow> root_in_cache sc userId \<and>
       c' = set_local c ''requestContext'' (LReqCtx \<lparr>ScopedOrgIds = [],
         CoverageOrgs = map coverage_org (Organizations access),
         OrgContext = None, OrgContextData = None, UserId = userId\<rparr>)"
    "fc_header c ''X-Org-Context'' \<noteq> [] \<Longrightarrow> fc_header c ''X-Org-Context'' \<in> set (AccessibleOrgIds access) \<and>
       org \<in> set (map coverage_org (Organizations access)) \<and> co_ID org = fc_header c ''X-Org-Context'' \<and>
       c' = set_local c ''requestContext'' (LReqCtx \<lparr>ScopedOrgIds = AccessibleOrgIds access,
         CoverageOrgs = map coverage_org (Organizations access), OrgContext = Some (fc_header c ''X-Org-Context''),
         OrgContextData = Some org, UserId = userId\<rparr>)"
proof -
  obtain userId where user: "GetUserIdFromToken c = Some userId"
    using pass by (auto simp: InjectRequestContext_def split: option.splits)
  obtain access t where access: "getCoverageWithLazyBuild sc client userId 0 = (Inr access, t)"
    using pass by (auto simp: InjectRequestContext_def user split: prod.splits sum.splits)
  let ?oc = "fc_header c ''X-Org-Context''" and ?orgs = "map coverage_org (Organizations access)"
  show thesis
  proof (cases "?oc = []")
    case True
    then have "hasRootPermissions (Some sc) userId t"
      and "c' = set_local c ''requestContext'' (LReqCtx \<lparr>ScopedOrgIds = [], CoverageOrgs = ?orgs,
             OrgContext = None, OrgContextData = None, UserId = userId\<rparr>)"
      using pass by (auto simp: InjectRequestContext_def user access Let_def split: if_splits)
    then show thesis using True hasRootPermissions_sound by (intro that [OF user access]) auto
  next
    case False
    then have valid: "ValidateOrgContext ?oc (AccessibleOrgIds access)"
      using pass by (auto simp: InjectRequestContext_def user access Let_def split: if_splits)
    obtain org where org: "FindOrgInCoverage ?oc ?orgs = Some org"
      using pass False valid
      by (cases "FindOrgInCoverage ?oc ?orgs") (auto simp: InjectRequestContext_def user access Let_def)
    have "c' = set_local c ''requestContext'' (LReqCtx \<lparr>ScopedOrgIds = AccessibleOrgIds access,
             CoverageOrgs = ?orgs, OrgContext = Some ?oc, OrgContextData = Some org, UserId = userId\<rparr>)"
      using pass False valid org by (simp add: InjectRequestContext_def user access Let_def)
    then show thesis using False valid FindOrgInCoverage_Some [OF org]
      by (intro that [OF user access]) (auto simp: ValidateOrgContext_def list_ex_iff)
  qed
qed

text \<open>
  C8. What \<open>InjectRequestContext\<close> hands to the handlers: the authenticated user and the
  organizations of his coverage, and either the organization of the \<open>X-Org-Context\<close> header,
  which then is one of his accessible organizations and has its coverage record attached,
  or, without the header, an unscoped context, for users the cache lists as ROOT only.
\<close>

theorem InjectRequestContext_isolates:
  assumes pass: "InjectRequestContext sc client c = Next c'"
  shows "\<exists>userId access t rc. GetUserIdFromToken c = Some userId \<and>
    getCoverageWithLazyBuild sc client userId 0 = (Inr access, t) \<and>
    get_local c' ''requestContext'' = Some (LReqCtx rc) \<and> UserId rc = userId \<and>
    CoverageOrgs rc = map coverage_org (Organizations access) \<and>
    (case OrgContext rc of
       Some oc \<Rightarrow> oc = fc_header c ''X-Org-Context'' \<and> oc \<in> set (AccessibleOrgIds access) \<and>
         ScopedOrgIds rc = AccessibleOrgIds access \<and>
         (\<exists>org \<in> set (CoverageOrgs rc). OrgContextData rc = Some org \<and> co_ID org = oc)
     | None \<Rightarrow> fc_header c ''X-Org-Context'' = [] \<and> ScopedOrgIds rc = [] \<and> root_in_cache sc userId)"
  using assms
proof (rule InjectRequestContext_Next, goal_cases)
  case (1 userId access t org)
  then show ?case
    by (cases "fc_header c ''X-Org-Context'' = []") auto
qed

definition demo_coverage_cache :: shared_cache where
  "demo_coverage_cache =
     \<lparr>sc_string = (\<lambda>t key. Inl RedisNil), sc_perms = (\<lambda>t key. Inl RedisNil),
      sc_access = (\<lambda>t key. Inr \<lparr>ua_UserID = ''u1'', AccessibleOrgIds = [''o1''],
        Organizations = [\<lparr>oc_ID = ''o1'', oc_Name = ''Org'', oc_Type = ''customer'',
          oc_PathKey = ''000001/0001'', oc_Scope = ''local'', oc_MembershipID = ''m'', oc_RoleIDs = []\<rparr>],
        LastUpdated = 0, ua_Version = 1\<rparr>)\<rparr>"

lemma demo_coverage:
  "InjectRequestContext demo_coverage_cache None (demo_user_ctx ''u1'' ''o1'') =
     Next (set_local (demo_user_ctx ''u1'' ''o1'') ''requestContext'' (LReqCtx
       (let org = \<lparr>co_ID = ''o1'', co_Name = ''Org'', co_Type = ''customer'', co_PathKey = ''000001/0001''\<rparr>
        in \<lparr>ScopedOrgIds = [''o1''], CoverageOrgs = [org], OrgContext = Some ''o1'',
            OrgContextData = Some org, UserId = ''u1''\<rparr>)))"
  by (simp add: InjectRequestContext_def demo_user getCoverageWithLazyBuild_def
      demo_coverage_cache_def ValidateOrgContext_def FindOrgInCoverage_def coverage_org_def Let_def)
    (simp add: demo_user_ctx_def)

theorem InjectRequestContext_isolates_witness:
  "\<exists>c' rc. InjectRequestContext demo_coverage_cache None (demo_user_ctx ''u1'' ''o1'') = Next c' \<and>
     get_local c' ''requestContext'' = Some (LReqCtx rc) \<and> UserId rc = ''u1''"
  using InjectRequestContext_isolates [OF demo_coverage] demo_coverage demo_user [of "''u1''" "''o1''"]
  by auto

section \<open>The order of organization types\<close>

definition org_level :: "string \<Rightarrow> nat option" where
  "org_level ty =
     map_of [(''vendor'', 0), (''customer'', 1), (''site'', 2), (''building'', 3),
             (''floor'', 4), (''zone'', 5)] ty"

lemma ValidChildTypes_level:
  "map_of ValidChildTypes p = Some ty \<longleftrightarrow>
     (\<exists>l. org_level p = Some l \<and> l < 5 \<and> org_level ty = Some (Suc l))"
  by (auto simp: ValidChildTypes_def org_level_def split: if_splits)

text \<open>
  \<open>ValidateOrgHierarchy\<close> admits the creation of an organization exactly when it is a
  vendor without parent, or its parent is in the user's coverage and stands exactly one
  level above it in vendor, customer, site, building, floor, zone; nothing can be created
  under a zone.
\<close>

theorem ValidateOrgHierarchy_iff:
  assumes dto: "extractor c = Inr dto"
  shows "ValidateOrgHierarchy extractor c = Next c' \<longleftrightarrow> c' = c \<and>
    (case GetParentOrgID dto of
       None \<Rightarrow> org_level (GetType dto) = Some 0
     | Some parentId \<Rightarrow>
         (\<exists>rc parent l. get_local c ''requestContext'' = Some (LReqCtx rc) \<and>
            FindOrgInCoverage parentId (CoverageOrgs rc) = Some parent \<and>
            org_level (co_Type parent) = Some l \<and> org_level (GetType dto) = Some (Suc l)))"
proof (cases "GetParentOrgID dto")
  case None
  then show ?thesis
    by (auto simp: ValidateOrgHierarchy_def dto org_level_def split: if_splits)
next
  case (Some parentId)
  have zone: "org_level ''zone'' = Some 5" by (simp add: org_level_def)
  have top: "org_level ty = Some l \<Longrightarrow> l \<le> 5" for ty l
    by (auto simp: org_level_def split: if_splits)
  have step: "(\<exists>l. org_level p = Some l \<and> org_level ty = Some (Suc l)) \<longleftrightarrow>
      p \<noteq> ''zone'' \<and> map_of ValidChildTypes p = Some ty" for p ty
    using ValidChildTypes_level [of p ty] top [of ty] zone
    by (metis Suc_le_eq less_irrefl option.inject)
  show ?thesis
    by (auto simp: ValidateOrgHierarchy_def dto Some FindOrgInCoverage_def step
        split: option.splits local_val.splits if_splits)
qed

theorem ValidateOrgHierarchy_iff_witness:
  "ValidateOrgHierarchy (\<lambda>_. Inr \<lparr>GetType = ''vendor'', GetParentOrgID = None\<rparr>)
     (demo_user_ctx ''u1'' []) = Next (demo_user_ctx ''u1'' [])"
  using ValidateOrgHierarchy_iff [of "\<lambda>_. Inr \<lparr>GetType = ''vendor'', GetParentOrgID = None\<rparr>"
      "demo_user_ctx ''u1'' []" "\<lparr>GetType = ''vendor'', GetParentOrgID = None\<rparr>"
      "demo_user_ctx ''u1'' []"]
  by (simp add: org_level_def)

end
