(* ===== verification/Cache_Interface.thy ===== *)
theory Cache_Interface
  imports Kit_Prelude
begin

text \<open>
  The contract of the caches of the kit (the interfaces \<open>Cache\<close> and \<open>LocalCache\<close> of
  \<open>infrastructure/common/ports\<close>): what a client may rely on is that a read never returns a
  value that was not stored, or loaded, for the key it asks for. \<open>holds P s\<close> says that every
  value the cache can serve for a key satisfies \<open>P\<close>. The lemmas follow a client through any
  sequence of operations; the cache implementations interpret the locale.
\<close>

datatype ('k, 'v) cache_op =
    OpGet int 'k
  | OpSet int 'k 'v duration
  | OpDelete int 'k

text \<open>A client program: the values its reads return, paired with the keys, and the final cache.\<close>

fun run_cache ::
  "(int \<Rightarrow> 'k \<Rightarrow> 's \<Rightarrow> 's \<times> 'v option) \<Rightarrow> (int \<Rightarrow> 'k \<Rightarrow> 'v \<Rightarrow> duration \<Rightarrow> 's \<Rightarrow> 's) \<Rightarrow>
     (int \<Rightarrow> 'k \<Rightarrow> 's \<Rightarrow> 's) \<Rightarrow> ('k, 'v) cache_op list \<Rightarrow> 's \<Rightarrow> ('k \<times> 'v) list \<times> 's" where
  "run_cache getf setf delf [] s = ([], s)"
| "run_cache getf setf delf (OpGet t k # ops) s =
     (let (s', r) = getf t k s; (log, s'') = run_cache getf setf delf ops s'
      in ((case r of None \<Rightarrow> log | Some v \<Rightarrow> (k, v) # log), s''))"
| "run_cache getf setf delf (OpSet t k v ttl # ops) s = run_cache getf setf delf ops (setf t k v ttl s)"
| "run_cache getf setf delf (OpDelete t k # ops) s = run_cache getf setf delf ops (delf t k s)"

fun op_stores :: "('k \<Rightarrow> 'v \<Rightarrow> bool) \<Rightarrow> ('k, 'v) cache_op \<Rightarrow> bool" where
  "op_stores P (OpSet t k v ttl) = P k v"
| "op_stores P _ = True"

locale cache_contract =
  fixes get_op :: "int \<Rightarrow> 'k \<Rightarrow> 's \<Rightarrow> 's \<times> 'v option"
    and set_op :: "int \<Rightarrow> 'k \<Rightarrow> 'v \<Rightarrow> duration \<Rightarrow> 's \<Rightarrow> 's"
    and del_op :: "int \<Rightarrow> 'k \<Rightarrow> 's \<Rightarrow> 's"
    and holds :: "('k \<Rightarrow> 'v \<Rightarrow> bool) \<Rightarrow> 's \<Rightarrow> bool"
  assumes get_holds: "holds P s \<Longrightarrow> holds P (fst (get_op t k s))"
    and get_sound: "holds P s \<Longrightarrow> snd (get_op t k s) = Some v \<Longrightarrow> P k v"
    and set_holds: "holds P s \<Longrightarrow> P k v \<Longrightarrow> holds P (set_op t k v ttl s)"
    and del_holds: "holds P s \<Longrightarrow> holds P (del_op t k s)"
begin

lemma run_holds:
  "holds P s \<Longrightarrow> \<forall>op \<in> set ops. op_stores P op \<Longrightarrow>
     holds P (snd (run_cache get_op set_op del_op ops s))"
proof (induction ops arbitrary: s)
  case (Cons op ops)
  show ?case
  proof (cases op)
    case (OpGet t key)
    with Cons.prems get_holds [of P s t key] show ?thesis
      using Cons.IH [of "fst (get_op t key s)"] by (simp add: Let_def split_beta)
  next
    case (OpSet t key x ttl)
    with Cons.prems show ?thesis by (simp add: Cons.IH set_holds)
  next
    case (OpDelete t key)
    with Cons.prems show ?thesis by (simp add: Cons.IH del_holds)
  qed
qed simp

lemma run_sound:
  "holds P s \<Longrightarrow> \<forall>op \<in> set ops. op_stores P op \<Longrightarrow>
     (k, v) \<in> set (fst (run_cache get_op set_op del_op ops s)) \<Longrightarrow> P k v"
proof (induction ops arbitrary: s)
  case (Cons op ops)
  show ?case
  proof (cases op)
    case (OpGet t key)
    obtain s' r where g: "get_op t key s = (s', r)" by fastforce
    have s': "holds P s'" using get_holds [OF Cons.prems(1), of t key] g by simp
    have r: "r = Some x \<Longrightarrow> P key x" for x using get_sound [OF Cons.prems(1), of t key] g by simp
    show ?thesis
      using Cons.prems r Cons.IH [OF s']
      by (auto simp: OpGet g Let_def split: prod.splits option.splits)
  next
    case (OpSet t key x ttl)
    with Cons.prems set_holds show ?thesis by (intro Cons.IH) auto
  next
    case (OpDelete t key)
    with Cons.prems del_holds show ?thesis by (intro Cons.IH) auto
  qed
qed simp

end

end
