(* ===== verification/Http_Client.thy ===== *)
theory Http_Client
  imports Kit_Prelude "HOL-Library.AList"
begin

text \<open>
  Package \<open>infrastructure/httpclient\<close>: the JSON client the services call each other with. The
  transport (\<open>http.Client.Do\<close> and reading the body) and the JSON codec are fields of the
  environment; the client builds the request, its headers and the error returned.
\<close>

record HTTPClient =
  hc_baseURL :: string
  hc_apiKey :: string
  hc_timeout :: duration
  hc_headers :: "(string \<times> string) list"

record HTTPConfig =
  BaseURL :: string
  APIKey :: string
  Timeout :: duration

record wire_request =
  wr_method :: string
  wr_url :: string
  wr_headers :: "(string \<times> string) list"
  wr_body :: "string option"

text \<open>A response is a status and the outcome of reading the body.\<close>

record wire_response =
  ws_status :: int
  ws_body :: "string + string"

record 'n http_env =
  he_marshal :: "'n gval \<Rightarrow> string + string"
  he_unmarshal :: "string \<Rightarrow> string + 'n gval"
  he_url_error :: "string \<Rightarrow> string option"
  he_do :: "wire_request \<Rightarrow> string + wire_response"

text \<open>Seconds, in nanoseconds.\<close>

definition seconds :: "int \<Rightarrow> duration" where
  "seconds n = n * 1000000000"

definition NewHTTPClient :: "HTTPConfig \<Rightarrow> HTTPClient" where
  "NewHTTPClient config =
     \<lparr>hc_baseURL = BaseURL config, hc_apiKey = APIKey config,
      hc_timeout = (if Timeout config = 0 then seconds 10 else Timeout config), hc_headers = []\<rparr>"

definition SetHeader :: "string \<Rightarrow> string \<Rightarrow> HTTPClient \<Rightarrow> HTTPClient" where
  "SetHeader key value c =
     (if value = [] then c\<lparr>hc_headers := AList.delete key (hc_headers c)\<rparr>
      else c\<lparr>hc_headers := AList.update key value (hc_headers c)\<rparr>)"

text \<open>\<open>http.Header.Set\<close> stores under the canonical form of the key (\<open>x-api-key\<close> and
  \<open>X-API-Key\<close> both become \<open>X-Api-Key\<close>), for keys made of letters, digits and dashes.\<close>

fun canonical_key :: "bool \<Rightarrow> string \<Rightarrow> string" where
  "canonical_key up [] = []"
| "canonical_key up (c # cs) =
     (if up then upper_char c else lower_char c) # canonical_key (c = CHR ''-'') cs"

definition header_set :: "string \<Rightarrow> string \<Rightarrow> (string \<times> string) list \<Rightarrow> (string \<times> string) list" where
  "header_set key value hs = AList.update (canonical_key True key) value hs"

definition applyHeaders :: "HTTPClient \<Rightarrow> (string \<times> string) list" where
  "applyHeaders c =
     fold (\<lambda>(k, v). header_set k v) (hc_headers c)
       (let hs = header_set ''Content-Type'' ''application/json'' []
        in if hc_apiKey c \<noteq> [] then header_set ''X-API-Key'' (hc_apiKey c) hs else hs)"

definition build_request ::
  "'n http_env \<Rightarrow> HTTPClient \<Rightarrow> string \<Rightarrow> string \<Rightarrow> 'n gval option \<Rightarrow> (string \<times> string) list \<Rightarrow>
     string + wire_request" where
  "build_request env c meth endpoint body headers =
     (let url = hc_baseURL c @ endpoint;
          request = (\<lambda>b. case he_url_error env url of
              Some err \<Rightarrow> Inl (''failed to create request: '' @ err)
            | None \<Rightarrow> Inr \<lparr>wr_method = meth, wr_url = url,
                      wr_headers = fold (\<lambda>(k, v). header_set k v) headers (applyHeaders c),
                      wr_body = b\<rparr>)
      in case body of
           None \<Rightarrow> request None
         | Some v \<Rightarrow>
             (case he_marshal env v of
                Inl err \<Rightarrow> Inl (''failed to marshal request body: '' @ err)
              | Inr jsonBody \<Rightarrow> request (Some jsonBody)))"

definition RawWithHeaders ::
  "'n http_env \<Rightarrow> HTTPClient \<Rightarrow> string \<Rightarrow> string \<Rightarrow> 'n gval option \<Rightarrow> (string \<times> string) list \<Rightarrow>
     string + wire_response" where
  "RawWithHeaders env c meth endpoint body headers =
     (case build_request env c meth endpoint body headers of
        Inl err \<Rightarrow> Inl err
      | Inr req \<Rightarrow> he_do env req)"

definition Raw ::
  "'n http_env \<Rightarrow> HTTPClient \<Rightarrow> string \<Rightarrow> string \<Rightarrow> 'n gval option \<Rightarrow> string + wire_response" where
  "Raw env c meth endpoint body =
     (case build_request env c meth endpoint body [] of
        Inl err \<Rightarrow> Inl err
      | Inr req \<Rightarrow> he_do env req)"

text \<open>\<open>wanted\<close> says whether the caller passes a result pointer; \<open>Inr None\<close> is success without one.\<close>

definition doRequest ::
  "'n http_env \<Rightarrow> HTTPClient \<Rightarrow> string \<Rightarrow> string \<Rightarrow> 'n gval option \<Rightarrow> bool \<Rightarrow>
     string + 'n gval option" where
  "doRequest env c meth endpoint body wanted =
     (case build_request env c meth endpoint body [] of
        Inl err \<Rightarrow> Inl err
      | Inr req \<Rightarrow>
          (case he_do env req of
             Inl err \<Rightarrow> Inl (''failed to execute request: '' @ err)
           | Inr resp \<Rightarrow>
               (case ws_body resp of
                  Inl err \<Rightarrow> Inl (''failed to read response body: '' @ err)
                | Inr responseBody \<Rightarrow>
                    if ws_status resp < 200 \<or> ws_status resp \<ge> 300
                    then Inl (''request failed with status '' @ itoa (ws_status resp) @ '': '' @ responseBody)
                    else if wanted then
                      (case he_unmarshal env responseBody of
                         Inl err \<Rightarrow> Inl (''failed to unmarshal response: '' @ err)
                       | Inr v \<Rightarrow> Inr (Some v))
                    else Inr None)))"

definition GetJSON :: "'n http_env \<Rightarrow> HTTPClient \<Rightarrow> string \<Rightarrow> string + 'n gval option" where
  "GetJSON env c endpoint = doRequest env c ''GET'' endpoint None True"

definition PostJSON ::
  "'n http_env \<Rightarrow> HTTPClient \<Rightarrow> string \<Rightarrow> 'n gval option \<Rightarrow> bool \<Rightarrow> string + 'n gval option" where
  "PostJSON env c endpoint body wanted = doRequest env c ''POST'' endpoint body wanted"

definition PutJSON ::
  "'n http_env \<Rightarrow> HTTPClient \<Rightarrow> string \<Rightarrow> 'n gval option \<Rightarrow> bool \<Rightarrow> string + 'n gval option" where
  "PutJSON env c endpoint body wanted = doRequest env c ''PUT'' endpoint body wanted"

definition DeleteJSON ::
  "'n http_env \<Rightarrow> HTTPClient \<Rightarrow> string \<Rightarrow> bool \<Rightarrow> string + 'n gval option" where
  "DeleteJSON env c endpoint wanted = doRequest env c ''DELETE'' endpoint None wanted"

section \<open>Properties\<close>

lemma doRequest_Inr_iff:
  "doRequest env c meth endpoint body wanted = Inr out \<longleftrightarrow>
     (\<exists>req resp bytes. build_request env c meth endpoint body [] = Inr req \<and>
        he_do env req = Inr resp \<and> ws_body resp = Inr bytes \<and>
        200 \<le> ws_status resp \<and> ws_status resp < 300 \<and>
        (if wanted then \<exists>v. he_unmarshal env bytes = Inr v \<and> out = Some v
         else out = None))"
  by (auto simp: doRequest_def split: sum.splits option.splits if_splits)

lemma lookup_fold_header_set:
  "\<forall>k \<in> fst ` set ks. canonical_key True k \<noteq> h \<Longrightarrow>
     map_of (fold (\<lambda>(k, v). header_set k v) ks hs) h = map_of hs h"
  by (induction ks arbitrary: hs) (auto simp: header_set_def update_conv')

end
