(* ===== verification/Tiered_Cache.thy ===== *)
theory Tiered_Cache
  imports Cache_Interface Http_Client
begin

text \<open>
  Package \<open>infrastructure/tieredcache\<close>: RAM (L0), disk (L1), the remote loader (L2) and the
  HTTP fallback. The client keeps its configuration, its statistics (64-bit counters) and the
  disk, a map from paths to file contents; the RAM cache of the ristretto library is an
  abstract state with the operations the client calls. The environment also holds SHA-256,
  the JSON codec of the metadata, and which file operations fail and what a failed write
  leaves behind. Times are nanoseconds; every operation gets the time it runs at.
\<close>

section \<open>types.go, constants.go, errors.go\<close>

datatype cache_err =
    ErrCacheMiss | ErrL0InitFailed | ErrL1InitFailed | ErrL1DirNotWritable | ErrNoLoader
  | ErrEntryExpired | ErrInvalidConfig | ErrNilData | ErrEmptyKey
  | ErrIO | ErrMarshal | ErrLoader string | ErrHTTP string

text \<open>A loader returns an error, or data that may be nil.\<close>

type_synonym loader = "int \<Rightarrow> string \<Rightarrow> string + string option"

record Config =
  EnableL0 :: bool
  L0MaxSize :: go_int
  L0MaxItems :: go_int
  L0DefaultTTL :: duration
  EnableL1 :: bool
  L1Dir :: string
  L1MaxSize :: go_int
  L1DefaultTTL :: duration
  EnableL2 :: bool
  L2Loader :: "loader option"
  FallbackBaseURL :: string
  FallbackAPIKey :: string
  FallbackEndpoint :: string
  FallbackTimeout :: duration
  KeyPrefix :: string
  EnableMetrics :: bool

record CacheStats =
  L0Hits :: "64 word"
  L0Misses :: "64 word"
  L0Size :: "64 word"
  L1Hits :: "64 word"
  L1Misses :: "64 word"
  L1Size :: "64 word"
  L2Hits :: "64 word"
  L2Misses :: "64 word"
  FallbackHits :: "64 word"
  FallbackMisses :: "64 word"
  L1LazyExpired :: "64 word"

record CacheEntry =
  ExpiresAt :: int
  CreatedAt :: int
  ce_Size :: int

definition TierMiss :: int where "TierMiss = -1"
definition TierL0 :: int where "TierL0 = 0"
definition TierL1 :: int where "TierL1 = 1"
definition TierL2 :: int where "TierL2 = 2"
definition TierFallback :: int where "TierFallback = 3"

lemmas tier_defs = TierMiss_def TierL0_def TierL1_def TierL2_def TierFallback_def

definition CacheTier_String :: "int \<Rightarrow> string" where
  "CacheTier_String t =
     (if t = TierL0 then ''L0-RAM''
      else if t = TierL1 then ''L1-Disk''
      else if t = TierL2 then ''L2-Remote''
      else if t = TierFallback then ''Fallback-HTTP''
      else ''MISS'')"

record 'r TieredCacheClient =
  l0Cache :: "'r option"
  l1Dir :: string
  l2Loader :: "loader option"
  fallbackClient :: "HTTPClient option"
  fallbackEndpoint :: string
  config :: Config
  stats :: CacheStats
  keyPrefix :: string
  disk :: "string \<Rightarrow> string option"

datatype io_op = MkdirAll | WriteFile | ReadFile | Remove | Stat | Create

record ('r, 'n) cache_env =
  rc_new :: "go_int \<Rightarrow> 'r option"
  rc_get :: "'r \<Rightarrow> int \<Rightarrow> string \<Rightarrow> string option"
  rc_set :: "'r \<Rightarrow> int \<Rightarrow> string \<Rightarrow> string \<Rightarrow> go_int \<Rightarrow> duration \<Rightarrow> 'r"
  rc_del :: "'r \<Rightarrow> string \<Rightarrow> 'r"
  sha256 :: "string \<Rightarrow> string"
  enc_entry :: "CacheEntry \<Rightarrow> string option"
  dec_entry :: "string \<Rightarrow> CacheEntry option"
  io_fails :: "io_op \<Rightarrow> string \<Rightarrow> bool"
  io_left :: "string \<Rightarrow> string option \<Rightarrow> string option"
  http :: "'n http_env"

section \<open>internals.go\<close>

definition prefixKey :: "'r TieredCacheClient \<Rightarrow> string \<Rightarrow> string" where
  "prefixKey c key = (if keyPrefix c = [] then key else keyPrefix c @ '':'' @ key)"

definition hex_digit :: "nat \<Rightarrow> char" where
  "hex_digit n = (if n < 10 then char_of (48 + n) else char_of (87 + n))"

definition hex_encode :: "string \<Rightarrow> string" where
  "hex_encode bs =
     concat (map (\<lambda>b. [hex_digit (of_char b div 16), hex_digit (of_char b mod 16)]) bs)"

definition hashKey :: "('r, 'n) cache_env \<Rightarrow> string \<Rightarrow> string" where
  "hashKey e key = hex_encode (take 16 (sha256 e key))"

text \<open>\<open>filepath.Join\<close> of a clean directory and plain names.\<close>

definition l1_dir :: "('r, 'n) cache_env \<Rightarrow> 'r TieredCacheClient \<Rightarrow> string \<Rightarrow> string" where
  "l1_dir e c key =
     (let hash = hashKey e key; level1 = take 2 hash; level2 = take 2 (drop 2 hash)
      in l1Dir c @ ''/'' @ level1 @ ''/'' @ level2)"

definition l1_path :: "('r, 'n) cache_env \<Rightarrow> 'r TieredCacheClient \<Rightarrow> string \<Rightarrow> string \<Rightarrow> string" where
  "l1_path e c key ext = l1_dir e c key @ ''/'' @ hashKey e key @ ext"

definition l1FilePath :: "('r, 'n) cache_env \<Rightarrow> 'r TieredCacheClient \<Rightarrow> string \<Rightarrow> string" where
  "l1FilePath e c key = l1_path e c key ''.cache''"

definition l1MetaPath :: "('r, 'n) cache_env \<Rightarrow> 'r TieredCacheClient \<Rightarrow> string \<Rightarrow> string" where
  "l1MetaPath e c key = l1_path e c key ''.meta''"

definition os_remove :: "('r, 'n) cache_env \<Rightarrow> string \<Rightarrow> 'r TieredCacheClient \<Rightarrow> 'r TieredCacheClient" where
  "os_remove e path c =
     (if io_fails e Remove path then c else c\<lparr>disk := (disk c)(path := None)\<rparr>)"

definition os_write ::
  "('r, 'n) cache_env \<Rightarrow> string \<Rightarrow> string \<Rightarrow> 'r TieredCacheClient \<Rightarrow> 'r TieredCacheClient" where
  "os_write e path data c =
     (if io_fails e WriteFile path
      then c\<lparr>disk := (disk c)(path := io_left e data (disk c path))\<rparr>
      else c\<lparr>disk := (disk c)(path := Some data)\<rparr>)"

definition add_L1Size :: "int \<Rightarrow> 'r TieredCacheClient \<Rightarrow> 'r TieredCacheClient" where
  "add_L1Size n c = c\<lparr>stats := (stats c)\<lparr>L1Size := L1Size (stats c) + of_int n\<rparr>\<rparr>"

definition writeL1 ::
  "('r, 'n) cache_env \<Rightarrow> int \<Rightarrow> string \<Rightarrow> string \<Rightarrow> duration \<Rightarrow> 'r TieredCacheClient \<Rightarrow>
     'r TieredCacheClient \<times> cache_err option" where
  "writeL1 e now key data ttl c =
     (let filePath = l1FilePath e c key; metaPath = l1MetaPath e c key in
      if io_fails e MkdirAll (l1_dir e c key) then (c, Some ErrIO)
      else if io_fails e WriteFile filePath then (os_write e filePath data c, Some ErrIO)
      else
        let c1 = os_write e filePath data c;
            entry = \<lparr>ExpiresAt = now + ttl, CreatedAt = now, ce_Size = int (length data)\<rparr>
        in case enc_entry e entry of
             None \<Rightarrow> (os_remove e filePath c1, Some ErrMarshal)
           | Some metaData \<Rightarrow>
               if io_fails e WriteFile metaPath
               then (os_remove e filePath (os_write e metaPath metaData c1), Some ErrIO)
               else (add_L1Size (int (length data)) (os_write e metaPath metaData c1), None))"

definition deleteL1Files ::
  "('r, 'n) cache_env \<Rightarrow> string \<Rightarrow> 'r TieredCacheClient \<Rightarrow> 'r TieredCacheClient" where
  "deleteL1Files e key c =
     (let filePath = l1FilePath e c key; metaPath = l1MetaPath e c key;
          c1 = (case disk c filePath of
                  None \<Rightarrow> c
                | Some data \<Rightarrow>
                    if io_fails e Stat filePath then c else add_L1Size (- int (length data)) c)
      in os_remove e metaPath (os_remove e filePath c1))"

definition readL1 ::
  "('r, 'n) cache_env \<Rightarrow> int \<Rightarrow> string \<Rightarrow> 'r TieredCacheClient \<Rightarrow>
     'r TieredCacheClient \<times> (cache_err + string)" where
  "readL1 e now key c =
     (let filePath = l1FilePath e c key; metaPath = l1MetaPath e c key in
      if io_fails e ReadFile metaPath then (c, Inl ErrIO)
      else
        case disk c metaPath of
          None \<Rightarrow> (c, Inl ErrCacheMiss)
        | Some metaData \<Rightarrow>
            (case dec_entry e metaData of
               None \<Rightarrow> (deleteL1Files e key c, Inl ErrCacheMiss)
             | Some entry \<Rightarrow>
                 if now > ExpiresAt entry then
                   let c1 = deleteL1Files e key c in
                   (c1\<lparr>stats := (stats c1)\<lparr>L1LazyExpired := L1LazyExpired (stats c1) + 1\<rparr>\<rparr>,
                    Inl ErrEntryExpired)
                 else if io_fails e ReadFile filePath then (c, Inl ErrIO)
                 else
                   case disk c filePath of
                     None \<Rightarrow> (deleteL1Files e key c, Inl ErrCacheMiss)
                   | Some data \<Rightarrow> (c, Inr data)))"

definition isL0Enabled :: "'r TieredCacheClient \<Rightarrow> bool" where
  "isL0Enabled c = (EnableL0 (config c) \<and> l0Cache c \<noteq> None)"

definition isL1Enabled :: "'r TieredCacheClient \<Rightarrow> bool" where
  "isL1Enabled c = (EnableL1 (config c) \<and> l1Dir c \<noteq> [])"

section \<open>methods.go\<close>

definition setL0 ::
  "('r, 'n) cache_env \<Rightarrow> int \<Rightarrow> string \<Rightarrow> string \<Rightarrow> duration \<Rightarrow> 'r TieredCacheClient \<Rightarrow>
     'r TieredCacheClient" where
  "setL0 e now key value ttl c =
     (if \<not> isL0Enabled c then c
      else c\<lparr>l0Cache := Some (rc_set e (the (l0Cache c)) now key value (int (length value)) ttl)\<rparr>)"

definition GetFromL0 :: "('r, 'n) cache_env \<Rightarrow> int \<Rightarrow> string \<Rightarrow> 'r TieredCacheClient \<Rightarrow> string option" where
  "GetFromL0 e now key c = (if \<not> isL0Enabled c then None else rc_get e (the (l0Cache c)) now key)"

definition GetFromL1 ::
  "('r, 'n) cache_env \<Rightarrow> int \<Rightarrow> string \<Rightarrow> 'r TieredCacheClient \<Rightarrow>
     'r TieredCacheClient \<times> (cache_err + string)" where
  "GetFromL1 e now key c = (if \<not> isL1Enabled c then (c, Inl ErrCacheMiss) else readL1 e now key c)"

text \<open>The part of a key after its last slash.\<close>

definition resource_id :: "string \<Rightarrow> string" where
  "resource_id key = rev (takeWhile (\<lambda>ch. ch \<noteq> CHR ''/'') (rev key))"

definition fetchFromFallback ::
  "('r, 'n) cache_env \<Rightarrow> HTTPClient \<Rightarrow> string \<Rightarrow> 'r TieredCacheClient \<Rightarrow> cache_err + string" where
  "fetchFromFallback e client key c =
     (let endpoint = fallbackEndpoint c @ ''/'' @ resource_id key in
      case GetJSON (http e) client endpoint of
        Inl err \<Rightarrow> Inl (ErrHTTP err)
      | Inr (Some (GMap response)) \<Rightarrow>
          (let data = (case map_of response ''data'' of None \<Rightarrow> GMap response | Some d \<Rightarrow> d)
           in case he_marshal (http e) data of
                Inl err \<Rightarrow> Inl ErrMarshal
              | Inr jsonData \<Rightarrow> Inr jsonData)
      | Inr (Some GNil) \<Rightarrow>
          (case he_marshal (http e) GNil of Inl err \<Rightarrow> Inl ErrMarshal | Inr jsonData \<Rightarrow> Inr jsonData)
      | Inr _ \<Rightarrow> Inl (ErrHTTP ''failed to unmarshal response''))"

type_synonym get_result = "string option \<times> int \<times> cache_err option"

abbreviation bump :: "(CacheStats \<Rightarrow> CacheStats) \<Rightarrow> 'r TieredCacheClient \<Rightarrow> 'r TieredCacheClient" where
  "bump f c \<equiv> c\<lparr>stats := f (stats c)\<rparr>"

definition promote ::
  "('r, 'n) cache_env \<Rightarrow> int \<Rightarrow> string \<Rightarrow> string \<Rightarrow> 'r TieredCacheClient \<Rightarrow> 'r TieredCacheClient" where
  "promote e now prefixed data c =
     (let c1 = setL0 e now prefixed data (L0DefaultTTL (config c)) c
      in if isL1Enabled c1 then fst (writeL1 e now prefixed data (L1DefaultTTL (config c1)) c1) else c1)"

definition get_fallback ::
  "('r, 'n) cache_env \<Rightarrow> int \<Rightarrow> string \<Rightarrow> 'r TieredCacheClient \<Rightarrow> 'r TieredCacheClient \<times> get_result" where
  "get_fallback e now key c =
     (case fallbackClient c of
        None \<Rightarrow> (c, (None, TierMiss, Some ErrCacheMiss))
      | Some client \<Rightarrow>
          (case fetchFromFallback e client key c of
             Inr data \<Rightarrow>
               (promote e now (prefixKey c key) data
                  (bump (\<lambda>s. s\<lparr>FallbackHits := FallbackHits s + 1\<rparr>) c),
                (Some data, TierFallback, None))
           | Inl err \<Rightarrow>
               (bump (\<lambda>s. s\<lparr>FallbackMisses := FallbackMisses s + 1\<rparr>) c,
                (None, TierMiss, Some ErrCacheMiss))))"

definition get_l2 ::
  "('r, 'n) cache_env \<Rightarrow> int \<Rightarrow> string \<Rightarrow> 'r TieredCacheClient \<Rightarrow> 'r TieredCacheClient \<times> get_result" where
  "get_l2 e now key c =
     (case l2Loader c of
        None \<Rightarrow> get_fallback e now key c
      | Some load \<Rightarrow>
          (case load now key of
             Inr (Some data) \<Rightarrow>
               (promote e now (prefixKey c key) data (bump (\<lambda>s. s\<lparr>L2Hits := L2Hits s + 1\<rparr>) c),
                (Some data, TierL2, None))
           | _ \<Rightarrow> get_fallback e now key (bump (\<lambda>s. s\<lparr>L2Misses := L2Misses s + 1\<rparr>) c)))"

definition get_l1 ::
  "('r, 'n) cache_env \<Rightarrow> int \<Rightarrow> string \<Rightarrow> 'r TieredCacheClient \<Rightarrow> 'r TieredCacheClient \<times> get_result" where
  "get_l1 e now key c =
     (if isL1Enabled c then
        (case GetFromL1 e now (prefixKey c key) c of
           (c1, Inr data) \<Rightarrow>
             (setL0 e now (prefixKey c key) data (L0DefaultTTL (config c1))
                (bump (\<lambda>s. s\<lparr>L1Hits := L1Hits s + 1\<rparr>) c1),
              (Some data, TierL1, None))
         | (c1, Inl err) \<Rightarrow> get_l2 e now key (bump (\<lambda>s. s\<lparr>L1Misses := L1Misses s + 1\<rparr>) c1))
      else get_l2 e now key c)"

definition Get ::
  "('r, 'n) cache_env \<Rightarrow> int \<Rightarrow> string \<Rightarrow> 'r TieredCacheClient \<Rightarrow> 'r TieredCacheClient \<times> get_result" where
  "Get e now key c =
     (if key = [] then (c, (None, TierMiss, Some ErrEmptyKey))
      else if isL0Enabled c then
        (case GetFromL0 e now (prefixKey c key) c of
           Some data \<Rightarrow> (bump (\<lambda>s. s\<lparr>L0Hits := L0Hits s + 1\<rparr>) c, (Some data, TierL0, None))
         | None \<Rightarrow> get_l1 e now key (bump (\<lambda>s. s\<lparr>L0Misses := L0Misses s + 1\<rparr>) c))
      else get_l1 e now key c)"

definition Set ::
  "('r, 'n) cache_env \<Rightarrow> int \<Rightarrow> string \<Rightarrow> string option \<Rightarrow> duration \<Rightarrow> 'r TieredCacheClient \<Rightarrow>
     'r TieredCacheClient \<times> cache_err option" where
  "Set e now key value ttl c =
     (if key = [] then (c, Some ErrEmptyKey)
      else
        case value of
          None \<Rightarrow> (c, Some ErrNilData)
        | Some v \<Rightarrow>
            let prefixed = prefixKey c key;
                l0TTL = (if ttl = 0 then L0DefaultTTL (config c) else ttl);
                l1TTL = (if ttl = 0 then L1DefaultTTL (config c) else ttl);
                c1 = setL0 e now prefixed v l0TTL c;
                c2 = (if isL1Enabled c1 then fst (writeL1 e now prefixed v l1TTL c1) else c1)
            in (c2, None))"

definition Delete ::
  "('r, 'n) cache_env \<Rightarrow> string \<Rightarrow> 'r TieredCacheClient \<Rightarrow> 'r TieredCacheClient \<times> cache_err option" where
  "Delete e key c =
     (if key = [] then (c, Some ErrEmptyKey)
      else
        let prefixed = prefixKey c key;
            c1 = (if isL0Enabled c then c\<lparr>l0Cache := Some (rc_del e (the (l0Cache c)) prefixed)\<rparr> else c);
            c2 = (if isL1Enabled c1 then deleteL1Files e prefixed c1 else c1)
        in (c2, None))"

definition Invalidate ::
  "('r, 'n) cache_env \<Rightarrow> string \<Rightarrow> 'r TieredCacheClient \<Rightarrow> 'r TieredCacheClient \<times> cache_err option" where
  "Invalidate e key c = Delete e key c"

definition Stats :: "'r TieredCacheClient \<Rightarrow> CacheStats" where
  "Stats c = stats c"

fun warm_keys ::
  "('r, 'n) cache_env \<Rightarrow> int \<Rightarrow> string list \<Rightarrow> 'r TieredCacheClient \<Rightarrow> 'r TieredCacheClient" where
  "warm_keys e now [] c = c"
| "warm_keys e now (key # keys) c = warm_keys e now keys (fst (Get e now key c))"

definition Warmup ::
  "('r, 'n) cache_env \<Rightarrow> int \<Rightarrow> string list \<Rightarrow> 'r TieredCacheClient \<Rightarrow>
     'r TieredCacheClient \<times> cache_err option" where
  "Warmup e now keys c =
     (if l2Loader c = None then (c, Some ErrNoLoader) else (warm_keys e now keys c, None))"

definition GetOrLoad ::
  "('r, 'n) cache_env \<Rightarrow> int \<Rightarrow> string \<Rightarrow> loader option \<Rightarrow> 'r TieredCacheClient \<Rightarrow>
     'r TieredCacheClient \<times> (cache_err + string option)" where
  "GetOrLoad e now key loader c =
     (case Get e now key c of
        (c1, (data, tier, None)) \<Rightarrow> (c1, Inr data)
      | (c1, (data, tier, Some err)) \<Rightarrow>
          (let l = (case loader of None \<Rightarrow> l2Loader c1 | Some l \<Rightarrow> Some l) in
           case l of
             None \<Rightarrow> (c1, Inl ErrNoLoader)
           | Some load \<Rightarrow>
               (case load now key of
                  Inl e2 \<Rightarrow> (c1, Inl (ErrLoader e2))
                | Inr None \<Rightarrow> (c1, Inr None)
                | Inr (Some d) \<Rightarrow>
                    let c2 = fst (Set e now key (Some d) 0 c1);
                        c3 = (if tier = TierMiss then bump (\<lambda>s. s\<lparr>L2Hits := L2Hits s + 1\<rparr>) c2 else c2)
                    in (c3, Inr (Some d)))))"

section \<open>tieredcache.go\<close>

definition validateConfig :: "Config \<Rightarrow> string option" where
  "validateConfig cfg =
     (if L0MaxSize cfg < 0 then Some ''L0MaxSize cannot be negative''
      else if L0MaxItems cfg < 0 then Some ''L0MaxItems cannot be negative''
      else if EnableL1 cfg \<and> L1MaxSize cfg < 0 then Some ''L1MaxSize cannot be negative''
      else if EnableL2 cfg \<and> L2Loader cfg = None
      then Some ''L2Loader is required when EnableL2 is true''
      else None)"

definition DefaultL0TTL :: duration where "DefaultL0TTL = seconds 300"
definition DefaultL1TTL :: duration where "DefaultL1TTL = seconds 3600"

definition applyDefaults :: "Config \<Rightarrow> Config" where
  "applyDefaults cfg =
     cfg\<lparr>L0MaxSize := (if L0MaxSize cfg = 0 then 256 * 1024 * 1024 else L0MaxSize cfg),
         L0MaxItems := (if L0MaxItems cfg = 0 then 100000 else L0MaxItems cfg),
         L0DefaultTTL := (if L0DefaultTTL cfg = 0 then DefaultL0TTL else L0DefaultTTL cfg),
         L1Dir := (if L1Dir cfg = [] then ''/tmp/mapexos-cache'' else L1Dir cfg),
         L1MaxSize := (if L1MaxSize cfg = 0 then 10 * 1024 * 1024 * 1024 else L1MaxSize cfg),
         L1DefaultTTL := (if L1DefaultTTL cfg = 0 then DefaultL1TTL else L1DefaultTTL cfg)\<rparr>"

definition initL1Cache :: "('r, 'n) cache_env \<Rightarrow> string \<Rightarrow> cache_err option" where
  "initL1Cache e dir =
     (if io_fails e MkdirAll dir then Some ErrIO
      else if io_fails e Create (dir @ ''/.write_test'') then Some ErrL1DirNotWritable
      else None)"

definition zero_stats :: CacheStats where
  "zero_stats = \<lparr>L0Hits = 0, L0Misses = 0, L0Size = 0, L1Hits = 0, L1Misses = 0, L1Size = 0,
     L2Hits = 0, L2Misses = 0, FallbackHits = 0, FallbackMisses = 0, L1LazyExpired = 0\<rparr>"

text \<open>\<open>New\<close> on a disk that may hold files of an earlier run: the client it builds once every
  layer has been initialised, and its error paths.\<close>

definition new_fallback :: "Config \<Rightarrow> HTTPClient option" where
  "new_fallback cfg =
     (if FallbackBaseURL cfg = [] then None
      else Some (NewHTTPClient \<lparr>BaseURL = FallbackBaseURL cfg, APIKey = FallbackAPIKey cfg,
        Timeout = (if FallbackTimeout cfg = 0 then seconds 5 else FallbackTimeout cfg)\<rparr>))"

definition new_client :: "'r option \<Rightarrow> (string \<Rightarrow> string option) \<Rightarrow> Config \<Rightarrow> 'r TieredCacheClient" where
  "new_client l0 files cfg =
     \<lparr>l0Cache = l0,
      l1Dir = (if EnableL1 cfg then L1Dir cfg else []),
      l2Loader = (if EnableL2 cfg then L2Loader cfg else None),
      fallbackClient = new_fallback cfg,
      fallbackEndpoint = (if FallbackBaseURL cfg = [] then [] else FallbackEndpoint cfg),
      config = cfg, stats = zero_stats, keyPrefix = KeyPrefix cfg, disk = files\<rparr>"

definition New ::
  "('r, 'n) cache_env \<Rightarrow> (string \<Rightarrow> string option) \<Rightarrow> Config \<Rightarrow> cache_err + 'r TieredCacheClient" where
  "New e files config0 =
     (if validateConfig config0 \<noteq> None then Inl ErrInvalidConfig
      else
        let cfg = applyDefaults config0;
            l0 = (if EnableL0 cfg then rc_new e (L0MaxSize cfg) else None)
        in if EnableL0 cfg \<and> l0 = None then Inl ErrL0InitFailed
           else if EnableL1 cfg \<and> initL1Cache e (L1Dir cfg) \<noteq> None then Inl ErrL1InitFailed
           else if EnableL2 cfg \<and> L2Loader cfg = None then Inl ErrInvalidConfig
           else Inr (new_client l0 files cfg))"

section \<open>What stays fixed and what the paths tell\<close>

definition frame where
  "frame c = (keyPrefix c, l1Dir c, l2Loader c, fallbackClient c, fallbackEndpoint c, config c)"

lemma frame_eqD:
  "frame c = frame d \<Longrightarrow> keyPrefix c = keyPrefix d"
  "frame c = frame d \<Longrightarrow> l1Dir c = l1Dir d"
  "frame c = frame d \<Longrightarrow> l2Loader c = l2Loader d"
  "frame c = frame d \<Longrightarrow> fallbackClient c = fallbackClient d"
  "frame c = frame d \<Longrightarrow> fallbackEndpoint c = fallbackEndpoint d"
  "frame c = frame d \<Longrightarrow> config c = config d"
  by (simp_all add: frame_def)

lemma frame_upd [simp]:
  "frame (c\<lparr>stats := s\<rparr>) = frame c" "frame (c\<lparr>disk := m\<rparr>) = frame c"
  "frame (c\<lparr>l0Cache := r\<rparr>) = frame c"
  by (simp_all add: frame_def)

lemma prefixKey_frame: "frame c = frame d \<Longrightarrow> prefixKey c k = prefixKey d k"
  by (simp add: prefixKey_def frame_def)

lemma prefixKey_upd [simp]:
  "prefixKey (c\<lparr>stats := s\<rparr>) = prefixKey c" "prefixKey (c\<lparr>disk := m\<rparr>) = prefixKey c"
  "prefixKey (c\<lparr>l0Cache := r\<rparr>) = prefixKey c"
  by (simp_all add: prefixKey_def fun_eq_iff)

lemma prefixKey_inject [simp]: "prefixKey c k = prefixKey c k' \<longleftrightarrow> k = k'"
  by (simp add: prefixKey_def)

lemma paths_upd [simp]:
  "l1FilePath e (c\<lparr>stats := s\<rparr>) = l1FilePath e c" "l1FilePath e (c\<lparr>disk := m\<rparr>) = l1FilePath e c"
  "l1FilePath e (c\<lparr>l0Cache := r\<rparr>) = l1FilePath e c"
  "l1MetaPath e (c\<lparr>stats := s\<rparr>) = l1MetaPath e c" "l1MetaPath e (c\<lparr>disk := m\<rparr>) = l1MetaPath e c"
  "l1MetaPath e (c\<lparr>l0Cache := r\<rparr>) = l1MetaPath e c"
  by (simp_all add: l1FilePath_def l1MetaPath_def l1_path_def l1_dir_def fun_eq_iff)

lemma enabled_upd [simp]:
  "isL1Enabled (c\<lparr>stats := s\<rparr>) = isL1Enabled c" "isL1Enabled (c\<lparr>disk := m\<rparr>) = isL1Enabled c"
  "isL1Enabled (c\<lparr>l0Cache := r\<rparr>) = isL1Enabled c"
  "isL0Enabled (c\<lparr>stats := s\<rparr>) = isL0Enabled c" "isL0Enabled (c\<lparr>disk := m\<rparr>) = isL0Enabled c"
  by (simp_all add: isL1Enabled_def isL0Enabled_def)

lemma file_ne_meta [simp]: "l1FilePath e c k \<noteq> l1MetaPath e' c' k'" "l1MetaPath e' c' k' \<noteq> l1FilePath e c k"
proof -
  have "last (l1FilePath e c k) = CHR ''e''" "last (l1MetaPath e' c' k') = CHR ''a''"
    by (simp_all add: l1FilePath_def l1MetaPath_def l1_path_def)
  then show "l1FilePath e c k \<noteq> l1MetaPath e' c' k'" "l1MetaPath e' c' k' \<noteq> l1FilePath e c k"
    by (auto dest: arg_cong [where f = last])
qed

lemma length_hashKey: "length (sha256 e k) = 32 \<Longrightarrow> length (hashKey e k) = 32"
proof -
  have "length (hex_encode bs) = 2 * length bs" for bs
    by (induction bs) (simp_all add: hex_encode_def)
  then show "length (sha256 e k) = 32 \<Longrightarrow> length (hashKey e k) = 32"
    by (simp add: hashKey_def)
qed

text \<open>Two keys share their data file only when their 128-bit digests agree.\<close>

lemma l1FilePath_hash:
  assumes "\<forall>x. length (sha256 e x) = 32" "l1FilePath e c k = l1FilePath e c k'"
  shows "hashKey e k = hashKey e k'"
  using assms
  by (simp add: l1FilePath_def l1_path_def l1_dir_def length_hashKey Let_def)

section \<open>The laws of the environment\<close>

text \<open>The RAM cache may drop an entry at any time, and forgets it when it expires; it never
  serves a value other than the one last stored under the key.\<close>

definition ristretto_laws :: "('r, 'n) cache_env \<Rightarrow> bool" where
  "ristretto_laws e \<longleftrightarrow>
     (\<forall>n r now k. rc_new e n = Some r \<longrightarrow> rc_get e r now k = None) \<and>
     (\<forall>r now k v cost ttl now' k' x.
        rc_get e (rc_set e r now k v cost ttl) now' k' = Some x \<longrightarrow>
          (if k' = k then x = v else rc_get e r now' k' = Some x)) \<and>
     (\<forall>r k now k' x.
        rc_get e (rc_del e r k) now k' = Some x \<longrightarrow> k' \<noteq> k \<and> rc_get e r now k' = Some x)"

text \<open>No torn files: a write that fails leaves the old file, or none.\<close>

definition no_torn_writes :: "('r, 'n) cache_env \<Rightarrow> bool" where
  "no_torn_writes e \<longleftrightarrow> (\<forall>data old. io_left e data old = None \<or> io_left e data old = old)"

text \<open>The environment at a time: which file operations fail may change at every operation.\<close>

definition env_at ::
  "('r, 'n) cache_env \<Rightarrow> (int \<Rightarrow> io_op \<Rightarrow> string \<Rightarrow> bool) \<Rightarrow> int \<Rightarrow> ('r, 'n) cache_env" where
  "env_at e faults t = e\<lparr>io_fails := faults t\<rparr>"

lemma env_at_simps [simp]:
  "rc_get (env_at e f t) = rc_get e" "rc_set (env_at e f t) = rc_set e"
  "rc_del (env_at e f t) = rc_del e" "rc_new (env_at e f t) = rc_new e"
  "sha256 (env_at e f t) = sha256 e" "enc_entry (env_at e f t) = enc_entry e"
  "dec_entry (env_at e f t) = dec_entry e" "io_left (env_at e f t) = io_left e"
  "http (env_at e f t) = http e" "io_fails (env_at e f t) = f t"
  by (simp_all add: env_at_def)

lemma env_at_paths [simp]:
  "hashKey (env_at e f t) = hashKey e" "l1FilePath (env_at e f t) = l1FilePath e"
  "l1MetaPath (env_at e f t) = l1MetaPath e"
  by (simp_all add: fun_eq_iff hashKey_def l1FilePath_def l1MetaPath_def l1_path_def l1_dir_def)

lemma env_at_fetch [simp]: "fetchFromFallback (env_at e f t) = fetchFromFallback e"
  unfolding fetchFromFallback_def env_at_simps ..

lemma env_at_laws [simp]:
  "ristretto_laws (env_at e f t) = ristretto_laws e" "no_torn_writes (env_at e f t) = no_torn_writes e"
  by (simp_all add: ristretto_laws_def no_torn_writes_def)

lemma rc_get_set:
  "ristretto_laws e \<Longrightarrow> rc_get e (rc_set e r now k v cost ttl) now' k' = Some x \<Longrightarrow>
     (if k' = k then x = v else rc_get e r now' k' = Some x)"
  unfolding ristretto_laws_def by blast

lemma rc_get_del:
  "ristretto_laws e \<Longrightarrow> rc_get e (rc_del e r k) now k' = Some x \<Longrightarrow> k' \<noteq> k \<and> rc_get e r now k' = Some x"
  unfolding ristretto_laws_def by blast

section \<open>Every served value satisfies P\<close>

text \<open>\<open>served P e c\<close>: what L0 and L1 hold for a key satisfies \<open>P\<close>, and so does what the loader
  and the fallback return.\<close>

definition held :: "(string \<Rightarrow> string \<Rightarrow> bool) \<Rightarrow> ('r, 'n) cache_env \<Rightarrow> 'r TieredCacheClient \<Rightarrow> bool" where
  "held P e c \<longleftrightarrow>
     (\<forall>r now k v. l0Cache c = Some r \<longrightarrow> rc_get e r now (prefixKey c k) = Some v \<longrightarrow> P k v) \<and>
     (\<forall>k v. disk c (l1FilePath e c (prefixKey c k)) = Some v \<longrightarrow> P k v)"

definition loaded :: "('r, 'n) cache_env \<Rightarrow> 'r TieredCacheClient \<Rightarrow> string \<Rightarrow> string \<Rightarrow> bool" where
  "loaded e c k v \<longleftrightarrow>
     (\<exists>load t. l2Loader c = Some load \<and> load t k = Inr (Some v)) \<or>
     (\<exists>client. fallbackClient c = Some client \<and> fetchFromFallback e client k c = Inr v)"

definition same_digest :: "('r, 'n) cache_env \<Rightarrow> 'r TieredCacheClient \<Rightarrow> string \<Rightarrow> string \<Rightarrow> bool" where
  "same_digest e c k k' \<longleftrightarrow> hashKey e (prefixKey c k) = hashKey e (prefixKey c k')"

definition served :: "(string \<Rightarrow> string \<Rightarrow> bool) \<Rightarrow> ('r, 'n) cache_env \<Rightarrow> 'r TieredCacheClient \<Rightarrow> bool" where
  "served P e c \<longleftrightarrow>
     ristretto_laws e \<and> no_torn_writes e \<and> (\<forall>x. length (sha256 e x) = 32) \<and>
     (\<forall>k k' v. same_digest e c k k' \<longrightarrow> P k v \<longrightarrow> P k' v) \<and>
     (\<forall>k v. loaded e c k v \<longrightarrow> P k v) \<and> held P e c"

lemma loaded_frame: "frame c = frame d \<Longrightarrow> loaded e c k v = loaded e d k v"
  by (simp add: loaded_def frame_def fetchFromFallback_def)

lemma same_digest_frame: "frame c = frame d \<Longrightarrow> same_digest e c k k' = same_digest e d k k'"
  using prefixKey_frame [of c d k] prefixKey_frame [of c d k'] by (simp add: same_digest_def)

lemma served_env_at [simp]: "served P (env_at e f t) c = served P e c"
  by (simp add: served_def held_def loaded_def same_digest_def)

lemma served_step:
  assumes "served P e c" "frame d = frame c" "held P e c \<Longrightarrow> held P e d"
  shows "served P e d"
  using assms loaded_frame [OF assms(2), of e] same_digest_frame [OF assms(2), of e]
  by (simp add: served_def)

lemma served_stats [simp]: "served P e (c\<lparr>stats := s\<rparr>) = served P e c"
proof -
  have "held P e (c\<lparr>stats := s\<rparr>) = held P e c" by (simp add: held_def)
  moreover have "loaded e (c\<lparr>stats := s\<rparr>) k v = loaded e c k v" for k v
    by (rule loaded_frame) simp
  ultimately show ?thesis by (simp add: served_def same_digest_def)
qed

lemma served_write:
  assumes "served P e c" "P k v"
  shows "served P e (os_write e (l1FilePath e c (prefixKey c k)) v c)"
proof (rule served_step [OF assms(1)])
  have dig: "P k' v" if "l1FilePath e c (prefixKey c k) = l1FilePath e c (prefixKey c k')" for k'
  proof -
    have "hashKey e (prefixKey c k) = hashKey e (prefixKey c k')"
      using assms(1) by (intro l1FilePath_hash [OF _ that]) (simp add: served_def)
    then have "same_digest e c k k'" by (simp add: same_digest_def)
    with assms show ?thesis unfolding served_def by blast
  qed
  have torn: "io_left e v old = None \<or> io_left e v old = old" for old
    using assms(1) by (simp add: served_def no_torn_writes_def)
  have h: "held P e c" using assms(1) by (simp add: served_def)
  show "held P e (os_write e (l1FilePath e c (prefixKey c k)) v c)"
  proof (cases "io_fails e WriteFile (l1FilePath e c (prefixKey c k))")
    case True
    with h torn [of "disk c (l1FilePath e c (prefixKey c k))"] show ?thesis
      by (auto simp: held_def os_write_def)
  next
    case False
    with h show ?thesis by (auto simp: held_def os_write_def dig)
  qed
qed (simp add: os_write_def)

lemma served_write_meta: "served P e c \<Longrightarrow> served P e (os_write e (l1MetaPath e c k) v c)"
  by (erule served_step) (auto simp: os_write_def held_def)

lemma served_remove: "served P e c \<Longrightarrow> served P e (os_remove e path c)"
  by (erule served_step) (auto simp: os_remove_def held_def)

lemma paths_ops [simp]:
  "l1FilePath e (os_write e' p v c) = l1FilePath e c" "l1MetaPath e (os_write e' p v c) = l1MetaPath e c"
  "l1FilePath e (os_remove e' p c) = l1FilePath e c" "l1MetaPath e (os_remove e' p c) = l1MetaPath e c"
  by (simp_all add: os_write_def os_remove_def)

lemma served_writeL1:
  assumes "served P e c" "P k v"
  shows "served P e (fst (writeL1 e now (prefixKey c k) v ttl c))"
  using served_write [OF assms]
    served_write_meta [OF served_write [OF assms], of "prefixKey c k"]
  by (auto simp: writeL1_def Let_def add_L1Size_def assms served_remove split: option.splits)

lemma served_deleteL1Files: "served P e c \<Longrightarrow> served P e (deleteL1Files e key c)"
  by (auto simp: deleteL1Files_def Let_def add_L1Size_def served_remove split: option.splits)

lemma served_setL0:
  assumes "served P e c" "P k v"
  shows "served P e (setL0 e now (prefixKey c k) v ttl c)"
proof (rule served_step [OF assms(1)])
  have laws: "ristretto_laws e" and h: "held P e c" using assms(1) by (simp_all add: served_def)
  show "held P e (setL0 e now (prefixKey c k) v ttl c)"
  proof (cases "isL0Enabled c")
    case True
    then obtain r where r: "l0Cache c = Some r" by (auto simp: isL0Enabled_def)
    have "P k' x" if "rc_get e (rc_set e r now (prefixKey c k) v (int (length v)) ttl) t (prefixKey c k') = Some x"
      for t k' x
      using rc_get_set [OF laws that] h r assms(2) unfolding held_def by (auto split: if_splits)
    with h r True show ?thesis by (auto simp: held_def setL0_def)
  next
    case False
    with h show ?thesis by (simp add: setL0_def)
  qed
qed (simp add: setL0_def)

lemma frame_writes [simp]:
  "frame (setL0 e now p v ttl c) = frame c" "frame (os_write e path v c) = frame c"
  "frame (os_remove e path c) = frame c" "frame (add_L1Size n c) = frame c"
  by (simp_all add: setL0_def os_write_def os_remove_def add_L1Size_def)

lemma frame_L1 [simp]:
  "frame (fst (writeL1 e now p v ttl c)) = frame c" "frame (deleteL1Files e p c) = frame c"
  "frame (fst (readL1 e now p c)) = frame c"
  by (simp_all add: writeL1_def deleteL1Files_def readL1_def Let_def split: option.splits)

lemma served_promote: "served P e c \<Longrightarrow> P k v \<Longrightarrow> served P e (promote e now (prefixKey c k) v c)"
  using served_setL0 [of P e c k v now "L0DefaultTTL (config c)"]
    served_writeL1 [of P e "setL0 e now (prefixKey c k) v (L0DefaultTTL (config c)) c" k v]
    prefixKey_frame [of "setL0 e now (prefixKey c k) v (L0DefaultTTL (config c)) c" c k]
  by (simp add: promote_def Let_def)

lemma served_readL1: "served P e c \<Longrightarrow> served P e (fst (readL1 e now p c))"
  using served_deleteL1Files [of P e c] by (simp add: readL1_def Let_def split: option.split)

lemma readL1_sound:
  "served P e c \<Longrightarrow> snd (readL1 e now (prefixKey c k) c) = Inr v \<Longrightarrow> P k v"
  by (auto simp: readL1_def Let_def served_def held_def split: option.splits if_splits)

section \<open>Get, Set and Delete keep it\<close>

definition got :: "get_result \<Rightarrow> string option" where
  "got r = (case r of (data, tier, None) \<Rightarrow> data | _ \<Rightarrow> None)"

definition get_ok where
  "get_ok P e k res \<longleftrightarrow> served P e (fst res) \<and> (\<forall>v. got (snd res) = Some v \<longrightarrow> P k v)"

lemma get_okI: "served P e c \<Longrightarrow> (\<And>v. got r = Some v \<Longrightarrow> P k v) \<Longrightarrow> get_ok P e k (c, r)"
  by (simp add: get_ok_def)

lemma served_loaded: "served P e c \<Longrightarrow> loaded e c k v \<Longrightarrow> P k v"
  by (simp add: served_def)

lemma get_ok_fallback: "served P e c \<Longrightarrow> get_ok P e k (get_fallback e now k c)"
proof (cases "fallbackClient c")
  case (Some client)
  assume s: "served P e c"
  show ?thesis
  proof (cases "fetchFromFallback e client k c")
    case (Inr data)
    with Some have "P k data" by (intro served_loaded [OF s]) (auto simp: loaded_def)
    with s Some Inr show ?thesis
      using served_promote [of P e "bump (\<lambda>s. s\<lparr>FallbackHits := FallbackHits s + 1\<rparr>) c" k data now]
      by (auto simp: get_fallback_def got_def intro!: get_okI)
  next
    case (Inl err)
    with s Some show ?thesis by (auto simp: get_fallback_def got_def intro!: get_okI)
  qed
qed (auto simp: get_fallback_def got_def intro!: get_okI)

lemma get_ok_l2: "served P e c \<Longrightarrow> get_ok P e k (get_l2 e now k c)"
proof (cases "l2Loader c")
  case (Some load)
  assume s: "served P e c"
  have miss: "get_ok P e k (get_fallback e now k (bump (\<lambda>s. s\<lparr>L2Misses := L2Misses s + 1\<rparr>) c))"
    using s by (simp add: get_ok_fallback)
  show ?thesis
  proof (cases "\<exists>data. load now k = Inr (Some data)")
    case True
    then obtain data where d: "load now k = Inr (Some data)" ..
    with Some have "P k data" by (intro served_loaded [OF s]) (auto simp: loaded_def)
    with s Some d show ?thesis
      using served_promote [of P e "bump (\<lambda>s. s\<lparr>L2Hits := L2Hits s + 1\<rparr>) c" k data now]
      by (auto simp: get_l2_def got_def intro!: get_okI)
  next
    case False
    then show ?thesis using miss Some by (auto simp: get_l2_def split: sum.split option.split)
  qed
qed (simp add: get_l2_def get_ok_fallback)

lemma get_ok_l1:
  assumes s: "served P e c"
  shows "get_ok P e k (get_l1 e now k c)"
proof (cases "isL1Enabled c")
  case True
  obtain c1 r where r: "readL1 e now (prefixKey c k) c = (c1, r)" by fastforce
  have s1: "served P e c1" and p: "prefixKey c1 k = prefixKey c k"
    using served_readL1 [OF s, of now "prefixKey c k"] frame_L1(3) [of e now "prefixKey c k" c] r
    by (auto intro: prefixKey_frame)
  show ?thesis
  proof (cases r)
    case (Inl err)
    with s1 r True show ?thesis by (simp add: get_l1_def GetFromL1_def get_ok_l2)
  next
    case (Inr data)
    have "P k data" using readL1_sound [OF s, of now k data] r Inr by simp
    with Inr s1 r True p show ?thesis
      using served_setL0 [of P e "bump (\<lambda>s. s\<lparr>L1Hits := L1Hits s + 1\<rparr>) c1" k data now]
      by (auto simp: get_l1_def GetFromL1_def got_def intro!: get_okI)
  qed
qed (simp add: get_l1_def get_ok_l2 s)

lemma get_ok_Get:
  assumes s: "served P e c"
  shows "get_ok P e k (Get e now k c)"
proof (cases "k = [] \<or> GetFromL0 e now (prefixKey c k) c = None")
  case True
  with s show ?thesis
    by (auto simp: Get_def got_def get_ok_l1 intro: get_okI)
next
  case False
  then obtain v where v: "GetFromL0 e now (prefixKey c k) c = Some v" by auto
  then have "P k v" using s
    by (auto simp: GetFromL0_def isL0Enabled_def served_def held_def split: if_splits)
  with False v s show ?thesis
    by (auto simp: Get_def got_def GetFromL0_def intro!: get_okI split: if_splits)
qed

lemma served_Set:
  assumes "served P e c" "\<And>v. value = Some v \<Longrightarrow> P k v"
  shows "served P e (fst (Set e now k value ttl c))"
proof (cases "k = [] \<or> value = None")
  case False
  then obtain v where v: "value = Some v" "P k v" using assms(2) by auto
  let ?c = "\<lambda>t. setL0 e now (prefixKey c k) v t c"
  have c: "served P e (?c t)" "prefixKey (?c t) k = prefixKey c k" for t
    using served_setL0 [OF assms(1) v(2)] by (auto intro: prefixKey_frame)
  have "served P e (fst (writeL1 e now (prefixKey c k) v t' (?c t)))" for t t'
    using served_writeL1 [where k = k, OF c(1) v(2)] by (simp add: c(2))
  with False v(1) c(1) show ?thesis by (simp add: Set_def Let_def)
qed (auto simp: Set_def assms(1) split: option.split)

lemma served_Delete:
  assumes s: "served P e c"
  shows "served P e (fst (Delete e k c))"
proof -
  have "served P e (c\<lparr>l0Cache := Some (rc_del e r p)\<rparr>)" if "l0Cache c = Some r" for r p
  proof (rule served_step [OF s])
    assume "held P e c"
    then show "held P e (c\<lparr>l0Cache := Some (rc_del e r p)\<rparr>)"
      using rc_get_del [of e r p] that s unfolding held_def served_def by simp blast
  qed simp
  then show ?thesis
    using s by (auto simp: Delete_def Let_def isL0Enabled_def served_deleteL1Files)
qed

section \<open>The client as a cache\<close>

text \<open>The state a program runs over: the environment, which file operations fail at which time,
  and the client.\<close>

type_synonym ('r, 'n) cache_state =
  "('r, 'n) cache_env \<times> (int \<Rightarrow> io_op \<Rightarrow> string \<Rightarrow> bool) \<times> 'r TieredCacheClient"

definition tc_get :: "int \<Rightarrow> string \<Rightarrow> ('r, 'n) cache_state \<Rightarrow> ('r, 'n) cache_state \<times> string option" where
  "tc_get t k s =
     (case s of (e, f, c) \<Rightarrow> (case Get (env_at e f t) t k c of (c', r) \<Rightarrow> ((e, f, c'), got r)))"

definition tc_set ::
  "int \<Rightarrow> string \<Rightarrow> string option \<Rightarrow> duration \<Rightarrow> ('r, 'n) cache_state \<Rightarrow> ('r, 'n) cache_state" where
  "tc_set t k v ttl s = (case s of (e, f, c) \<Rightarrow> (e, f, fst (Set (env_at e f t) t k v ttl c)))"

definition tc_delete :: "int \<Rightarrow> string \<Rightarrow> ('r, 'n) cache_state \<Rightarrow> ('r, 'n) cache_state" where
  "tc_delete t k s = (case s of (e, f, c) \<Rightarrow> (e, f, fst (Delete (env_at e f t) k c)))"

interpretation tiered: cache_contract tc_get "\<lambda>t k v. tc_set t k (Some v)" tc_delete
  "\<lambda>P s. served P (fst s) (snd (snd s))"
proof (unfold_locales, goal_cases)
  case (1 P s t k)
  then show ?case using get_ok_Get [of P "env_at (fst s) (fst (snd s)) t" "snd (snd s)" k t]
    by (auto simp: tc_get_def get_ok_def split: prod.splits)
next
  case (2 P s t k v)
  then show ?case using get_ok_Get [of P "env_at (fst s) (fst (snd s)) t" "snd (snd s)" k t]
    by (auto simp: tc_get_def get_ok_def split: prod.splits)
next
  case (3 P s k v t ttl)
  then show ?case
    using served_Set [of P "env_at (fst s) (fst (snd s)) t" "snd (snd s)" "Some v" k t ttl]
    by (auto simp: tc_set_def split: prod.splits)
next
  case (4 P s t k)
  then show ?case
    using served_Delete [of P "env_at (fst s) (fst (snd s)) t" "snd (snd s)" k]
    by (auto simp: tc_delete_def split: prod.splits)
qed

lemma rc_get_new: "ristretto_laws e \<Longrightarrow> rc_new e n = Some r \<Longrightarrow> rc_get e r now k = None"
  unfolding ristretto_laws_def by blast

lemma applyDefaults_simps [simp]:
  "EnableL0 (applyDefaults cfg) = EnableL0 cfg" "EnableL1 (applyDefaults cfg) = EnableL1 cfg"
  "EnableL2 (applyDefaults cfg) = EnableL2 cfg" "L2Loader (applyDefaults cfg) = L2Loader cfg"
  "KeyPrefix (applyDefaults cfg) = KeyPrefix cfg" "L1Dir (applyDefaults cfg) \<noteq> []"
  by (simp_all add: applyDefaults_def)

lemma New_Inr:
  assumes "New e files cfg = Inr c"
  defines "l0 \<equiv> if EnableL0 cfg then rc_new e (L0MaxSize (applyDefaults cfg)) else None"
  shows "c = new_client l0 files (applyDefaults cfg) \<and> (EnableL0 cfg \<longrightarrow> l0 \<noteq> None) \<and>
    (EnableL2 cfg \<longrightarrow> L2Loader cfg \<noteq> None)"
  using assms(1) unfolding New_def Let_def l0_def
  by (cases "EnableL0 cfg"; cases "EnableL2 cfg") (simp_all split: if_split_asm)

lemma New_held:
  assumes "ristretto_laws e" "New e Map.empty cfg = Inr c"
  shows "held P e c"
proof -
  define l0 where "l0 = (if EnableL0 cfg then rc_new e (L0MaxSize (applyDefaults cfg)) else None)"
  have "rc_get e r now k = None" if "l0 = Some r" for r now k
    using that rc_get_new [OF assms(1)] by (simp add: l0_def split: if_split_asm)
  moreover have "c = new_client l0 Map.empty (applyDefaults cfg)"
    using New_Inr [OF assms(2)] by (simp add: l0_def)
  ultimately show ?thesis by (simp add: held_def new_client_def)
qed

section \<open>Reads and writes without faults\<close>

definition no_faults :: "('r, 'n) cache_env \<Rightarrow> bool" where
  "no_faults e \<longleftrightarrow> (\<forall>op path. \<not> io_fails e op path)"

definition meta_roundtrip :: "('r, 'n) cache_env \<Rightarrow> bool" where
  "meta_roundtrip e \<longleftrightarrow> (\<forall>entry. \<exists>m. enc_entry e entry = Some m \<and> dec_entry e m = Some entry)"

lemma writeL1_stores:
  assumes "no_faults e" "meta_roundtrip e"
  obtains m where "dec_entry e m = Some \<lparr>ExpiresAt = now + ttl, CreatedAt = now, ce_Size = int (length v)\<rparr>"
    "writeL1 e now p v ttl c =
       (add_L1Size (int (length v))
          (c\<lparr>disk := (disk c)(l1FilePath e c p := Some v, l1MetaPath e c p := Some m)\<rparr>), None)"
proof -
  obtain m where m: "enc_entry e \<lparr>ExpiresAt = now + ttl, CreatedAt = now, ce_Size = int (length v)\<rparr> = Some m"
    "dec_entry e m = Some \<lparr>ExpiresAt = now + ttl, CreatedAt = now, ce_Size = int (length v)\<rparr>"
    using assms(2) unfolding meta_roundtrip_def by blast
  show thesis
    by (rule that [of m]) (use m assms(1) in \<open>simp_all add: writeL1_def os_write_def no_faults_def\<close>)
qed

lemma readL1_hit:
  assumes "no_faults e" "disk c (l1MetaPath e c p) = Some m" "dec_entry e m = Some entry"
    "now \<le> ExpiresAt entry" "disk c (l1FilePath e c p) = Some v"
  shows "readL1 e now p c = (c, Inr v)"
  using assms by (simp add: readL1_def no_faults_def)

text \<open>A read that L0 does not answer with another value is answered by the disk.\<close>

lemma Get_from_disk:
  assumes "k \<noteq> []" "isL1Enabled c"
    and l0: "\<And>x. isL0Enabled c \<Longrightarrow> rc_get e (the (l0Cache c)) now (prefixKey c k) = Some x \<Longrightarrow> x = v"
    and l1: "\<And>s. readL1 e now (prefixKey c k) (c\<lparr>stats := s\<rparr>) = (c\<lparr>stats := s\<rparr>, Inr v)"
  shows "\<exists>tier \<in> {TierL0, TierL1}. snd (Get e now k c) = (Some v, tier, None)"
proof -
  have "snd (get_l1 e now k (c\<lparr>stats := s\<rparr>)) = (Some v, TierL1, None)" for s
    using l1 [of s] assms(2) by (simp add: get_l1_def GetFromL1_def)
  from this [of "stats c"] this [of "(stats c)\<lparr>L0Misses := L0Misses (stats c) + 1\<rparr>"]
  show ?thesis
    using l0 assms(1) by (cases "rc_get e (the (l0Cache c)) now (prefixKey c k)")
      (auto simp: Get_def GetFromL0_def)
qed

lemma stats_paths [simp]:
  "disk (add_L1Size n c) = disk c" "l1FilePath e (add_L1Size n c) = l1FilePath e c"
  "l1MetaPath e (add_L1Size n c) = l1MetaPath e c" "prefixKey (add_L1Size n c) = prefixKey c"
  "isL0Enabled (add_L1Size n c) = isL0Enabled c" "isL1Enabled (add_L1Size n c) = isL1Enabled c"
  "l0Cache (add_L1Size n c) = l0Cache c"
  by (simp_all add: add_L1Size_def)

lemma setL0_simps [simp]:
  "prefixKey (setL0 e now p v ttl c) = prefixKey c" "l1FilePath e' (setL0 e now p v ttl c) = l1FilePath e' c"
  "l1MetaPath e' (setL0 e now p v ttl c) = l1MetaPath e' c" "isL1Enabled (setL0 e now p v ttl c) = isL1Enabled c"
  "isL0Enabled (setL0 e now p v ttl c) = isL0Enabled c" "disk (setL0 e now p v ttl c) = disk c"
  by (simp_all add: setL0_def isL0Enabled_def)

section \<open>A concrete environment\<close>

text \<open>An association list as the RAM cache, a padded key as the digest and a unary code for the
  metadata: the laws hold for it, and the witnesses run on it.\<close>

definition unary :: "int \<Rightarrow> string" where
  "unary i = (if i < 0 then CHR ''-'' else CHR ''+'') # replicate (nat \<bar>i\<bar>) (CHR ''1'')"

fun read_unary :: "string \<Rightarrow> int" where
  "read_unary [] = 0"
| "read_unary (s # ds) = (if s = CHR ''-'' then - int (length ds) else int (length ds))"

definition demo_enc :: "CacheEntry \<Rightarrow> string option" where
  "demo_enc en = Some (unary (ExpiresAt en) @ '','' @ unary (CreatedAt en) @ '','' @ unary (ce_Size en))"

definition demo_dec :: "string \<Rightarrow> CacheEntry option" where
  "demo_dec s =
     (case go_split (CHR '','') s of
        [a, b, c] \<Rightarrow> Some \<lparr>ExpiresAt = read_unary a, CreatedAt = read_unary b, ce_Size = read_unary c\<rparr>
      | _ \<Rightarrow> None)"

definition demo_cache_env :: "((string \<times> string) list, nat) cache_env" where
  "demo_cache_env =
     \<lparr>rc_new = (\<lambda>n. Some []), rc_get = (\<lambda>r now k. map_of r k),
      rc_set = (\<lambda>r now k v cost ttl. (k, v) # r), rc_del = (\<lambda>r k. filter (\<lambda>(k', v). k' \<noteq> k) r),
      sha256 = (\<lambda>k. take 32 (k @ replicate 32 (CHR ''0''))),
      enc_entry = demo_enc, dec_entry = demo_dec, io_fails = (\<lambda>op path. False),
      io_left = (\<lambda>data old. old),
      http = \<lparr>he_marshal = (\<lambda>v. Inl ''json''), he_unmarshal = (\<lambda>s. Inl ''json''), he_url_error = (\<lambda>u. None),
              he_do = (\<lambda>r. Inl ''down'')\<rparr>\<rparr>"

definition demo_config :: Config where
  "demo_config =
     \<lparr>EnableL0 = True, L0MaxSize = 0, L0MaxItems = 0, L0DefaultTTL = 0, EnableL1 = True, L1Dir = [],
      L1MaxSize = 0, L1DefaultTTL = 0, EnableL2 = False, L2Loader = None, FallbackBaseURL = [],
      FallbackAPIKey = [], FallbackEndpoint = [], FallbackTimeout = 0, KeyPrefix = ''assets'',
      EnableMetrics = False\<rparr>"

definition demo_client :: "(string \<times> string) list option \<Rightarrow> (string \<times> string) list TieredCacheClient" where
  "demo_client l0 = new_client l0 Map.empty (applyDefaults demo_config)"

lemma read_unary_unary: "read_unary (unary i) = i"
  by (simp add: unary_def)

lemma demo_roundtrip: "demo_dec (the (demo_enc en)) = Some en"
proof -
  have c: "CHR '','' \<notin> set (unary i)" for i by (simp add: unary_def)
  have "go_split (CHR '','') (unary a @ '','' @ unary b @ '','' @ unary d) = [unary a, unary b, unary d]" for a b d
    using c by (simp add: go_split_append go_split_no_sep)
  then show ?thesis by (simp add: demo_dec_def demo_enc_def read_unary_unary)
qed

lemma demo_laws:
  "ristretto_laws demo_cache_env" "no_torn_writes demo_cache_env" "no_faults demo_cache_env"
  "meta_roundtrip demo_cache_env" "\<forall>x. length (sha256 demo_cache_env x) = 32"
proof -
  have "map_of (filter (\<lambda>(k', v). k' \<noteq> k) r) k' = (if k' = k then None else map_of r k')"
    for k k' and r :: "(string \<times> string) list"
    by (induction r) auto
  then show "ristretto_laws demo_cache_env" by (auto simp: ristretto_laws_def demo_cache_env_def)
  show "meta_roundtrip demo_cache_env"
    using demo_roundtrip by (simp add: meta_roundtrip_def demo_cache_env_def demo_enc_def)
qed (auto simp: no_torn_writes_def no_faults_def demo_cache_env_def min_def)

lemma writeL1_l0 [simp]:
  "l0Cache (fst (writeL1 e now p v ttl c)) = l0Cache c"
  "isL0Enabled (fst (writeL1 e now p v ttl c)) = isL0Enabled c"
  "prefixKey (fst (writeL1 e now p v ttl c)) = prefixKey c"
  by (simp_all add: writeL1_def os_write_def os_remove_def add_L1Size_def Let_def split: option.split)

lemma New_demo: "New demo_cache_env Map.empty demo_config = Inr (demo_client (Some []))"
  by (simp add: New_def demo_client_def demo_config_def validateConfig_def applyDefaults_def
      initL1Cache_def demo_cache_env_def)

lemma demo_client_simps:
  "isL1Enabled (demo_client l0)" "isL0Enabled (demo_client l0) \<longleftrightarrow> l0 \<noteq> None"
  "l2Loader (demo_client l0) = None" "fallbackClient (demo_client l0) = None"
  "l0Cache (demo_client l0) = l0" "isL0Enabled ((demo_client l0)\<lparr>l0Cache := Some r\<rparr>)"
  by (simp_all add: isL1Enabled_def isL0Enabled_def demo_client_def new_client_def applyDefaults_def
      demo_config_def new_fallback_def)

section \<open>Properties\<close>



text \<open>Read your write: with the disk tier enabled and working, a \<open>Get\<close> within the time to
  live of a \<open>Set\<close> (the given one, or the L1 default when it is 0) returns the value, from RAM or
  from disk, even when the RAM cache has dropped it.\<close>

theorem Get_after_Set:
  assumes "ristretto_laws e" "no_faults e" "meta_roundtrip e" "k \<noteq> []" "isL1Enabled c"
    and "now' \<le> now + (if ttl = 0 then L1DefaultTTL (config c) else ttl)"
  shows "\<exists>tier \<in> {TierL0, TierL1}.
    snd (Get e now' k (fst (Set e now k (Some v) ttl c))) = (Some v, tier, None)"
proof -
  define l0 l1 where "l0 = (if ttl = 0 then L0DefaultTTL (config c) else ttl)"
    and "l1 = (if ttl = 0 then L1DefaultTTL (config c) else ttl)"
  define c1 where "c1 = setL0 e now (prefixKey c k) v l0 c"
  obtain m where m: "dec_entry e m = Some \<lparr>ExpiresAt = now + l1, CreatedAt = now, ce_Size = int (length v)\<rparr>"
    and w: "writeL1 e now (prefixKey c k) v l1 c1 = (add_L1Size (int (length v))
      (c1\<lparr>disk := (disk c1)(l1FilePath e c1 (prefixKey c k) := Some v, l1MetaPath e c1 (prefixKey c k) := Some m)\<rparr>), None)"
    by (rule writeL1_stores [OF assms(2,3)])
  define c2 where "c2 = fst (writeL1 e now (prefixKey c k) v l1 c1)"
  have c2: "fst (Set e now k (Some v) ttl c) = c2"
    using assms(4,5) by (simp add: Set_def Let_def c2_def c1_def l0_def l1_def)
  have p: "prefixKey c2 = prefixKey c" "isL1Enabled c2" "isL0Enabled c2 = isL0Enabled c" "l0Cache c2 = l0Cache c1"
  proof -
    have "prefixKey c1 = prefixKey c" "isL1Enabled c1" "isL0Enabled c1 = isL0Enabled c"
      using assms(5) by (simp_all add: c1_def)
    then show "prefixKey c2 = prefixKey c" "isL1Enabled c2" "isL0Enabled c2 = isL0Enabled c"
      "l0Cache c2 = l0Cache c1"
      by (simp_all add: c2_def w)
  qed
  have "now' \<le> now + l1" using assms(6) by (simp add: l1_def)
  then have "readL1 e now' (prefixKey c k) (c2\<lparr>stats := s\<rparr>) = (c2\<lparr>stats := s\<rparr>, Inr v)" for s
    by (intro readL1_hit [OF assms(2) _ m]) (simp_all add: c2_def w)
  moreover have "x = v" if "isL0Enabled c" "rc_get e (the (l0Cache c2)) now' (prefixKey c k) = Some x" for x
    using rc_get_set [OF assms(1), of "the (l0Cache c)" now "prefixKey c k" v "int (length v)" l0 now' "prefixKey c k" x]
      that p(4) by (simp add: c1_def setL0_def)
  ultimately show ?thesis unfolding c2 using p assms(4) by (intro Get_from_disk) auto
qed

lemma deleteL1Files_disk:
  "no_faults e \<Longrightarrow> deleteL1Files e p c =
     (case disk c (l1FilePath e c p) of None \<Rightarrow> c | Some d \<Rightarrow> add_L1Size (- int (length d)) c)
       \<lparr>disk := (disk c)(l1FilePath e c p := None, l1MetaPath e c p := None)\<rparr>"
  by (simp add: deleteL1Files_def no_faults_def os_remove_def Let_def split: option.split)

lemma readL1_absent:
  "no_faults e \<Longrightarrow> disk c (l1MetaPath e c p) = None \<Longrightarrow> readL1 e now p c = (c, Inl ErrCacheMiss)"
  by (simp add: readL1_def no_faults_def)

lemma Get_absent:
  assumes "k \<noteq> []" "no_faults e" "l2Loader c = None" "fallbackClient c = None"
    and "\<And>r. l0Cache c = Some r \<Longrightarrow> rc_get e r now (prefixKey c k) = None"
    and "isL1Enabled c \<Longrightarrow> disk c (l1MetaPath e c (prefixKey c k)) = None"
  shows "snd (Get e now k c) = (None, TierMiss, Some ErrCacheMiss)"
proof -
  have "snd (get_l1 e now k (c\<lparr>stats := s\<rparr>)) = (None, TierMiss, Some ErrCacheMiss)" for s
    using assms readL1_absent [of e "c\<lparr>stats := s\<rparr>" "prefixKey c k" now]
    by (simp add: get_l1_def GetFromL1_def get_l2_def get_fallback_def)
  from this [of "stats c"] this [of "(stats c)\<lparr>L0Misses := L0Misses (stats c) + 1\<rparr>"]
  show ?thesis
    using assms(1,5) by (auto simp: Get_def GetFromL0_def isL0Enabled_def)
qed

theorem Get_after_Set_witness:
  "\<exists>tier \<in> {TierL0, TierL1}.
     snd (Get demo_cache_env 5 ''k'' (fst (Set demo_cache_env 0 ''k'' (Some ''v'') 7 (demo_client (Some []))))) =
       (Some ''v'', tier, None)"
  using Get_after_Set [of demo_cache_env "''k''" "demo_client (Some [])" 5 0 7 "''v''"]
  by (simp add: demo_laws demo_client_simps)

text \<open>After \<open>Delete\<close> (and so \<open>Invalidate\<close>) neither RAM nor disk answers for the key: a client
  without loader and fallback gets a miss, whatever the tiers held before.\<close>

theorem Get_after_Delete:
  assumes "ristretto_laws e" "no_faults e" "k \<noteq> []" "l2Loader c = None" "fallbackClient c = None"
    and "\<forall>r. l0Cache c = Some r \<longrightarrow> isL0Enabled c"
  shows "snd (Get e now k (fst (Invalidate e k c))) = (None, TierMiss, Some ErrCacheMiss)"
proof -
  define c1 where "c1 = (if isL0Enabled c then c\<lparr>l0Cache := Some (rc_del e (the (l0Cache c)) (prefixKey c k))\<rparr> else c)"
  define c2 where "c2 = (if isL1Enabled c1 then deleteL1Files e (prefixKey c k) c1 else c1)"
  have c2: "fst (Invalidate e k c) = c2"
    using assms(3) by (simp add: Invalidate_def Delete_def Let_def c2_def c1_def)
  have f1: "frame c2 = frame c" "l0Cache c2 = l0Cache c1" "isL1Enabled c2 = isL1Enabled c1"
    by (simp_all add: c2_def c1_def deleteL1Files_disk [OF assms(2)] split: option.split)
  have "rc_get e r now (prefixKey c k) = None" if "l0Cache c1 = Some r" for r
  proof -
    have "r = rc_del e (the (l0Cache c)) (prefixKey c k)"
      using that assms(6) by (auto simp: c1_def split: if_splits)
    then show ?thesis
      using rc_get_del [OF assms(1), of "the (l0Cache c)" "prefixKey c k" now "prefixKey c k"]
      by (cases "rc_get e r now (prefixKey c k)") simp_all
  qed
  moreover have "prefixKey c2 k = prefixKey c k" by (rule prefixKey_frame [OF f1(1)])
  moreover have "disk c2 (l1MetaPath e c2 (prefixKey c k)) = None" if "isL1Enabled c1"
    using that by (simp add: c2_def deleteL1Files_disk [OF assms(2)] split: option.split)
  moreover have "l2Loader c2 = None" "fallbackClient c2 = None"
    using assms(4,5) frame_eqD(3,4) [OF f1(1)] by simp_all
  ultimately show ?thesis
    unfolding c2 using assms(2,3) f1(2,3) by (intro Get_absent) simp_all
qed

theorem Get_after_Delete_witness:
  "snd (Get demo_cache_env 5 ''k'' (fst (Invalidate demo_cache_env ''k'' (demo_client (Some [(''assets:k'', ''v'')]))))) =
     (None, TierMiss, Some ErrCacheMiss)"
  using Get_after_Delete [of demo_cache_env "''k''" "demo_client (Some [(''assets:k'', ''v'')])" 5]
  by (simp add: demo_laws demo_client_simps)

text \<open>A write that fails half-way is served: when the second of two \<open>Set\<close> calls fails while it
  writes the data file, \<open>writeL1\<close> returns before it touches the metadata, which still vouches for
  the first value, so a later \<open>Get\<close> returns whatever bytes the failed write left (the length
  recorded in the metadata is not compared with the file).\<close>

theorem torn_overwrite_is_served:
  assumes "no_faults e" "meta_roundtrip e" "k \<noteq> []" "isL1Enabled c" "\<not> isL0Enabled c"
    and "0 < ttl" "now' \<le> now + ttl"
    and "io_left e v2 (Some v1) = Some torn"
    and "e2 = e\<lparr>io_fails := (\<lambda>op path. op = WriteFile \<and> path = l1FilePath e c (prefixKey c k))\<rparr>"
  shows "snd (Get e now' k (fst (Set e2 now2 k (Some v2) ttl (fst (Set e now k (Some v1) ttl c))))) =
    (Some torn, TierL1, None)"
proof -
  obtain m where m: "dec_entry e m = Some \<lparr>ExpiresAt = now + ttl, CreatedAt = now, ce_Size = int (length v1)\<rparr>"
    and w: "writeL1 e now (prefixKey c k) v1 ttl c = (add_L1Size (int (length v1))
      (c\<lparr>disk := (disk c)(l1FilePath e c (prefixKey c k) := Some v1, l1MetaPath e c (prefixKey c k) := Some m)\<rparr>), None)"
    by (rule writeL1_stores [OF assms(1,2)])
  define c1 where "c1 = fst (Set e now k (Some v1) ttl c)"
  have c1: "c1 = fst (writeL1 e now (prefixKey c k) v1 ttl c)"
    using assms(3-6) by (simp add: c1_def Set_def Let_def setL0_def)
  have paths: "l1FilePath e2 = l1FilePath e" "l1MetaPath e2 = l1MetaPath e" "l1_dir e2 = l1_dir e"
    unfolding assms(9) by (simp_all add: fun_eq_iff l1FilePath_def l1MetaPath_def l1_path_def l1_dir_def hashKey_def)
  have p: "prefixKey c1 = prefixKey c" "isL1Enabled c1" "\<not> isL0Enabled c1"
    "l1FilePath e c1 = l1FilePath e c" "l1MetaPath e c1 = l1MetaPath e c"
    "disk c1 = (disk c)(l1FilePath e c (prefixKey c k) := Some v1, l1MetaPath e c (prefixKey c k) := Some m)"
    using assms(4,5) by (simp_all add: c1 w)
  define c2 where "c2 = fst (Set e2 now2 k (Some v2) ttl c1)"
  have "c2 = c1\<lparr>disk := (disk c1)(l1FilePath e c (prefixKey c k) := Some torn)\<rparr>"
    using assms(3,6,8) p
    by (simp add: c2_def Set_def Let_def setL0_def writeL1_def paths os_write_def)
      (simp add: assms(9))
  then have "snd (Get e now' k c2) = (Some torn, TierL1, None)"
    using p assms(3,7) readL1_hit [OF assms(1) _ m, of c2 "prefixKey c k" now' torn]
    by (simp add: Get_def get_l1_def GetFromL1_def)
  then show ?thesis by (simp add: c2_def c1_def)
qed

definition torn_env :: "((string \<times> string) list, nat) cache_env" where
  "torn_env = demo_cache_env\<lparr>io_left := (\<lambda>data old. Some (take 1 data))\<rparr>"

lemma torn_env_laws: "no_faults torn_env" "meta_roundtrip torn_env"
  using demo_laws(3,4) by (simp_all add: torn_env_def no_faults_def meta_roundtrip_def)

theorem torn_overwrite_is_served_witness:
  "snd (Get torn_env 5 ''k''
      (fst (Set (torn_env\<lparr>io_fails := (\<lambda>op path. op = WriteFile \<and>
          path = l1FilePath torn_env (demo_client None) (prefixKey (demo_client None) ''k''))\<rparr>)
        1 ''k'' (Some ''new'') 7 (fst (Set torn_env 0 ''k'' (Some ''old'') 7 (demo_client None)))))) =
     (Some ''n'', TierL1, None)"
  by (rule torn_overwrite_is_served [OF torn_env_laws _ _ _ _ _ _ refl])
    (simp_all add: demo_client_simps torn_env_def)

end
