(* ===== verification/Nats_Message.thy ===== *)
theory Nats_Message
  imports Kit_Prelude "HOL-Library.AList"
begin

text \<open>
  Package \<open>infrastructure/nats\<close>, the message side: \<open>retry.go\<close> (the retry policy), \<open>dlq.go\<close> (the
  dead-letter envelope), \<open>publish.go\<close> (publishing) and \<open>message.go\<close> (the wrapper through which
  a handler acknowledges, retries or rejects). The JetStream server and its client library are a
  record of operations over an abstract broker state; the model keeps, beside that state, the log
  of the calls made and their results. Errors are texts; \<open>None\<close> is Go's nil.
\<close>

section \<open>retry.go\<close>

record RetryPolicy =
  rp_MaxRetries :: go_int
  rp_Backoff :: "duration list"
  rp_AckWait :: duration

definition second :: duration where "second = 1000000000"

definition DefaultRetryPolicy :: RetryPolicy where
  "DefaultRetryPolicy =
     \<lparr>rp_MaxRetries = 5,
      rp_Backoff = [1 * second, 5 * second, 30 * second, 120 * second, 600 * second],
      rp_AckWait = 300 * second\<rparr>"

definition GetBackoffDurations :: "RetryPolicy option \<Rightarrow> duration list" where
  "GetBackoffDurations p =
     (case p of
        None \<Rightarrow> rp_Backoff DefaultRetryPolicy
      | Some q \<Rightarrow> if rp_Backoff q = [] then rp_Backoff DefaultRetryPolicy else rp_Backoff q)"

definition GetDelayForAttempt :: "RetryPolicy option \<Rightarrow> go_int \<Rightarrow> duration" where
  "GetDelayForAttempt p deliveryCount =
     (let backoff = GetBackoffDurations p;
          index = (if deliveryCount - 1 < 0 then 0 else deliveryCount - 1);
          index' = (if index \<ge> int (length backoff) then int (length backoff) - 1 else index)
      in backoff ! nat index')"

definition GetMaxDeliver :: "RetryPolicy option \<Rightarrow> go_int" where
  "GetMaxDeliver p =
     (case p of None \<Rightarrow> 6 | Some q \<Rightarrow> if rp_MaxRetries q \<le> 0 then 6 else wrap64 (rp_MaxRetries q + 1))"

definition GetAckWait :: "RetryPolicy option \<Rightarrow> duration" where
  "GetAckWait p =
     (case p of None \<Rightarrow> 30 * second | Some q \<Rightarrow> if rp_AckWait q \<le> 0 then 30 * second else rp_AckWait q)"

definition ShouldRetry :: "RetryPolicy option \<Rightarrow> go_int \<Rightarrow> bool" where
  "ShouldRetry p deliveryCount =
     (case p of None \<Rightarrow> deliveryCount \<le> 5 | Some q \<Rightarrow> deliveryCount \<le> rp_MaxRetries q)"

section \<open>dlq.go\<close>

record DLQPolicy =
  dp_Stream :: string
  dp_Subject :: string
  dp_ServiceName :: string
  dp_ServiceType :: string
  dp_EventType :: string

definition DefaultDLQPolicy :: "string \<Rightarrow> DLQPolicy" where
  "DefaultDLQPolicy serviceName =
     \<lparr>dp_Stream = ''MAPEXOS-DLQ'', dp_Subject = ''dlq.mapexos'', dp_ServiceName = serviceName,
      dp_ServiceType = ''unknown'', dp_EventType = ''unknown''\<rparr>"

definition GetStream :: "DLQPolicy \<Rightarrow> string" where
  "GetStream p = (if dp_Stream p = [] then ''MAPEXOS-DLQ'' else dp_Stream p)"

definition GetSubject :: "DLQPolicy \<Rightarrow> string" where
  "GetSubject p = (if dp_Subject p \<noteq> [] then dp_Subject p else ''dlq.mapexos'')"

record DLQMessage =
  dm_ID :: string
  dm_EventTrackerId :: string
  dm_OrgId :: string
  dm_PathKey :: string
  dm_ServiceName :: string
  dm_ServiceType :: string
  dm_EventType :: string
  dm_OriginalSubject :: string
  dm_OriginalStream :: string
  dm_OriginalData :: string
  dm_OriginalHeaders :: "(string \<times> string) list"
  dm_LastError :: string
  dm_ErrorCount :: go_int
  dm_FirstDelivery :: int
  dm_LastDelivery :: int
  dm_TotalDeliveries :: go_int
  dm_ConsumerName :: string
  dm_SentToDLQAt :: int

text \<open>The two clock readings and the fresh identifier come from the environment.\<close>

definition NewDLQMessage ::
  "string \<Rightarrow> int \<Rightarrow> DLQPolicy \<Rightarrow> string \<Rightarrow> string \<Rightarrow> string \<Rightarrow> string \<Rightarrow> string \<Rightarrow> string \<Rightarrow> string \<Rightarrow>
     (string \<times> string) list \<Rightarrow> string \<Rightarrow> go_int \<Rightarrow> int \<Rightarrow> DLQMessage" where
  "NewDLQMessage uuid now dlqPolicy consumerName eventTrackerId orgId pathKey originalSubject
     originalStream originalData originalHeaders lastError deliveryCount firstDelivery =
     \<lparr>dm_ID = uuid, dm_EventTrackerId = eventTrackerId, dm_OrgId = orgId, dm_PathKey = pathKey,
      dm_ServiceName = dp_ServiceName dlqPolicy, dm_ServiceType = dp_ServiceType dlqPolicy,
      dm_EventType = dp_EventType dlqPolicy, dm_OriginalSubject = originalSubject,
      dm_OriginalStream = originalStream, dm_OriginalData = originalData,
      dm_OriginalHeaders = originalHeaders, dm_LastError = lastError,
      dm_ErrorCount = deliveryCount, dm_FirstDelivery = firstDelivery, dm_LastDelivery = now,
      dm_TotalDeliveries = deliveryCount, dm_ConsumerName = consumerName, dm_SentToDLQAt = now\<rparr>"

section \<open>The broker\<close>

type_synonym headers = "(string \<times> string list) list"

record nats_msg =
  nm_Subject :: string
  nm_Data :: string
  nm_Header :: headers

datatype ack_kind = DoAck | DoNak | DoNakDelay duration | DoTerm

datatype wait_ctx = GivenCtx nat | WithTimeout duration | Background

text \<open>How the wait for an asynchronous publish ends.\<close>

datatype async_outcome = AsyncRefused string | CtxDone string | FutureOk | FutureErr string

datatype log_entry =
    LPublish nats_msg "string option"
  | LCore nats_msg "string option"
  | LAck ack_kind nat "string option"

record 'b nats_st =
  broker :: 'b
  calls :: "log_entry list"

record 'b jetstream =
  js_publish :: "'b \<Rightarrow> nats_msg \<Rightarrow> 'b \<times> string option"
  js_publish_async :: "'b \<Rightarrow> nats_msg \<Rightarrow> wait_ctx \<Rightarrow> 'b \<times> async_outcome"
  js_core_publish :: "'b \<Rightarrow> nats_msg \<Rightarrow> 'b \<times> string option"
  js_flush :: "'b \<Rightarrow> 'b \<times> string option"
  js_ack :: "'b \<Rightarrow> ack_kind \<Rightarrow> nat \<Rightarrow> 'b \<times> string option"
  js_uuid :: "'b \<Rightarrow> string"
  js_now :: "'b \<Rightarrow> int"
  dlq_json :: "DLQMessage \<Rightarrow> string option"

definition call_ack :: "'b jetstream \<Rightarrow> ack_kind \<Rightarrow> nat \<Rightarrow> 'b nats_st \<Rightarrow> 'b nats_st \<times> string option" where
  "call_ack js kind n s =
     (case js_ack js (broker s) kind n of
        (b, r) \<Rightarrow> (s\<lparr>broker := b, calls := calls s @ [LAck kind n r]\<rparr>, r))"

section \<open>publish.go\<close>

record PushOptions =
  po_Ctx :: "nat option"
  po_Subject :: string
  po_Data :: string
  po_Headers :: "(string \<times> string) list"
  po_ExpectStream :: string
  po_MsgId :: string
  po_ExpectLastMsgId :: string
  po_Async :: bool
  po_Timeout :: duration

definition header_add :: "string \<Rightarrow> string \<Rightarrow> headers \<Rightarrow> headers" where
  "header_add k v h = AList.update k ((case map_of h k of None \<Rightarrow> [] | Some vs \<Rightarrow> vs) @ [v]) h"

definition set_header :: "string \<Rightarrow> string \<Rightarrow> headers \<Rightarrow> headers" where
  "set_header k v h = AList.update k [v] h"

definition set_nonempty :: "string \<Rightarrow> string \<Rightarrow> headers \<Rightarrow> headers" where
  "set_nonempty k v h = (if v \<noteq> [] then set_header k v h else h)"

definition push_msg :: "PushOptions \<Rightarrow> nats_msg" where
  "push_msg opts =
     \<lparr>nm_Subject = po_Subject opts, nm_Data = po_Data opts,
      nm_Header =
        set_nonempty ''Nats-Expected-Last-Msg-Id'' (po_ExpectLastMsgId opts)
          (set_nonempty ''Nats-Msg-Id'' (po_MsgId opts)
            (set_nonempty ''Nats-Expected-Stream'' (po_ExpectStream opts)
              (fold (\<lambda>(k, v). header_add k v) (po_Headers opts) [])))\<rparr>"

definition ErrMissingSubject :: string where
  "ErrMissingSubject = ''subject must be provided''"

definition Push :: "'b jetstream \<Rightarrow> PushOptions \<Rightarrow> 'b nats_st \<Rightarrow> 'b nats_st \<times> string option" where
  "Push js opts s =
     (if po_Subject opts = [] then (s, Some ErrMissingSubject)
      else
        let msg = push_msg opts in
        if po_Async opts then
          let ctx = (case po_Ctx opts of
                       Some c \<Rightarrow> GivenCtx c
                     | None \<Rightarrow> if po_Timeout opts > 0 then WithTimeout (po_Timeout opts) else Background)
          in case js_publish_async js (broker s) msg ctx of
               (b, outcome) \<Rightarrow>
                 let err = (case outcome of
                              AsyncRefused e \<Rightarrow> Some e | CtxDone e \<Rightarrow> Some e
                            | FutureOk \<Rightarrow> None | FutureErr e \<Rightarrow> Some e)
                 in (s\<lparr>broker := b, calls := calls s @ [LPublish msg err]\<rparr>, err)
        else
          case js_publish js (broker s) msg of
            (b, err) \<Rightarrow> (s\<lparr>broker := b, calls := calls s @ [LPublish msg err]\<rparr>, err))"

record PublishCoreOptions =
  pc_Subject :: string
  pc_Data :: string
  pc_MsgId :: string
  pc_Headers :: "(string \<times> string) list"

definition PublishCore ::
  "'b jetstream \<Rightarrow> PublishCoreOptions \<Rightarrow> 'b nats_st \<Rightarrow> 'b nats_st \<times> string option" where
  "PublishCore js opts s =
     (if pc_Subject opts = [] then (s, Some ErrMissingSubject)
      else
        let msg = \<lparr>nm_Subject = pc_Subject opts, nm_Data = pc_Data opts,
                   nm_Header = set_nonempty ''Nats-Msg-Id'' (pc_MsgId opts)
                     (fold (\<lambda>(k, v). header_add k v) (pc_Headers opts) [])\<rparr>
        in case js_core_publish js (broker s) msg of
             (b, err) \<Rightarrow> (s\<lparr>broker := b, calls := calls s @ [LCore msg err]\<rparr>, err))"

definition FlushConnection :: "'b jetstream \<Rightarrow> 'b nats_st \<Rightarrow> 'b nats_st \<times> string option" where
  "FlushConnection js s = (case js_flush js (broker s) of (b, err) \<Rightarrow> (s\<lparr>broker := b\<rparr>, err))"

section \<open>message.go\<close>

text \<open>The part of the consumer a message looks at.\<close>

record consumer_info =
  ci_RetryPolicy :: "RetryPolicy option"
  ci_DLQPolicy :: "DLQPolicy option"
  ci_Durable :: string
  ci_Stream :: string

text \<open>Test callbacks return the error they are scripted with.\<close>

record TestMessageCallbacks =
  OnAck :: "string option option"
  OnNack :: "(string option \<Rightarrow> string option) option"
  OnReject :: "(string \<Rightarrow> string option) option"

record Message =
  m_Data :: string
  m_Headers :: headers
  m_Subject :: string
  m_OrgId :: string
  m_PathKey :: string
  m_EventTrackerId :: string
  m_DeliveryCount :: go_int
  m_Timestamp :: int
  m_rawMsg :: nat
  m_consumer :: "consumer_info option"
  m_index :: nat
  m_testCallbacks :: "TestMessageCallbacks option"

definition NewTestMessage :: "string \<Rightarrow> nat \<Rightarrow> TestMessageCallbacks option \<Rightarrow> Message" where
  "NewTestMessage data index callbacks =
     \<lparr>m_Data = data, m_Headers = [], m_Subject = [], m_OrgId = [], m_PathKey = [],
      m_EventTrackerId = [], m_DeliveryCount = 0, m_Timestamp = 0, m_rawMsg = 0, m_consumer = None,
      m_index = index, m_testCallbacks = callbacks\<rparr>"

text \<open>A message as the library delivers it; its metadata may be unreadable.\<close>

record js_msg =
  jm_id :: nat
  jm_Data :: string
  jm_Headers :: headers
  jm_Subject :: string
  jm_Metadata :: "string + (64 word \<times> int)"

definition newMessage :: "js_msg \<Rightarrow> consumer_info \<Rightarrow> nat \<Rightarrow> string + Message" where
  "newMessage jMsg consumer index =
     (case jm_Metadata jMsg of
        Inl err \<Rightarrow> Inl (''failed to get message metadata: '' @ err)
      | Inr (numDelivered, timestamp) \<Rightarrow>
          Inr \<lparr>m_Data = jm_Data jMsg, m_Headers = jm_Headers jMsg, m_Subject = jm_Subject jMsg,
               m_OrgId = [], m_PathKey = [], m_EventTrackerId = [],
               m_DeliveryCount = sint numDelivered, m_Timestamp = timestamp,
               m_rawMsg = jm_id jMsg, m_consumer = Some consumer, m_index = index,
               m_testCallbacks = None\<rparr>)"

definition Ack :: "'b jetstream \<Rightarrow> Message \<Rightarrow> 'b nats_st \<Rightarrow> 'b nats_st \<times> string option" where
  "Ack js m s =
     (case m_testCallbacks m of
        Some cb \<Rightarrow> (s, case OnAck cb of Some err \<Rightarrow> err | None \<Rightarrow> None)
      | None \<Rightarrow> call_ack js DoAck (m_rawMsg m) s)"

text \<open>Go would dereference a nil consumer: \<open>no_consumer\<close> stands for that panic.\<close>

definition no_consumer :: "'b nats_st \<Rightarrow> 'b nats_st \<times> string option" where
  "no_consumer s = (s, Some ''panic: nil pointer dereference'')"

definition dlq_headers :: "headers \<Rightarrow> (string \<times> string) list" where
  "dlq_headers h = map (\<lambda>(k, v). (k, hd v)) (filter (\<lambda>(k, v). v \<noteq> []) h)"

definition dlq_envelope :: "'b jetstream \<Rightarrow> Message \<Rightarrow> consumer_info \<Rightarrow> DLQPolicy \<Rightarrow> string \<Rightarrow> 'b nats_st \<Rightarrow> DLQMessage" where
  "dlq_envelope js m c dlqPolicy errorMsg s =
     NewDLQMessage (js_uuid js (broker s)) (js_now js (broker s)) dlqPolicy (ci_Durable c)
       (m_EventTrackerId m) (m_OrgId m) (m_PathKey m) (m_Subject m) (ci_Stream c) (m_Data m)
       (dlq_headers (m_Headers m)) errorMsg (m_DeliveryCount m) (m_Timestamp m)"

definition dlq_push :: "DLQPolicy \<Rightarrow> string \<Rightarrow> PushOptions" where
  "dlq_push dlqPolicy data =
     \<lparr>po_Ctx = None, po_Subject = GetSubject dlqPolicy, po_Data = data, po_Headers = [],
      po_ExpectStream = [], po_MsgId = [], po_ExpectLastMsgId = [], po_Async = False, po_Timeout = 0\<rparr>"

definition sendToDLQAndAck ::
  "'b jetstream \<Rightarrow> Message \<Rightarrow> string \<Rightarrow> 'b nats_st \<Rightarrow> 'b nats_st \<times> string option" where
  "sendToDLQAndAck js m errorMsg s =
     (case m_consumer m of
        None \<Rightarrow> no_consumer s
      | Some c \<Rightarrow>
          (case ci_DLQPolicy c of
             None \<Rightarrow> call_ack js DoTerm (m_rawMsg m) s
           | Some dlqPolicy \<Rightarrow>
               (case dlq_json js (dlq_envelope js m c dlqPolicy errorMsg s) of
                  None \<Rightarrow> call_ack js DoNak (m_rawMsg m) s
                | Some data \<Rightarrow>
                    (case Push js (dlq_push dlqPolicy data) s of
                       (s1, Some err) \<Rightarrow> call_ack js DoNak (m_rawMsg m) s1
                     | (s1, None) \<Rightarrow> call_ack js DoAck (m_rawMsg m) s1))))"

definition Nack ::
  "'b jetstream \<Rightarrow> Message \<Rightarrow> string option \<Rightarrow> 'b nats_st \<Rightarrow> 'b nats_st \<times> string option" where
  "Nack js m err s =
     (case m_testCallbacks m of
        Some cb \<Rightarrow> (s, case OnNack cb of Some f \<Rightarrow> f err | None \<Rightarrow> None)
      | None \<Rightarrow>
          let errMsg = (case err of None \<Rightarrow> [] | Some e \<Rightarrow> e) in
          case m_consumer m of
            None \<Rightarrow> no_consumer s
          | Some c \<Rightarrow>
              (case ci_RetryPolicy c of
                 None \<Rightarrow> call_ack js DoNak (m_rawMsg m) s
               | Some policy \<Rightarrow>
                   if \<not> ShouldRetry (Some policy) (m_DeliveryCount m)
                   then sendToDLQAndAck js m errMsg s
                   else call_ack js (DoNakDelay (GetDelayForAttempt (Some policy) (m_DeliveryCount m)))
                          (m_rawMsg m) s))"

definition Reject ::
  "'b jetstream \<Rightarrow> Message \<Rightarrow> string \<Rightarrow> 'b nats_st \<Rightarrow> 'b nats_st \<times> string option" where
  "Reject js m reason s =
     (case m_testCallbacks m of
        Some cb \<Rightarrow> (s, case OnReject cb of Some f \<Rightarrow> f reason | None \<Rightarrow> None)
      | None \<Rightarrow> sendToDLQAndAck js m reason s)"

definition Term :: "'b jetstream \<Rightarrow> Message \<Rightarrow> 'b nats_st \<Rightarrow> 'b nats_st \<times> string option" where
  "Term js m s = call_ack js DoTerm (m_rawMsg m) s"

definition GetRetryInfo :: "Message \<Rightarrow> go_int \<times> go_int \<times> bool" where
  "GetRetryInfo m =
     (case m_consumer m of
        None \<Rightarrow> (m_DeliveryCount m, 0, False)
      | Some c \<Rightarrow>
          (case ci_RetryPolicy c of
             None \<Rightarrow> (m_DeliveryCount m, 0, False)
           | Some policy \<Rightarrow>
               (m_DeliveryCount m, rp_MaxRetries policy, m_DeliveryCount m \<ge> rp_MaxRetries policy)))"

section \<open>Properties\<close>

lemma GetBackoffDurations_not_Nil [simp]: "GetBackoffDurations p \<noteq> []"
  by (simp add: GetBackoffDurations_def DefaultRetryPolicy_def split: option.split)

lemma GetDelayForAttempt_clamped:
  "1 \<le> n \<Longrightarrow> GetDelayForAttempt p n =
     GetBackoffDurations p ! min (nat n - 1) (length (GetBackoffDurations p) - 1)"
  by (auto simp: GetDelayForAttempt_def Let_def min_def nat_diff_distrib le_nat_iff
      intro!: arg_cong [where f = "nth (GetBackoffDurations p)"])

lemma ShouldRetry_MaxDeliver:
  "0 < rp_MaxRetries p \<Longrightarrow> rp_MaxRetries p < 2 ^ 63 - 1 \<Longrightarrow> ShouldRetry (Some p) n \<longleftrightarrow> n < GetMaxDeliver (Some p)"
  by (simp add: ShouldRetry_def GetMaxDeliver_def wrap64_id)

lemma calls_call_ack [simp]:
  "calls (fst (call_ack js kind n s)) = calls s @ [LAck kind n (snd (js_ack js (broker s) kind n))]"
  by (simp add: call_ack_def split: prod.split)

text \<open>A message as a consumer hands it to a handler.\<close>

definition from_consumer :: "Message \<Rightarrow> consumer_info \<Rightarrow> bool" where
  "from_consumer m c \<longleftrightarrow> m_testCallbacks m = None \<and> m_consumer m = Some c"

lemma newMessage_from_consumer: "newMessage jMsg c i = Inr m \<Longrightarrow> from_consumer m c"
  by (auto simp: newMessage_def from_consumer_def split: sum.splits)

lemma Push_dlq:
  "Push js (dlq_push pol data) s =
     (let msg = push_msg (dlq_push pol data); (b, err) = js_publish js (broker s) msg
      in (s\<lparr>broker := b, calls := calls s @ [LPublish msg err]\<rparr>, err))"
  by (simp add: Push_def dlq_push_def GetSubject_def Let_def)

text \<open>What \<open>sendToDLQAndAck\<close> does to the log.\<close>

inductive dlq_trace :: "'b jetstream \<Rightarrow> Message \<Rightarrow> consumer_info \<Rightarrow> DLQMessage \<Rightarrow> log_entry list \<Rightarrow> bool"
  for js m c env where
  no_policy: "ci_DLQPolicy c = None \<Longrightarrow> dlq_trace js m c env [LAck DoTerm (m_rawMsg m) r]"
| unencodable: "ci_DLQPolicy c = Some pol \<Longrightarrow> dlq_json js env = None \<Longrightarrow>
    dlq_trace js m c env [LAck DoNak (m_rawMsg m) r]"
| unpublished: "ci_DLQPolicy c = Some pol \<Longrightarrow> dlq_json js env = Some data \<Longrightarrow>
    dlq_trace js m c env [LPublish (push_msg (dlq_push pol data)) (Some err), LAck DoNak (m_rawMsg m) r]"
| published: "ci_DLQPolicy c = Some pol \<Longrightarrow> dlq_json js env = Some data \<Longrightarrow>
    dlq_trace js m c env [LPublish (push_msg (dlq_push pol data)) None, LAck DoAck (m_rawMsg m) r]"

inductive_simps dlq_trace_iff: "dlq_trace js m c env tr"

lemma sendToDLQAndAck_trace:
  assumes "m_consumer m = Some c"
  shows "\<exists>tr. calls (fst (sendToDLQAndAck js m e s)) = calls s @ tr \<and>
    dlq_trace js m c (dlq_envelope js m c (the (ci_DLQPolicy c)) e s) tr"
proof (cases "ci_DLQPolicy c")
  case None
  then show ?thesis using assms by (auto simp: sendToDLQAndAck_def intro: dlq_trace.intros)
next
  case (Some pol)
  show ?thesis
  proof (cases "dlq_json js (dlq_envelope js m c pol e s)")
    case None
    then show ?thesis using assms Some by (auto simp: sendToDLQAndAck_def intro: dlq_trace.intros)
  next
    case (Some data)
    obtain b err where "js_publish js (broker s) (push_msg (dlq_push pol data)) = (b, err)" by fastforce
    with Some \<open>ci_DLQPolicy c = Some pol\<close> assms show ?thesis
      by (cases err) (auto simp: sendToDLQAndAck_def Push_dlq intro: dlq_trace.intros)
  qed
qed

lemma Reject_consumer: "from_consumer m c \<Longrightarrow> Reject js m e s = sendToDLQAndAck js m e s"
  by (simp add: Reject_def from_consumer_def)

lemma Nack_consumer:
  "from_consumer m c \<Longrightarrow> ci_RetryPolicy c = Some p \<Longrightarrow> Nack js m err s =
     (if ShouldRetry (Some p) (m_DeliveryCount m)
      then call_ack js (DoNakDelay (GetDelayForAttempt (Some p) (m_DeliveryCount m))) (m_rawMsg m) s
      else sendToDLQAndAck js m (case err of None \<Rightarrow> [] | Some e \<Rightarrow> e) s)"
  by (simp add: Nack_def from_consumer_def Let_def)

definition demo_js :: "(DLQMessage \<Rightarrow> string option) \<Rightarrow> nat jetstream" where
  "demo_js json =
     \<lparr>js_publish = (\<lambda>b msg. (b + 1, None)), js_publish_async = (\<lambda>b msg ctx. (b, FutureOk)),
      js_core_publish = (\<lambda>b msg. (b, None)), js_flush = (\<lambda>b. (b, None)),
      js_ack = (\<lambda>b kind n. (b, None)), js_uuid = (\<lambda>b. ''id''), js_now = int, dlq_json = json\<rparr>"

definition demo_info :: consumer_info where
  "demo_info = \<lparr>ci_RetryPolicy = Some DefaultRetryPolicy, ci_DLQPolicy = Some (DefaultDLQPolicy ''svc''),
     ci_Durable = ''worker'', ci_Stream = ''EVENTS''\<rparr>"

definition demo_msg :: "go_int \<Rightarrow> string \<Rightarrow> Message" where
  "demo_msg count data =
     \<lparr>m_Data = data, m_Headers = [], m_Subject = ''events.a'', m_OrgId = [], m_PathKey = [],
      m_EventTrackerId = [], m_DeliveryCount = count, m_Timestamp = 0, m_rawMsg = 7,
      m_consumer = Some demo_info, m_index = 0, m_testCallbacks = None\<rparr>"

lemma demo_from_consumer: "from_consumer (demo_msg n data) demo_info"
  by (simp add: from_consumer_def demo_msg_def)

text \<open>The retry schedule. Under a policy with a positive number of retries, the server delivers
  a message at most \<open>GetMaxDeliver\<close> times. At every delivery but the last, \<open>Nack\<close> makes one call: a
  negative acknowledgement with the backoff of that attempt (the last backoff once they run out).
  At the last delivery, a consumer with a dead-letter policy publishes the message, encoded with
  its error and delivery count, on the dead-letter subject, and acknowledges it once that
  publish has succeeded.\<close>

theorem Nack_schedule:
  assumes "from_consumer m c" "ci_RetryPolicy c = Some p" "ci_DLQPolicy c = Some pol"
    and "0 < rp_MaxRetries p" "rp_MaxRetries p < 2 ^ 63 - 1" "1 \<le> m_DeliveryCount m" "m_DeliveryCount m \<le> GetMaxDeliver (Some p)"
    and "\<forall>env. dlq_json js env \<noteq> None" "\<forall>b msg. snd (js_publish js b msg) = None"
  shows "\<exists>r. calls (fst (Nack js m err s)) = calls s @
    (if m_DeliveryCount m < GetMaxDeliver (Some p)
     then [LAck (DoNakDelay (GetBackoffDurations (Some p) !
             min (nat (m_DeliveryCount m) - 1) (length (GetBackoffDurations (Some p)) - 1))) (m_rawMsg m) r]
     else [LPublish \<lparr>nm_Subject = GetSubject pol,
             nm_Data = the (dlq_json js (dlq_envelope js m c pol (case err of None \<Rightarrow> [] | Some e \<Rightarrow> e) s)),
             nm_Header = []\<rparr> None,
           LAck DoAck (m_rawMsg m) r])"
proof (cases "m_DeliveryCount m < GetMaxDeliver (Some p)")
  case True
  with assms show ?thesis
    by (simp add: Nack_consumer ShouldRetry_MaxDeliver GetDelayForAttempt_clamped)
next
  case False
  let ?env = "dlq_envelope js m c pol (case err of None \<Rightarrow> [] | Some e \<Rightarrow> e) s"
  obtain data where data: "dlq_json js ?env = Some data" using assms(8) by fastforce
  have msg: "push_msg (dlq_push pol data) = \<lparr>nm_Subject = GetSubject pol, nm_Data = data, nm_Header = []\<rparr>"
    by (simp add: push_msg_def dlq_push_def set_nonempty_def)
  obtain b where b: "js_publish js (broker s) \<lparr>nm_Subject = GetSubject pol, nm_Data = data, nm_Header = []\<rparr> = (b, None)"
    using assms(9) by (metis prod.collapse)
  have "m_consumer m = Some c" using assms(1) by (simp add: from_consumer_def)
  with False assms data msg b show ?thesis
    by (simp add: Nack_consumer ShouldRetry_MaxDeliver sendToDLQAndAck_def Push_dlq Let_def)
qed

theorem Nack_schedule_witness:
  "\<exists>r. calls (fst (Nack (demo_js (\<lambda>dm. Some (dm_OriginalData dm))) (demo_msg 2 ''x'') (Some ''boom'')
       \<lparr>broker = 0, calls = []\<rparr>)) = [LAck (DoNakDelay (5 * second)) 7 r]"
  using Nack_schedule [OF demo_from_consumer, of DefaultRetryPolicy "DefaultDLQPolicy ''svc''" 2 "''x''"
      "demo_js (\<lambda>dm. Some (dm_OriginalData dm))" "Some ''boom''" "\<lparr>broker = 0, calls = []\<rparr>"]
  by (simp add: demo_info_def demo_msg_def demo_js_def DefaultRetryPolicy_def GetMaxDeliver_def wrap64_id
      GetBackoffDurations_def)

text \<open>A message its handler gives up on is settled once and never lost by the client: \<open>Reject\<close>,
  and \<open>Nack\<close> past its retries, end with exactly one acknowledgement call for the message; a positive
  one directly follows the successful publish of the dead letter that carries the payload, and the
  message is only terminated when the consumer has no dead-letter policy.\<close>

theorem no_ack_without_dead_letter:
  assumes "from_consumer m c"
    and "op = Reject js m reason \<or>
         (op = Nack js m (Some reason) \<and> ci_RetryPolicy c = Some p \<and> rp_MaxRetries p < m_DeliveryCount m)"
  shows "\<exists>before kind r. calls (fst (op s)) = calls s @ before @ [LAck kind (m_rawMsg m) r] \<and>
    (\<forall>k n q. LAck k n q \<notin> set before) \<and>
    (kind = DoAck \<longrightarrow>
       (\<exists>pol data. ci_DLQPolicy c = Some pol \<and>
          dlq_json js (dlq_envelope js m c pol reason s) = Some data \<and>
          before = [LPublish \<lparr>nm_Subject = GetSubject pol, nm_Data = data, nm_Header = []\<rparr> None])) \<and>
    (kind = DoTerm \<longrightarrow> ci_DLQPolicy c = None) \<and> kind \<in> {DoAck, DoNak, DoTerm}"
proof -
  have eq: "op s = sendToDLQAndAck js m reason s"
    using assms by (auto simp: Reject_consumer Nack_consumer ShouldRetry_def)
  have msg: "push_msg (dlq_push pol data) = \<lparr>nm_Subject = GetSubject pol, nm_Data = data, nm_Header = []\<rparr>"
    for pol data by (simp add: push_msg_def dlq_push_def set_nonempty_def)
  obtain tr where tr: "calls (fst (op s)) = calls s @ tr"
    "dlq_trace js m c (dlq_envelope js m c (the (ci_DLQPolicy c)) reason s) tr"
    using sendToDLQAndAck_trace assms(1) unfolding eq from_consumer_def by blast
  from tr(2) show ?thesis
    by cases (force simp: tr(1) msg intro: exI [where x = "[]"] exI [where x = "[_]"])+
qed

theorem no_ack_without_dead_letter_witness:
  "\<exists>before kind r. calls (fst (Reject (demo_js (\<lambda>dm. Some (dm_OriginalData dm))) (demo_msg 1 ''x'') ''bad''
       \<lparr>broker = 0, calls = []\<rparr>)) = before @ [LAck kind 7 r]"
proof -
  have "m_rawMsg (demo_msg 1 ''x'') = 7" by (simp add: demo_msg_def)
  moreover have "\<exists>before kind r. calls (fst (Reject (demo_js (\<lambda>dm. Some (dm_OriginalData dm))) (demo_msg 1 ''x'') ''bad''
       \<lparr>broker = 0, calls = []\<rparr>)) = calls \<lparr>broker = 0 :: nat, calls = []\<rparr> @ before @ [LAck kind (m_rawMsg (demo_msg 1 ''x'')) r]"
    using no_ack_without_dead_letter [OF demo_from_consumer disjI1 [OF refl],
        where s = "\<lparr>broker = 0 :: nat, calls = []\<rparr>"] by blast
  ultimately show ?thesis by simp
qed

text \<open>\<open>json.RawMessage\<close> only encodes valid JSON, so the envelope of a payload that is not JSON
  cannot be built: rejecting such a message never reaches the dead-letter queue, it is negatively
  acknowledged and will be delivered again.\<close>

theorem Reject_unencodable_naks:
  assumes "\<forall>env. dlq_json js env \<noteq> None \<longrightarrow> valid_json (dm_OriginalData env)"
    and "from_consumer m c" "ci_DLQPolicy c = Some pol" "\<not> valid_json (m_Data m)"
  shows "\<exists>r. calls (fst (Reject js m reason s)) = calls s @ [LAck DoNak (m_rawMsg m) r]"
proof -
  have "dm_OriginalData (dlq_envelope js m c pol reason s) = m_Data m"
    by (simp add: dlq_envelope_def NewDLQMessage_def)
  with assms(1,4) have "dlq_json js (dlq_envelope js m c pol reason s) = None" by fastforce
  with assms show ?thesis by (simp add: Reject_consumer sendToDLQAndAck_def from_consumer_def)
qed

theorem Reject_unencodable_naks_witness:
  "\<exists>r. calls (fst (Reject (demo_js (\<lambda>dm. if dm_OriginalData dm = ''{}'' then Some ''{}'' else None))
       (demo_msg 1 ''{'') ''bad JSON'' \<lparr>broker = 0, calls = []\<rparr>)) = [LAck DoNak 7 r]"
proof -
  let ?js = "demo_js (\<lambda>dm. if dm_OriginalData dm = ''{}'' then Some ''{}'' else None)"
  have "\<forall>env. dlq_json ?js env \<noteq> None \<longrightarrow> dm_OriginalData env = ''{}''"
    by (simp add: demo_js_def)
  moreover have "ci_DLQPolicy demo_info = Some (DefaultDLQPolicy ''svc'')" by (simp add: demo_info_def)
  moreover have "m_Data (demo_msg 1 ''{'') \<noteq> ''{}''" "m_rawMsg (demo_msg 1 ''{'') = 7"
    by (simp_all add: demo_msg_def)
  ultimately show ?thesis
    using Reject_unencodable_naks [OF _ demo_from_consumer, where js = ?js
        and valid_json = "\<lambda>d. d = ''{}''" and s = "\<lparr>broker = 0, calls = []\<rparr>"]
    by (metis append_Nil nats_st.select_convs(2))
qed

end
