(* ===== verification/Nats_Setup.thy ===== *)
theory Nats_Setup
  imports Nats_Message
begin

text \<open>
  Package \<open>infrastructure/nats\<close>, streams and consumers: \<open>createOrGetConsumer\<close> of
  \<open>subscribe.go\<close>, the stream operations of \<open>bus.go\<close> and \<open>consumer.go\<close>, and the key-value
  buckets of \<open>kv.go\<close>. The management interface of the server is a record of operations over
  an abstract broker state; what the code relies on is collected in \<open>admin_laws\<close> and \<open>kv_laws\<close>.
\<close>

section \<open>The management interface\<close>

datatype retention = WorkQueuePolicy | LimitsPolicy
datatype storage = FileStorage | MemoryStorage
datatype deliver_policy = DeliverAllPolicy | DeliverNewPolicy

record StreamConfig =
  sc_Name :: string
  sc_Description :: string
  sc_Subjects :: "string list"
  sc_Retention :: retention
  sc_Storage :: storage
  sc_Duplicates :: duration
  sc_MaxAge :: duration
  sc_MaxMsgs :: go_int
  sc_MaxBytes :: go_int
  sc_Replicas :: go_int
  sc_DiscardOld :: bool

record ConsumerConfig =
  cc_Durable :: string
  cc_Name :: string
  cc_AckExplicit :: bool
  cc_DeliverPolicy :: deliver_policy
  cc_FilterSubject :: string
  cc_MaxAckPending :: go_int
  cc_AckWait :: duration
  cc_MaxDeliver :: go_int
  cc_InactiveThreshold :: duration

datatype js_error = NotFoundErr | OtherErr string

record 'b js_admin =
  ja_Stream :: "'b \<Rightarrow> string \<Rightarrow> js_error + StreamConfig"
  ja_CreateStream :: "'b \<Rightarrow> StreamConfig \<Rightarrow> 'b \<times> string option"
  ja_UpdateStream :: "'b \<Rightarrow> StreamConfig \<Rightarrow> 'b \<times> string option"
  ja_CreateOrUpdateStream :: "'b \<Rightarrow> StreamConfig \<Rightarrow> 'b \<times> string option"
  ja_Consumer :: "'b \<Rightarrow> string \<Rightarrow> string \<Rightarrow> js_error + ConsumerConfig"
  ja_CreateOrUpdateConsumer :: "'b \<Rightarrow> string \<Rightarrow> ConsumerConfig \<Rightarrow> 'b \<times> string option"
  ja_DeleteConsumer :: "'b \<Rightarrow> string \<Rightarrow> string \<Rightarrow> 'b \<times> string option"
  ja_Purge :: "'b \<Rightarrow> string \<Rightarrow> string \<Rightarrow> 'b \<times> string option"
  ja_Info :: "'b \<Rightarrow> string \<Rightarrow> string \<Rightarrow> string + (string \<times> nat) list"
  ja_text :: "js_error \<Rightarrow> string"

section \<open>subscribe.go\<close>

record SubscribeOptions =
  so_Stream :: string
  so_Subject :: string
  so_Durable :: string
  so_AckWait :: duration
  so_MaxAckPending :: go_int
  so_Pull :: bool
  so_RetryPolicy :: "RetryPolicy option"
  so_DuplicateWindow :: duration

fun subject_found :: "string \<Rightarrow> string list \<Rightarrow> bool" where
  "subject_found subject [] = False"
| "subject_found subject (s # ss) =
     (if s = subject then True
      else if has_suffix s ''.>'' \<and> has_prefix subject (trim_suffix s ''>'') then True
      else subject_found subject ss)"

definition dup_window :: "SubscribeOptions \<Rightarrow> duration" where
  "dup_window opts = (if so_DuplicateWindow opts > 0 then so_DuplicateWindow opts else 900 * second)"

definition new_stream :: "SubscribeOptions \<Rightarrow> StreamConfig" where
  "new_stream opts =
     \<lparr>sc_Name = so_Stream opts, sc_Description = [], sc_Subjects = [so_Subject opts],
      sc_Retention = WorkQueuePolicy, sc_Storage = FileStorage, sc_Duplicates = dup_window opts,
      sc_MaxAge = 0, sc_MaxMsgs = 0, sc_MaxBytes = 0, sc_Replicas = 0, sc_DiscardOld = True\<rparr>"

definition updated_stream :: "SubscribeOptions \<Rightarrow> StreamConfig \<Rightarrow> StreamConfig" where
  "updated_stream opts cfg =
     cfg\<lparr>sc_Subjects := (if subject_found (so_Subject opts) (sc_Subjects cfg) then sc_Subjects cfg
                        else sc_Subjects cfg @ [so_Subject opts]),
         sc_Duplicates := dup_window opts\<rparr>"

definition ensure_stream :: "'b js_admin \<Rightarrow> SubscribeOptions \<Rightarrow> 'b \<Rightarrow> 'b \<times> string option" where
  "ensure_stream ja opts b =
     (case ja_Stream ja b (so_Stream opts) of
        Inl NotFoundErr \<Rightarrow>
          (case ja_CreateStream ja b (new_stream opts) of
             (b', None) \<Rightarrow> (b', None)
           | (b', Some err) \<Rightarrow> (b', Some (''failed to create stream '' @ so_Stream opts @ '': '' @ err)))
      | Inl (OtherErr err) \<Rightarrow> (b, Some (''failed to get stream '' @ so_Stream opts @ '': '' @ err))
      | Inr cfg \<Rightarrow>
          if \<not> subject_found (so_Subject opts) (sc_Subjects cfg) \<or> sc_Duplicates cfg \<noteq> dup_window opts
          then (fst (ja_UpdateStream ja b (updated_stream opts cfg)), None)
          else (b, None))"

definition new_consumer :: "SubscribeOptions \<Rightarrow> ConsumerConfig" where
  "new_consumer opts =
     (let wait = (if so_AckWait opts > 0 then so_AckWait opts else 0);
          base = \<lparr>cc_Durable = so_Durable opts, cc_Name = [], cc_AckExplicit = True,
                  cc_DeliverPolicy = DeliverAllPolicy, cc_FilterSubject = so_Subject opts,
                  cc_MaxAckPending = (if so_MaxAckPending opts > 0 then so_MaxAckPending opts else 128),
                  cc_AckWait = wait, cc_MaxDeliver = 0, cc_InactiveThreshold = 0\<rparr>
      in case so_RetryPolicy opts of
           None \<Rightarrow> base
         | Some p \<Rightarrow>
             base\<lparr>cc_MaxDeliver := GetMaxDeliver (Some p),
                  cc_AckWait := (if rp_AckWait p > 0 then GetAckWait (Some p) else wait)\<rparr>)"

text \<open>The recursion after a deletion is bounded by fuel; \<open>None\<close> is running out of it.\<close>

fun createOrGetConsumer ::
  "nat \<Rightarrow> 'b js_admin \<Rightarrow> SubscribeOptions \<Rightarrow> 'b \<Rightarrow> ('b \<times> string option) option" where
  "createOrGetConsumer 0 ja opts b = None"
| "createOrGetConsumer (Suc fuel) ja opts b =
     (if so_Stream opts = [] \<or> so_Durable opts = [] \<or> so_Subject opts = []
      then Some (b, Some ''stream, subject and durable name are required for subscriptions'')
      else
        case ensure_stream ja opts b of
          (b1, Some err) \<Rightarrow> Some (b1, Some err)
        | (b1, None) \<Rightarrow>
            (case ja_Consumer ja b1 (so_Stream opts) (so_Durable opts) of
               Inl NotFoundErr \<Rightarrow>
                 (case ja_CreateOrUpdateConsumer ja b1 (so_Stream opts) (new_consumer opts) of
                    (b2, None) \<Rightarrow> Some (b2, None)
                  | (b2, Some err) \<Rightarrow>
                      Some (b2, Some (''failed to create consumer '' @ so_Durable opts @
                        '' for stream '' @ so_Stream opts @ '': '' @ err)))
             | Inl (OtherErr err) \<Rightarrow>
                 Some (b1, Some (''failed to get consumer '' @ so_Durable opts @ '': '' @ err))
             | Inr cfg \<Rightarrow>
                 if so_MaxAckPending opts > 0 \<and> cc_MaxAckPending cfg \<noteq> so_MaxAckPending opts then
                   (case ja_DeleteConsumer ja b1 (so_Stream opts) (so_Durable opts) of
                      (b2, Some err) \<Rightarrow>
                        Some (b2, Some (''failed to delete mismatched consumer '' @ so_Durable opts @ '': '' @ err))
                    | (b2, None) \<Rightarrow> createOrGetConsumer fuel ja opts b2)
                 else Some (b1, None)))"

section \<open>Streams: bus.go and consumer.go\<close>

definition PurgeStreamSubject :: "'b js_admin \<Rightarrow> string \<Rightarrow> string \<Rightarrow> 'b \<Rightarrow> 'b \<times> string option" where
  "PurgeStreamSubject ja streamName subject b =
     (case ja_Stream ja b streamName of
        Inl NotFoundErr \<Rightarrow> (b, None)
      | Inl (OtherErr err) \<Rightarrow> (b, Some (''failed to get stream '' @ streamName @ '': '' @ err))
      | Inr cfg \<Rightarrow>
          (case ja_Purge ja b streamName subject of
             (b', None) \<Rightarrow> (b', None)
           | (b', Some err) \<Rightarrow>
               (b', Some (''failed to purge subject '' @ subject @ '' from stream '' @ streamName @ '': '' @ err))))"

definition HasPendingMessages :: "'b js_admin \<Rightarrow> string \<Rightarrow> string \<Rightarrow> 'b \<Rightarrow> string + bool" where
  "HasPendingMessages ja streamName subject b =
     (case ja_Stream ja b streamName of
        Inl NotFoundErr \<Rightarrow> Inr False
      | Inl (OtherErr err) \<Rightarrow> Inl (''failed to get stream '' @ streamName @ '': '' @ err)
      | Inr cfg \<Rightarrow>
          (case ja_Info ja b streamName subject of
             Inl err \<Rightarrow> Inl (''failed to get stream info for '' @ streamName @ '': '' @ err)
           | Inr subjects \<Rightarrow> Inr (list_ex (\<lambda>(s, count). count > 0) subjects)))"

definition EnsureStream :: "'b js_admin \<Rightarrow> StreamConfig \<Rightarrow> 'b \<Rightarrow> 'b \<times> string option" where
  "EnsureStream ja config b = ja_CreateOrUpdateStream ja b config"

record FanoutStreamConfig =
  fc_Name :: string
  fc_Subjects :: "string list"
  fc_MaxAge :: duration
  fc_MaxMsgs :: go_int
  fc_MaxBytes :: go_int
  fc_Description :: string

definition EnsureFanoutStream :: "'b js_admin \<Rightarrow> FanoutStreamConfig \<Rightarrow> 'b \<Rightarrow> 'b \<times> string option" where
  "EnsureFanoutStream ja config b =
     (if fc_Name config = [] then (b, Some ''stream name is required'')
      else if fc_Subjects config = [] then (b, Some ''at least one subject is required'')
      else
        case ja_Stream ja b (fc_Name config) of
          Inr cfg \<Rightarrow> (b, None)
        | Inl e \<Rightarrow>
            (case ja_CreateStream ja b
                \<lparr>sc_Name = fc_Name config, sc_Description = fc_Description config,
                 sc_Subjects = fc_Subjects config, sc_Retention = LimitsPolicy,
                 sc_Storage = MemoryStorage, sc_Duplicates = 0,
                 sc_MaxAge = (if fc_MaxAge config = 0 then 300 * second else fc_MaxAge config),
                 sc_MaxMsgs = (if fc_MaxMsgs config = 0 then 10000 else fc_MaxMsgs config),
                 sc_MaxBytes = (if fc_MaxBytes config = 0 then 10 * 1024 * 1024 else fc_MaxBytes config),
                 sc_Replicas = 1, sc_DiscardOld = True\<rparr> of
               (b', None) \<Rightarrow> (b', None)
             | (b', Some err) \<Rightarrow> (b', Some (''failed to create stream '' @ fc_Name config @ '': '' @ err))))"

section \<open>kv.go\<close>

datatype kv_lib_error = LibKeyNotFound | LibKeyExists | LibNoKeys | LibOther string

datatype kv_error = ErrKVKeyNotFound | ErrKVKeyExists | ErrKVCASConflict | KVWrapped string

record KVEntry =
  kv_Key :: string
  kv_Value :: string
  kv_Revision :: "64 word"
  kv_Created :: int

record KVConfig =
  kc_Bucket :: string
  kc_Description :: string
  kc_TTL :: duration
  kc_MaxBytes :: go_int
  kc_MaxValueSize :: go_int
  kc_History :: nat
  kc_Replicas :: go_int
  kc_Storage :: storage

text \<open>A bucket of the client library, over its state \<open>'k\<close>.\<close>

record 'k kv_lib =
  kl_Get :: "'k \<Rightarrow> string \<Rightarrow> kv_lib_error + KVEntry"
  kl_Put :: "'k \<Rightarrow> string \<Rightarrow> string \<Rightarrow> 'k \<times> (kv_lib_error + 64 word)"
  kl_Create :: "'k \<Rightarrow> string \<Rightarrow> string \<Rightarrow> 'k \<times> (kv_lib_error + 64 word)"
  kl_Update :: "'k \<Rightarrow> string \<Rightarrow> string \<Rightarrow> 64 word \<Rightarrow> 'k \<times> (kv_lib_error + 64 word)"
  kl_Delete :: "'k \<Rightarrow> string \<Rightarrow> 'k \<times> kv_lib_error option"
  kl_Purge :: "'k \<Rightarrow> string \<Rightarrow> 'k \<times> kv_lib_error option"
  kl_ListKeys :: "'k \<Rightarrow> kv_lib_error + string list"
  kl_Bucket :: "'k \<Rightarrow> string"
  kl_Open :: "KVConfig \<Rightarrow> kv_lib_error + 'k"

fun lib_text :: "kv_lib_error \<Rightarrow> string" where
  "lib_text LibKeyNotFound = ''nats: key not found''"
| "lib_text LibKeyExists = ''nats: key exists''"
| "lib_text LibNoKeys = ''nats: no keys found''"
| "lib_text (LibOther s) = s"

definition CreateKeyValue :: "'k kv_lib \<Rightarrow> KVConfig \<Rightarrow> kv_error + 'k" where
  "CreateKeyValue kl cfg =
     (if kc_Bucket cfg = [] then Inl (KVWrapped ''kv: bucket name is required'')
      else
        case kl_Open kl (cfg\<lparr>kc_Replicas := (if kc_Replicas cfg \<le> 0 then 1 else kc_Replicas cfg),
                            kc_History := (if kc_History cfg = 0 then 1 else kc_History cfg)\<rparr>) of
          Inl e \<Rightarrow> Inl (KVWrapped (''kv: failed to create bucket '' @ quoted (kc_Bucket cfg) @ '': '' @ lib_text e))
        | Inr k \<Rightarrow> Inr k)"

definition KV_Get :: "'k kv_lib \<Rightarrow> string \<Rightarrow> 'k \<Rightarrow> kv_error + KVEntry" where
  "KV_Get kl key k =
     (case kl_Get kl k key of
        Inl LibKeyNotFound \<Rightarrow> Inl ErrKVKeyNotFound
      | Inl e \<Rightarrow> Inl (KVWrapped (''kv: get '' @ quoted key @ '': '' @ lib_text e))
      | Inr entry \<Rightarrow> Inr entry)"

definition KV_Put :: "'k kv_lib \<Rightarrow> string \<Rightarrow> string \<Rightarrow> 'k \<Rightarrow> 'k \<times> (kv_error + 64 word)" where
  "KV_Put kl key value k =
     (case kl_Put kl k key value of
        (k', Inl e) \<Rightarrow> (k', Inl (KVWrapped (''kv: put '' @ quoted key @ '': '' @ lib_text e)))
      | (k', Inr revision) \<Rightarrow> (k', Inr revision))"

definition KV_Create :: "'k kv_lib \<Rightarrow> string \<Rightarrow> string \<Rightarrow> 'k \<Rightarrow> 'k \<times> (kv_error + 64 word)" where
  "KV_Create kl key value k =
     (case kl_Create kl k key value of
        (k', Inl LibKeyExists) \<Rightarrow> (k', Inl ErrKVKeyExists)
      | (k', Inl e) \<Rightarrow> (k', Inl (KVWrapped (''kv: create '' @ quoted key @ '': '' @ lib_text e)))
      | (k', Inr revision) \<Rightarrow> (k', Inr revision))"

definition KV_Update ::
  "'k kv_lib \<Rightarrow> string \<Rightarrow> string \<Rightarrow> 64 word \<Rightarrow> 'k \<Rightarrow> 'k \<times> (kv_error + 64 word)" where
  "KV_Update kl key value expectedRevision k =
     (case kl_Update kl k key value expectedRevision of
        (k', Inl LibKeyExists) \<Rightarrow> (k', Inl ErrKVCASConflict)
      | (k', Inl e) \<Rightarrow>
          (k', Inl (KVWrapped (''kv: update '' @ quoted key @ '' (rev='' @ itoa (uint expectedRevision) @ ''): '' @ lib_text e)))
      | (k', Inr revision) \<Rightarrow> (k', Inr revision))"

definition KV_Delete :: "'k kv_lib \<Rightarrow> string \<Rightarrow> 'k \<Rightarrow> 'k \<times> kv_error option" where
  "KV_Delete kl key k =
     (case kl_Delete kl k key of
        (k', Some LibKeyNotFound) \<Rightarrow> (k', Some ErrKVKeyNotFound)
      | (k', Some e) \<Rightarrow> (k', Some (KVWrapped (''kv: delete '' @ quoted key @ '': '' @ lib_text e)))
      | (k', None) \<Rightarrow> (k', None))"

definition KV_Purge :: "'k kv_lib \<Rightarrow> string \<Rightarrow> 'k \<Rightarrow> 'k \<times> kv_error option" where
  "KV_Purge kl key k =
     (case kl_Purge kl k key of
        (k', Some e) \<Rightarrow> (k', Some (KVWrapped (''kv: purge '' @ quoted key @ '': '' @ lib_text e)))
      | (k', None) \<Rightarrow> (k', None))"

definition KV_Keys :: "'k kv_lib \<Rightarrow> 'k \<Rightarrow> kv_error + string list" where
  "KV_Keys kl k =
     (case kl_ListKeys kl k of
        Inl LibNoKeys \<Rightarrow> Inr []
      | Inl e \<Rightarrow> Inl (KVWrapped (''kv: keys: '' @ lib_text e))
      | Inr keys \<Rightarrow> Inr keys)"

definition KV_Bucket :: "'k kv_lib \<Rightarrow> 'k \<Rightarrow> string" where
  "KV_Bucket kl k = kl_Bucket kl k"

section \<open>Properties\<close>

text \<open>What the setup code relies on: a successful deletion makes the consumer unknown, a successful
  creation makes it known with the configuration given, and stream operations keep consumers.\<close>

definition admin_laws :: "'b js_admin \<Rightarrow> bool" where
  "admin_laws ja \<longleftrightarrow>
     (\<forall>b st d b'. ja_DeleteConsumer ja b st d = (b', None) \<longrightarrow> ja_Consumer ja b' st d = Inl NotFoundErr) \<and>
     (\<forall>b st cfg b'. ja_CreateOrUpdateConsumer ja b st cfg = (b', None) \<longrightarrow>
        ja_Consumer ja b' st (cc_Durable cfg) = Inr cfg) \<and>
     (\<forall>b cfg st d. ja_Consumer ja (fst (ja_CreateStream ja b cfg)) st d = ja_Consumer ja b st d) \<and>
     (\<forall>b cfg st d. ja_Consumer ja (fst (ja_UpdateStream ja b cfg)) st d = ja_Consumer ja b st d)"

lemma ensure_stream_keeps_consumers:
  "admin_laws ja \<Longrightarrow> ensure_stream ja opts b = (b', r) \<Longrightarrow>
     ja_Consumer ja b' st d = ja_Consumer ja b st d"
  unfolding admin_laws_def ensure_stream_def
  by (auto split: sum.splits js_error.splits prod.splits option.splits if_splits) (metis fst_conv)+

lemma new_consumer_Durable [simp]: "cc_Durable (new_consumer opts) = so_Durable opts"
  by (simp add: new_consumer_def Let_def split: option.split)

lemma new_consumer_MaxAckPending:
  "cc_MaxAckPending (new_consumer opts) = (if so_MaxAckPending opts > 0 then so_MaxAckPending opts else 128)"
  by (simp add: new_consumer_def Let_def split: option.split)

text \<open>A consumer that the setup accepts.\<close>

definition consumer_fits :: "'b js_admin \<Rightarrow> SubscribeOptions \<Rightarrow> 'b \<Rightarrow> bool" where
  "consumer_fits ja opts b \<longleftrightarrow>
     (\<exists>cfg. ja_Consumer ja b (so_Stream opts) (so_Durable opts) = Inr cfg \<and>
        (so_MaxAckPending opts > 0 \<longrightarrow> cc_MaxAckPending cfg = so_MaxAckPending opts))"

lemma createOrGetConsumer_unknown:
  assumes "admin_laws ja" "ja_Consumer ja b (so_Stream opts) (so_Durable opts) = Inl NotFoundErr"
  shows "\<exists>b' r. createOrGetConsumer (Suc n) ja opts b = Some (b', r) \<and>
    (r = None \<longrightarrow> ja_Consumer ja b' (so_Stream opts) (so_Durable opts) = Inr (new_consumer opts))"
proof -
  obtain b1 r1 where e: "ensure_stream ja opts b = (b1, r1)" by fastforce
  have c: "ja_Consumer ja b1 (so_Stream opts) (so_Durable opts) = Inl NotFoundErr"
    using ensure_stream_keeps_consumers [OF assms(1) e] assms(2) by simp
  obtain b2 r2 where k: "ja_CreateOrUpdateConsumer ja b1 (so_Stream opts) (new_consumer opts) = (b2, r2)" by fastforce
  have "r2 = None \<Longrightarrow> ja_Consumer ja b2 (so_Stream opts) (so_Durable opts) = Inr (new_consumer opts)"
    using assms(1) k unfolding admin_laws_def by (metis new_consumer_Durable)
  with e c k show ?thesis by (cases r1; cases r2) auto
qed

lemma createOrGetConsumer_known:
  assumes "admin_laws ja" "ja_Consumer ja b (so_Stream opts) (so_Durable opts) = Inr cfg"
  shows "\<exists>b' r. createOrGetConsumer (Suc (Suc n)) ja opts b = Some (b', r) \<and>
    (r = None \<longrightarrow> consumer_fits ja opts b')"
proof -
  obtain b1 r1 where e: "ensure_stream ja opts b = (b1, r1)" by fastforce
  have c: "ja_Consumer ja b1 (so_Stream opts) (so_Durable opts) = Inr cfg"
    using ensure_stream_keeps_consumers [OF assms(1) e] assms(2) by simp
  obtain b2 r2 where d: "ja_DeleteConsumer ja b1 (so_Stream opts) (so_Durable opts) = (b2, r2)" by fastforce
  show ?thesis
  proof (cases "r2 = None")
    case True
    with d assms(1) have "ja_Consumer ja b2 (so_Stream opts) (so_Durable opts) = Inl NotFoundErr"
      unfolding admin_laws_def by blast
    from createOrGetConsumer_unknown [OF assms(1) this, of n] show ?thesis
      using e c d True new_consumer_MaxAckPending [of opts]
      by (cases r1) (auto simp: consumer_fits_def simp del: createOrGetConsumer.simps
          simp: createOrGetConsumer.simps(2) [of "Suc n"])
  next
    case False
    with e c d show ?thesis
      by (cases r1) (auto simp: consumer_fits_def simp del: createOrGetConsumer.simps
          simp: createOrGetConsumer.simps(2) [of "Suc n"])
  qed
qed


text \<open>A server with no streams that keeps its consumers in a map.\<close>

definition demo_admin :: "(string \<times> string \<Rightarrow> ConsumerConfig option) js_admin" where
  "demo_admin =
     \<lparr>ja_Stream = (\<lambda>b st. Inl NotFoundErr), ja_CreateStream = (\<lambda>b cfg. (b, None)),
      ja_UpdateStream = (\<lambda>b cfg. (b, None)), ja_CreateOrUpdateStream = (\<lambda>b cfg. (b, None)),
      ja_Consumer = (\<lambda>b st d. case b (st, d) of None \<Rightarrow> Inl NotFoundErr | Some cfg \<Rightarrow> Inr cfg),
      ja_CreateOrUpdateConsumer = (\<lambda>b st cfg. (b((st, cc_Durable cfg) := Some cfg), None)),
      ja_DeleteConsumer = (\<lambda>b st d. (b((st, d) := None), None)),
      ja_Purge = (\<lambda>b st sub. (b, None)), ja_Info = (\<lambda>b st sub. Inr []),
      ja_text = (\<lambda>e. case e of NotFoundErr \<Rightarrow> ''not found'' | OtherErr err \<Rightarrow> err)\<rparr>"

definition demo_sub :: SubscribeOptions where
  "demo_sub = \<lparr>so_Stream = ''EVENTS'', so_Subject = ''events.a'', so_Durable = ''worker'', so_AckWait = 0,
     so_MaxAckPending = 256, so_Pull = True, so_RetryPolicy = Some DefaultRetryPolicy,
     so_DuplicateWindow = 0\<rparr>"

lemma demo_admin_laws: "admin_laws demo_admin"
  by (simp add: admin_laws_def demo_admin_def)


text \<open>Subject matching of the NATS protocol, on tokens: \<open>*\<close> stands for one token, a final \<open>>\<close> for
  one or more.\<close>

fun nats_match :: "string list \<Rightarrow> string list \<Rightarrow> bool" where
  "nats_match [] [] = True"
| "nats_match (p # ps) (x # xs) =
     (p = ''>'' \<and> ps = [] \<or> (p = ''*'' \<or> p = x) \<and> nats_match ps xs)"
| "nats_match _ _ = False"

lemma nats_match_refl: "nats_match ts ts"
  by (induction ts) auto

lemma nats_match_tail: "xs \<noteq> [] \<Longrightarrow> nats_match (ts @ [''>'']) (ts @ xs)"
  by (induction ts) (auto simp: neq_Nil_conv)

lemma go_split_snoc_sep: "go_split c (s @ [c] @ t) = go_split c s @ go_split c t"
proof (induction s)
  case (Cons x xs)
  then show ?case by (cases "go_split c xs") (auto dest: arg_cong [where f = hd])
qed simp

text \<open>The stream update is skipped only when it may be: if the setup finds the subject among the
  subjects of an existing stream, by equality or under a pattern that ends in \<open>.>\<close>, then one of
  those subjects matches it by the rules of the protocol.\<close>

theorem subject_found_sound:
  assumes "subject_found subject subjects"
  shows "\<exists>s \<in> set subjects. nats_match (go_split (CHR ''.'') s) (go_split (CHR ''.'') subject)"
  using assms
proof (induction subjects)
  case (Cons s ss)
  consider "s = subject" | "has_suffix s ''.>''" "has_prefix subject (trim_suffix s ''>'')"
    | "subject_found subject ss"
    using Cons.prems by (auto split: if_splits)
  then show ?case
  proof cases
    case 2
    then obtain p where s: "s = p @ ''.>''" by (auto simp: has_suffix_iff suffix_def)
    then have "s = (p @ ''.'') @ ''>''" by simp
    then have "trim_suffix s ''>'' = p @ ''.''" by (simp only: trim_suffix_append)
    with 2(2) obtain rest where r: "subject = p @ [CHR ''.''] @ rest"
      by (auto simp: has_prefix_iff prefix_def)
    have "go_split (CHR ''.'') s = go_split (CHR ''.'') p @ [''>'']"
      using go_split_snoc_sep [of "CHR ''.''" p "''>''"] s by simp
    moreover have "go_split (CHR ''.'') subject = go_split (CHR ''.'') p @ go_split (CHR ''.'') rest"
      using go_split_snoc_sep r by metis
    ultimately show ?thesis using nats_match_tail [of "go_split (CHR ''.'') rest"] by simp
  qed (use Cons.IH nats_match_refl in auto)
qed simp

theorem subject_found_sound_witness:
  "\<exists>s \<in> set [''orders.>'', ''events.*'']. nats_match (go_split (CHR ''.'') s) (go_split (CHR ''.'') ''orders.eu.new'')"
  by (rule subject_found_sound) (code_simp)

definition kv_laws :: "'k kv_lib \<Rightarrow> bool" where
  "kv_laws kl \<longleftrightarrow>
     (\<forall>k key v r k' r'. kl_Update kl k key v r = (k', Inr r') \<longrightarrow>
        r' \<noteq> r \<and> (\<exists>t. kl_Get kl k' key = Inr \<lparr>kv_Key = key, kv_Value = v, kv_Revision = r', kv_Created = t\<rparr>)) \<and>
     (\<forall>k key v r entry. kl_Get kl k key = Inr entry \<longrightarrow> kv_Revision entry \<noteq> r \<longrightarrow>
        kl_Update kl k key v r = (k, Inl LibKeyExists))"


definition demo_kv :: "(string \<Rightarrow> (string \<times> 64 word) option) kv_lib" where
  "demo_kv =
     \<lparr>kl_Get = (\<lambda>k key. case k key of None \<Rightarrow> Inl LibKeyNotFound
                | Some (v, r) \<Rightarrow> Inr \<lparr>kv_Key = key, kv_Value = v, kv_Revision = r, kv_Created = 0\<rparr>),
      kl_Put = (\<lambda>k key v. (k(key \<mapsto> (v, 1)), Inr 1)),
      kl_Create = (\<lambda>k key v. (k(key \<mapsto> (v, 1)), Inr 1)),
      kl_Update = (\<lambda>k key v r. case k key of None \<Rightarrow> (k, Inl LibKeyNotFound)
                   | Some (v0, r0) \<Rightarrow> if r0 = r then (k(key \<mapsto> (v, r + 1)), Inr (r + 1)) else (k, Inl LibKeyExists)),
      kl_Delete = (\<lambda>k key. (k(key := None), None)), kl_Purge = (\<lambda>k key. (k(key := None), None)),
      kl_ListKeys = (\<lambda>k. Inl LibNoKeys), kl_Bucket = (\<lambda>k. ''b''), kl_Open = (\<lambda>cfg. Inr Map.empty)\<rparr>"

lemma demo_kv_laws: "kv_laws demo_kv"
  by (auto simp: kv_laws_def demo_kv_def split: option.splits prod.splits if_splits)


end
