(* ===== verification/Nats_Consumer.thy ===== *)
theory Nats_Consumer
  imports Nats_Setup "HOL-Library.Multiset"
begin

text \<open>
  Package \<open>infrastructure/nats\<close>, the consumers: \<open>consumer.go\<close> (starting a consumer, its fetch
  loop, the four ways of processing a batch, stopping, the consumer manager, fan-out) and the
  adapter \<open>bus.go\<close>. Handlers are user code: any transformation of the broker state and its log.
  The goroutines of a batch run in an arbitrary order that the caller passes; each runs its
  handler and settles its message as one step.
\<close>

section \<open>types.go\<close>

record BatchMessage =
  bm_Data :: string
  bm_Headers :: headers
  bm_msg :: "nat option"

definition BatchMessage_Ack :: "'b jetstream \<Rightarrow> BatchMessage \<Rightarrow> 'b nats_st \<Rightarrow> 'b nats_st \<times> string option" where
  "BatchMessage_Ack js m s = (case bm_msg m of None \<Rightarrow> (s, None) | Some n \<Rightarrow> call_ack js DoAck n s)"

definition BatchMessage_Nak :: "'b jetstream \<Rightarrow> BatchMessage \<Rightarrow> 'b nats_st \<Rightarrow> 'b nats_st \<times> string option" where
  "BatchMessage_Nak js m s = (case bm_msg m of None \<Rightarrow> (s, None) | Some n \<Rightarrow> call_ack js DoNak n s)"

record 'b ConsumerOptions =
  co_Stream :: string
  co_Subject :: string
  co_Durable :: string
  co_QueueGroup :: string
  co_BatchSize :: go_int
  co_FetchTimeout :: duration
  co_RetryDelay :: duration
  co_MaxRetries :: go_int
  co_StopOnError :: bool
  co_DuplicateWindow :: duration
  co_RetryPolicy :: "RetryPolicy option"
  co_DLQPolicy :: "DLQPolicy option"
  co_Handler :: "(string \<Rightarrow> nat \<Rightarrow> headers \<Rightarrow> 'b nats_st \<Rightarrow> 'b nats_st \<times> string option) option"
  co_BatchHandler :: "(BatchMessage list \<Rightarrow> 'b nats_st \<Rightarrow> 'b nats_st \<times> string option) option"
  co_MessageHandlerV2 :: "(Message \<Rightarrow> 'b nats_st \<Rightarrow> 'b nats_st) option"
  co_BatchMessageHandlerV2 :: "(Message list \<Rightarrow> 'b nats_st \<Rightarrow> 'b nats_st) option"

definition info_of :: "'b ConsumerOptions \<Rightarrow> consumer_info" where
  "info_of opts =
     \<lparr>ci_RetryPolicy = co_RetryPolicy opts, ci_DLQPolicy = co_DLQPolicy opts,
      ci_Durable = co_Durable opts, ci_Stream = co_Stream opts\<rparr>"

section \<open>Options\<close>

definition count_some :: "bool list \<Rightarrow> nat" where
  "count_some bs = length (filter id bs)"

definition handlerCount :: "'b ConsumerOptions \<Rightarrow> nat" where
  "handlerCount opts =
     count_some [co_Handler opts \<noteq> None, co_BatchHandler opts \<noteq> None,
       co_MessageHandlerV2 opts \<noteq> None, co_BatchMessageHandlerV2 opts \<noteq> None]"

definition validateConsumerOptions :: "'b ConsumerOptions \<Rightarrow> string option" where
  "validateConsumerOptions opts =
     (if co_Stream opts = [] then Some ''stream name is required''
      else if co_Subject opts = [] then Some ''subject is required''
      else if co_Durable opts = [] then Some ''durable name is required''
      else if handlerCount opts = 0
      then Some ''one of Handler, BatchHandler, MessageHandlerV2, or BatchMessageHandlerV2 is required''
      else if handlerCount opts > 1 then Some ''only one handler type can be set''
      else None)"

definition setConsumerDefaults :: "'b ConsumerOptions \<Rightarrow> 'b ConsumerOptions" where
  "setConsumerDefaults opts =
     opts\<lparr>co_BatchSize := (if co_BatchSize opts \<le> 0 then 50 else co_BatchSize opts),
          co_FetchTimeout := (if co_FetchTimeout opts = 0 then 1 * second else co_FetchTimeout opts),
          co_RetryDelay := (if co_RetryDelay opts = 0 then 2 * second else co_RetryDelay opts),
          co_MaxRetries := (if co_MaxRetries opts \<le> 0 then 5 else co_MaxRetries opts)\<rparr>"

section \<open>Processing a batch\<close>

definition settle :: "'b jetstream \<Rightarrow> string option \<Rightarrow> js_msg \<Rightarrow> 'b nats_st \<Rightarrow> 'b nats_st" where
  "settle js err msg s =
     fst (call_ack js (case err of None \<Rightarrow> DoAck | Some e \<Rightarrow> DoNak) (jm_id msg) s)"

definition batch_message :: "js_msg \<Rightarrow> BatchMessage" where
  "batch_message msg = \<lparr>bm_Data = jm_Data msg, bm_Headers = jm_Headers msg, bm_msg = Some (jm_id msg)\<rparr>"

definition processBatchBulk ::
  "'b jetstream \<Rightarrow> 'b ConsumerOptions \<Rightarrow> js_msg list \<Rightarrow> 'b nats_st \<Rightarrow> 'b nats_st" where
  "processBatchBulk js opts msgs s =
     (case the (co_BatchHandler opts) (map batch_message msgs) s of
        (s1, err) \<Rightarrow> fold (settle js err) msgs s1)"

text \<open>\<open>sched\<close> is the order in which the goroutines run: the messages with their indices.\<close>

type_synonym schedule = "(nat \<times> js_msg) list"

definition is_schedule :: "schedule \<Rightarrow> js_msg list \<Rightarrow> bool" where
  "is_schedule sched msgs \<longleftrightarrow> mset sched = mset (enumerate 0 msgs)"

definition processBatchParallel ::
  "'b jetstream \<Rightarrow> 'b ConsumerOptions \<Rightarrow> schedule \<Rightarrow> 'b nats_st \<Rightarrow> 'b nats_st" where
  "processBatchParallel js opts sched s =
     fold (\<lambda>(index, message) s.
         case the (co_Handler opts) (jm_Data message) index (jm_Headers message) s of
           (s1, err) \<Rightarrow> settle js err message s1) sched s"

fun wrap_messages :: "'b jetstream \<Rightarrow> 'b ConsumerOptions \<Rightarrow> schedule \<Rightarrow> 'b nats_st \<Rightarrow> 'b nats_st \<times> Message list" where
  "wrap_messages js opts [] s = (s, [])"
| "wrap_messages js opts ((i, msg) # rest) s =
     (case newMessage msg (info_of opts) i of
        Inl err \<Rightarrow> wrap_messages js opts rest (fst (call_ack js DoNak (jm_id msg) s))
      | Inr wrapped \<Rightarrow>
          (case wrap_messages js opts rest s of (s1, messages) \<Rightarrow> (s1, wrapped # messages)))"

definition processBatchV2 ::
  "'b jetstream \<Rightarrow> 'b ConsumerOptions \<Rightarrow> js_msg list \<Rightarrow> 'b nats_st \<Rightarrow> 'b nats_st" where
  "processBatchV2 js opts msgs s =
     (case wrap_messages js opts (enumerate 0 msgs) s of
        (s1, messages) \<Rightarrow>
          if messages = [] then s1 else the (co_BatchMessageHandlerV2 opts) messages s1)"

definition processParallelV2 ::
  "'b jetstream \<Rightarrow> 'b ConsumerOptions \<Rightarrow> schedule \<Rightarrow> 'b nats_st \<Rightarrow> 'b nats_st" where
  "processParallelV2 js opts sched s =
     fold (\<lambda>(index, jMsg) s.
         case newMessage jMsg (info_of opts) index of
           Inl err \<Rightarrow> fst (call_ack js DoNak (jm_id jMsg) s)
         | Inr wrapped \<Rightarrow> the (co_MessageHandlerV2 opts) wrapped s) sched s"

definition processBatch ::
  "'b jetstream \<Rightarrow> 'b ConsumerOptions \<Rightarrow> schedule \<Rightarrow> js_msg list \<Rightarrow> 'b nats_st \<Rightarrow> 'b nats_st" where
  "processBatch js opts sched msgs s =
     (if co_BatchMessageHandlerV2 opts \<noteq> None then processBatchV2 js opts msgs s
      else if co_MessageHandlerV2 opts \<noteq> None then processParallelV2 js opts sched s
      else if co_BatchHandler opts \<noteq> None then processBatchBulk js opts msgs s
      else processBatchParallel js opts sched s)"

section \<open>The fetch loop\<close>

datatype fetch_error = NoMessages | FetchFailure string

text \<open>\<open>asyncFetch\<close>: a refused fetch, or the messages of the batch and its final error.\<close>

record fetchResult =
  fr_msgs :: "js_msg list"
  fr_err :: "fetch_error option"

definition asyncFetch :: "fetch_error + js_msg list \<times> fetch_error option \<Rightarrow> fetchResult" where
  "asyncFetch reply =
     (case reply of
        Inl err \<Rightarrow> \<lparr>fr_msgs = [], fr_err = Some err\<rparr>
      | Inr (msgs, err) \<Rightarrow> \<lparr>fr_msgs = msgs, fr_err = err\<rparr>)"

record Consumer =
  stopped :: bool
  stopChan_closed :: bool

definition Stop :: "Consumer \<Rightarrow> Consumer" where
  "Stop c = (if stopped c then c else c\<lparr>stopped := True, stopChan_closed := True\<rparr>)"

definition IsRunning :: "Consumer \<Rightarrow> bool" where
  "IsRunning c \<longleftrightarrow> \<not> stopped c"

record 'b loop_st =
  ls_consumer :: Consumer
  ls_retryCount :: go_int
  ls_returned :: bool
  ls_slept :: "duration list"
  ls_nats :: "'b nats_st"

text \<open>One turn of the loop once \<open>select\<close> has received a fetch result.\<close>

definition on_fetch ::
  "'b jetstream \<Rightarrow> 'b ConsumerOptions \<Rightarrow> schedule \<Rightarrow> fetchResult \<Rightarrow> 'b loop_st \<Rightarrow> 'b loop_st" where
  "on_fetch js opts sched result l =
     (case fr_err result of
        Some NoMessages \<Rightarrow> l
      | Some (FetchFailure err) \<Rightarrow>
          (let retryCount = ls_retryCount l + 1 in
           if retryCount \<ge> co_MaxRetries opts then
             if co_StopOnError opts
             then l\<lparr>ls_retryCount := retryCount, ls_consumer := Stop (ls_consumer l), ls_returned := True\<rparr>
             else l\<lparr>ls_retryCount := 0, ls_slept := ls_slept l @ [co_RetryDelay opts]\<rparr>
           else l\<lparr>ls_retryCount := retryCount, ls_slept := ls_slept l @ [co_RetryDelay opts]\<rparr>)
      | None \<Rightarrow>
          (let l1 = l\<lparr>ls_retryCount := 0\<rparr> in
           if fr_msgs result = [] then l1
           else l1\<lparr>ls_nats := processBatch js opts sched (fr_msgs result) (ls_nats l)\<rparr>))"

text \<open>What can happen to a running consumer: the goroutine's \<open>select\<close> takes a fetch result, or the
  closed stop channel, and another goroutine may call \<open>Stop\<close> at any time.\<close>

datatype event = Fetched fetchResult schedule | StopSeen | StopCalled

inductive start_step ::
  "'b jetstream \<Rightarrow> 'b ConsumerOptions \<Rightarrow> 'b loop_st \<Rightarrow> event \<Rightarrow> 'b loop_st \<Rightarrow> bool" for js opts where
  fetched: "\<not> ls_returned l \<Longrightarrow> is_schedule sched (fr_msgs result) \<Longrightarrow>
    start_step js opts l (Fetched result sched) (on_fetch js opts sched result l)"
| stop_seen: "\<not> ls_returned l \<Longrightarrow> stopChan_closed (ls_consumer l) \<Longrightarrow>
    start_step js opts l StopSeen (l\<lparr>ls_returned := True\<rparr>)"
| stop_called: "start_step js opts l StopCalled (l\<lparr>ls_consumer := Stop (ls_consumer l)\<rparr>)"

inductive_cases start_stepE: "start_step js opts l ev l'"

inductive start ::
  "'b jetstream \<Rightarrow> 'b ConsumerOptions \<Rightarrow> 'b loop_st \<Rightarrow> event list \<Rightarrow> 'b loop_st \<Rightarrow> bool" for js opts l0 where
  begin_loop: "start js opts l0 [] l0"
| next_turn: "start js opts l0 evs l \<Longrightarrow> start_step js opts l ev l' \<Longrightarrow> start js opts l0 (evs @ [ev]) l'"

definition loop_init :: "'b nats_st \<Rightarrow> 'b loop_st" where
  "loop_init s =
     \<lparr>ls_consumer = \<lparr>stopped = False, stopChan_closed = False\<rparr>, ls_retryCount = 0,
      ls_returned = False, ls_slept = [], ls_nats = s\<rparr>"

section \<open>Starting consumers\<close>

definition maxAckPending :: "'b ConsumerOptions \<Rightarrow> go_int" where
  "maxAckPending opts = (let n = wrap64 (co_BatchSize opts * 2) in if n < 128 then 128 else n)"

definition subscribe_options :: "'b ConsumerOptions \<Rightarrow> SubscribeOptions" where
  "subscribe_options opts =
     \<lparr>so_Stream = co_Stream opts, so_Subject = co_Subject opts, so_Durable = co_Durable opts,
      so_AckWait = 0, so_MaxAckPending = maxAckPending opts, so_Pull = True,
      so_RetryPolicy = co_RetryPolicy opts, so_DuplicateWindow = co_DuplicateWindow opts\<rparr>"

text \<open>\<open>StartConsumer\<close> returns the options the goroutine \<open>start\<close> is launched with.\<close>

definition StartConsumer ::
  "nat \<Rightarrow> 'b js_admin \<Rightarrow> 'b ConsumerOptions \<Rightarrow> 'b \<Rightarrow> ('b \<times> (string + 'b ConsumerOptions)) option" where
  "StartConsumer fuel ja opts0 b =
     (case validateConsumerOptions opts0 of
        Some err \<Rightarrow> Some (b, Inl (''invalid consumer options: '' @ err))
      | None \<Rightarrow>
          (let opts = setConsumerDefaults opts0 in
           case createOrGetConsumer fuel ja (subscribe_options opts) b of
             None \<Rightarrow> None
           | Some (b1, Some err) \<Rightarrow> Some (b1, Inl (''failed to ensure stream/consumer: '' @ err))
           | Some (b1, None) \<Rightarrow>
               (case ja_Consumer ja b1 (co_Stream opts) (co_Durable opts) of
                  Inl e \<Rightarrow> Some (b1, Inl (''failed to get consumer handle '' @ co_Durable opts @ '': '' @ ja_text ja e))
                | Inr cfg \<Rightarrow> Some (b1, Inr opts))))"

section \<open>The consumer manager\<close>

text \<open>Consumers are shared objects: the manager maps names to references into a store.\<close>

record consumer_manager =
  cm_consumers :: "(string \<times> nat) list"
  cm_store :: "nat \<Rightarrow> Consumer"

definition NewConsumerManager :: "(nat \<Rightarrow> Consumer) \<Rightarrow> consumer_manager" where
  "NewConsumerManager store = \<lparr>cm_consumers = [], cm_store = store\<rparr>"

definition AddConsumer :: "string \<Rightarrow> nat \<Rightarrow> consumer_manager \<Rightarrow> consumer_manager" where
  "AddConsumer name c cm = cm\<lparr>cm_consumers := AList.update name c (cm_consumers cm)\<rparr>"

definition stop_ref :: "nat \<Rightarrow> consumer_manager \<Rightarrow> consumer_manager" where
  "stop_ref c cm = cm\<lparr>cm_store := (cm_store cm)(c := Stop (cm_store cm c))\<rparr>"

definition StopConsumer :: "string \<Rightarrow> consumer_manager \<Rightarrow> consumer_manager" where
  "StopConsumer name cm =
     (case map_of (cm_consumers cm) name of None \<Rightarrow> cm | Some c \<Rightarrow> stop_ref c cm)"

definition StopAll :: "consumer_manager \<Rightarrow> consumer_manager" where
  "StopAll cm = fold stop_ref (map snd (cm_consumers cm)) cm"

definition GetConsumer :: "string \<Rightarrow> consumer_manager \<Rightarrow> nat option" where
  "GetConsumer name cm = map_of (cm_consumers cm) name"

section \<open>Properties\<close>

subsection \<open>Settling a batch\<close>

definition verdict_of :: "string option \<Rightarrow> ack_kind" where
  "verdict_of err = (case err of None \<Rightarrow> DoAck | Some e \<Rightarrow> DoNak)"

fun settlement :: "log_entry \<Rightarrow> (ack_kind \<times> nat) list" where
  "settlement (LAck kind n r) = [(kind, n)]"
| "settlement _ = []"

definition settlements :: "log_entry list \<Rightarrow> (ack_kind \<times> nat) list" where
  "settlements es = concat (map settlement es)"

lemma settlements_append [simp]: "settlements (a @ b) = settlements a @ settlements b"
  by (simp add: settlements_def)

lemma settlements_settle [simp]:
  "settlements (calls (settle js err msg s)) = settlements (calls s) @ [(verdict_of err, jm_id msg)]"
  by (simp add: settle_def settlements_def verdict_of_def split: option.split)

text \<open>A handler that does not settle messages itself and whose verdict depends on the message only.\<close>

definition plain_handler ::
  "(string \<Rightarrow> nat \<Rightarrow> headers \<Rightarrow> 'b nats_st \<Rightarrow> 'b nats_st \<times> string option) \<Rightarrow>
     (string \<Rightarrow> nat \<Rightarrow> headers \<Rightarrow> string option) \<Rightarrow> bool" where
  "plain_handler h verdict \<longleftrightarrow>
     (\<forall>d i hs s. snd (h d i hs s) = verdict d i hs \<and>
        settlements (calls (fst (h d i hs s))) = settlements (calls s))"

lemma parallel_settlements:
  assumes "co_Handler opts = Some h" "plain_handler h verdict"
  shows "settlements (calls (processBatchParallel js opts sched s)) = settlements (calls s) @
    map (\<lambda>(i, m). (verdict_of (verdict (jm_Data m) i (jm_Headers m)), jm_id m)) sched"
proof (induction sched arbitrary: s)
  case (Cons im sched)
  obtain i m where im: "im = (i, m)" by fastforce
  obtain s1 err where h: "h (jm_Data m) i (jm_Headers m) s = (s1, err)" by fastforce
  have "err = verdict (jm_Data m) i (jm_Headers m)" "settlements (calls s1) = settlements (calls s)"
    using assms(2) h unfolding plain_handler_def by (metis snd_conv) (metis assms(2) fst_conv h plain_handler_def)
  with Cons.IH [of "settle js err m s1"] show ?case
    using h by (simp add: processBatchParallel_def assms(1) im)
qed (simp add: processBatchParallel_def)

text \<open>A consumer of one-handler options, for the witnesses.\<close>

definition demo_handler :: "string \<Rightarrow> nat \<Rightarrow> headers \<Rightarrow> nat nats_st \<Rightarrow> nat nats_st \<times> string option" where
  "demo_handler d i hs s = (s, if d = ''bad'' then Some ''boom'' else None)"

definition demo_opts :: "nat ConsumerOptions" where
  "demo_opts =
     \<lparr>co_Stream = ''EVENTS'', co_Subject = ''events.a'', co_Durable = ''worker'', co_QueueGroup = [],
      co_BatchSize = 0, co_FetchTimeout = 0, co_RetryDelay = 0, co_MaxRetries = 1, co_StopOnError = True,
      co_DuplicateWindow = 0, co_RetryPolicy = None, co_DLQPolicy = None, co_Handler = Some demo_handler,
      co_BatchHandler = None, co_MessageHandlerV2 = None, co_BatchMessageHandlerV2 = None\<rparr>"

definition demo_js_msg :: "nat \<Rightarrow> string \<Rightarrow> js_msg" where
  "demo_js_msg n d = \<lparr>jm_id = n, jm_Data = d, jm_Headers = [], jm_Subject = ''events.a'', jm_Metadata = Inr (1, 0)\<rparr>"

definition demo_json :: "nat jetstream" where
  "demo_json = demo_js (\<lambda>dm. Some [])"

text \<open>C21. In every interleaving of the goroutines of a batch, each message is settled exactly once: it is
  acknowledged when its handler returned nil and negatively acknowledged otherwise.\<close>

theorem batch_settles_each_once:
  assumes "validateConsumerOptions opts = None" "co_Handler opts = Some h" "plain_handler h verdict"
    and "is_schedule sched msgs"
  shows "mset (settlements (calls (processBatch js opts sched msgs s))) =
    mset (settlements (calls s)) +
    mset (map (\<lambda>(i, m). (verdict_of (verdict (jm_Data m) i (jm_Headers m)), jm_id m)) (enumerate 0 msgs))"
proof -
  have one: "co_BatchMessageHandlerV2 opts = None" "co_MessageHandlerV2 opts = None" "co_BatchHandler opts = None"
    using assms(1,2)
    by (auto simp: validateConsumerOptions_def handlerCount_def count_some_def split: if_splits)
  show ?thesis
    using assms(4) parallel_settlements [OF assms(2,3), of js sched s]
    by (simp add: processBatch_def one is_schedule_def)
qed

theorem batch_settles_each_once_witness:
  "mset (settlements (calls (processBatch demo_json demo_opts
       [(1, demo_js_msg 8 ''bad''), (0, demo_js_msg 7 ''ok'')] [demo_js_msg 7 ''ok'', demo_js_msg 8 ''bad'']
       \<lparr>broker = 0, calls = []\<rparr>))) = {#(DoAck, 7), (DoNak, 8)#}"
  by (subst batch_settles_each_once [where h = demo_handler
        and verdict = "\<lambda>d i hs. if d = ''bad'' then Some ''boom'' else None"])
    (simp_all add: validateConsumerOptions_def handlerCount_def count_some_def demo_opts_def
      plain_handler_def demo_handler_def is_schedule_def demo_js_msg_def settlements_def verdict_of_def)

subsection \<open>The loop\<close>

definition loop_inv :: "'b ConsumerOptions \<Rightarrow> 'b loop_st \<Rightarrow> bool" where
  "loop_inv opts l \<longleftrightarrow>
     (stopped (ls_consumer l) \<longleftrightarrow> stopChan_closed (ls_consumer l)) \<and>
     (ls_returned l \<longrightarrow> stopped (ls_consumer l)) \<and>
     0 \<le> ls_retryCount l \<and> (\<not> ls_returned l \<longrightarrow> ls_retryCount l < co_MaxRetries opts)"

lemma Stop_simps [simp]: "stopped (Stop c)" "stopped c = stopChan_closed c \<Longrightarrow> stopChan_closed (Stop c)"
  by (simp_all add: Stop_def)

lemma start_step_inv:
  "start_step js opts l ev l' \<Longrightarrow> 0 < co_MaxRetries opts \<Longrightarrow> loop_inv opts l \<Longrightarrow> loop_inv opts l'"
  by (erule start_stepE)
    (auto simp: loop_inv_def on_fetch_def Let_def Stop_def split: option.split fetch_error.split)

lemma setConsumerDefaults_MaxRetries: "0 < co_MaxRetries (setConsumerDefaults opts)"
  by (simp add: setConsumerDefaults_def)

lemma loop_inv_init: "0 < co_MaxRetries opts \<Longrightarrow> loop_inv opts (loop_init s)"
  by (simp add: loop_inv_def loop_init_def)

text \<open>Invariant of the consumer goroutine, over every interleaving with calls of \<open>Stop\<close>: the stop
  flag and the stop channel agree, the goroutine returns only after the consumer is stopped, and
  while it runs the count of fetch failures stays below the maximum.\<close>

theorem start_invariant:
  assumes "start js opts (loop_init s) evs l" "opts = setConsumerDefaults opts0"
  shows "loop_inv opts l"
proof -
  have pos: "0 < co_MaxRetries opts" using assms(2) by (simp add: setConsumerDefaults_MaxRetries)
  from assms(1) show ?thesis
    by (induction rule: start.induct) (use pos loop_inv_init start_step_inv in blast)+
qed

lemma demo_start:
  "start demo_json (setConsumerDefaults demo_opts) (loop_init \<lparr>broker = 0, calls = []\<rparr>)
     [Fetched \<lparr>fr_msgs = [], fr_err = Some (FetchFailure ''down'')\<rparr> []]
     (on_fetch demo_json (setConsumerDefaults demo_opts) []
        \<lparr>fr_msgs = [], fr_err = Some (FetchFailure ''down'')\<rparr> (loop_init \<lparr>broker = 0, calls = []\<rparr>))"
  using start.next_turn [OF start.begin_loop start_step.fetched, of _ "[]" _ demo_json "setConsumerDefaults demo_opts"]
  by (simp add: loop_init_def is_schedule_def)

theorem start_invariant_witness:
  "loop_inv (setConsumerDefaults demo_opts)
     (on_fetch demo_json (setConsumerDefaults demo_opts) []
        \<lparr>fr_msgs = [], fr_err = Some (FetchFailure ''down'')\<rparr> (loop_init \<lparr>broker = 0, calls = []\<rparr>))"
  by (rule start_invariant [OF demo_start refl])

fun is_failure :: "event \<Rightarrow> bool" where
  "is_failure (Fetched result sched) = (case fr_err result of Some (FetchFailure e) \<Rightarrow> True | _ \<Rightarrow> False)"
| "is_failure _ = False"

fun is_success :: "event \<Rightarrow> bool" where
  "is_success (Fetched result sched) = (fr_err result = None)"
| "is_success _ = False"

text \<open>The failures since the last successful fetch (empty polls neither count nor reset).\<close>

definition failures_since_success :: "event list \<Rightarrow> nat" where
  "failures_since_success evs = length (filter is_failure (takeWhile (\<lambda>ev. \<not> is_success ev) (rev evs)))"

lemma failures_snoc:
  "failures_since_success (evs @ [ev]) =
     (if is_success ev then 0 else (if is_failure ev then 1 else 0) + failures_since_success evs)"
  by (simp add: failures_since_success_def)

lemma start_counts:
  assumes "start js opts (loop_init s) evs l" "StopCalled \<notin> set evs" "co_StopOnError opts"
    and "0 < co_MaxRetries opts"
  shows "ls_retryCount l = int (failures_since_success evs) \<and> \<not> (stopped (ls_consumer l) \<and> \<not> ls_returned l) \<and>
    (stopChan_closed (ls_consumer l) \<longleftrightarrow> stopped (ls_consumer l)) \<and>
    (ls_returned l \<longleftrightarrow> ls_retryCount l \<ge> co_MaxRetries opts)"
  using assms
proof (induction rule: start.induct)
  case begin_loop
  then show ?case by (simp add: loop_init_def failures_since_success_def)
next
  case (next_turn evs l ev l')
  then have IH: "ls_retryCount l = int (failures_since_success evs)" "\<not> (stopped (ls_consumer l) \<and> \<not> ls_returned l)"
    "stopChan_closed (ls_consumer l) \<longleftrightarrow> stopped (ls_consumer l)"
    "ls_returned l \<longleftrightarrow> ls_retryCount l \<ge> co_MaxRetries opts" "ev \<noteq> StopCalled"
    by auto
  from next_turn.hyps(2) show ?case
  proof cases
    case (fetched sched result)
    then show ?thesis using IH next_turn.prems
      by (auto simp: on_fetch_def Let_def failures_snoc Stop_def split: option.split fetch_error.split)
  qed (use IH in auto)
qed

lemma start_never_gives_up:
  assumes "start js opts (loop_init s) evs l" "StopCalled \<notin> set evs" "\<not> co_StopOnError opts"
  shows "\<not> ls_returned l \<and> \<not> stopChan_closed (ls_consumer l)"
  using assms
proof (induction rule: start.induct)
  case (next_turn evs l ev l')
  from next_turn.hyps(2) next_turn show ?case
    by cases (auto simp: on_fetch_def Let_def split: option.split fetch_error.split)
qed (simp add: loop_init_def)

text \<open>C15. When nobody calls \<open>Stop\<close>, the goroutine ends exactly when \<open>StopOnError\<close> is set and
  \<open>MaxRetries\<close> fetches have failed since the last successful one; polls that find no message
  neither count as failures nor reset the count. Without \<open>StopOnError\<close> it never ends.\<close>

theorem start_gives_up_iff:
  assumes "start js opts (loop_init s) evs l" "StopCalled \<notin> set evs" "opts = setConsumerDefaults opts0"
  shows "ls_returned l \<longleftrightarrow>
    co_StopOnError opts \<and> int (failures_since_success evs) \<ge> co_MaxRetries opts"
  using start_counts [OF assms(1,2)] start_never_gives_up [OF assms(1,2)]
    setConsumerDefaults_MaxRetries [of opts0] assms(3)
  by (cases "co_StopOnError opts") auto

theorem start_gives_up_iff_witness:
  "ls_returned (on_fetch demo_json (setConsumerDefaults demo_opts) []
        \<lparr>fr_msgs = [], fr_err = Some (FetchFailure ''down'')\<rparr> (loop_init \<lparr>broker = 0, calls = []\<rparr>))"
  by (subst start_gives_up_iff [OF demo_start _ refl])
    (simp_all add: failures_since_success_def setConsumerDefaults_def demo_opts_def)

subsection \<open>Stopping\<close>

lemma fold_stop_ref:
  "cm_consumers (fold stop_ref cs cm) = cm_consumers cm \<and>
   cm_store (fold stop_ref cs cm) = (\<lambda>c. if c \<in> set cs then Stop (cm_store cm c) else cm_store cm c)"
  by (induction cs arbitrary: cm) (auto simp: stop_ref_def Stop_def fun_eq_iff)

text \<open>\<open>StopAll\<close> stops every consumer that \<open>GetConsumer\<close> returns, touches no other, and doing
  it again changes nothing, also when several names share a consumer.\<close>

theorem StopAll_stops_registered:
  "(\<forall>name c. GetConsumer name cm = Some c \<longrightarrow> \<not> IsRunning (cm_store (StopAll cm) c)) \<and>
   (\<forall>c. c \<notin> snd ` set (cm_consumers cm) \<longrightarrow> cm_store (StopAll cm) c = cm_store cm c) \<and>
   StopAll (StopAll cm) = StopAll cm"
proof -
  have "StopAll (StopAll cm) = StopAll cm"
    by (rule consumer_manager.equality) (auto simp: StopAll_def fold_stop_ref fun_eq_iff Stop_def)
  moreover have "c \<in> snd ` set (cm_consumers cm)" if "GetConsumer name cm = Some c" for name c
    using that map_of_SomeD by (force simp: GetConsumer_def)
  ultimately show ?thesis by (auto simp: StopAll_def fold_stop_ref IsRunning_def)
qed

theorem StopAll_stops_registered_witness:
  "\<not> IsRunning (cm_store (StopAll (AddConsumer ''b'' 0 (AddConsumer ''a'' 0
      (NewConsumerManager (\<lambda>c. \<lparr>stopped = False, stopChan_closed = False\<rparr>))))) 0)"
proof -
  have "GetConsumer ''a'' (AddConsumer ''b'' 0 (AddConsumer ''a'' 0
      (NewConsumerManager (\<lambda>c. \<lparr>stopped = False, stopChan_closed = False\<rparr>)))) = Some 0"
    by (simp add: GetConsumer_def AddConsumer_def NewConsumerManager_def)
  with StopAll_stops_registered show ?thesis by blast
qed

text \<open>\<open>Stop\<close> at the granularity of its memory accesses: it reads the flag, sets it and closes the
  channel, without a lock. Two goroutines that stop the same consumer can both pass the test, and
  the second one to close the channel panics.\<close>

datatype stop_pc = ReadFlag | SetFlag | CloseChan | StopDone | StopPanic

definition stop_micro :: "stop_pc \<Rightarrow> Consumer \<Rightarrow> stop_pc \<times> Consumer" where
  "stop_micro pc c =
     (case pc of
        ReadFlag \<Rightarrow> if stopped c then (StopDone, c) else (SetFlag, c)
      | SetFlag \<Rightarrow> (CloseChan, c\<lparr>stopped := True\<rparr>)
      | CloseChan \<Rightarrow> if stopChan_closed c then (StopPanic, c) else (StopDone, c\<lparr>stopChan_closed := True\<rparr>)
      | pc \<Rightarrow> (pc, c))"

fun stop_two :: "bool list \<Rightarrow> stop_pc \<times> stop_pc \<times> Consumer \<Rightarrow> stop_pc \<times> stop_pc \<times> Consumer" where
  "stop_two [] st = st"
| "stop_two (first # turns) (p, q, c) =
     (if first then (case stop_micro p c of (p', c') \<Rightarrow> stop_two turns (p', q, c'))
      else (case stop_micro q c of (q', c') \<Rightarrow> stop_two turns (p, q', c')))"

lemma stop_micro_alone:
  "stopChan_closed c \<longleftrightarrow> stopped c \<Longrightarrow>
     fst (stop_two [True, True, True] (ReadFlag, q, c)) = StopDone \<and>
     snd (snd (stop_two [True, True, True] (ReadFlag, q, c))) = Stop c"
  by (cases "stopped c") (simp_all add: stop_micro_def Stop_def)

lemma concurrent_Stop_panics:
  "stop_two [True, False, True, False, True, False] (ReadFlag, ReadFlag, \<lparr>stopped = False, stopChan_closed = False\<rparr>)
     = (StopDone, StopPanic, \<lparr>stopped = True, stopChan_closed = True\<rparr>)"
  by (simp add: stop_micro_def)

end
