(* ===== verification/Nats_Bus.thy ===== *)
theory Nats_Bus
  imports Nats_Consumer
begin

text \<open>
  \<open>bus.go\<close> and the fan-out of \<open>consumer.go\<close>: the adapter the services use. Payloads are
  encoded by \<open>json.Marshal\<close>, a parameter; so are the rendering of times and the random suffix of
  a fan-out consumer. A subscription is represented by the function the library calls on each
  message. Contexts are numbers; 0 is \<open>context.Background()\<close>.
\<close>

section \<open>Publishing\<close>

record 'n PublishConfig =
  pu_Ctx :: "nat option"
  pu_Subject :: string
  pu_Data :: "'n gval"
  pu_Headers :: "(string \<times> string) list"

definition Publish ::
  "('n gval \<Rightarrow> string + string) \<Rightarrow> 'b jetstream \<Rightarrow> 'n PublishConfig \<Rightarrow> 'b nats_st \<Rightarrow> 'b nats_st \<times> string option" where
  "Publish marshal js config s =
     (case marshal (pu_Data config) of
        Inl err \<Rightarrow> (s, Some (''failed to marshal payload: '' @ err))
      | Inr data \<Rightarrow>
          Push js \<lparr>po_Ctx = Some (case pu_Ctx config of None \<Rightarrow> 0 | Some c \<Rightarrow> c), po_Subject = pu_Subject config,
                   po_Data = data, po_Headers = pu_Headers config, po_ExpectStream = [], po_MsgId = [],
                   po_ExpectLastMsgId = [], po_Async = True, po_Timeout = 0\<rparr> s)"

definition PublishFanout ::
  "'b jetstream \<Rightarrow> nat option \<Rightarrow> string \<Rightarrow> string \<Rightarrow> 'b nats_st \<Rightarrow> 'b nats_st \<times> string option" where
  "PublishFanout js ctx subject data s =
     (if subject = [] then (s, Some ''subject is required'')
      else Push js \<lparr>po_Ctx = Some (case ctx of None \<Rightarrow> 0 | Some c \<Rightarrow> c), po_Subject = subject,
                    po_Data = data, po_Headers = [], po_ExpectStream = [], po_MsgId = [],
                    po_ExpectLastMsgId = [], po_Async = True, po_Timeout = 0\<rparr> s)"

record 'n PublishCoreConfig =
  pcc_Subject :: string
  pcc_Data :: "'n gval"
  pcc_MsgId :: string
  pcc_Headers :: "(string \<times> string) list"

definition Bus_PublishCore ::
  "('n gval \<Rightarrow> string + string) \<Rightarrow> 'b jetstream \<Rightarrow> 'n PublishCoreConfig \<Rightarrow> 'b nats_st \<Rightarrow> 'b nats_st \<times> string option" where
  "Bus_PublishCore marshal js config s =
     (case marshal (pcc_Data config) of
        Inl err \<Rightarrow> (s, Some (''failed to marshal payload: '' @ err))
      | Inr data \<Rightarrow>
          PublishCore js \<lparr>pc_Subject = pcc_Subject config, pc_Data = data, pc_MsgId = pcc_MsgId config,
            pc_Headers = pcc_Headers config\<rparr> s)"

record 'n ScheduledPublishConfig =
  sp_Subject :: string
  sp_TargetSubject :: string
  sp_ScheduleAt :: int
  sp_Data :: "'n gval"
  sp_MsgId :: string
  sp_Headers :: "(string \<times> string) list"

definition scheduled_msg :: "(int \<Rightarrow> string) \<Rightarrow> string \<Rightarrow> 'n ScheduledPublishConfig \<Rightarrow> nats_msg" where
  "scheduled_msg rfc3339 data config =
     \<lparr>nm_Subject = sp_Subject config, nm_Data = data,
      nm_Header =
        fold (\<lambda>(k, v). set_header k v) (sp_Headers config)
          (set_nonempty ''Nats-Msg-Id'' (sp_MsgId config)
            (set_header ''Nats-Schedule-Target'' (sp_TargetSubject config)
              (set_header ''Nats-Schedule'' (''@at '' @ rfc3339 (sp_ScheduleAt config)) [])))\<rparr>"

definition PublishScheduled ::
  "('n gval \<Rightarrow> string + string) \<Rightarrow> (int \<Rightarrow> string) \<Rightarrow> 'b jetstream \<Rightarrow> 'n ScheduledPublishConfig \<Rightarrow>
     'b nats_st \<Rightarrow> 'b nats_st \<times> string option" where
  "PublishScheduled marshal rfc3339 js config s =
     (if sp_Subject config = [] then (s, Some ''subject is required'')
      else if sp_TargetSubject config = [] then (s, Some ''target subject is required'')
      else
        case marshal (sp_Data config) of
          Inl err \<Rightarrow> (s, Some (''failed to marshal scheduled payload: '' @ err))
        | Inr data \<Rightarrow>
            (let msg = scheduled_msg rfc3339 data config in
             case js_publish js (broker s) msg of
               (b, err) \<Rightarrow>
                 (s\<lparr>broker := b, calls := calls s @ [LPublish msg err]\<rparr>,
                  case err of None \<Rightarrow> None
                  | Some e \<Rightarrow> Some (''failed to publish scheduled message: '' @ e))))"

section \<open>Subscribing\<close>

type_synonym 'b callback = "js_msg \<Rightarrow> 'b nats_st \<Rightarrow> 'b nats_st"

text \<open>The contexts of the configurations are left out: \<open>Subscribe\<close> and \<open>Fetch\<close> do not read them.\<close>

record 'b SubscribeConfig =
  su_Stream :: string
  su_Subject :: string
  su_Durable :: string
  su_Group :: string
  su_Handler :: "string \<Rightarrow> 'b nats_st \<Rightarrow> 'b nats_st \<times> string option"
  su_Pull :: bool

definition subscribe_callback :: "'b jetstream \<Rightarrow> 'b SubscribeConfig \<Rightarrow> 'b callback" where
  "subscribe_callback js config msg s =
     (case su_Handler config (jm_Data msg) s of (s1, err) \<Rightarrow> settle js err msg s1)"

text \<open>\<open>consume_err\<close> is the error of registering the callback with the library.\<close>

definition Subscribe ::
  "nat \<Rightarrow> 'b js_admin \<Rightarrow> 'b jetstream \<Rightarrow> string option \<Rightarrow> 'b SubscribeConfig \<Rightarrow> 'b \<Rightarrow>
     ('b \<times> (string + 'b callback)) option" where
  "Subscribe fuel ja js consume_err config b =
     (case createOrGetConsumer fuel ja
        \<lparr>so_Stream = su_Stream config, so_Subject = su_Subject config, so_Durable = su_Durable config,
         so_AckWait = 0, so_MaxAckPending = 0, so_Pull = su_Pull config, so_RetryPolicy = None,
         so_DuplicateWindow = 0\<rparr> b of
        None \<Rightarrow> None
      | Some (b1, Some err) \<Rightarrow> Some (b1, Inl (''failed to ensure stream/consumer: '' @ err))
      | Some (b1, None) \<Rightarrow>
          (case ja_Consumer ja b1 (su_Stream config) (su_Durable config) of
             Inl e \<Rightarrow> Some (b1, Inl (''failed to get consumer: '' @ ja_text ja e))
           | Inr cfg \<Rightarrow>
               (case consume_err of
                  Some err \<Rightarrow> Some (b1, Inl (''failed to start consume: '' @ err))
                | None \<Rightarrow> Some (b1, Inr (subscribe_callback js config)))))"

record 'b FetchConfig =
  fe_Stream :: string
  fe_Subject :: string
  fe_Durable :: string
  fe_Group :: string
  fe_BatchMode :: bool
  fe_BatchSize :: go_int
  fe_Timeout :: go_int
  fe_Handler :: "(string \<Rightarrow> 'b nats_st \<Rightarrow> 'b nats_st \<times> string option) option"
  fe_BatchHandler :: "(BatchMessage list \<Rightarrow> 'b nats_st \<Rightarrow> 'b nats_st \<times> string option) option"

definition fetch_options :: "'b FetchConfig \<Rightarrow> 'b ConsumerOptions" where
  "fetch_options config =
     \<lparr>co_Stream = fe_Stream config, co_Subject = fe_Subject config, co_Durable = fe_Durable config,
      co_QueueGroup = fe_Group config,
      co_BatchSize = (if fe_BatchSize config \<le> 0 then 10 else fe_BatchSize config),
      co_FetchTimeout = wrap64 ((if fe_Timeout config \<le> 0 then 5 else fe_Timeout config) * second),
      co_RetryDelay = 2 * second, co_MaxRetries = 3, co_StopOnError = False, co_DuplicateWindow = 0,
      co_RetryPolicy = None, co_DLQPolicy = None,
      co_Handler = (if fe_BatchHandler config \<noteq> None then None
                    else map_option (\<lambda>h d index hs. h d) (fe_Handler config)),
      co_BatchHandler = fe_BatchHandler config,
      co_MessageHandlerV2 = None, co_BatchMessageHandlerV2 = None\<rparr>"

datatype 'b fetch_run = Batches "'b ConsumerOptions" | Callback "'b callback"

definition Fetch ::
  "nat \<Rightarrow> 'b js_admin \<Rightarrow> 'b jetstream \<Rightarrow> string option \<Rightarrow> 'b FetchConfig \<Rightarrow> 'b \<Rightarrow>
     ('b \<times> (string + 'b fetch_run)) option" where
  "Fetch fuel ja js consume_err config b =
     (if fe_Handler config = None \<and> fe_BatchHandler config = None
      then Some (b, Inl ''either Handler or BatchHandler is required'')
      else if fe_Handler config \<noteq> None \<and> fe_BatchHandler config \<noteq> None
      then Some (b, Inl ''only one of Handler or BatchHandler can be set, not both'')
      else if fe_BatchMode config then
        (case StartConsumer fuel ja (fetch_options config) b of
           None \<Rightarrow> None
         | Some (b1, Inl err) \<Rightarrow> Some (b1, Inl err)
         | Some (b1, Inr opts) \<Rightarrow> Some (b1, Inr (Batches opts)))
      else if fe_BatchHandler config \<noteq> None
      then Some (b, Inl ''BatchHandler requires BatchMode to be true'')
      else
        case Subscribe fuel ja js consume_err
               \<lparr>su_Stream = fe_Stream config, su_Subject = fe_Subject config, su_Durable = fe_Durable config,
                su_Group = fe_Group config, su_Handler = the (fe_Handler config), su_Pull = True\<rparr> b of
          None \<Rightarrow> None
        | Some (b1, Inl err) \<Rightarrow> Some (b1, Inl err)
        | Some (b1, Inr cb) \<Rightarrow> Some (b1, Inr (Callback cb)))"

text \<open>The operations the bus hands to its client unchanged.\<close>

definition Bus_FlushConnection :: "'b jetstream \<Rightarrow> 'b nats_st \<Rightarrow> 'b nats_st \<times> string option" where
  "Bus_FlushConnection js s = FlushConnection js s"

definition Bus_StartConsumer ::
  "nat \<Rightarrow> 'b js_admin \<Rightarrow> 'b ConsumerOptions \<Rightarrow> 'b \<Rightarrow> ('b \<times> (string + 'b ConsumerOptions)) option" where
  "Bus_StartConsumer fuel ja opts b = StartConsumer fuel ja opts b"

section \<open>Fan-out\<close>

definition fanout_callback :: "'b jetstream \<Rightarrow> (string \<Rightarrow> 'b nats_st \<Rightarrow> 'b nats_st \<times> string option) \<Rightarrow> 'b callback" where
  "fanout_callback js handler msg s =
     fst (call_ack js DoAck (jm_id msg) (fst (handler (jm_Data msg) s)))"

definition SubscribeFanout ::
  "'b js_admin \<Rightarrow> 'b jetstream \<Rightarrow> string option \<Rightarrow> string + string \<Rightarrow> string \<Rightarrow> string \<Rightarrow> string \<Rightarrow> string \<Rightarrow>
     (string \<Rightarrow> 'b nats_st \<Rightarrow> 'b nats_st \<times> string option) option \<Rightarrow> 'b \<Rightarrow> 'b \<times> (string + 'b callback)" where
  "SubscribeFanout ja js consume_err sfx timestamp stream serviceName subject handler b =
     (case handler of
        None \<Rightarrow> (b, Inl ''handler is required'')
      | Some h \<Rightarrow>
          if serviceName = [] then (b, Inl ''service name is required'')
          else if subject = [] then (b, Inl ''subject is required'')
          else if stream = [] then (b, Inl ''stream is required'')
          else
            case sfx of
              Inl err \<Rightarrow> (b, Inl (''failed to generate fanout consumer suffix: '' @ err))
            | Inr randomSuffix \<Rightarrow>
                (case ja_CreateOrUpdateConsumer ja b stream
                    \<lparr>cc_Durable = [], cc_Name = serviceName @ ''-fanout-'' @ timestamp @ ''-'' @ randomSuffix,
                     cc_AckExplicit = True, cc_DeliverPolicy = DeliverNewPolicy, cc_FilterSubject = subject,
                     cc_MaxAckPending = 0, cc_AckWait = 30 * second, cc_MaxDeliver = 0,
                     cc_InactiveThreshold = 300 * second\<rparr> of
                   (b1, Some err) \<Rightarrow> (b1, Inl (''failed to create fanout consumer: '' @ err))
                 | (b1, None) \<Rightarrow>
                     (case consume_err of
                        Some err \<Rightarrow> (b1, Inl (''failed to create fanout subscription: '' @ err))
                      | None \<Rightarrow> (b1, Inr (fanout_callback js h)))))"

text \<open>A fan-out subscription and its \<open>sync.Once\<close>: \<open>fs_drained\<close> counts the drains.\<close>

record FanoutSubscription =
  fs_Sub :: "string option option"
  fs_cc :: bool
  fs_once :: bool
  fs_drained :: nat

definition FanoutSubscription_Stop :: "FanoutSubscription \<Rightarrow> FanoutSubscription \<times> string option" where
  "FanoutSubscription_Stop fs =
     (if fs_once fs then (fs, None)
      else if fs_cc fs then (fs\<lparr>fs_once := True, fs_drained := Suc (fs_drained fs)\<rparr>, None)
      else
        case fs_Sub fs of
          None \<Rightarrow> (fs\<lparr>fs_once := True\<rparr>, None)
        | Some err \<Rightarrow> (fs\<lparr>fs_once := True, fs_drained := Suc (fs_drained fs)\<rparr>, err))"

section \<open>Properties\<close>

text \<open>Stopping twice drains once.\<close>

lemma FanoutSubscription_Stop_once:
  "FanoutSubscription_Stop (fst (FanoutSubscription_Stop fs)) = (fst (FanoutSubscription_Stop fs), None)"
  by (simp add: FanoutSubscription_Stop_def split: option.split)

lemma fetch_options_valid:
  assumes "(fe_Handler config = None) \<noteq> (fe_BatchHandler config = None)"
    and "fe_Stream config \<noteq> []" "fe_Subject config \<noteq> []" "fe_Durable config \<noteq> []"
  shows "validateConsumerOptions (fetch_options config) = None"
  using assms
  by (auto simp: validateConsumerOptions_def fetch_options_def handlerCount_def count_some_def)

text \<open>A header of the caller replaces the schedule header of the same name.\<close>

lemma scheduled_header_overridden:
  "map_of (nm_Header (scheduled_msg rfc3339 data (config\<lparr>sp_Headers := [(''Nats-Schedule'', v)]\<rparr>))) ''Nats-Schedule''
     = Some [v]"
  by (simp add: scheduled_msg_def set_header_def update_conv')

end
