(* ===== verification/Mongo_Manager.thy ===== *)
theory Mongo_Manager
  imports Kit_Prelude "HOL-Library.Multiset"
begin

text \<open>
  Package \<open>infrastructure/mongodb/manager\<close>: the write-latency tracker of \<open>backpressure.go\<close> (a
  circular buffer, its P99 and the three modes), the transaction loops of \<open>internals.go\<close> and
  \<open>transaction.go\<close>, and the connection state of \<open>manager.go\<close> and \<open>methods.go\<close>. The driver's
  session is an abstract state with the operations the loops call; the calls and their
  outcomes are logged.
\<close>

section \<open>backpressure.go\<close>

datatype BackpressureMode = Normal | Throttled | Backoff

text \<open>The modes are the constants 0, 1 and 2 of an \<open>int32\<close>, ordered by the pressure they report.\<close>

definition mode_code :: "BackpressureMode \<Rightarrow> int" where
  "mode_code m = (case m of Normal \<Rightarrow> 0 | Throttled \<Rightarrow> 1 | Backoff \<Rightarrow> 2)"

instantiation BackpressureMode :: linorder
begin

definition less_eq_BackpressureMode :: "BackpressureMode \<Rightarrow> BackpressureMode \<Rightarrow> bool" where
  "m \<le> m' \<longleftrightarrow> mode_code m \<le> mode_code m'"

definition less_BackpressureMode :: "BackpressureMode \<Rightarrow> BackpressureMode \<Rightarrow> bool" where
  "m < m' \<longleftrightarrow> mode_code m < mode_code m'"

instance
  by standard (auto simp: less_eq_BackpressureMode_def less_BackpressureMode_def mode_code_def
      split: BackpressureMode.splits)

end

record tracker =
  samples :: "int list"
  buf_size :: nat
  pos :: "64 word"
  p99 :: int
  mode :: BackpressureMode
  thresholds :: "int \<times> int"
  aboveCount :: "nat \<times> nat"

definition newTracker :: "nat \<Rightarrow> int \<Rightarrow> int \<Rightarrow> tracker" where
  "newTracker n throttledMs backoffMs =
     \<lparr>samples = replicate n 0, buf_size = n, pos = 0, p99 = 0, mode = Normal,
      thresholds = (throttledMs, backoffMs), aboveCount = (0, 0)\<rparr>"

text \<open>\<open>Duration.Milliseconds\<close> truncates towards zero.\<close>

definition milliseconds :: "duration \<Rightarrow> int" where
  "milliseconds d = (if d < 0 then - ((- d) div 1000000) else d div 1000000)"

text \<open>The position counter is a 64-bit integer and Go's remainder keeps the sign of its first
  argument: \<open>None\<close> is the panic of an index out of range (or of an empty buffer).\<close>

definition record_sample :: "duration \<Rightarrow> tracker \<Rightarrow> tracker option" where
  "record_sample d t =
     (let pos' = pos t + 1; idx = sint (pos' - 1) in
      if idx < 0 \<and> \<bar>idx\<bar> mod int (buf_size t) \<noteq> 0 \<or> buf_size t = 0 then None
      else Some (t\<lparr>pos := pos',
             samples := (samples t)[nat (\<bar>idx\<bar> mod int (buf_size t)) := milliseconds d]\<rparr>))"

text \<open>The index \<open>ceil(0.99 n) - 1\<close> in exact arithmetic; the floating-point expression of the code
  gives the same number for every buffer of up to two million samples.\<close>

definition p99_index :: "nat \<Rightarrow> nat" where
  "p99_index n = (99 * n + 99) div 100 - 1"

definition windowsToTransition :: nat where
  "windowsToTransition = 3"

definition evaluate :: "int \<Rightarrow> tracker \<Rightarrow> tracker" where
  "evaluate p t =
     (case aboveCount t of (above0, above1) \<Rightarrow>
        if p \<ge> snd (thresholds t) then
          let t1 = t\<lparr>aboveCount := (above0 + 1, above1 + 1)\<rparr> in
          if above1 + 1 \<ge> windowsToTransition then t1\<lparr>mode := Backoff\<rparr> else t1
        else if p \<ge> fst (thresholds t) then
          let t1 = t\<lparr>aboveCount := (above0 + 1, 0)\<rparr> in
          if above0 + 1 \<ge> windowsToTransition then t1\<lparr>mode := Throttled\<rparr> else t1
        else t\<lparr>aboveCount := (0, 0), mode := Normal\<rparr>)"

definition computeP99 :: "tracker \<Rightarrow> tracker" where
  "computeP99 t =
     (let buf = filter (\<lambda>v. v > 0) (take (buf_size t) (samples t)) in
      if buf = [] then t\<lparr>p99 := 0, mode := Normal, aboveCount := (0, 0)\<rparr>
      else
        let p = sort buf ! p99_index (length buf) in evaluate p (t\<lparr>p99 := p\<rparr>))"

text \<open>The ticker loop of \<open>start\<close>: each tick computes on what the buffer holds by then.\<close>

definition start_ticks :: "int list list \<Rightarrow> tracker \<Rightarrow> tracker" where
  "start_ticks bufs t = fold (\<lambda>buf t. computeP99 (t\<lparr>samples := buf\<rparr>)) bufs t"

definition mode_String :: "BackpressureMode \<Rightarrow> string" where
  "mode_String m = (case m of Normal \<Rightarrow> ''Normal'' | Throttled \<Rightarrow> ''Throttled'' | Backoff \<Rightarrow> ''Backoff'')"

section \<open>manager.go, methods.go\<close>

record mongo_config =
  cfg_URI :: string
  cfg_Database :: string
  cfg_EnableMonitor :: bool
  cfg_MonitorInterval :: duration
  cfg_UseBsonD :: bool
  cfg_EnableBackpressure :: bool
  cfg_BackpressureWindow :: go_int
  cfg_ThrottledThresholdMs :: int
  cfg_BackoffThresholdMs :: int

record MongoManager =
  mm_client :: "nat option"
  mm_dbName :: string
  mm_isConnected :: bool
  mm_lastLatency :: int
  mm_cfg :: mongo_config
  mm_bp :: "tracker option"
  mm_bpRunning :: bool

text \<open>\<open>mongo.Connect\<close> yields a client or an error; \<open>Ping\<close> an error.\<close>

record mongo_env =
  me_connect :: "string \<Rightarrow> string + nat"
  me_ping :: "nat \<Rightarrow> string option"
  me_disconnect :: "nat \<Rightarrow> string option"

definition connect :: "mongo_env \<Rightarrow> MongoManager \<Rightarrow> MongoManager \<times> string option" where
  "connect env m =
     (case me_connect env (cfg_URI (mm_cfg m)) of
        Inl err \<Rightarrow> (m\<lparr>mm_isConnected := False\<rparr>, Some err)
      | Inr client \<Rightarrow>
          (case me_ping env client of
             Some err \<Rightarrow> (m\<lparr>mm_isConnected := False\<rparr>, Some err)
           | None \<Rightarrow> (m\<lparr>mm_client := Some client, mm_isConnected := True\<rparr>, None)))"

text \<open>One tick of the monitor, which pings and measures the round trip.\<close>

definition monitor_tick :: "mongo_env \<Rightarrow> duration \<Rightarrow> MongoManager \<Rightarrow> MongoManager" where
  "monitor_tick env latency m =
     (case mm_client m of
        None \<Rightarrow> m
      | Some client \<Rightarrow>
          (case me_ping env client of
             Some err \<Rightarrow> m\<lparr>mm_isConnected := False\<rparr>
           | None \<Rightarrow> m\<lparr>mm_lastLatency := milliseconds latency, mm_isConnected := True\<rparr>))"

definition ErrMissingURIOrDatabase :: string where
  "ErrMissingURIOrDatabase = ''URI and Database are required''"

definition or_default :: "int \<Rightarrow> int \<Rightarrow> int" where
  "or_default v d = (if v \<le> 0 then d else v)"

definition NewManager :: "mongo_env \<Rightarrow> mongo_config \<Rightarrow> string + MongoManager" where
  "NewManager env cfg =
     (if cfg_URI cfg = [] \<or> cfg_Database cfg = [] then Inl ErrMissingURIOrDatabase
      else
        case connect env \<lparr>mm_client = None, mm_dbName = cfg_Database cfg, mm_isConnected = False,
               mm_lastLatency = 0, mm_cfg = cfg, mm_bp = None, mm_bpRunning = False\<rparr> of
          (m, Some err) \<Rightarrow> Inl err
        | (m, None) \<Rightarrow>
            Inr (if cfg_EnableBackpressure cfg
                 then m\<lparr>mm_bp := Some (newTracker (nat (or_default (cfg_BackpressureWindow cfg) 1000))
                         (or_default (cfg_ThrottledThresholdMs cfg) 150)
                         (or_default (cfg_BackoffThresholdMs cfg) 500)),
                        mm_bpRunning := True\<rparr>
                 else m))"

definition CloseManager :: "mongo_env \<Rightarrow> MongoManager \<Rightarrow> MongoManager \<times> string option" where
  "CloseManager env m =
     (let m1 = m\<lparr>mm_bpRunning := False\<rparr> in
      case mm_client m of None \<Rightarrow> (m1, None) | Some client \<Rightarrow> (m1, me_disconnect env client))"

definition IsConnected :: "MongoManager \<Rightarrow> bool" where
  "IsConnected m = mm_isConnected m"

definition LastLatency :: "MongoManager \<Rightarrow> int" where
  "LastLatency m = mm_lastLatency m"

definition GetDatabaseName :: "MongoManager \<Rightarrow> string" where
  "GetDatabaseName m = mm_dbName m"

definition GetBackpressureMode :: "MongoManager \<Rightarrow> BackpressureMode" where
  "GetBackpressureMode m = (case mm_bp m of None \<Rightarrow> Normal | Some t \<Rightarrow> mode t)"

definition WriteP99 :: "MongoManager \<Rightarrow> int" where
  "WriteP99 m = (case mm_bp m of None \<Rightarrow> 0 | Some t \<Rightarrow> p99 t)"

definition RecordWriteLatency :: "duration \<Rightarrow> MongoManager \<Rightarrow> MongoManager option" where
  "RecordWriteLatency d m =
     (case mm_bp m of
        None \<Rightarrow> Some m
      | Some t \<Rightarrow> map_option (\<lambda>t'. m\<lparr>mm_bp := Some t'\<rparr>) (record_sample d t))"

section \<open>Transactions: internals.go, transaction.go\<close>

text \<open>An error is, through any wrapping, a command error or a write exception with labels, or
  carries none.\<close>

datatype mongo_error = CommandError string "string list" | WriteException string "string list" | PlainError string

definition hasErrorLabel :: "mongo_error \<Rightarrow> string \<Rightarrow> bool" where
  "hasErrorLabel err label =
     (case err of
        CommandError _ labels \<Rightarrow> label \<in> set labels
      | WriteException _ labels \<Rightarrow> label \<in> set labels
      | PlainError _ \<Rightarrow> False)"

definition Transient :: string where "Transient = ''TransientTransactionError''"
definition UnknownCommit :: string where "UnknownCommit = ''UnknownTransactionCommitResult''"

datatype 'r txn_call =
    CStart "mongo_error option"
  | CFunc "mongo_error + 'r"
  | CAbort "mongo_error option"
  | CCommit "mongo_error option"

text \<open>A session with the user's transaction function.\<close>

record ('s, 'r) session =
  se_start :: "'s \<Rightarrow> 's \<times> mongo_error option"
  se_func :: "'s \<Rightarrow> 's \<times> (mongo_error + 'r)"
  se_abort :: "'s \<Rightarrow> 's \<times> mongo_error option"
  se_commit :: "'s \<Rightarrow> 's \<times> mongo_error option"

type_synonym ('s, 'r) txn_st = "'s \<times> 'r txn_call list"

definition do_start :: "('s, 'r) session \<Rightarrow> ('s, 'r) txn_st \<Rightarrow> ('s, 'r) txn_st \<times> mongo_error option" where
  "do_start se st = (case se_start se (fst st) of (s, r) \<Rightarrow> ((s, snd st @ [CStart r]), r))"

definition do_func :: "('s, 'r) session \<Rightarrow> ('s, 'r) txn_st \<Rightarrow> ('s, 'r) txn_st \<times> (mongo_error + 'r)" where
  "do_func se st = (case se_func se (fst st) of (s, r) \<Rightarrow> ((s, snd st @ [CFunc r]), r))"

definition do_abort :: "('s, 'r) session \<Rightarrow> ('s, 'r) txn_st \<Rightarrow> ('s, 'r) txn_st" where
  "do_abort se st = (case se_abort se (fst st) of (s, r) \<Rightarrow> (s, snd st @ [CAbort r]))"

definition do_commit :: "('s, 'r) session \<Rightarrow> ('s, 'r) txn_st \<Rightarrow> ('s, 'r) txn_st \<times> mongo_error option" where
  "do_commit se st = (case se_commit se (fst st) of (s, r) \<Rightarrow> ((s, snd st @ [CCommit r]), r))"

text \<open>The loops may run for ever; \<open>None\<close> is not returning.\<close>

partial_function (option) commitWithRetryInternal ::
  "('s, 'r) session \<Rightarrow> ('s, 'r) txn_st \<Rightarrow> (('s, 'r) txn_st \<times> mongo_error option) option" where
  "commitWithRetryInternal se st =
     (case do_commit se st of
        (st1, None) \<Rightarrow> Some (st1, None)
      | (st1, Some err) \<Rightarrow>
          if hasErrorLabel err UnknownCommit then commitWithRetryInternal se st1
          else Some (st1, Some err))"

partial_function (option) runTransactionWithRetryInternal ::
  "('s, 'r) session \<Rightarrow> ('s, 'r) txn_st \<Rightarrow> (('s, 'r) txn_st \<times> (mongo_error + 'r)) option" where
  "runTransactionWithRetryInternal se st =
     (case do_start se st of
        (st1, Some err) \<Rightarrow> Some (st1, Inl err)
      | (st1, None) \<Rightarrow>
          (case do_func se st1 of
             (st2, Inl err) \<Rightarrow>
               (let st3 = do_abort se st2 in
                if hasErrorLabel err Transient then runTransactionWithRetryInternal se st3
                else Some (st3, Inl err))
           | (st2, Inr result) \<Rightarrow>
               Option.bind (commitWithRetryInternal se st2)
                 (\<lambda>(st3, r). case r of
                    None \<Rightarrow> Some (st3, Inr result)
                  | Some err \<Rightarrow>
                      if hasErrorLabel err Transient then runTransactionWithRetryInternal se st3
                      else Some (do_abort se st3, Inl err))))"

definition ErrNotConnected :: mongo_error where
  "ErrNotConnected = PlainError ''MongoDB client is not connected''"

text \<open>\<open>open_session\<close> is \<open>client.StartSession\<close>; the session is ended in every case.\<close>

definition NewSession :: "MongoManager \<Rightarrow> (nat \<Rightarrow> mongo_error + 's) \<Rightarrow> mongo_error + 's" where
  "NewSession m open_session =
     (if \<not> IsConnected m then Inl ErrNotConnected else open_session (the (mm_client m)))"

definition RunTransaction ::
  "MongoManager \<Rightarrow> (nat \<Rightarrow> mongo_error + 's) \<Rightarrow> ('s, 'r) session \<Rightarrow> ('r txn_call list \<times> (mongo_error + 'r)) option" where
  "RunTransaction m open_session se =
     (if \<not> IsConnected m then Some ([], Inl ErrNotConnected)
      else
        case NewSession m open_session of
          Inl err \<Rightarrow> Some ([], Inl err)
        | Inr s \<Rightarrow>
            map_option (\<lambda>(st, r). (snd st, r)) (runTransactionWithRetryInternal se (s, [])))"

definition RunTransactionWithClient ::
  "nat option \<Rightarrow> (nat \<Rightarrow> mongo_error + 's) \<Rightarrow> ('s, 'r) session \<Rightarrow> ('r txn_call list \<times> (mongo_error + 'r)) option" where
  "RunTransactionWithClient client open_session se =
     (case client of
        None \<Rightarrow> Some ([], Inl ErrNotConnected)
      | Some c \<Rightarrow>
          (case open_session c of
             Inl err \<Rightarrow> Some ([], Inl err)
           | Inr s \<Rightarrow>
               map_option (\<lambda>(st, r). (snd st, r)) (runTransactionWithRetryInternal se (s, []))))"

section \<open>The circular buffer\<close>

fun record_all :: "duration list \<Rightarrow> tracker \<Rightarrow> tracker option" where
  "record_all [] t = Some t"
| "record_all (d # ds) t = Option.bind (record_sample d t) (record_all ds)"

lemma record_all_append:
  "record_all (ds @ es) t = Option.bind (record_all ds t) (record_all es)"
  by (induction ds arbitrary: t) (auto split: Option.bind_split)

text \<open>After fewer than \<open>2\<^sup>6\<^sup>3\<close> samples the position is their number.\<close>

lemma record_at:
  assumes "pos t = of_nat n" "n < 2 ^ 63" "0 < buf_size t"
  shows "record_sample d t =
    Some (t\<lparr>pos := of_nat (Suc n), samples := (samples t)[n mod buf_size t := milliseconds d]\<rparr>)"
proof -
  have "sint (pos t + 1 - 1) = int n" using assms(1,2) by (simp add: sint_of_nat64)
  moreover have "nat (int n mod int (buf_size t)) = n mod buf_size t" by (simp flip: of_nat_mod)
  ultimately show ?thesis using assms(1,3) by (simp add: record_sample_def Let_def)
qed

lemma mod_same_window: "(i :: nat) < n \<Longrightarrow> n < i + m \<Longrightarrow> i mod m \<noteq> n mod m"
proof
  assume a: "i < n" "n < i + m" "i mod m = n mod m"
  then have "m dvd n - i" by (metis mod_eq_dvd_iff_nat less_imp_le)
  with a show False by (auto dest: dvd_imp_le)
qed

lemma record_all_state:
  assumes "0 < n" "length ds < 2 ^ 63"
  shows "\<exists>t. record_all ds (newTracker n a b) = Some t \<and> pos t = of_nat (length ds) \<and> buf_size t = n \<and>
    length (samples t) = n \<and>
    (\<forall>i < length ds. length ds \<le> i + n \<longrightarrow> samples t ! (i mod n) = milliseconds (ds ! i)) \<and>
    (\<forall>j < n. length ds \<le> j \<longrightarrow> samples t ! j = 0)"
  using assms(2)
proof (induction ds rule: rev_induct)
  case Nil
  then show ?case by (simp add: newTracker_def)
next
  case (snoc d ds)
  then obtain t where t: "record_all ds (newTracker n a b) = Some t" "pos t = of_nat (length ds)"
    "buf_size t = n" "length (samples t) = n"
    "\<forall>i < length ds. length ds \<le> i + n \<longrightarrow> samples t ! (i mod n) = milliseconds (ds ! i)"
    "\<forall>j < n. length ds \<le> j \<longrightarrow> samples t ! j = 0" by auto
  have rec: "record_sample d t = Some (t\<lparr>pos := of_nat (Suc (length ds)),
      samples := (samples t)[length ds mod n := milliseconds d]\<rparr>)"
    using record_at [OF t(2)] snoc.prems assms(1) t(3) by simp
  have "(samples t)[length ds mod n := milliseconds d] ! (i mod n) = milliseconds ((ds @ [d]) ! i)"
    if "i < Suc (length ds)" "Suc (length ds) \<le> i + n" for i
  proof (cases "i = length ds")
    case False
    with that have "i mod n \<noteq> length ds mod n" by (intro mod_same_window) auto
    with that False t(5) show ?thesis by (simp add: nth_append)
  qed (use assms(1) t(4) in simp)
  moreover have "(samples t)[length ds mod n := milliseconds d] ! j = 0" if "j < n" "Suc (length ds) \<le> j" for j
    using that t(6) by simp
  ultimately show ?case using t rec by (auto simp: record_all_append)
qed

text \<open>The latency buffer is a faithful sliding window: for any positive capacity and fewer than
  \<open>2\<^sup>6\<^sup>3\<close> samples no recording panics, and the buffer holds exactly the latencies, in milliseconds, of
  the last \<open>n\<close> writes (slot \<open>i mod n\<close> for write \<open>i\<close>), with zeros where nothing has been written yet.\<close>

theorem record_keeps_last_window:
  assumes "0 < n" "length ds < 2 ^ 63"
  shows "\<exists>t. record_all ds (newTracker n a b) = Some t \<and> length (samples t) = n \<and>
    (\<forall>i < length ds. length ds \<le> i + n \<longrightarrow> samples t ! (i mod n) = milliseconds (ds ! i)) \<and>
    (\<forall>j < n. length ds \<le> j \<longrightarrow> samples t ! j = 0)"
  using record_all_state [OF assms, of a b] by blast

theorem record_keeps_last_window_witness:
  "\<exists>t. record_all [5000000, 7000000, 9000000] (newTracker 2 150 500) = Some t \<and> length (samples t) = 2 \<and>
    samples t ! 0 = 9 \<and> samples t ! 1 = 7"
proof -
  have "\<exists>t. record_all [5000000, 7000000, 9000000] (newTracker 2 150 500) = Some t \<and> length (samples t) = 2 \<and>
    (\<forall>i < 3. 3 \<le> i + 2 \<longrightarrow> samples t ! (i mod 2) = milliseconds ([5000000, 7000000, 9000000] ! i))"
    using record_keeps_last_window [of 2 "[5000000, 7000000, 9000000]" 150 500]
    by (auto simp: numeral_3_eq_3)
  then obtain t where t: "record_all [5000000, 7000000, 9000000] (newTracker 2 150 500) = Some t"
    "length (samples t) = 2"
    "\<forall>i < 3. 3 \<le> i + 2 \<longrightarrow> samples t ! (i mod 2) = milliseconds ([5000000, 7000000, 9000000] ! i)" by blast
  from t(3) [rule_format, of 1] t(3) [rule_format, of 2] t(1,2) show ?thesis
    by (auto simp: milliseconds_def)
qed

section \<open>The percentile\<close>

lemma sorted_filter_le_nth:
  assumes "sorted xs" "i < length xs"
  shows "Suc i \<le> length (filter (\<lambda>x. x \<le> xs ! i) xs)"
proof -
  have "\<forall>x \<in> set (take (Suc i) xs). x \<le> xs ! i"
    using assms by (auto simp: in_set_conv_nth less_Suc_eq_le intro!: sorted_nth_mono)
  then have "length (filter (\<lambda>x. x \<le> xs ! i) (take (Suc i) xs)) = Suc i" using assms(2) by simp
  moreover have "filter (\<lambda>x. x \<le> xs ! i) xs =
      filter (\<lambda>x. x \<le> xs ! i) (take (Suc i) xs) @ filter (\<lambda>x. x \<le> xs ! i) (drop (Suc i) xs)"
    by (metis append_take_drop_id filter_append)
  ultimately show ?thesis by simp
qed

lemma sorted_filter_less_nth:
  assumes "sorted xs" "i < length xs" "v < xs ! i"
  shows "length (filter (\<lambda>x. x \<le> v) xs) \<le> i"
proof -
  have "\<not> x \<le> v" if "x \<in> set (drop i xs)" for x
  proof -
    obtain j where "j < length xs - i" "x = xs ! (i + j)"
      using \<open>x \<in> set (drop i xs)\<close> by (auto simp: in_set_conv_nth)
    then have "xs ! i \<le> x" using assms(1) by (auto intro!: sorted_nth_mono)
    with assms(3) show ?thesis by simp
  qed
  then have "filter (\<lambda>x. x \<le> v) (drop i xs) = []" by (simp add: filter_empty_conv)
  then have "filter (\<lambda>x. x \<le> v) xs = filter (\<lambda>x. x \<le> v) (take i xs)"
    by (metis append_Nil2 append_take_drop_id filter_append)
  then show ?thesis using length_filter_le [of "\<lambda>x. x \<le> v" "take i xs"] by simp
qed

lemma length_filter_sort: "length (filter P (sort xs)) = length (filter P xs)"
  by (metis mset_filter mset_sort size_mset)

lemma evaluate_keeps [simp]:
  "p99 (evaluate p t) = p99 t" "samples (evaluate p t) = samples t" "buf_size (evaluate p t) = buf_size t"
  "thresholds (evaluate p t) = thresholds t"
  by (simp_all add: evaluate_def Let_def split: prod.split)

text \<open>The reported P99 is the 99th percentile of the samples in the buffer that are not zero: at
  least 99 % of them do not exceed it, and no smaller value has that property.\<close>

theorem computeP99_is_percentile:
  assumes "buf = filter (\<lambda>v. v > 0) (take (buf_size t) (samples t))" "buf \<noteq> []"
  shows "99 * length buf \<le> 100 * length (filter (\<lambda>x. x \<le> p99 (computeP99 t)) buf) \<and>
    (\<forall>v < p99 (computeP99 t). 100 * length (filter (\<lambda>x. x \<le> v) buf) < 99 * length buf) \<and>
    p99 (computeP99 t) \<in> set buf"
proof -
  let ?i = "p99_index (length buf)" and ?xs = "sort buf"
  have i: "?i < length ?xs" and ci: "99 * length buf \<le> 100 * Suc ?i" and ci': "100 * ?i < 99 * length buf"
    using assms(2) by (cases "length buf"; simp add: p99_index_def; linarith)+
  have p: "p99 (computeP99 t) = ?xs ! ?i"
    using assms by (simp add: computeP99_def Let_def)
  have "Suc ?i \<le> length (filter (\<lambda>x. x \<le> ?xs ! ?i) buf)"
    using sorted_filter_le_nth [OF sorted_sort i] by (simp add: length_filter_sort)
  moreover have "length (filter (\<lambda>x. x \<le> v) buf) \<le> ?i" if "v < ?xs ! ?i" for v
    using sorted_filter_less_nth [OF sorted_sort i that] by (simp add: length_filter_sort)
  moreover have "?xs ! ?i \<in> set buf" using i by (metis nth_mem set_sort)
  ultimately show ?thesis unfolding p using ci ci' by fastforce
qed

theorem computeP99_is_percentile_witness:
  "p99 (computeP99 ((newTracker 3 150 500)\<lparr>samples := [20, 0, 10]\<rparr>)) \<in> set [20, 10 :: int]"
  using computeP99_is_percentile [of "[20, 10]" "(newTracker 3 150 500)\<lparr>samples := [20, 0, 10]\<rparr>"]
  by (simp add: newTracker_def)

section \<open>The modes\<close>

text \<open>The level of a window: 0 below both thresholds (or no samples), 1 at or above the throttling
  one, 2 at or above the backoff one.\<close>

definition level :: "int \<times> int \<Rightarrow> nat \<Rightarrow> int list \<Rightarrow> nat" where
  "level th n buf =
     (let ps = filter (\<lambda>v. v > 0) (take n buf) in
      if ps = [] then 0
      else
        let p = sort ps ! p99_index (length ps)
        in if p \<ge> snd th then 2 else if p \<ge> fst th then 1 else 0)"

definition trailing :: "('a \<Rightarrow> bool) \<Rightarrow> 'a list \<Rightarrow> nat" where
  "trailing P xs = length (takeWhile P (rev xs))"

lemma trailing_snoc [simp]: "trailing P (xs @ [x]) = (if P x then Suc (trailing P xs) else 0)"
  by (simp add: trailing_def)

lemma trailing_Nil [simp]: "trailing P [] = 0"
  by (simp add: trailing_def)

definition mode_spec :: "nat list \<Rightarrow> BackpressureMode" where
  "mode_spec ls =
     (let high = trailing (\<lambda>l. l = 2) ls; elevated = trailing (\<lambda>l. l \<ge> 1) ls
      in if high \<ge> 3 then Backoff else if elevated - high \<ge> 3 then Throttled else Normal)"

lemma trailing_high_le: "trailing (\<lambda>l. l = 2) ls \<le> trailing (\<lambda>l. l \<ge> 1) (ls :: nat list)"
  by (induction ls rule: rev_induct) auto

lemma computeP99_level:
  fixes t :: tracker
  defines "l \<equiv> level (thresholds t) (buf_size t) (samples t)"
  shows "aboveCount (computeP99 t) =
      (if l = 0 then (0, 0) else if l = 1 then (fst (aboveCount t) + 1, 0)
       else (fst (aboveCount t) + 1, snd (aboveCount t) + 1))"
    "mode (computeP99 t) =
      (if l = 0 then Normal
       else if l = 1 then (if fst (aboveCount t) + 1 \<ge> 3 then Throttled else mode t)
       else (if snd (aboveCount t) + 1 \<ge> 3 then Backoff else mode t))"
  by (auto simp: l_def level_def computeP99_def evaluate_def Let_def windowsToTransition_def split: prod.split)

lemma computeP99_keeps [simp]:
  "thresholds (computeP99 t) = thresholds t" "buf_size (computeP99 t) = buf_size t"
  by (simp_all add: computeP99_def Let_def)

lemma start_ticks_state:
  "thresholds (start_ticks bufs (newTracker n a b)) = (a, b) \<and>
    buf_size (start_ticks bufs (newTracker n a b)) = n \<and>
    aboveCount (start_ticks bufs (newTracker n a b)) =
      (trailing (\<lambda>l. l \<ge> 1) (map (level (a, b) n) bufs), trailing (\<lambda>l. l = 2) (map (level (a, b) n) bufs)) \<and>
    mode (start_ticks bufs (newTracker n a b)) = mode_spec (map (level (a, b) n) bufs)"
proof (induction bufs rule: rev_induct)
  case Nil
  then show ?case by (simp add: start_ticks_def newTracker_def mode_spec_def)
next
  case (snoc buf bufs)
  let ?t = "start_ticks bufs (newTracker n a b)" and ?ls = "map (level (a, b) n) bufs"
  let ?l = "level (a, b) n buf"
  have step: "start_ticks (bufs @ [buf]) (newTracker n a b) = computeP99 (?t\<lparr>samples := buf\<rparr>)"
    by (simp add: start_ticks_def)
  have l: "?l = 0 \<or> ?l = 1 \<or> ?l = 2" by (simp add: level_def Let_def)
  have lv: "level (thresholds (?t\<lparr>samples := buf\<rparr>)) (buf_size (?t\<lparr>samples := buf\<rparr>)) (samples (?t\<lparr>samples := buf\<rparr>)) = ?l"
    using snoc by simp
  show ?case
    unfolding step using snoc l trailing_high_le [of ?ls]
    by (elim disjE; simp add: computeP99_level lv mode_spec_def Let_def; arith)
qed


text \<open>Three windows above the throttling threshold, the last of them above the backoff threshold,
  leave the mode Normal.\<close>

lemma three_elevated_windows_stay_normal: "mode_spec [1, 1, 2] = Normal"
  by (simp add: mode_spec_def trailing_def)

text \<open>A mode is reported only on three consecutive windows that deserve it: at least Throttled on
  three elevated windows, Backoff on three high ones.\<close>

lemmas mode_order = less_eq_BackpressureMode_def less_BackpressureMode_def mode_code_def

lemma mode_needs_windows:
  "Throttled \<le> mode_spec ls \<Longrightarrow> 3 \<le> trailing (\<lambda>l. l \<ge> 1) ls"
  "Backoff \<le> mode_spec ls \<Longrightarrow> 3 \<le> trailing (\<lambda>l. l = 2) ls"
  using trailing_high_le [of ls] by (auto simp: mode_spec_def mode_order Let_def split: if_splits)

text \<open>The mode grows with a level that stays constant, but pointwise higher windows can lower it.\<close>

lemma mode_not_monotone:
  "\<exists>ls ls'. list_all2 (\<le>) ls ls' \<and> mode_spec ls' < mode_spec ls"
  by (intro exI [of _ "[1, 1, 1]"] exI [of _ "[1, 1, 2]"]) (simp add: mode_spec_def trailing_def mode_order)

lemma mode_constant_level_mono:
  "l \<le> l' \<Longrightarrow> l' \<le> 2 \<Longrightarrow> mode_spec (replicate n l) \<le> mode_spec (replicate n l')"
  by (auto simp: mode_spec_def trailing_def mode_order Let_def takeWhile_replicate)

section \<open>Transactions\<close>

text \<open>The call sequences of a commit loop with its result, and of a whole transaction.\<close>

inductive commit_trace :: "'r txn_call list \<Rightarrow> mongo_error option \<Rightarrow> bool" where
  commit_done: "commit_trace [CCommit None] None"
| commit_fails: "\<not> hasErrorLabel err UnknownCommit \<Longrightarrow> commit_trace [CCommit (Some err)] (Some err)"
| commit_again: "hasErrorLabel err UnknownCommit \<Longrightarrow> commit_trace tr r \<Longrightarrow> commit_trace (CCommit (Some err) # tr) r"

inductive txn_trace :: "'r txn_call list \<Rightarrow> mongo_error + 'r \<Rightarrow> bool" where
  not_started: "txn_trace [CStart (Some err)] (Inl err)"
| func_fails: "\<not> hasErrorLabel err Transient \<Longrightarrow>
    txn_trace [CStart None, CFunc (Inl err), CAbort a] (Inl err)"
| func_again: "hasErrorLabel err Transient \<Longrightarrow> txn_trace tr r \<Longrightarrow>
    txn_trace ([CStart None, CFunc (Inl err), CAbort a] @ tr) r"
| committed: "commit_trace cs None \<Longrightarrow> txn_trace ([CStart None, CFunc (Inr x)] @ cs) (Inr x)"
| not_committed: "commit_trace cs (Some err) \<Longrightarrow> \<not> hasErrorLabel err Transient \<Longrightarrow>
    txn_trace ([CStart None, CFunc (Inr x)] @ cs @ [CAbort a]) (Inl err)"
| commit_transient: "commit_trace cs (Some err) \<Longrightarrow> hasErrorLabel err Transient \<Longrightarrow> txn_trace tr r \<Longrightarrow>
    txn_trace ([CStart None, CFunc (Inr x)] @ cs @ tr) r"

lemma do_commit_log: "do_commit se st = (st', r) \<Longrightarrow> snd st' = snd st @ [CCommit r]"
  by (auto simp: do_commit_def split: prod.splits)

lemma do_start_log: "do_start se st = (st', r) \<Longrightarrow> snd st' = snd st @ [CStart r]"
  by (auto simp: do_start_def split: prod.splits)

lemma do_func_log: "do_func se st = (st', r) \<Longrightarrow> snd st' = snd st @ [CFunc r]"
  by (auto simp: do_func_def split: prod.splits)

lemma do_abort_log: "\<exists>a. snd (do_abort se st) = snd st @ [CAbort a]"
  by (auto simp: do_abort_def split: prod.splits)

lemma commitWithRetry_trace:
  "commitWithRetryInternal se st = Some y \<Longrightarrow> \<exists>tr. snd (fst y) = snd st @ tr \<and> commit_trace tr (snd y)"
proof (induction se st y rule: commitWithRetryInternal.raw_induct [rotated 1, consumes 1])
  case (1 rec se st y)
  obtain st1 c where c: "do_commit se st = (st1, c)" by fastforce
  note log = do_commit_log [OF c]
  consider "c = None" | err where "c = Some err" "\<not> hasErrorLabel err UnknownCommit"
    | err where "c = Some err" "hasErrorLabel err UnknownCommit" by (cases c) auto
  then show ?case
  proof cases
    case (3 err)
    with 1(2) c have "rec se st1 = Some y" by simp
    from 1(1) [OF this] obtain tr where "snd (fst y) = snd st1 @ tr" "commit_trace tr (snd y)" by blast
    with log 3 show ?thesis by (auto intro: commit_trace.intros)
  qed (use 1(2) c log in \<open>auto intro: commit_trace.intros\<close>)
qed

text \<open>What follows a function that succeeded: the commit loop, then the end, another attempt or an
  abort.\<close>

lemma after_func_trace:
  assumes c: "commitWithRetryInternal se st2 = Some (st3, c)"
    and after: "(case c of None \<Rightarrow> Some (st3, Inr x)
        | Some err \<Rightarrow> if hasErrorLabel err Transient then rec se st3 else Some (do_abort se st3, Inl err)) = Some y"
    and again: "rec se st3 = Some y \<Longrightarrow> \<exists>tr. snd (fst y) = snd st3 @ tr \<and> txn_trace tr (snd y)"
  shows "\<exists>tr. snd (fst y) = snd st2 @ tr \<and> txn_trace ([CStart None, CFunc (Inr x)] @ tr) (snd y)"
proof -
  obtain cs where cs: "snd st3 = snd st2 @ cs" "commit_trace cs c" using commitWithRetry_trace [OF c] by auto
  obtain b where b: "snd (do_abort se st3) = snd st3 @ [CAbort b]" using do_abort_log by blast
  consider "c = None" | (transient) err where "c = Some err" "hasErrorLabel err Transient"
    | (failed) err where "c = Some err" "\<not> hasErrorLabel err Transient" by (cases c) auto
  then show ?thesis
  proof cases
    case 1
    then show ?thesis using after cs txn_trace.committed [of cs x] by auto
  next
    case transient
    with after again obtain tr where "snd (fst y) = snd st3 @ tr" "txn_trace tr (snd y)" by auto
    then show ?thesis using cs transient txn_trace.commit_transient [of cs err tr "snd y" x] by auto
  next
    case failed
    then show ?thesis using after cs b txn_trace.not_committed [of cs err x b] by auto
  qed
qed

lemma runTransaction_trace:
  "runTransactionWithRetryInternal se st = Some y \<Longrightarrow> \<exists>tr. snd (fst y) = snd st @ tr \<and> txn_trace tr (snd y)"
proof (induction se st y rule: runTransactionWithRetryInternal.raw_induct [rotated 1, consumes 1])
  case (1 rec se st y)
  note IH = 1(1) and run = 1(2)
  obtain st1 s1 where st1: "do_start se st = (st1, s1)" by fastforce
  obtain st2 f where st2: "do_func se st1 = (st2, f)" by fastforce
  obtain a where a: "snd (do_abort se st2) = snd st2 @ [CAbort a]" using do_abort_log by blast
  note logs = do_start_log [OF st1] do_func_log [OF st2] a
  consider (refused) err where "s1 = Some err"
    | (transient) err where "s1 = None" "f = Inl err" "hasErrorLabel err Transient"
    | (failed) err where "s1 = None" "f = Inl err" "\<not> hasErrorLabel err Transient"
    | (ran) x where "s1 = None" "f = Inr x"
    by (cases s1; cases f) auto
  then show ?case
  proof cases
    case refused
    then show ?thesis using run st1 logs by (auto intro: txn_trace.intros)
  next
    case transient
    with run st1 st2 have "rec se (do_abort se st2) = Some y" by simp
    from IH [OF this] obtain tr where "snd (fst y) = snd (do_abort se st2) @ tr" "txn_trace tr (snd y)" by blast
    then show ?thesis using logs transient txn_trace.func_again [OF transient(3), of tr "snd y" a] by auto
  next
    case failed
    then show ?thesis using run st1 st2 logs txn_trace.func_fails [OF failed(3), of a] by auto
  next
    case ran
    then obtain st3 c where c: "commitWithRetryInternal se st2 = Some (st3, c)"
      and after: "(case c of None \<Rightarrow> Some (st3, Inr x)
        | Some err \<Rightarrow> if hasErrorLabel err Transient then rec se st3 else Some (do_abort se st3, Inl err)) = Some y"
      using run st1 st2 by (auto simp: Option.bind_eq_Some_conv)
    from after_func_trace [where rec = rec, OF c after IH] show ?thesis using logs ran by auto
  qed
qed

text \<open>How often a call sequence commits.\<close>

definition commits :: "'r txn_call list \<Rightarrow> nat" where
  "commits tr = length (filter (\<lambda>c. c = CCommit None) tr)"

lemma commits_simps [simp]:
  "commits [] = 0" "commits (a @ b) = commits a + commits b"
  "commits (c # tr) = (if c = CCommit None then 1 else 0) + commits tr"
  by (simp_all add: commits_def)

lemma commit_trace_commits:
  "commit_trace tr r \<Longrightarrow> commits tr = (if r = None then 1 else 0)"
  by (induction rule: commit_trace.induct) auto

lemma commit_trace_last: "commit_trace tr r \<Longrightarrow> \<exists>pre. tr = pre @ [CCommit r]"
  by (induction rule: commit_trace.induct) auto

lemma commit_trace_Inr: "commit_trace tr r \<Longrightarrow> CFunc x \<notin> set tr"
  by (induction rule: commit_trace.induct) auto

lemma txn_trace_commits:
  "txn_trace tr r \<Longrightarrow> commits tr = (case r of Inl _ \<Rightarrow> 0 | Inr _ \<Rightarrow> 1)"
  by (induction rule: txn_trace.induct) (auto simp: commit_trace_commits)

lemma txn_trace_final:
  "txn_trace tr r \<Longrightarrow> r = Inr x \<Longrightarrow>
     \<exists>pre cs. tr = pre @ [CStart None, CFunc (Inr x)] @ cs \<and> commit_trace cs None"
proof (induction arbitrary: x rule: txn_trace.induct)
  case (committed cs y)
  then show ?case by (intro exI [of _ "[]"] exI [of _ cs]) auto
next
  case (func_again err tr r a)
  then show ?case by (metis append.assoc)
next
  case (commit_transient cs err tr r y)
  then show ?case by (metis append.assoc)
qed auto


definition demo_session :: "(nat, string) session" where
  "demo_session =
     \<lparr>se_start = (\<lambda>s. (s, None)), se_func = (\<lambda>s. (s, Inr ''done'')), se_abort = (\<lambda>s. (s, None)),
      se_commit = (\<lambda>s. if s = 0 then (s, None) else (s - 1, Some (CommandError ''net'' [UnknownCommit])))\<rparr>"

lemma demo_transaction:
  "runTransactionWithRetryInternal demo_session (1, []) =
     Some ((0, [CStart None, CFunc (Inr ''done''), CCommit (Some (CommandError ''net'' [UnknownCommit])), CCommit None]),
           Inr ''done'')"
  by (simp add: runTransactionWithRetryInternal.simps commitWithRetryInternal.simps demo_session_def
      do_start_def do_func_def do_commit_def hasErrorLabel_def)


text \<open>A session that reports only finitely many retriable errors: each one uses up some of a budget
  that no other call replenishes.\<close>

definition finite_retries :: "('s, 'r) session \<Rightarrow> ('s \<Rightarrow> nat) \<Rightarrow> bool" where
  "finite_retries se budget \<longleftrightarrow>
     (\<forall>s. budget (fst (se_start se s)) \<le> budget s \<and> budget (fst (se_abort se s)) \<le> budget s) \<and>
     (\<forall>s s' r. se_func se s = (s', r) \<longrightarrow> budget s' \<le> budget s \<and>
        (\<forall>err. r = Inl err \<longrightarrow> hasErrorLabel err Transient \<longrightarrow> budget s' < budget s)) \<and>
     (\<forall>s s' r. se_commit se s = (s', r) \<longrightarrow> budget s' \<le> budget s \<and>
        (\<forall>err. r = Some err \<longrightarrow> hasErrorLabel err UnknownCommit \<or> hasErrorLabel err Transient \<longrightarrow>
           budget s' < budget s))"

lemma finite_retries_steps:
  assumes "finite_retries se budget"
  shows "do_start se st = (st', q) \<Longrightarrow> budget (fst st') \<le> budget (fst st)"
    "budget (fst (do_abort se st)) \<le> budget (fst st)"
    "do_func se st = (st', r) \<Longrightarrow> budget (fst st') \<le> budget (fst st) \<and>
       (\<forall>err. r = Inl err \<longrightarrow> hasErrorLabel err Transient \<longrightarrow> budget (fst st') < budget (fst st))"
    "do_commit se st = (st', c) \<Longrightarrow> budget (fst st') \<le> budget (fst st) \<and>
       (\<forall>err. c = Some err \<longrightarrow> hasErrorLabel err UnknownCommit \<or> hasErrorLabel err Transient \<longrightarrow>
          budget (fst st') < budget (fst st))"
proof -
  note law = assms [unfolded finite_retries_def]
  show "do_start se st = (st', q) \<Longrightarrow> budget (fst st') \<le> budget (fst st)"
    using law by (auto simp: do_start_def split: prod.splits) (metis fst_conv)
  show "budget (fst (do_abort se st)) \<le> budget (fst st)"
    using law by (auto simp: do_abort_def split: prod.splits) (metis fst_conv)
  show "do_func se st = (st', r) \<Longrightarrow> budget (fst st') \<le> budget (fst st) \<and>
       (\<forall>err. r = Inl err \<longrightarrow> hasErrorLabel err Transient \<longrightarrow> budget (fst st') < budget (fst st))"
    using law by (auto simp: do_func_def split: prod.splits)
  show "do_commit se st = (st', c) \<Longrightarrow> budget (fst st') \<le> budget (fst st) \<and>
       (\<forall>err. c = Some err \<longrightarrow> hasErrorLabel err UnknownCommit \<or> hasErrorLabel err Transient \<longrightarrow>
          budget (fst st') < budget (fst st))"
    using law by (auto simp: do_commit_def split: prod.splits)
qed

lemma commitWithRetry_returns:
  assumes "finite_retries se budget"
  shows "\<exists>st' c. commitWithRetryInternal se st = Some (st', c) \<and> budget (fst st') \<le> budget (fst st) \<and>
    (\<forall>err. c = Some err \<longrightarrow> hasErrorLabel err Transient \<longrightarrow> budget (fst st') < budget (fst st))"
proof (induction "budget (fst st)" arbitrary: st rule: less_induct)
  case less
  obtain st1 c where c: "do_commit se st = (st1, c)" by fastforce
  note step = finite_retries_steps(4) [OF assms c]
  show ?case
  proof (cases "\<exists>err. c = Some err \<and> hasErrorLabel err UnknownCommit")
    case True
    then obtain err where e: "c = Some err" "hasErrorLabel err UnknownCommit" by blast
    with step have lt: "budget (fst st1) < budget (fst st)" by blast
    from less [OF this] obtain st' c' where
      "commitWithRetryInternal se st1 = Some (st', c')" "budget (fst st') \<le> budget (fst st1)" by blast
    with lt e c show ?thesis by (simp add: commitWithRetryInternal.simps [of se st])
  next
    case False
    with c step show ?thesis by (cases c) (auto simp: commitWithRetryInternal.simps [of se st])
  qed
qed

text \<open>The retry loops end: when the session reports only finitely many retriable errors, running a
  transaction returns a result or an error.\<close>

theorem transaction_returns:
  assumes "finite_retries se budget"
  shows "\<exists>y. runTransactionWithRetryInternal se st = Some y"
proof (induction "budget (fst st)" arbitrary: st rule: less_induct)
  case less
  obtain st1 s1 where st1: "do_start se st = (st1, s1)" by fastforce
  obtain st2 f where st2: "do_func se st1 = (st2, f)" by fastforce
  obtain st3 c where c: "commitWithRetryInternal se st2 = Some (st3, c)" "budget (fst st3) \<le> budget (fst st2)"
    "\<forall>err. c = Some err \<longrightarrow> hasErrorLabel err Transient \<longrightarrow> budget (fst st3) < budget (fst st2)"
    using commitWithRetry_returns [OF assms] by blast
  note unfold = runTransactionWithRetryInternal.simps [of se st]
  note b = finite_retries_steps(1) [OF assms st1] finite_retries_steps(3) [OF assms st2]
    finite_retries_steps(2) [OF assms, of st2]
  show ?case
  proof (cases "s1 = None \<and> (\<exists>err. (f = Inl err \<or> isl f = False \<and> c = Some err) \<and> hasErrorLabel err Transient)")
    case True
    show ?thesis
    proof (cases f)
      case (Inl err)
      with True b have "budget (fst (do_abort se st2)) < budget (fst st)" by fastforce
      from less [OF this] show ?thesis using st1 st2 Inl True by (auto simp: unfold)
    next
      case (Inr x)
      with True b c(3) have "budget (fst st3) < budget (fst st)" by fastforce
      from less [OF this] show ?thesis using st1 st2 Inr True c(1) by (auto simp: unfold)
    qed
  next
    case False
    then show ?thesis using st1 st2 c(1)
      by (cases s1; cases f; cases c) (auto simp: unfold Let_def)
  qed
qed

theorem transaction_returns_witness:
  "\<exists>y. runTransactionWithRetryInternal demo_session (5, []) = Some y"
  by (rule transaction_returns [where budget = id])
    (auto simp: finite_retries_def demo_session_def hasErrorLabel_def split: if_splits)

end
