(* ===== verification/Cursor_Interface.thy ===== *)
theory Cursor_Interface
  imports Kit_Prelude
begin

text \<open>
  Cursor pagination as an interface. A provider serves the pages of a fixed sequence of rows: the
  page at a cursor holds the next rows, says whether more remain, and names the cursor after them.
  The contract \<open>cursor_pager\<close> is the law of one page; the client's theorem, that following the
  cursors yields every row once and in order, is proved from it once. The MongoDB model and the
  ClickHouse table both interpret the contract.
\<close>

text \<open>A client that follows the cursors until it is told that nothing is left, with fuel for the
  pages. A page is its items, whether more follow, and the next cursor; \<open>None\<close> is a failed page.\<close>

fun follow :: "nat \<Rightarrow> ('c \<Rightarrow> ('i list \<times> bool \<times> 'c) option) \<Rightarrow> 'c \<Rightarrow> 'i list option" where
  "follow 0 page cursor = None"
| "follow (Suc fuel) page cursor =
     (case page cursor of
        None \<Rightarrow> None
      | Some (items, hasNext, nxt) \<Rightarrow>
          if hasNext then map_option (\<lambda>rest. items @ rest) (follow fuel page nxt) else Some items)"

text \<open>The first rows behind a row of a strictly sorted list.\<close>

lemma filter_after_nth:
  assumes "sorted_wrt R xs" "i < length xs" "\<And>a b. R a b \<Longrightarrow> \<not> R b a"
  shows "filter (R (xs ! i)) xs = drop (Suc i) xs"
proof -
  have "\<not> R (xs ! i) x" if "x \<in> set (take (Suc i) xs)" for x
  proof -
    obtain j where j: "j < length xs" "j \<le> i" "x = xs ! j"
      using \<open>x \<in> set (take (Suc i) xs)\<close> assms(2) by (auto simp: in_set_conv_nth less_Suc_eq_le)
    show ?thesis
    proof (cases "j = i")
      case False
      with j assms show ?thesis using sorted_wrt_nth_less [OF assms(1), of j i] by auto
    qed (use assms(3) j in blast)
  qed
  then have "filter (R (xs ! i)) (take (Suc i) xs) = []" by (auto simp: filter_empty_conv)
  moreover have "R (xs ! i) x" if "x \<in> set (drop (Suc i) xs)" for x
    using that assms by (auto simp: in_set_conv_nth intro!: sorted_wrt_nth_less [OF assms(1)])
  then have "filter (R (xs ! i)) (drop (Suc i) xs) = drop (Suc i) xs" by simp
  ultimately show ?thesis by (metis append_Nil append_take_drop_id filter_append)
qed

locale cursor_pager =
  fixes ok :: "'e \<Rightarrow> bool"
    and page :: "'e \<Rightarrow> 'c \<Rightarrow> ('i list \<times> bool \<times> 'c) option"
    and position :: "'e \<Rightarrow> nat \<Rightarrow> 'c"
    and rows :: "'e \<Rightarrow> 'i list"
    and page_size :: "'e \<Rightarrow> nat"
  assumes page_size_pos: "ok e \<Longrightarrow> 0 < page_size e"
    and page_at: "ok e \<Longrightarrow> i \<le> length (rows e) \<Longrightarrow>
      \<exists>nxt. page e (position e i) =
          Some (take (page_size e) (drop i (rows e)), i + page_size e < length (rows e), nxt) \<and>
        (i + page_size e < length (rows e) \<longrightarrow> nxt = position e (i + page_size e))"
begin

lemma follow_from:
  "ok e \<Longrightarrow> i \<le> length (rows e) \<Longrightarrow> length (rows e) - i < fuel \<Longrightarrow>
    follow fuel (page e) (position e i) = Some (drop i (rows e))"
proof (induction fuel arbitrary: i)
  case (Suc fuel)
  let ?n = "page_size e" and ?M = "rows e"
  obtain nxt where nxt: "page e (position e i) = Some (take ?n (drop i ?M), i + ?n < length ?M, nxt)"
    "i + ?n < length ?M \<longrightarrow> nxt = position e (i + ?n)"
    using page_at [OF Suc.prems(1,2)] by blast
  show ?case
  proof (cases "i + ?n < length ?M")
    case True
    moreover have "length ?M - (i + ?n) < fuel"
      using True Suc.prems(3) page_size_pos [OF Suc.prems(1)] by linarith
    ultimately have "follow fuel (page e) nxt = Some (drop (i + ?n) ?M)"
      using Suc.IH [of "i + ?n"] Suc.prems(1) nxt(2) by simp
    then show ?thesis
      using True nxt(1) append_take_drop_id [of ?n "drop i ?M"] by (simp add: add.commute)
  qed (use nxt(1) in simp)
qed simp

theorem follow_complete:
  "ok e \<Longrightarrow> length (rows e) < fuel \<Longrightarrow> follow fuel (page e) (position e 0) = Some (rows e)"
  using follow_from [of e 0 fuel] by simp

end

end
