(* ===== verification/Mongo_Model.thy ===== *)
theory Mongo_Model
  imports Kit_Prelude Cursor_Interface "HOL-Library.AList"
begin

text \<open>
  Package \<open>infrastructure/mongodb/model\<close>: the typed collection wrapper. \<open>methods.go\<close> (create, find,
  update, delete and the three paginations), \<open>internals.go\<close> (contexts, options, identifiers,
  indexes), \<open>utils.go\<close> and \<open>mapget.go\<close>. The driver's collection is a record of operations over
  an abstract state \<open>'c\<close>; documents \<open>'d\<close> as the server returns them decode to values \<open>'t\<close>;
  object identifiers \<open>'o\<close> are ordered and have a hexadecimal form.
\<close>

section \<open>types.go, constants.go, erros.go\<close>

datatype model_error =
    ErrNotFound | ErrInvalidID | ErrEmptyItems | ErrEmptyFilters | ErrCursorPaginationRequired
  | ErrInvalidCursorDirection | ErrModelNotConnected | ErrNoDocuments | ErrDriver string

datatype ('o, 'v) cond = Plain 'v | IdIs 'o | IdGt 'o | IdLt 'o

type_synonym ('o, 'v) fmap = "(string \<times> ('o, 'v) cond) list"

datatype CursorDirection = CursorNext | CursorPrevious

record CursorOpts =
  cu_Cursor :: string
  cu_Direction :: CursorDirection
  cu_Limit :: go_int
  cu_SortAsc :: bool

record 't CursorResult =
  cr_Items :: "'t list"
  cr_NextCursor :: string
  cr_PrevCursor :: string
  cr_HasNext :: bool
  cr_HasPrevious :: bool

text \<open>An identifier argument of type \<open>any\<close>: an object id, a string, or something else.\<close>

datatype 'o any_id = AnyOid 'o | AnyStr string | AnyOther

record 'o PaginationOpts =
  pg_Page :: go_int
  pg_PerPage :: go_int
  pg_CursorID :: "'o any_id option"
  pg_SortDirection :: go_int
  pg_UseCursor :: bool

record Pagination =
  pn_Page :: go_int
  pn_PerPage :: go_int
  pn_TotalItems :: go_int
  pn_TotalPages :: go_int
  pn_HasNext :: "bool option"
  pn_HasPrev :: "bool option"

definition DefaultPage :: go_int where "DefaultPage = 1"
definition DefaultPerPage :: go_int where "DefaultPerPage = 25"
definition MaxOffsetPerPage :: go_int where "MaxOffsetPerPage = 300"
definition MaxOffsetSkip :: go_int where "MaxOffsetSkip = 500"

lemmas paging_defaults = DefaultPage_def DefaultPerPage_def MaxOffsetPerPage_def MaxOffsetSkip_def

section \<open>internals.go: contexts and options\<close>

record model_config =
  mc_DefaultTimeout :: duration

record ctx =
  cx_deadline :: "int option"
  cx_session :: "nat option"

record 'v CommonOpts =
  op_Session :: "nat option"
  op_Projection :: "'v option"
  op_Sort :: "'v option"
  op_Hint :: "'v option"
  op_Collation :: "'v option"
  op_Upsert :: "bool option"
  op_ReturnDocument :: "bool option"
  op_Bypass :: "bool option"
  op_Comment :: "'v option"
  op_MaxTime :: "duration option"
  op_Let :: "'v option"
  op_ArrayFilters :: "'v list option"

definition firstOpt :: "'a option list \<Rightarrow> 'a option" where
  "firstOpt opts = (case opts of [] \<Rightarrow> None | o1 # _ \<Rightarrow> o1)"

definition normCtx :: "int \<Rightarrow> ctx option \<Rightarrow> model_config \<Rightarrow> 'v CommonOpts option \<Rightarrow> ctx" where
  "normCtx now c cfg opts =
     (let c1 = (case c of None \<Rightarrow> \<lparr>cx_deadline = None, cx_session = None\<rparr> | Some x \<Rightarrow> x);
          withSession = (\<lambda>x. case opts of
              None \<Rightarrow> x
            | Some o1 \<Rightarrow> (case op_Session o1 of None \<Rightarrow> x | Some s \<Rightarrow> x\<lparr>cx_session := Some s\<rparr>))
      in if cx_deadline c1 \<noteq> None then withSession c1
         else if mc_DefaultTimeout cfg > 0
         then withSession (c1\<lparr>cx_deadline := Some (now + mc_DefaultTimeout cfg)\<rparr>)
         else withSession c1)"

text \<open>The four driver option types the code knows, and the fields it can set on them.\<close>

datatype builder_kind = FindOneB | FindB | FindOneAndUpdateB | UpdateManyB | OtherB

record 'v driver_opts =
  do_Projection :: "'v option"
  do_Sort :: "'v option"
  do_Hint :: "'v option"
  do_Collation :: "'v option"
  do_Upsert :: "bool option"
  do_ReturnDocument :: "bool option"
  do_Bypass :: "bool option"
  do_Comment :: "'v option"
  do_Let :: "'v option"
  do_ArrayFilters :: "'v list option"
  do_Skip :: "go_int option"
  do_Limit :: "go_int option"
  do_IdSort :: "go_int option"

definition no_opts :: "'v driver_opts" where
  "no_opts = \<lparr>do_Projection = None, do_Sort = None, do_Hint = None, do_Collation = None, do_Upsert = None,
     do_ReturnDocument = None, do_Bypass = None, do_Comment = None, do_Let = None, do_ArrayFilters = None,
     do_Skip = None, do_Limit = None, do_IdSort = None\<rparr>"

definition or_else :: "'a option \<Rightarrow> 'a option \<Rightarrow> 'a option" where
  "or_else new old = (case new of None \<Rightarrow> old | Some _ \<Rightarrow> new)"

definition set_query :: "'v CommonOpts \<Rightarrow> 'v driver_opts \<Rightarrow> 'v driver_opts" where
  "set_query opt d =
     d\<lparr>do_Projection := or_else (op_Projection opt) (do_Projection d),
       do_Sort := or_else (op_Sort opt) (do_Sort d),
       do_Hint := or_else (op_Hint opt) (do_Hint d),
       do_Collation := or_else (op_Collation opt) (do_Collation d)\<rparr>"

definition applyCommonOptions :: "builder_kind \<Rightarrow> 'v driver_opts \<Rightarrow> 'v CommonOpts option \<Rightarrow> 'v driver_opts" where
  "applyCommonOptions kind d o1 =
     (case o1 of
        None \<Rightarrow> d
      | Some opt \<Rightarrow>
          (case kind of
             FindOneB \<Rightarrow> set_query opt d
           | FindB \<Rightarrow> set_query opt d
           | FindOneAndUpdateB \<Rightarrow>
               (set_query opt d)\<lparr>do_Upsert := or_else (op_Upsert opt) (do_Upsert d),
                 do_ReturnDocument := or_else (op_ReturnDocument opt) (do_ReturnDocument d),
                 do_Bypass := or_else (op_Bypass opt) (do_Bypass d),
                 do_Comment := or_else (op_Comment opt) (do_Comment d),
                 do_Let := or_else (op_Let opt) (do_Let d),
                 do_ArrayFilters := or_else (op_ArrayFilters opt) (do_ArrayFilters d)\<rparr>
           | UpdateManyB \<Rightarrow>
               d\<lparr>do_Hint := or_else (op_Hint opt) (do_Hint d),
                 do_Collation := or_else (op_Collation opt) (do_Collation d),
                 do_Upsert := or_else (op_Upsert opt) (do_Upsert d),
                 do_Bypass := or_else (op_Bypass opt) (do_Bypass d),
                 do_Comment := or_else (op_Comment opt) (do_Comment d),
                 do_Let := or_else (op_Let opt) (do_Let d)\<rparr>
           | OtherB \<Rightarrow> d))"

section \<open>internals.go: identifiers, creation times and indexes\<close>

datatype field_type = TObjectID | TTime | TOtherType

text \<open>A struct field as reflection sees it; \<open>f_zero\<close> says that its value is the zero value.\<close>

record 'x struct_field =
  f_name :: string
  f_bson :: string
  f_type :: field_type
  f_canset :: bool
  f_zero :: bool
  f_val :: 'x

definition isIDField :: "'x struct_field \<Rightarrow> bool" where
  "isIDField f \<longleftrightarrow> has_prefix (f_bson f) ''_id'' \<or> to_lower (f_name f) = ''id''"

definition isCreatedField :: "'x struct_field \<Rightarrow> bool" where
  "isCreatedField f \<longleftrightarrow>
     has_prefix (f_bson f) ''created'' \<or> to_lower (f_name f) = ''created'' \<or> to_lower (f_name f) = ''createdat''"

text \<open>\<open>newID\<close> and \<open>now\<close> are the values written; a fresh identifier per field.\<close>

definition set_field :: "(nat \<Rightarrow> 'x) \<Rightarrow> 'x \<Rightarrow> nat \<Rightarrow> 'x struct_field \<Rightarrow> 'x struct_field" where
  "set_field newID now i f =
     (if \<not> f_canset f then f
      else if isIDField f \<and> f_type f = TObjectID \<and> f_zero f then f\<lparr>f_val := newID i, f_zero := False\<rparr>
      else if isCreatedField f \<and> f_type f = TTime \<and> f_zero f then f\<lparr>f_val := now, f_zero := False\<rparr>
      else f)"

definition setIDAndCreated :: "(nat \<Rightarrow> 'x) \<Rightarrow> 'x \<Rightarrow> 'x struct_field list \<Rightarrow> 'x struct_field list" where
  "setIDAndCreated newID now fs = map (\<lambda>(i, f). set_field newID now i f) (enumerate 0 fs)"

record IndexDefinition =
  ix_Name :: string
  ix_Keys :: "(string \<times> int) list"
  ix_Unique :: bool
  ix_Sparse :: bool
  ix_ExpireAfterSeconds :: "int option"

text \<open>\<open>Keys\<close> is a Go map: \<open>order\<close> is the order in which the iteration happens to visit it.\<close>

definition index_model ::
  "((string \<times> int) list \<Rightarrow> (string \<times> int) list) \<Rightarrow> IndexDefinition \<Rightarrow> IndexDefinition" where
  "index_model order idx = idx\<lparr>ix_Keys := order (ix_Keys idx)\<rparr>"

definition getExistingIndexNames :: "(string + string option list) \<Rightarrow> string + string list" where
  "getExistingIndexNames listing =
     (case listing of Inl err \<Rightarrow> Inl err | Inr names \<Rightarrow> Inr (map the (filter (\<lambda>n. n \<noteq> None) names)))"

text \<open>\<open>listing\<close> is what the server lists (an entry without a readable name is skipped); the result is
  the batch passed to \<open>CreateMany\<close>, and \<open>create_err\<close> the answer to it.\<close>

definition ensureIndexes ::
  "((string \<times> int) list \<Rightarrow> (string \<times> int) list) \<Rightarrow> (string + string option list) \<Rightarrow> string option \<Rightarrow>
     IndexDefinition list \<Rightarrow> IndexDefinition list \<times> string option" where
  "ensureIndexes order listing create_err indexes =
     (if indexes = [] then ([], None)
      else
        case getExistingIndexNames listing of
          Inl err \<Rightarrow> ([], Some err)
        | Inr existing \<Rightarrow>
            (let todo = map (index_model order) (filter (\<lambda>idx. ix_Name idx \<notin> set existing) indexes)
             in if todo = [] then ([], None) else (todo, create_err)))"

section \<open>utils.go\<close>

fun projection_fields :: "string list \<Rightarrow> (string \<times> int) list \<Rightarrow> (string \<times> int) list" where
  "projection_fields [] proj = proj"
| "projection_fields (part # parts) proj =
     (let field = trim_space part in
      projection_fields parts (if field = [] then proj else AList.update field 1 proj))"

definition StringToProjection :: "string \<Rightarrow> (string \<times> int) list" where
  "StringToProjection value = projection_fields (go_split (CHR '','') value) []"

record 'o oid_codec =
  oc_hex :: "'o \<Rightarrow> string"
  oc_parse :: "string \<Rightarrow> 'o option"

definition ToObjectID :: "'o oid_codec \<Rightarrow> 'o any_id \<Rightarrow> model_error + 'o" where
  "ToObjectID oc i =
     (case i of
        AnyOid v \<Rightarrow> Inr v
      | AnyStr s \<Rightarrow> (case oc_parse oc s of None \<Rightarrow> Inl (ErrDriver ''invalid hex'') | Some v \<Rightarrow> Inr v)
      | AnyOther \<Rightarrow> Inl ErrInvalidID)"

definition buildCursorFilter :: "'o oid_codec \<Rightarrow> ('o, 'v) fmap \<Rightarrow> CursorOpts \<Rightarrow> ('o, 'v) fmap" where
  "buildCursorFilter oc flt opts =
     (if cu_Cursor opts = [] then flt
      else
        case oc_parse oc (cu_Cursor opts) of
          None \<Rightarrow> flt
        | Some c \<Rightarrow>
            AList.update ''_id''
              (if cu_Direction opts = CursorNext
               then (if cu_SortAsc opts then IdGt c else IdLt c)
               else (if cu_SortAsc opts then IdLt c else IdGt c)) flt)"

section \<open>methods.go\<close>

text \<open>The answer to a find: the documents the cursor yields and the error it ends with.\<close>

record ('o, 'v, 'd, 't, 'c) collection =
  co_find :: "'c \<Rightarrow> ctx \<Rightarrow> ('o, 'v) fmap \<Rightarrow> 'v driver_opts \<Rightarrow> model_error + ('d list \<times> model_error option)"
  co_count :: "'c \<Rightarrow> ctx \<Rightarrow> ('o, 'v) fmap \<Rightarrow> model_error + go_int"
  co_find_one :: "'c \<Rightarrow> ctx \<Rightarrow> ('o, 'v) fmap \<Rightarrow> 'v driver_opts \<Rightarrow> model_error + 't"
  co_find_one_and_update :: "'c \<Rightarrow> ctx \<Rightarrow> ('o, 'v) fmap \<Rightarrow> 'v \<Rightarrow> 'v driver_opts \<Rightarrow> 'c \<times> (model_error + 't)"
  co_update_many :: "'c \<Rightarrow> ctx \<Rightarrow> ('o, 'v) fmap \<Rightarrow> 'v \<Rightarrow> 'v driver_opts \<Rightarrow> 'c \<times> (model_error + go_int)"
  co_insert :: "'c \<Rightarrow> ctx \<Rightarrow> 't list \<Rightarrow> 'c \<times> model_error option"
  co_delete_one :: "'c \<Rightarrow> ctx \<Rightarrow> ('o, 'v) fmap \<Rightarrow> 'c \<times> (model_error + go_int)"
  co_delete_many :: "'c \<Rightarrow> ctx \<Rightarrow> ('o, 'v) fmap \<Rightarrow> 'c \<times> (model_error + go_int)"
  co_id :: "'d \<Rightarrow> 'o"
  co_decode :: "'d \<Rightarrow> model_error + 't"
  co_codec :: "'o oid_codec"
  co_reflect :: "'t \<Rightarrow> 'v struct_field list"
  co_build :: "'t \<Rightarrow> 'v struct_field list \<Rightarrow> 't"
  co_newID :: "nat \<Rightarrow> 'v"
  co_now :: 'v

text \<open>What a call brings with it: the clock, the caller's context and the configuration of the model. Package \<open>reflect\<close> gives the fields
  of a value and a value with changed fields; \<open>co_newID\<close> and \<open>co_now\<close> are a fresh identifier and the time.\<close>

record call_ctx =
  cl_now :: int
  cl_ctx :: "ctx option"
  cl_cfg :: model_config

definition call_norm :: "call_ctx \<Rightarrow> 'v CommonOpts option \<Rightarrow> ctx" where
  "call_norm cc opt = normCtx (cl_now cc) (cl_ctx cc) (cl_cfg cc) opt"

text \<open>With a default timeout every operation that normalises its context reaches the driver with a deadline, and with the
  session of its options if it has one; \<open>FindWithCursor\<close> does not normalise.\<close>

lemma call_norm_deadline: "0 < mc_DefaultTimeout (cl_cfg cc) \<Longrightarrow> cx_deadline (call_norm cc opt) \<noteq> None"
  by (auto simp: call_norm_def normCtx_def Let_def split: option.split)

lemma call_norm_session: "op_Session o1 = Some s \<Longrightarrow> cx_session (call_norm cc (Some o1)) = Some s"
  by (simp add: call_norm_def normCtx_def Let_def)

definition touch :: "('o, 'v, 'd, 't, 'c) collection \<Rightarrow> 't \<Rightarrow> 't" where
  "touch col item = co_build col item (setIDAndCreated (co_newID col) (co_now col) (co_reflect col item))"

definition CreateOne ::
  "('o, 'v, 'd, 't, 'c) collection \<Rightarrow> call_ctx \<Rightarrow> 't \<Rightarrow> 'v CommonOpts option list \<Rightarrow> 'c \<Rightarrow> 'c \<times> (model_error + 't)" where
  "CreateOne col cc item opts c =
     (let item' = touch col item in
      case co_insert col c (call_norm cc (firstOpt opts)) [item'] of
        (c', Some err) \<Rightarrow> (c', Inl err)
      | (c', None) \<Rightarrow> (c', Inr item'))"

definition CreateMany ::
  "('o, 'v, 'd, 't, 'c) collection \<Rightarrow> call_ctx \<Rightarrow> 't list \<Rightarrow> 'v CommonOpts option list \<Rightarrow> 'c \<Rightarrow> 'c \<times> (model_error + 't list)" where
  "CreateMany col cc items opts c =
     (if items = [] then (c, Inl ErrEmptyItems)
      else
        let items' = map (touch col) items in
        case co_insert col c (call_norm cc (firstOpt opts)) items' of
          (c', Some err) \<Rightarrow> (c', Inl err)
        | (c', None) \<Rightarrow> (c', Inr items'))"

fun decode_all :: "('d \<Rightarrow> model_error + 't) \<Rightarrow> 'd list \<Rightarrow> model_error + 't list" where
  "decode_all dec [] = Inr []"
| "decode_all dec (d # ds) =
     (case dec d of
        Inl err \<Rightarrow> Inl err
      | Inr x \<Rightarrow> (case decode_all dec ds of Inl err \<Rightarrow> Inl err | Inr xs \<Rightarrow> Inr (x # xs)))"

definition offset_page :: "'o PaginationOpts option \<Rightarrow> go_int \<times> go_int" where
  "offset_page pagination =
     (case pagination of
        None \<Rightarrow> (DefaultPage, DefaultPerPage)
      | Some p \<Rightarrow>
          (if pg_Page p > 0 then pg_Page p else DefaultPage,
           if pg_PerPage p > 0 \<and> pg_PerPage p \<le> MaxOffsetPerPage then pg_PerPage p else DefaultPerPage))"

definition offset_skip :: "go_int \<Rightarrow> go_int \<Rightarrow> go_int" where
  "offset_skip page perPage =
     (let skip = wrap64 (wrap64 (page - 1) * perPage) in if skip > MaxOffsetSkip then 0 else skip)"

definition FindByOffset ::
  "('o, 'v, 'd, 't, 'c) collection \<Rightarrow> call_ctx \<Rightarrow> ('o, 'v) fmap \<Rightarrow> 'o PaginationOpts option \<Rightarrow>
     'v CommonOpts option list \<Rightarrow> 'c \<Rightarrow> model_error + ('t list \<times> Pagination)" where
  "FindByOffset col cc flt pagination opts c =
     (case offset_page pagination of (page, perPage) \<Rightarrow>
        (let dopts = (applyCommonOptions FindB no_opts (firstOpt opts))\<lparr>do_Skip := Some (offset_skip page perPage), do_Limit := Some perPage\<rparr>
         in case co_find col c (call_norm cc (firstOpt opts)) flt dopts of
              Inl err \<Rightarrow> Inl err
            | Inr (docs, cursor_err) \<Rightarrow>
                (case decode_all (co_decode col) docs of
                   Inl err \<Rightarrow> Inl err
                 | Inr items \<Rightarrow>
                     (case cursor_err of
                        Some err \<Rightarrow> Inl err
                      | None \<Rightarrow>
                          (case co_count col c (call_norm cc (firstOpt opts)) flt of
                             Inl err \<Rightarrow> Inl err
                           | Inr totalItems \<Rightarrow>
                               Inr (items,
                                 \<lparr>pn_Page = page, pn_PerPage = perPage, pn_TotalItems = totalItems,
                                  pn_TotalPages = totalItems div perPage + (if totalItems mod perPage \<noteq> 0 then 1 else 0),
                                  pn_HasNext = None, pn_HasPrev = None\<rparr>))))))"

definition cursor_limit :: "go_int \<Rightarrow> go_int" where
  "cursor_limit l = (if l \<le> 0 \<or> l > MaxOffsetPerPage then DefaultPerPage else l)"

definition FindByCursor ::
  "('o, 'v, 'd, 't, 'c) collection \<Rightarrow> call_ctx \<Rightarrow> ('o, 'v) fmap \<Rightarrow> 'o PaginationOpts option \<Rightarrow>
     'v CommonOpts option list \<Rightarrow> 'c \<Rightarrow> model_error + ('t list \<times> Pagination)" where
  "FindByCursor col cc flt pagination opts c =
     (case pagination of
        None \<Rightarrow> Inl ErrCursorPaginationRequired
      | Some p \<Rightarrow>
          if \<not> pg_UseCursor p then Inl ErrCursorPaginationRequired
          else
            let direction = pg_SortDirection p; limit = cursor_limit (pg_PerPage p) in
            if direction \<noteq> 1 \<and> direction \<noteq> -1 then Inl ErrInvalidCursorDirection
            else
              case (case pg_CursorID p of
                      None \<Rightarrow> Inr flt
                    | Some i \<Rightarrow>
                        (case ToObjectID (co_codec col) i of
                           Inl err \<Rightarrow> Inl ErrInvalidID
                         | Inr oid \<Rightarrow>
                             Inr (AList.update ''_id'' (if direction = -1 then IdLt oid else IdGt oid) flt))) of
                Inl err \<Rightarrow> Inl err
              | Inr flt' \<Rightarrow>
                  (let dopts = (applyCommonOptions FindB no_opts (firstOpt opts))
                                \<lparr>do_Sort := None, do_IdSort := Some direction, do_Limit := Some (limit + 1)\<rparr>
                   in case co_find col c (call_norm cc (firstOpt opts)) flt' dopts of
                        Inl err \<Rightarrow> Inl err
                      | Inr (docs, cursor_err) \<Rightarrow>
                          (case decode_all (co_decode col) docs of
                             Inl err \<Rightarrow> Inl err
                           | Inr items \<Rightarrow>
                               (let hasMore = int (length items) > limit;
                                    items1 = (if hasMore then take (nat limit) items else items);
                                    items2 = (if direction = -1 then rev items1 else items1);
                                    hasNext = (direction = 1 \<and> hasMore \<or> direction = -1 \<and> pg_CursorID p \<noteq> None);
                                    hasPrev = (direction = -1 \<and> hasMore \<or> direction = 1 \<and> pg_CursorID p \<noteq> None)
                                in Inr (items2,
                                     \<lparr>pn_Page = 0, pn_PerPage = limit, pn_TotalItems = 0, pn_TotalPages = 0,
                                      pn_HasNext = Some hasNext, pn_HasPrev = Some hasPrev\<rparr>)))))"

definition not_found :: "model_error \<Rightarrow> model_error" where
  "not_found err = (if err = ErrNoDocuments then ErrNotFound else err)"

definition FindOne ::
  "('o, 'v, 'd, 't, 'c) collection \<Rightarrow> call_ctx \<Rightarrow> ('o, 'v) fmap \<Rightarrow> 'v CommonOpts option list \<Rightarrow> 'c \<Rightarrow> model_error + 't" where
  "FindOne col cc filters opts c =
     (case co_find_one col c (call_norm cc (firstOpt opts)) filters (applyCommonOptions FindOneB no_opts (firstOpt opts)) of
        Inl err \<Rightarrow> Inl (not_found err)
      | Inr out \<Rightarrow> Inr out)"

definition FindByID ::
  "('o, 'v, 'd, 't, 'c) collection \<Rightarrow> call_ctx \<Rightarrow> 'o any_id \<Rightarrow> 'v CommonOpts option list \<Rightarrow> 'c \<Rightarrow> model_error + 't" where
  "FindByID col cc i opts c =
     (case ToObjectID (co_codec col) i of
        Inl err \<Rightarrow> Inl ErrInvalidID
      | Inr oid \<Rightarrow>
          (case co_find_one col c (call_norm cc (firstOpt opts)) [(''_id'', IdIs oid)] (applyCommonOptions FindOneB no_opts (firstOpt opts)) of
             Inl err \<Rightarrow> Inl (not_found err)
           | Inr out \<Rightarrow> Inr out))"

definition FindAndUpdateMany ::
  "('o, 'v, 'd, 't, 'c) collection \<Rightarrow> call_ctx \<Rightarrow> ('o, 'v) fmap \<Rightarrow> 'v \<Rightarrow> 'v CommonOpts option list \<Rightarrow> 'c \<Rightarrow>
     'c \<times> (model_error + go_int)" where
  "FindAndUpdateMany col cc filters payload opts c =
     (case co_update_many col c (call_norm cc (firstOpt opts)) filters payload (applyCommonOptions UpdateManyB no_opts (firstOpt opts)) of
        (c', Inl err) \<Rightarrow> (c', Inl (not_found err))
      | (c', Inr results) \<Rightarrow> (c', Inr results))"

definition FindOneAndUpdate ::
  "('o, 'v, 'd, 't, 'c) collection \<Rightarrow> call_ctx \<Rightarrow> ('o, 'v) fmap \<Rightarrow> 'v \<Rightarrow> 'v CommonOpts option list \<Rightarrow> 'c \<Rightarrow>
     'c \<times> (model_error + 't)" where
  "FindOneAndUpdate col cc filters payload opts c =
     (case co_find_one_and_update col c (call_norm cc (firstOpt opts)) filters payload (applyCommonOptions FindOneAndUpdateB no_opts (firstOpt opts)) of
        (c', Inl err) \<Rightarrow> (c', Inl (not_found err))
      | (c', Inr out) \<Rightarrow> (c', Inr out))"

definition FindByIDAndUpdate ::
  "('o, 'v, 'd, 't, 'c) collection \<Rightarrow> call_ctx \<Rightarrow> 'o any_id \<Rightarrow> 'v \<Rightarrow> 'v CommonOpts option list \<Rightarrow> 'c \<Rightarrow>
     'c \<times> (model_error + 't)" where
  "FindByIDAndUpdate col cc i payload opts c =
     (case ToObjectID (co_codec col) i of
        Inl err \<Rightarrow> (c, Inl ErrInvalidID)
      | Inr oid \<Rightarrow> FindOneAndUpdate col cc [(''_id'', IdIs oid)] payload opts c)"

definition deleted :: "model_error + go_int \<Rightarrow> model_error option" where
  "deleted r = (case r of Inl err \<Rightarrow> Some err | Inr n \<Rightarrow> if n = 0 then Some ErrNotFound else None)"

definition DeleteOne ::
  "('o, 'v, 'd, 't, 'c) collection \<Rightarrow> call_ctx \<Rightarrow> ('o, 'v) fmap \<Rightarrow> 'v CommonOpts option list \<Rightarrow> 'c \<Rightarrow> 'c \<times> model_error option" where
  "DeleteOne col cc filters opts c = (case co_delete_one col c (call_norm cc (firstOpt opts)) filters of (c', r) \<Rightarrow> (c', deleted r))"

definition DeleteByID ::
  "('o, 'v, 'd, 't, 'c) collection \<Rightarrow> call_ctx \<Rightarrow> 'o any_id \<Rightarrow> 'v CommonOpts option list \<Rightarrow> 'c \<Rightarrow> 'c \<times> model_error option" where
  "DeleteByID col cc i opts c =
     (case ToObjectID (co_codec col) i of
        Inl err \<Rightarrow> (c, Some ErrInvalidID)
      | Inr oid \<Rightarrow> DeleteOne col cc [(''_id'', IdIs oid)] opts c)"

definition DeleteMany ::
  "('o, 'v, 'd, 't, 'c) collection \<Rightarrow> call_ctx \<Rightarrow> ('o, 'v) fmap \<Rightarrow> 'v CommonOpts option list \<Rightarrow> 'c \<Rightarrow> 'c \<times> (model_error + go_int)" where
  "DeleteMany col cc flt opts c =
     (if flt = [] then (c, Inl ErrEmptyFilters)
      else
        case co_delete_many col c (call_norm cc (firstOpt opts)) flt of
          (c', Inl err) \<Rightarrow> (c', Inl err)
        | (c', Inr n) \<Rightarrow> (c', if n = 0 then Inl ErrNotFound else Inr n))"

text \<open>The loop of \<open>FindWithCursor\<close>: the values decoded so far and the three identifiers it tracks.\<close>

fun cursor_loop ::
  "('o, 'v, 'd, 't, 'c) collection \<Rightarrow> 'd list \<Rightarrow> 't list \<Rightarrow> string \<times> string \<times> string \<Rightarrow>
     model_error + ('t list \<times> string \<times> string \<times> string)" where
  "cursor_loop col [] results (firstID, lastID, prevLastID) = Inr (results, firstID, lastID, prevLastID)"
| "cursor_loop col (d # ds) results (firstID, lastID, prevLastID) =
     (let objID = oc_hex (co_codec col) (co_id col d) in
      case co_decode col d of
        Inl err \<Rightarrow> Inl err
      | Inr item \<Rightarrow>
          cursor_loop col ds (results @ [item])
            (if results = [] then objID else firstID, objID, lastID))"

definition cursor_result ::
  "CursorOpts \<Rightarrow> go_int \<Rightarrow> 't list \<Rightarrow> string \<Rightarrow> string \<Rightarrow> string \<Rightarrow> 't CursorResult" where
  "cursor_result opts limit results firstID0 lastID0 prevLastID =
     (let hasMore = int (length results) > limit;
          items1 = (if hasMore then take (nat limit) results else results);
          lastID1 = (if hasMore then prevLastID else lastID0);
          back = (cu_Direction opts = CursorPrevious);
          items = (if back then rev items1 else items1);
          firstID = (if back then lastID1 else firstID0);
          lastID = (if back then firstID0 else lastID1);
          hasNext = (items \<noteq> [] \<and> (if back then cu_Cursor opts \<noteq> [] else hasMore));
          hasPrev = (items \<noteq> [] \<and> (if back then hasMore else cu_Cursor opts \<noteq> []))
      in \<lparr>cr_Items = items, cr_NextCursor = (if hasNext then lastID else []),
          cr_PrevCursor = (if hasPrev then firstID else []), cr_HasNext = hasNext, cr_HasPrevious = hasPrev\<rparr>)"

definition FindWithCursor ::
  "('o, 'v, 'd, 't, 'c) collection \<Rightarrow> ctx \<Rightarrow> ('o, 'v) fmap \<Rightarrow> CursorOpts option \<Rightarrow> 'v option \<Rightarrow> 'c \<Rightarrow>
     model_error + 't CursorResult" where
  "FindWithCursor col cx flt cursorOpts projection c =
     (case cursorOpts of
        None \<Rightarrow> Inl (ErrDriver ''cursorOpts cannot be nil'')
      | Some opts \<Rightarrow>
          (let limit = (if cu_Limit opts \<le> 0 then 300 else cu_Limit opts);
               dopts = no_opts\<lparr>do_Limit := Some (wrap64 (limit + 1)),
                 do_IdSort := Some (if cu_SortAsc opts then 1 else -1), do_Projection := projection\<rparr>
           in case co_find col c cx (buildCursorFilter (co_codec col) flt opts) dopts of
                Inl err \<Rightarrow> Inl err
              | Inr (docs, cursor_err) \<Rightarrow>
                  (case cursor_loop col docs [] ([], [], []) of
                     Inl err \<Rightarrow> Inl err
                   | Inr (results, firstID, lastID, prevLastID) \<Rightarrow>
                       (case cursor_err of
                          Some err \<Rightarrow> Inl err
                        | None \<Rightarrow> Inr (cursor_result opts limit results firstID lastID prevLastID)))))"

section \<open>Pagination\<close>

text \<open>What the pagination relies on: the server answers a find sorted by \<open>_id\<close> with the documents
  that satisfy every condition, in that order, up to the limit; \<open>D\<close> is the collection in ascending
  order of its distinct identifiers, \<open>sat\<close> the meaning of the conditions.\<close>

definition serves ::
  "('o :: linorder, 'v, 'd, 't, 'c) collection \<Rightarrow> 'c \<Rightarrow> (string \<times> ('o, 'v) cond \<Rightarrow> 'd \<Rightarrow> bool) \<Rightarrow> 'd list \<Rightarrow> ('d \<Rightarrow> 't) \<Rightarrow> bool" where
  "serves col c sat D val \<longleftrightarrow>
     sorted_wrt (\<lambda>a b. co_id col a < co_id col b) D \<and>
     (\<forall>x d. sat (''_id'', IdGt x) d \<longleftrightarrow> x < co_id col d) \<and>
     (\<forall>x d. sat (''_id'', IdLt x) d \<longleftrightarrow> co_id col d < x) \<and>
     (\<forall>cx flt opts dir n. do_IdSort opts = Some dir \<longrightarrow> do_Limit opts = Some n \<longrightarrow> 0 < n \<longrightarrow>
        co_find col c cx flt opts =
          Inr (take (nat n) ((if dir = 1 then id else rev) (filter (\<lambda>d. \<forall>q \<in> set flt. sat q d) D)), None)) \<and>
     (\<forall>d. co_decode col d = Inr (val d)) \<and>
     (\<forall>x. oc_parse (co_codec col) (oc_hex (co_codec col) x) = Some x \<and> oc_hex (co_codec col) x \<noteq> [])"

lemma servesD:
  assumes "serves col c sat D val"
  shows "sorted_wrt (\<lambda>a b. co_id col a < co_id col b) D"
    "sat (''_id'', IdGt x) d \<longleftrightarrow> x < co_id col d" "sat (''_id'', IdLt x) d \<longleftrightarrow> co_id col d < x"
    "do_IdSort opts = Some dir \<Longrightarrow> do_Limit opts = Some n \<Longrightarrow> 0 < n \<Longrightarrow>
       co_find col c cx flt opts =
         Inr (take (nat n) ((if dir = 1 then id else rev) (filter (\<lambda>d. \<forall>q \<in> set flt. sat q d) D)), None)"
    "co_decode col d = Inr (val d)"
    "oc_parse (co_codec col) (oc_hex (co_codec col) x) = Some x" "oc_hex (co_codec col) x \<noteq> []"
  using assms unfolding serves_def by blast+

text \<open>The matching documents, in the order of the pages.\<close>

definition matching :: "(string \<times> ('o, 'v) cond \<Rightarrow> 'd \<Rightarrow> bool) \<Rightarrow> 'd list \<Rightarrow> ('o, 'v) fmap \<Rightarrow> bool \<Rightarrow> 'd list" where
  "matching sat D flt asc = (if asc then id else rev) (filter (\<lambda>d. \<forall>q \<in> set flt. sat q d) D)"

lemma sorted_wrt_rev_flip: "sorted_wrt R (rev xs) = sorted_wrt (\<lambda>a b. R b a) xs"
  by (rule sorted_wrt_rev)

lemma matching_sorted:
  assumes "serves col c sat D val"
  shows "sorted_wrt (\<lambda>a b. if asc then co_id col a < co_id col b else co_id col b < co_id col a)
    (matching sat D flt asc)"
  using sorted_wrt_filter [OF servesD(1) [OF assms], of "\<lambda>d. \<forall>q \<in> set flt. sat q d"]
  by (simp add: matching_def sorted_wrt_rev)

lemma filter_update_id:
  assumes "''_id'' \<notin> fst ` set flt"
  shows "(\<forall>q \<in> set (AList.update ''_id'' v flt). sat q d) \<longleftrightarrow> (\<forall>q \<in> set flt. sat q d) \<and> sat (''_id'', v) d"
  using assms by (induction flt) auto

text \<open>The documents behind a cursor in page order.\<close>

lemma matching_after_cursor:
  assumes s: "serves col c sat D val" and "''_id'' \<notin> fst ` set flt" "i < length (matching sat D flt asc)"
  shows "matching sat D (AList.update ''_id'' ((if asc then IdGt else IdLt) (co_id col (matching sat D flt asc ! i))) flt) asc
    = drop (Suc i) (matching sat D flt asc)"
proof -
  let ?M = "matching sat D flt asc" and ?R = "\<lambda>a b. if asc then co_id col a < co_id col b else co_id col b < co_id col a"
  have "matching sat D (AList.update ''_id'' ((if asc then IdGt else IdLt) (co_id col (?M ! i))) flt) asc =
      filter (?R (?M ! i)) ?M"
    using assms(2) by (auto simp: matching_def filter_update_id servesD(2,3) [OF s] rev_filter conj_commute)
  also have "\<dots> = drop (Suc i) ?M"
    using matching_sorted [OF s] assms(3) by (intro filter_after_nth) (auto split: if_splits)
  finally show ?thesis .
qed

lemma cursor_loop_result:
  assumes "\<And>d. co_decode col d = Inr (val d)"
  shows "cursor_loop col ds results (f, l, p) =
    Inr (results @ map val ds,
      (if results = [] \<and> ds \<noteq> [] then oc_hex (co_codec col) (co_id col (hd ds)) else f),
      (if ds = [] then l else oc_hex (co_codec col) (co_id col (last ds))),
      (if ds = [] then p else if butlast ds = [] then l else oc_hex (co_codec col) (co_id col (last (butlast ds)))))"
  by (induction ds arbitrary: results f l p) (auto simp: assms Let_def)

lemma decode_all_total: "(\<And>d. dec d = Inr (val d)) \<Longrightarrow> decode_all dec ds = Inr (map val ds)"
  by (induction ds) simp_all

lemma find_page:
  assumes s: "serves col c sat D val" and "0 < limit" "limit < 2 ^ 63 - 1" "cu_Limit opts = limit"
  shows "FindWithCursor col cx flt (Some opts) projection c =
    (let M = take (nat limit + 1) (matching sat D (buildCursorFilter (co_codec col) flt opts) (cu_SortAsc opts));
         id_of = (\<lambda>d. oc_hex (co_codec col) (co_id col d))
     in Inr (cursor_result opts limit (map val M) (if M = [] then [] else id_of (hd M))
         (if M = [] then [] else id_of (last M)) (if M = [] \<or> butlast M = [] then [] else id_of (last (butlast M)))))"
proof -
  have w: "wrap64 (limit + 1) = limit + 1" using assms by (intro wrap64_id) simp_all
  have n: "nat (limit + 1) = nat limit + 1" using assms(2) by simp
  let ?o = "no_opts\<lparr>do_Limit := Some (limit + 1),
      do_IdSort := Some (if cu_SortAsc opts then 1 else -1), do_Projection := projection\<rparr>"
  let ?F = "buildCursorFilter (co_codec col) flt opts"
  have "co_find col c cx ?F ?o = Inr (take (nat limit + 1) (matching sat D ?F (cu_SortAsc opts)), None)"
    using servesD(4) [OF s, of ?o "if cu_SortAsc opts then 1 else -1" "limit + 1" cx ?F] assms(2)
    by (simp add: n matching_def)
  then show ?thesis
    using assms(2,4) cursor_loop_result [OF servesD(5) [OF s], of _ "[]" "[]" "[]" "[]"]
    by (simp add: FindWithCursor_def Let_def w)
qed

text \<open>The cursor that stands for having seen the first \<open>i\<close> documents.\<close>

definition cursor_at :: "('o, 'v, 'd, 't, 'c) collection \<Rightarrow> 'd list \<Rightarrow> nat \<Rightarrow> string" where
  "cursor_at col M i = (if i = 0 then [] else oc_hex (co_codec col) (co_id col (M ! (i - 1))))"

definition next_opts :: "string \<Rightarrow> go_int \<Rightarrow> bool \<Rightarrow> CursorOpts" where
  "next_opts cursor limit asc =
     \<lparr>cu_Cursor = cursor, cu_Direction = CursorNext, cu_Limit = limit, cu_SortAsc = asc\<rparr>"

lemma matching_next:
  assumes s: "serves col c sat D val" and "''_id'' \<notin> fst ` set flt" "i \<le> length (matching sat D flt asc)"
  shows "matching sat D (buildCursorFilter (co_codec col) flt (next_opts (cursor_at col (matching sat D flt asc) i) limit asc)) asc
    = drop i (matching sat D flt asc)"
proof (cases i)
  case 0
  then show ?thesis by (simp add: buildCursorFilter_def cursor_at_def next_opts_def)
next
  case (Suc j)
  let ?M = "matching sat D flt asc"
  have "buildCursorFilter (co_codec col) flt (next_opts (cursor_at col ?M i) limit asc) =
      AList.update ''_id'' ((if asc then IdGt else IdLt) (co_id col (?M ! j))) flt"
    using servesD(6,7) [OF s] by (simp add: buildCursorFilter_def cursor_at_def next_opts_def Suc)
  then show ?thesis using matching_after_cursor [OF s assms(2), of j asc] assms(3) Suc by simp
qed

lemma page_at_cursor:
  assumes s: "serves col c sat D val" and f: "''_id'' \<notin> fst ` set flt"
    and "0 < limit" "limit < 2 ^ 63 - 1" and M_def: "M = matching sat D flt asc" and "i \<le> length M"
  shows "\<exists>r. FindWithCursor col cx flt (Some (next_opts (cursor_at col M i) limit asc)) projection c = Inr r \<and>
    cr_Items r = map val (take (nat limit) (drop i M)) \<and>
    cr_HasNext r = (length M > i + nat limit) \<and>
    (cr_HasNext r \<longrightarrow> cr_NextCursor r = cursor_at col M (i + nat limit))"
proof -
  let ?o = "next_opts (cursor_at col M i) limit asc" and ?L = "nat limit"
  let ?P = "take (?L + 1) (drop i M)"
  have m: "matching sat D (buildCursorFilter (co_codec col) flt ?o) (cu_SortAsc ?o) = drop i M"
    using matching_next [OF s f assms(6) [unfolded M_def], of limit] by (simp add: M_def next_opts_def)
  have run: "FindWithCursor col cx flt (Some ?o) projection c =
      Inr (cursor_result ?o limit (map val ?P) (if ?P = [] then [] else oc_hex (co_codec col) (co_id col (hd ?P)))
        (if ?P = [] then [] else oc_hex (co_codec col) (co_id col (last ?P)))
        (if ?P = [] \<or> butlast ?P = [] then [] else oc_hex (co_codec col) (co_id col (last (butlast ?P)))))"
    using find_page [OF s assms(3,4), of ?o cx flt projection] unfolding Let_def m
    by (simp add: next_opts_def)
  show ?thesis
  proof (cases "length M > i + ?L")
    case True
    then have "length ?P = ?L + 1" by simp
    then have more: "int (length (map val ?P)) > limit" using assms(3) by simp
    have bl: "butlast ?P = take ?L (drop i M)" using True by (simp add: butlast_take)
    have ne: "take ?L (drop i M) \<noteq> []" using True assms(3) by simp
    have "last (take ?L (drop i M)) = M ! (i + ?L - 1)"
      using True ne assms(3) by (simp add: last_conv_nth)
    then show ?thesis
      unfolding run using True more bl ne assms(3)
      by (auto simp: cursor_result_def Let_def next_opts_def cursor_at_def take_map min_def)
  next
    case False
    then have P: "?P = drop i M" "take ?L (drop i M) = drop i M" by simp_all
    then have "\<not> int (length (map val ?P)) > limit" using False assms(3) by auto
    then show ?thesis unfolding run using False P
      by (auto simp: cursor_result_def Let_def next_opts_def)
  qed
qed

text \<open>The pages as the client of the interface sees them, and the interface's laws for them.\<close>

definition next_page ::
  "('o, 'v, 'd, 't, 'c) collection \<Rightarrow> ctx \<Rightarrow> ('o, 'v) fmap \<Rightarrow> go_int \<Rightarrow> bool \<Rightarrow> 'c \<Rightarrow> string \<Rightarrow>
     ('t list \<times> bool \<times> string) option" where
  "next_page col cx flt limit asc c cursor =
     (case FindWithCursor col cx flt (Some (next_opts cursor limit asc)) None c of
        Inl err \<Rightarrow> None
      | Inr r \<Rightarrow> Some (cr_Items r, cr_HasNext r, cr_NextCursor r))"

interpretation mongo_pages: cursor_pager
  "\<lambda>(col, cx, flt, limit, asc, c, sat, D, val).
     serves col c sat D val \<and> ''_id'' \<notin> fst ` set flt \<and> 0 < limit \<and> limit < 2 ^ 63 - 1"
  "\<lambda>(col, cx, flt, limit, asc, c, sat, D, val). next_page col cx flt limit asc c"
  "\<lambda>(col, cx, flt, limit, asc, c, sat, D, val). cursor_at col (matching sat D flt asc)"
  "\<lambda>(col, cx, flt, limit, asc, c, sat, D, val). map val (matching sat D flt asc)"
  "\<lambda>(col, cx, flt, limit, asc, c, sat, D, val). nat limit"
proof (unfold_locales, goal_cases)
  case (1 e)
  then show ?case by auto
next
  case (2 e i)
  obtain col cx flt limit asc c sat D val where e: "e = (col, cx, flt, limit, asc, c, sat, D, val)"
    by (metis prod.collapse)
  with 2 obtain r where
    "FindWithCursor col cx flt (Some (next_opts (cursor_at col (matching sat D flt asc) i) limit asc)) None c = Inr r"
    "cr_Items r = map val (take (nat limit) (drop i (matching sat D flt asc)))"
    "cr_HasNext r = (length (matching sat D flt asc) > i + nat limit)"
    "cr_HasNext r \<longrightarrow> cr_NextCursor r = cursor_at col (matching sat D flt asc) (i + nat limit)"
    using page_at_cursor [of col c sat D val flt limit "matching sat D flt asc" asc i cx None] by auto
  then show ?case by (simp add: e next_page_def take_map drop_map)
qed


definition demo_sat :: "string \<times> (nat, unit) cond \<Rightarrow> nat \<Rightarrow> bool" where
  "demo_sat q d = (case snd q of Plain _ \<Rightarrow> True | IdIs x \<Rightarrow> d = x | IdGt x \<Rightarrow> x < d | IdLt x \<Rightarrow> d < x)"

definition demo_docs :: "nat list" where
  "demo_docs = [1, 2, 3, 5, 8]"

definition demo_col :: "(nat, unit, nat, nat, unit) collection" where
  "demo_col =
     \<lparr>co_find = (\<lambda>c cx flt opts. case (do_IdSort opts, do_Limit opts) of
          (Some dir, Some n) \<Rightarrow>
            Inr (take (nat n) ((if dir = 1 then id else rev) (filter (\<lambda>d. \<forall>q \<in> set flt. demo_sat q d) demo_docs)), None)
        | _ \<Rightarrow> Inr ([], None)),
      co_count = (\<lambda>c cx flt. Inr 5), co_find_one = (\<lambda>c cx flt opts. Inl ErrNoDocuments),
      co_find_one_and_update = (\<lambda>c cx flt v opts. (c, Inl ErrNoDocuments)),
      co_update_many = (\<lambda>c cx flt v opts. (c, Inr 0)), co_insert = (\<lambda>c cx ts. (c, None)),
      co_delete_one = (\<lambda>c cx flt. (c, Inr 0)), co_delete_many = (\<lambda>c cx flt. (c, Inr 0)),
      co_id = id, co_decode = Inr,
      co_codec = \<lparr>oc_hex = (\<lambda>n. replicate (Suc n) (CHR ''a'')),
                  oc_parse = (\<lambda>h. if h = [] then None else Some (length h - 1))\<rparr>,
      co_reflect = (\<lambda>_. []), co_build = (\<lambda>t _. t), co_newID = (\<lambda>_. ()), co_now = ()\<rparr>"

definition demo_cx :: ctx where
  "demo_cx = \<lparr>cx_deadline = None, cx_session = None\<rparr>"

definition demo_call :: call_ctx where
  "demo_call = \<lparr>cl_now = 0, cl_ctx = Some demo_cx, cl_cfg = \<lparr>mc_DefaultTimeout = 0\<rparr>\<rparr>"

lemma demo_serves: "serves demo_col () demo_sat demo_docs id"
  by (simp add: serves_def demo_col_def demo_sat_def demo_docs_def)


lemma matching_before:
  assumes s: "serves col c sat D val" and f: "''_id'' \<notin> fst ` set flt" and k: "k < length (matching sat D flt True)"
  shows "matching sat D (AList.update ''_id'' (IdLt (co_id col (matching sat D flt True ! k))) flt) False =
    rev (take k (matching sat D flt True))"
proof -
  let ?M = "matching sat D flt True" and ?N = "matching sat D flt False"
  have N: "?N = rev ?M" by (simp add: matching_def)
  let ?i = "length ?M - Suc k"
  have i: "?i < length ?N" "?N ! ?i = ?M ! k" using k by (simp_all add: N rev_nth)
  have "drop (Suc ?i) ?N = rev (take k ?M)" using k by (simp add: N drop_rev Suc_diff_Suc)
  with matching_after_cursor [OF s f i(1)] i(2) show ?thesis by simp
qed

text \<open>\<open>FindByCursor\<close> pages in both directions: at the cursor of the \<open>k\<close>-th matching document,
  direction 1 returns the next \<open>limit\<close> documents and direction -1 the \<open>limit\<close> documents just before
  it, both in ascending order, and it says correctly whether more follow in that direction.\<close>

theorem FindByCursor_pages:
  assumes "serves col c sat D val" "''_id'' \<notin> fst ` set flt" "M = matching sat D flt True" "k < length M"
    and "pg_UseCursor p" "pg_CursorID p = Some (AnyOid (co_id col (M ! k)))" "limit = cursor_limit (pg_PerPage p)"
  shows "(pg_SortDirection p = 1 \<longrightarrow>
      (\<exists>pn. FindByCursor col cc flt (Some p) opts c = Inr (map val (take (nat limit) (drop (Suc k) M)), pn) \<and>
         pn_HasNext pn = Some (length M > Suc k + nat limit))) \<and>
    (pg_SortDirection p = -1 \<longrightarrow>
      (\<exists>pn. FindByCursor col cc flt (Some p) opts c = Inr (map val (drop (k - nat limit) (take k M)), pn) \<and>
         pn_HasPrev pn = Some (k > nat limit)))"
proof -
  have lim: "0 < limit" using assms(7) by (simp add: cursor_limit_def paging_defaults)
  let ?op = "\<lambda>dir. (applyCommonOptions FindB no_opts (firstOpt opts))\<lparr>do_Sort := None, do_IdSort := Some dir, do_Limit := Some (limit + 1)\<rparr>"
  have find: "co_find col c cx F (?op dir) = Inr (take (nat limit + 1) (matching sat D F (dir = 1)), None)" for F dir cx
    using servesD(4) [OF assms(1), of "?op dir" dir "limit + 1" cx F] lim
    by (simp add: matching_def nat_add_distrib)
  have up: "matching sat D (AList.update ''_id'' (IdGt (co_id col (M ! k))) flt) True = drop (Suc k) M"
    using matching_after_cursor [OF assms(1,2), of k True] assms(3,4) by simp
  have down: "matching sat D (AList.update ''_id'' (IdLt (co_id col (M ! k))) flt) False = rev (take k M)"
    using matching_before [OF assms(1,2)] assms(3,4) by simp
  note dec = decode_all_total [of "co_decode col" val, OF servesD(5) [OF assms(1)]]
  have fwd: "\<exists>pn. FindByCursor col cc flt (Some p) opts c = Inr (map val (take (nat limit) (drop (Suc k) M)), pn) \<and>
         pn_HasNext pn = Some (length M > Suc k + nat limit)" if "pg_SortDirection p = 1"
    using that assms(5-7) find [where dir = 1] lim
    by (auto simp: FindByCursor_def Let_def ToObjectID_def up dec take_map min_def)
  have bwd: "\<exists>pn. FindByCursor col cc flt (Some p) opts c = Inr (map val (drop (k - nat limit) (take k M)), pn) \<and>
         pn_HasPrev pn = Some (k > nat limit)" if "pg_SortDirection p = -1"
    using that assms(4-7) find [where dir = "-1"] lim
    by (auto simp: FindByCursor_def Let_def ToObjectID_def down dec take_map min_def take_rev rev_map)
      (rule arg_cong [where f = "\<lambda>n. map val (drop n (take k M))"], arith)
  from fwd bwd show ?thesis by blast
qed

theorem FindByCursor_pages_witness:
  "\<exists>pn. FindByCursor demo_col demo_call [] (Some \<lparr>pg_Page = 0, pg_PerPage = 2, pg_CursorID = Some (AnyOid 8),
      pg_SortDirection = -1, pg_UseCursor = True\<rparr>) [] () = Inr ([3, 5], pn) \<and> pn_HasPrev pn = Some True"
proof -
  let ?p = "\<lparr>pg_Page = 0, pg_PerPage = 2, pg_CursorID = Some (AnyOid 8), pg_SortDirection = -1, pg_UseCursor = True\<rparr>"
  have M: "[1, 2, 3, 5, 8] = matching demo_sat demo_docs [] True" by (simp add: matching_def demo_docs_def)
  have "co_id demo_col 8 = 8" by (simp add: demo_col_def)
  then show ?thesis
    using FindByCursor_pages [OF demo_serves _ M, of 4 ?p 2 demo_call "[]"]
    by (simp add: cursor_limit_def paging_defaults)
qed

text \<open>\<open>FindWithCursor\<close> towards the previous page keeps the forward sort order: it returns, reversed,
  the first page of the documents before the cursor, not the page just before it.\<close>

lemma FindWithCursor_previous_is_first_page:
  "FindWithCursor demo_col demo_cx [] (Some \<lparr>cu_Cursor = replicate 9 (CHR ''a''), cu_Direction = CursorPrevious,
     cu_Limit = 2, cu_SortAsc = True\<rparr>) None () =
   Inr \<lparr>cr_Items = [2, 1], cr_NextCursor = replicate 2 (CHR ''a''), cr_PrevCursor = replicate 3 (CHR ''a''),
     cr_HasNext = True, cr_HasPrevious = True\<rparr>"
  by code_simp

end
