(* ===== verification/Redis_Client.thy ===== *)
theory Redis_Client
  imports Complex_Main Cache_Interface "HOL-Library.AList"
begin

text \<open>
  The Redis client of \<open>infrastructure/redis\<close> and the lock manager of \<open>infrastructure/redisLock\<close>.
  The Redis server behind go-redis, the JSON package and redsync are parameters: a command is sent to
  the server, which changes its state and replies. The theory shows that a client only touches
  keys under its own prefix, that its reads satisfy the cache contract, what \<open>GetOrSet\<close> and
  \<open>GetOrSetEx\<close> return, and the order of locking, critical section and unlocking.
\<close>

section \<open>types.go, errors.go, constants.go\<close>

record RedisClient =
  keyPrefix :: string

record SetOptions =
  so_TTL :: duration
  so_NX :: bool
  so_XX :: bool
  so_KeepTTL :: bool

text \<open>\<open>RNil\<close> is \<open>redis.Nil\<close>, the reply for a missing key.\<close>

datatype redis_error = ErrNilDestination | RNil | ErrServer string | ErrMarshal | ErrUnmarshal

text \<open>Commands as the kit sends them, with the full key.\<close>

datatype redis_cmd =
    CmdSet string string duration
  | CmdSetArgs string string duration string bool
  | CmdGet string
  | CmdDel string
  | CmdZAdd string real string
  | CmdZScore string string
  | CmdZMScore string "string list"
  | CmdZRangeByScore string string string int int
  | CmdZRem string string
  | CmdHIncrBy string string int
  | CmdHDel string string
  | CmdHSet string string string
  | CmdHGet string string
  | CmdSAdd string string
  | CmdSRem string string
  | CmdSIsMember string string
  | CmdSMIsMember string "string list"
  | CmdSMembers string

primrec cmd_key :: "redis_cmd \<Rightarrow> string" where
  "cmd_key (CmdSet k v ttl) = k"
| "cmd_key (CmdSetArgs k v ttl m keep) = k"
| "cmd_key (CmdGet k) = k"
| "cmd_key (CmdDel k) = k"
| "cmd_key (CmdZAdd k s m) = k"
| "cmd_key (CmdZScore k m) = k"
| "cmd_key (CmdZMScore k ms) = k"
| "cmd_key (CmdZRangeByScore k a b off n) = k"
| "cmd_key (CmdZRem k m) = k"
| "cmd_key (CmdHIncrBy k f n) = k"
| "cmd_key (CmdHDel k f) = k"
| "cmd_key (CmdHSet k f v) = k"
| "cmd_key (CmdHGet k f) = k"
| "cmd_key (CmdSAdd k m) = k"
| "cmd_key (CmdSRem k m) = k"
| "cmd_key (CmdSIsMember k m) = k"
| "cmd_key (CmdSMIsMember k ms) = k"
| "cmd_key (CmdSMembers k) = k"

text \<open>A score is a float; \<open>None\<close> stands for NaN.\<close>

datatype reply =
    RStr string
  | RInt int
  | RBool bool
  | RScore real
  | RStrs "string list"
  | RBools "bool list"
  | RScores "real option list"
  | ROk

text \<open>A server executes a command at a time; a pipeline runs its commands one after the other.\<close>

type_synonym 'b server = "int \<Rightarrow> redis_cmd \<Rightarrow> 'b \<Rightarrow> 'b \<times> (redis_error + reply)"

definition err_of :: "redis_error + 'x \<Rightarrow> redis_error option" where
  "err_of r = (case r of Inl e \<Rightarrow> Some e | Inr _ \<Rightarrow> None)"

definition NoExpiration :: duration where "NoExpiration = 0"

definition prefixed :: "RedisClient \<Rightarrow> string \<Rightarrow> string" where
  "prefixed c key = keyPrefix c @ '':'' @ key"

section \<open>internals.go\<close>

definition getSetMode :: "SetOptions option \<Rightarrow> string" where
  "getSetMode opts =
     (case opts of None \<Rightarrow> [] | Some s \<Rightarrow> if so_NX s then ''NX'' else if so_XX s then ''XX'' else [])"

text \<open>A value to store: a string, a byte slice, or anything else, nil included. The JSON package
  encodes values and decodes into a destination; decoding returns what the destination holds
  afterwards, which may have changed even when it fails, and whether it succeeded.\<close>

datatype 'v goval = VStr string | VBytes string | VAny 'v

datatype 'd dest = DStr string | DBytes string | DAny 'd

record ('v, 'd) json =
  js_marshal :: "'v \<Rightarrow> string option"
  js_unmarshal :: "string \<Rightarrow> 'd dest \<Rightarrow> 'd dest \<times> bool"

definition prepareValue :: "('v, 'd) json \<Rightarrow> 'v goval \<Rightarrow> redis_error + string" where
  "prepareValue j v =
     (case v of
        VStr s \<Rightarrow> Inr s
      | VBytes b \<Rightarrow> Inr b
      | VAny x \<Rightarrow> (case js_marshal j x of None \<Rightarrow> Inl ErrMarshal | Some s \<Rightarrow> Inr s))"

section \<open>methods.go\<close>

definition SetEx ::
  "('v, 'd) json \<Rightarrow> 'b server \<Rightarrow> RedisClient \<Rightarrow> int \<Rightarrow> string \<Rightarrow> 'v goval \<Rightarrow> duration \<Rightarrow> 'b \<Rightarrow>
     'b \<times> redis_error option" where
  "SetEx j srv c t key v ttl b =
     (case prepareValue j v of
        Inl err \<Rightarrow> (b, Some err)
      | Inr data \<Rightarrow>
          (case srv t (CmdSet (prefixed c key) data ttl) b of (b', r) \<Rightarrow> (b', err_of r)))"

definition Set_value ::
  "('v, 'd) json \<Rightarrow> 'b server \<Rightarrow> RedisClient \<Rightarrow> int \<Rightarrow> string \<Rightarrow> 'v goval \<Rightarrow> 'b \<Rightarrow> 'b \<times> redis_error option" where
  "Set_value j srv c t key v b =
     (case prepareValue j v of
        Inl err \<Rightarrow> (b, Some err)
      | Inr data \<Rightarrow>
          (case srv t (CmdSet (prefixed c key) data NoExpiration) b of (b', r) \<Rightarrow> (b', err_of r)))"

text \<open>The options are dereferenced without a test: nil panics, which is the value \<open>None\<close>.\<close>

definition SetWithOptions ::
  "('v, 'd) json \<Rightarrow> 'b server \<Rightarrow> RedisClient \<Rightarrow> int \<Rightarrow> string \<Rightarrow> 'v goval \<Rightarrow> SetOptions option \<Rightarrow> 'b \<Rightarrow>
     ('b \<times> redis_error option) option" where
  "SetWithOptions j srv c t key v opts b =
     (case prepareValue j v of
        Inl err \<Rightarrow> Some (b, Some err)
      | Inr data \<Rightarrow>
          (case opts of
             None \<Rightarrow> None
           | Some s \<Rightarrow>
               (case srv t (CmdSetArgs (prefixed c key) data (so_TTL s) (getSetMode opts) (so_KeepTTL s)) b of
                  (b', r) \<Rightarrow> Some (b', err_of r))))"

text \<open>\<open>Get\<close> returns what the destination holds afterwards and the error.\<close>

definition Get_into ::
  "('v, 'd) json \<Rightarrow> 'b server \<Rightarrow> RedisClient \<Rightarrow> int \<Rightarrow> string \<Rightarrow> 'd dest option \<Rightarrow> 'b \<Rightarrow>
     'b \<times> 'd dest option \<times> redis_error option" where
  "Get_into j srv c t key dest b =
     (case dest of
        None \<Rightarrow> (b, None, Some ErrNilDestination)
      | Some d \<Rightarrow>
          (case srv t (CmdGet (prefixed c key)) b of
             (b', Inl err) \<Rightarrow> (b', Some d, Some err)
           | (b', Inr (RStr val)) \<Rightarrow>
               (case d of
                  DStr _ \<Rightarrow> (b', Some (DStr val), None)
                | DBytes _ \<Rightarrow> (b', Some (DBytes val), None)
                | DAny _ \<Rightarrow>
                    (case js_unmarshal j val d of
                       (d', ok) \<Rightarrow> (b', Some d', if ok then None else Some ErrUnmarshal)))
           | (b', Inr _) \<Rightarrow> (b', Some d, Some (ErrServer ''unexpected reply''))))"

text \<open>\<open>GetOrSet\<close> decodes into a fresh \<open>interface{}\<close>, whose initial content is \<open>nil_any\<close>. A result is what
  the destination holds, the fresh value, or the error of the callback. The callback's result is
  an argument.\<close>

datatype ('v, 'd) got = Cached "'d dest" | Fresh "'v goval" | Failed string

definition GetOrSet ::
  "('v, 'd) json \<Rightarrow> 'b server \<Rightarrow> RedisClient \<Rightarrow> int \<Rightarrow> string \<Rightarrow> 'd \<Rightarrow> string + 'v goval \<Rightarrow> 'b \<Rightarrow>
     'b \<times> ('v, 'd) got" where
  "GetOrSet j srv c t key nil_any callback b =
     (case Get_into j srv c t key (Some (DAny nil_any)) b of
        (b1, out, None) \<Rightarrow> (b1, Cached (the out))
      | (b1, out, Some err) \<Rightarrow>
          (case callback of
             Inl e \<Rightarrow> (b1, Failed e)
           | Inr fresh \<Rightarrow> (fst (Set_value j srv c t key fresh b1), Fresh fresh)))"

text \<open>\<open>GetOrSetEx\<close> also returns whether it was a hit, the content of \<open>Metrics\<close>; \<open>is_nil\<close> tells a nil
  fresh value. The time to live is \<open>time.Duration(CacheTTL) * time.Second\<close>.\<close>

definition GetOrSetEx ::
  "('v, 'd) json \<Rightarrow> ('v goval \<Rightarrow> bool) \<Rightarrow> 'b server \<Rightarrow> RedisClient \<Rightarrow> int \<Rightarrow> string \<Rightarrow> go_int \<Rightarrow> 'd dest option \<Rightarrow>
     'd \<Rightarrow> string + 'v goval \<Rightarrow> 'b \<Rightarrow> 'b \<times> bool \<times> ('v, 'd) got" where
  "GetOrSetEx j is_nil srv c t key ttl dest nil_any callback b =
     (case Get_into j srv c t key (Some (case dest of Some d \<Rightarrow> d | None \<Rightarrow> DAny nil_any)) b of
        (b1, out, None) \<Rightarrow> (b1, True, Cached (the out))
      | (b1, out, Some err) \<Rightarrow>
          (case callback of
             Inl e \<Rightarrow> (b1, False, Failed e)
           | Inr fresh \<Rightarrow>
               (let b2 = fst (SetEx j srv c t key fresh (wrap64 (ttl * 1000000000)) b1) in
                if dest \<noteq> None \<and> \<not> is_nil fresh then
                  (case prepareValue j fresh of
                     Inl err \<Rightarrow> (b2, False, Fresh fresh)
                   | Inr data \<Rightarrow> (b2, False, Cached (fst (js_unmarshal j data (the out)))))
                else (b2, False, Fresh fresh))))"

definition Del :: "'b server \<Rightarrow> RedisClient \<Rightarrow> int \<Rightarrow> string \<Rightarrow> 'b \<Rightarrow> 'b \<times> redis_error option" where
  "Del srv c t key b = (case srv t (CmdDel (prefixed c key)) b of (b', r) \<Rightarrow> (b', err_of r))"

section \<open>methods_collections.go\<close>

definition send :: "'b server \<Rightarrow> int \<Rightarrow> redis_cmd \<Rightarrow> 'b \<Rightarrow> 'b \<times> redis_error option" where
  "send srv t cmd b = (case srv t cmd b of (b', r) \<Rightarrow> (b', err_of r))"

definition ZAdd :: "'b server \<Rightarrow> RedisClient \<Rightarrow> int \<Rightarrow> string \<Rightarrow> real \<Rightarrow> string \<Rightarrow> 'b \<Rightarrow> 'b \<times> redis_error option" where
  "ZAdd srv c t key score member b = send srv t (CmdZAdd (prefixed c key) score member) b"

definition ZScore :: "'b server \<Rightarrow> RedisClient \<Rightarrow> int \<Rightarrow> string \<Rightarrow> string \<Rightarrow> 'b \<Rightarrow> 'b \<times> (redis_error + reply)" where
  "ZScore srv c t key member b = srv t (CmdZScore (prefixed c key) member) b"

definition ZMScore :: "'b server \<Rightarrow> RedisClient \<Rightarrow> int \<Rightarrow> string \<Rightarrow> string list \<Rightarrow> 'b \<Rightarrow> 'b \<times> (redis_error + reply)" where
  "ZMScore srv c t key members b = srv t (CmdZMScore (prefixed c key) members) b"

definition ZRangeByScore ::
  "'b server \<Rightarrow> RedisClient \<Rightarrow> int \<Rightarrow> string \<Rightarrow> string \<Rightarrow> string \<Rightarrow> int \<Rightarrow> int \<Rightarrow> 'b \<Rightarrow> 'b \<times> (redis_error + reply)" where
  "ZRangeByScore srv c t key lo hi offset count b =
     srv t (CmdZRangeByScore (prefixed c key) lo hi offset count) b"

definition ZRem :: "'b server \<Rightarrow> RedisClient \<Rightarrow> int \<Rightarrow> string \<Rightarrow> string \<Rightarrow> 'b \<Rightarrow> 'b \<times> redis_error option" where
  "ZRem srv c t key member b = send srv t (CmdZRem (prefixed c key) member) b"

definition HIncrBy :: "'b server \<Rightarrow> RedisClient \<Rightarrow> int \<Rightarrow> string \<Rightarrow> string \<Rightarrow> int \<Rightarrow> 'b \<Rightarrow> 'b \<times> (redis_error + reply)" where
  "HIncrBy srv c t key field incr b = srv t (CmdHIncrBy (prefixed c key) field incr) b"

definition HDel :: "'b server \<Rightarrow> RedisClient \<Rightarrow> int \<Rightarrow> string \<Rightarrow> string \<Rightarrow> 'b \<Rightarrow> 'b \<times> redis_error option" where
  "HDel srv c t key field b = send srv t (CmdHDel (prefixed c key) field) b"

definition HSet :: "'b server \<Rightarrow> RedisClient \<Rightarrow> int \<Rightarrow> string \<Rightarrow> string \<Rightarrow> string \<Rightarrow> 'b \<Rightarrow> 'b \<times> redis_error option" where
  "HSet srv c t key field v b = send srv t (CmdHSet (prefixed c key) field v) b"

text \<open>An \<open>int64\<close> argument is sent in decimal, and \<open>Int64()\<close> parses the reply.\<close>

definition HSetInt64 :: "'b server \<Rightarrow> RedisClient \<Rightarrow> int \<Rightarrow> string \<Rightarrow> string \<Rightarrow> int \<Rightarrow> 'b \<Rightarrow> 'b \<times> redis_error option" where
  "HSetInt64 srv c t key field v b = send srv t (CmdHSet (prefixed c key) field (itoa v)) b"

definition HGet :: "'b server \<Rightarrow> RedisClient \<Rightarrow> int \<Rightarrow> string \<Rightarrow> string \<Rightarrow> 'b \<Rightarrow> 'b \<times> (redis_error + reply)" where
  "HGet srv c t key field b = srv t (CmdHGet (prefixed c key) field) b"

definition HGetInt64 :: "'b server \<Rightarrow> RedisClient \<Rightarrow> int \<Rightarrow> string \<Rightarrow> string \<Rightarrow> 'b \<Rightarrow> 'b \<times> (redis_error + int)" where
  "HGetInt64 srv c t key field b =
     (case srv t (CmdHGet (prefixed c key) field) b of
        (b', Inl err) \<Rightarrow> (b', Inl err)
      | (b', Inr (RStr s)) \<Rightarrow>
          (b', case atoi s of None \<Rightarrow> Inl (ErrServer ''invalid syntax'') | Some n \<Rightarrow> Inr n)
      | (b', Inr _) \<Rightarrow> (b', Inl (ErrServer ''unexpected reply'')))"

definition SAdd :: "'b server \<Rightarrow> RedisClient \<Rightarrow> int \<Rightarrow> string \<Rightarrow> string \<Rightarrow> 'b \<Rightarrow> 'b \<times> redis_error option" where
  "SAdd srv c t key member b = send srv t (CmdSAdd (prefixed c key) member) b"

definition SRem :: "'b server \<Rightarrow> RedisClient \<Rightarrow> int \<Rightarrow> string \<Rightarrow> string \<Rightarrow> 'b \<Rightarrow> 'b \<times> redis_error option" where
  "SRem srv c t key member b = send srv t (CmdSRem (prefixed c key) member) b"

definition SRemN :: "'b server \<Rightarrow> RedisClient \<Rightarrow> int \<Rightarrow> string \<Rightarrow> string \<Rightarrow> 'b \<Rightarrow> 'b \<times> (redis_error + reply)" where
  "SRemN srv c t key member b = srv t (CmdSRem (prefixed c key) member) b"

definition SIsMember :: "'b server \<Rightarrow> RedisClient \<Rightarrow> int \<Rightarrow> string \<Rightarrow> string \<Rightarrow> 'b \<Rightarrow> 'b \<times> (redis_error + reply)" where
  "SIsMember srv c t key member b = srv t (CmdSIsMember (prefixed c key) member) b"

definition SMIsMember :: "'b server \<Rightarrow> RedisClient \<Rightarrow> int \<Rightarrow> string \<Rightarrow> string list \<Rightarrow> 'b \<Rightarrow> 'b \<times> (redis_error + reply)" where
  "SMIsMember srv c t key members b = srv t (CmdSMIsMember (prefixed c key) members) b"

definition SMembers :: "'b server \<Rightarrow> RedisClient \<Rightarrow> int \<Rightarrow> string \<Rightarrow> 'b \<Rightarrow> 'b \<times> (redis_error + reply)" where
  "SMembers srv c t key b = srv t (CmdSMembers (prefixed c key)) b"

text \<open>The commands of a pipeline all run; \<open>Exec\<close> returns the error of the first that failed.\<close>

fun exec_pipeline :: "'b server \<Rightarrow> int \<Rightarrow> redis_cmd list \<Rightarrow> 'b \<Rightarrow> 'b \<times> redis_error option" where
  "exec_pipeline srv t [] b = (b, None)"
| "exec_pipeline srv t (cmd # cmds) b =
     (case send srv t cmd b of
        (b1, e1) \<Rightarrow>
          (case exec_pipeline srv t cmds b1 of
             (b2, e2) \<Rightarrow> (b2, case e1 of Some e \<Rightarrow> Some e | None \<Rightarrow> e2)))"

definition PipelineRemoveFromCollections ::
  "'b server \<Rightarrow> RedisClient \<Rightarrow> int \<Rightarrow> string \<Rightarrow> string \<Rightarrow> string \<Rightarrow> string \<Rightarrow> 'b \<Rightarrow> 'b \<times> redis_error option" where
  "PipelineRemoveFromCollections srv c t zsetKey hKey setKey member b =
     exec_pipeline srv t
       [CmdZRem (prefixed c zsetKey) member, CmdHDel (prefixed c hKey) member,
        CmdSRem (prefixed c setKey) member] b"

text \<open>Conversions; times are Unix seconds.\<close>

definition trunc :: "real \<Rightarrow> int" where
  "trunc x = (if x < 0 then \<lceil>x\<rceil> else \<lfloor>x\<rfloor>)"

definition ScoreToTime :: "real option \<Rightarrow> int option" where
  "ScoreToTime score =
     (case score of None \<Rightarrow> None | Some s \<Rightarrow> if s = 0 then None else Some (trunc s))"

definition TimeToScore :: "int \<Rightarrow> real" where
  "TimeToScore t = real_of_int t"

definition ScoresToTimeMap :: "string list \<Rightarrow> real option list \<Rightarrow> (string \<rightharpoonup> int)" where
  "ScoresToTimeMap members scores =
     fold (\<lambda>(member, s) m. case ScoreToTime s of None \<Rightarrow> m | Some t \<Rightarrow> m(member \<mapsto> t))
       (zip members scores) Map.empty"

definition BoolSliceToMap :: "string list \<Rightarrow> bool list \<Rightarrow> (string \<rightharpoonup> bool)" where
  "BoolSliceToMap members flags = fold (\<lambda>(member, f) m. m(member \<mapsto> f)) (zip members flags) Map.empty"

definition FormatCutoff :: "int \<Rightarrow> string" where
  "FormatCutoff t = itoa t"

section \<open>redisLock: methods.go\<close>

datatype lock_error = ErrTTLTooShort | ErrLockAcquire string | ErrLockRelease "string option"

definition DefaultTries :: nat where "DefaultTries = 3"
definition DefaultRetryDelay :: duration where "DefaultRetryDelay = 200 * 1000000"
definition MinTTL :: duration where "MinTTL = 100 * 1000000"

text \<open>redsync: a mutex is created with its expiry, tries and retry delay, and locked; unlocking
  returns whether it succeeded and an error. The events record what happened, in order.\<close>

datatype fn_result = FnOk | FnErr string | FnPanic

datatype 'm lock_event = ELock string duration "string + 'm" | EFn fn_result | EUnlock 'm "bool \<times> string option"

record ('m, 'b) redsync =
  rs_lock :: "'b \<Rightarrow> string \<Rightarrow> duration \<Rightarrow> nat \<Rightarrow> duration \<Rightarrow> 'b \<times> (string + 'm)"
  rs_unlock :: "'b \<Rightarrow> 'm \<Rightarrow> 'b \<times> bool \<times> string option"

type_synonym ('m, 'b) lock_st = "'b \<times> 'm lock_event list"

definition SetLock ::
  "('m, 'b) redsync \<Rightarrow> string \<Rightarrow> duration \<Rightarrow> ('m, 'b) lock_st \<Rightarrow> ('m, 'b) lock_st \<times> (lock_error + 'm)" where
  "SetLock rs key ttl st =
     (if ttl < MinTTL then (st, Inl ErrTTLTooShort)
      else
        case rs_lock rs (fst st) key ttl DefaultTries DefaultRetryDelay of
          (b, r) \<Rightarrow>
            ((b, snd st @ [ELock key ttl r]),
             case r of Inl err \<Rightarrow> Inl (ErrLockAcquire err) | Inr mutex \<Rightarrow> Inr mutex))"

definition SetUnlock ::
  "('m, 'b) redsync \<Rightarrow> 'm \<Rightarrow> ('m, 'b) lock_st \<Rightarrow> ('m, 'b) lock_st \<times> lock_error option" where
  "SetUnlock rs mutex st =
     (case rs_unlock rs (fst st) mutex of
        (b, ok, err) \<Rightarrow>
          ((b, snd st @ [EUnlock mutex (ok, err)]),
           if \<not> ok \<or> err \<noteq> None then Some (ErrLockRelease err) else None))"

text \<open>The deferred unlock runs however \<open>fn\<close> ends; its error is dropped.\<close>

definition SetWithLock ::
  "('m, 'b) redsync \<Rightarrow> string \<Rightarrow> duration \<Rightarrow> ('b \<Rightarrow> 'b \<times> fn_result) \<Rightarrow> ('m, 'b) lock_st \<Rightarrow>
     ('m, 'b) lock_st \<times> (lock_error + fn_result)" where
  "SetWithLock rs key ttl fn st =
     (case SetLock rs key ttl st of
        (st1, Inl err) \<Rightarrow> (st1, Inl err)
      | (st1, Inr mutex) \<Rightarrow>
          (case fn (fst st1) of
             (b2, r) \<Rightarrow> (fst (SetUnlock rs mutex (b2, snd st1 @ [EFn r])), Inr r)))"

section \<open>Key prefixes\<close>

lemma prefixed_inject [simp]: "prefixed c k = prefixed c k' \<longleftrightarrow> k = k'"
  by (simp add: prefixed_def)

lemma prefixed_disjoint:
  assumes "length (go_split (CHR '':'') (keyPrefix c)) = length (go_split (CHR '':'') (keyPrefix c'))"
    and "keyPrefix c \<noteq> keyPrefix c'"
  shows "prefixed c k \<noteq> prefixed c' k'"
  using append_sep_inject [of "keyPrefix c" "CHR '':''" k "keyPrefix c'" k'] assms
  by (auto simp: prefixed_def)

text \<open>The operations of a client, and a server that keeps a log of the commands it was sent.\<close>

datatype 'v client_op =
    XSet string "'v goval" | XSetEx string "'v goval" duration | XSetWithOptions string "'v goval" "SetOptions option"
  | XGet string | XDel string | XZAdd string real string | XZScore string string | XZMScore string "string list"
  | XZRangeByScore string string string int int | XZRem string string | XHIncrBy string string int
  | XHDel string string | XHSet string string string | XHSetInt64 string string int | XHGet string string
  | XHGetInt64 string string | XSAdd string string | XSRem string string | XSRemN string string
  | XSIsMember string string | XSMIsMember string "string list" | XSMembers string
  | XPipelineRemove string string string string

primrec run_op :: "('v, 'd) json \<Rightarrow> 'b server \<Rightarrow> RedisClient \<Rightarrow> int \<Rightarrow> 'v client_op \<Rightarrow> 'b \<Rightarrow> 'b" where
  "run_op j srv c t (XSet k v) b = fst (Set_value j srv c t k v b)"
| "run_op j srv c t (XSetEx k v ttl) b = fst (SetEx j srv c t k v ttl b)"
| "run_op j srv c t (XSetWithOptions k v opts) b =
     (case SetWithOptions j srv c t k v opts b of None \<Rightarrow> b | Some r \<Rightarrow> fst r)"
| "run_op j srv c t (XGet k) b = fst (Get_into j srv c t k (Some (DStr [])) b)"
| "run_op j srv c t (XDel k) b = fst (Del srv c t k b)"
| "run_op j srv c t (XZAdd k s m) b = fst (ZAdd srv c t k s m b)"
| "run_op j srv c t (XZScore k m) b = fst (ZScore srv c t k m b)"
| "run_op j srv c t (XZMScore k ms) b = fst (ZMScore srv c t k ms b)"
| "run_op j srv c t (XZRangeByScore k lo hi off n) b = fst (ZRangeByScore srv c t k lo hi off n b)"
| "run_op j srv c t (XZRem k m) b = fst (ZRem srv c t k m b)"
| "run_op j srv c t (XHIncrBy k f n) b = fst (HIncrBy srv c t k f n b)"
| "run_op j srv c t (XHDel k f) b = fst (HDel srv c t k f b)"
| "run_op j srv c t (XHSet k f v) b = fst (HSet srv c t k f v b)"
| "run_op j srv c t (XHSetInt64 k f n) b = fst (HSetInt64 srv c t k f n b)"
| "run_op j srv c t (XHGet k f) b = fst (HGet srv c t k f b)"
| "run_op j srv c t (XHGetInt64 k f) b = fst (HGetInt64 srv c t k f b)"
| "run_op j srv c t (XSAdd k m) b = fst (SAdd srv c t k m b)"
| "run_op j srv c t (XSRem k m) b = fst (SRem srv c t k m b)"
| "run_op j srv c t (XSRemN k m) b = fst (SRemN srv c t k m b)"
| "run_op j srv c t (XSIsMember k m) b = fst (SIsMember srv c t k m b)"
| "run_op j srv c t (XSMIsMember k ms) b = fst (SMIsMember srv c t k ms b)"
| "run_op j srv c t (XSMembers k) b = fst (SMembers srv c t k b)"
| "run_op j srv c t (XPipelineRemove zk hk sk m) b = fst (PipelineRemoveFromCollections srv c t zk hk sk m b)"

definition logged :: "'b server \<Rightarrow> ('b \<times> redis_cmd list) server" where
  "logged srv t cmd s = (case srv t cmd (fst s) of (b', r) \<Rightarrow> ((b', snd s @ [cmd]), r))"

definition run_ops ::
  "('v, 'd) json \<Rightarrow> 'b server \<Rightarrow> RedisClient \<Rightarrow> (int \<times> 'v client_op) list \<Rightarrow> 'b \<Rightarrow> 'b" where
  "run_ops j srv c ops b = fold (\<lambda>(t, op). run_op j srv c t op) ops b"

definition own_keys :: "RedisClient \<Rightarrow> redis_cmd list \<Rightarrow> bool" where
  "own_keys c cmds = (\<forall>cmd \<in> set cmds. \<exists>k. cmd_key cmd = prefixed c k)"

lemma snd_fst_logged: "snd (fst (logged srv t cmd s)) = snd s @ [cmd]"
  by (simp add: logged_def split: prod.splits)

lemma own_keys_simps:
  "own_keys c []" "own_keys c (cmds @ cmds') \<longleftrightarrow> own_keys c cmds \<and> own_keys c cmds'"
  "own_keys c (cmd # cmds) \<longleftrightarrow> (\<exists>k. cmd_key cmd = prefixed c k) \<and> own_keys c cmds"
  by (auto simp: own_keys_def)

lemma fst_send: "fst (send srv t cmd b) = fst (srv t cmd b)"
  by (simp add: send_def split: prod.splits)

lemmas collection_defs = ZAdd_def ZScore_def ZMScore_def ZRangeByScore_def ZRem_def HIncrBy_def HDel_def
  HSet_def HSetInt64_def HGet_def SAdd_def SRem_def SRemN_def SIsMember_def SMIsMember_def SMembers_def

lemma fst_operations:
  "fst (Get_into j srv c t k (Some d) b) = fst (srv t (CmdGet (prefixed c k)) b)"
  "fst (Del srv c t k b) = fst (srv t (CmdDel (prefixed c k)) b)"
  "fst (HGetInt64 srv c t k f b) = fst (srv t (CmdHGet (prefixed c k) f) b)"
  by (auto simp: Get_into_def Del_def HGetInt64_def split: prod.splits sum.splits reply.splits dest.splits)

lemma fst_pipeline:
  "fst (PipelineRemoveFromCollections srv c t zk hk sk m b) =
     fst (srv t (CmdSRem (prefixed c sk) m) (fst (srv t (CmdHDel (prefixed c hk) m)
       (fst (srv t (CmdZRem (prefixed c zk) m) b)))))"
  by (simp add: PipelineRemoveFromCollections_def split_beta fst_send)

lemma run_op_own_keys: "own_keys c (snd s) \<Longrightarrow> own_keys c (snd (run_op j (logged srv) c t op s))"
proof (cases op)
  case (XSet k v)
  assume "own_keys c (snd s)"
  with XSet show ?thesis
    by (auto simp: Set_value_def split_beta snd_fst_logged own_keys_simps split: sum.splits)
next
  case (XSetEx k v ttl)
  assume "own_keys c (snd s)"
  with XSetEx show ?thesis
    by (auto simp: SetEx_def split_beta snd_fst_logged own_keys_simps split: sum.splits)
next
  case (XSetWithOptions k v opts)
  assume "own_keys c (snd s)"
  with XSetWithOptions show ?thesis
    by (cases "prepareValue j v"; cases opts)
      (simp_all add: SetWithOptions_def split_beta snd_fst_logged own_keys_simps)
qed (auto simp: collection_defs fst_operations fst_pipeline fst_send snd_fst_logged own_keys_simps)

lemma run_ops_own_keys: "own_keys c (snd s) \<Longrightarrow> own_keys c (snd (run_ops j (logged srv) c ops s))"
proof (induction ops arbitrary: s)
  case (Cons op ops)
  then show ?case
    using Cons.IH [OF run_op_own_keys [OF Cons.prems]] by (cases op) (simp add: run_ops_def)
qed (simp add: run_ops_def)

text \<open>C25. Clients with different prefixes of equally many colons never touch the same key: whatever operations
  two such clients run, no command of the one addresses a key that a command of the other
  addresses.\<close>

theorem prefixes_isolate_clients:
  assumes "length (go_split (CHR '':'') (keyPrefix c)) = length (go_split (CHR '':'') (keyPrefix c'))"
    and "keyPrefix c \<noteq> keyPrefix c'"
    and "cmd \<in> set (snd (run_ops j (logged srv) c ops (b, [])))"
    and "cmd' \<in> set (snd (run_ops j' (logged srv') c' ops' (b', [])))"
  shows "cmd_key cmd \<noteq> cmd_key cmd'"
proof -
  have "own_keys c (snd (run_ops j (logged srv) c ops (b, [])))"
    "own_keys c' (snd (run_ops j' (logged srv') c' ops' (b', [])))"
    by (intro run_ops_own_keys; simp add: own_keys_def)+
  with assms(3,4) obtain k k' where "cmd_key cmd = prefixed c k" "cmd_key cmd' = prefixed c' k'"
    unfolding own_keys_def by blast
  with prefixed_disjoint [OF assms(1,2)] show ?thesis by simp
qed

text \<open>With different numbers of colons in the prefixes two clients can share a key.\<close>

lemma colon_prefixes_collide:
  "prefixed \<lparr>keyPrefix = ''app''\<rparr> ''user:1'' = prefixed \<lparr>keyPrefix = ''app:user''\<rparr> ''1''"
  by (simp add: prefixed_def)

definition demo_json :: "(unit, unit) json" where
  "demo_json = \<lparr>js_marshal = \<lambda>_. Some ''null'', js_unmarshal = \<lambda>s d. (d, False)\<rparr>"

text \<open>A server that holds strings without expiry.\<close>

definition demo_server :: "(string \<times> string) list server" where
  "demo_server t cmd b =
     (case cmd of
        CmdSet k v ttl \<Rightarrow> (AList.update k v b, Inr ROk)
      | CmdGet k \<Rightarrow> (b, case map_of b k of None \<Rightarrow> Inl RNil | Some v \<Rightarrow> Inr (RStr v))
      | CmdDel k \<Rightarrow> (filter (\<lambda>e. fst e \<noteq> k) b, Inr (RInt 1))
      | _ \<Rightarrow> (b, Inr ROk))"

theorem prefixes_isolate_clients_witness:
  "cmd_key (CmdDel (prefixed \<lparr>keyPrefix = ''dev:auth''\<rparr> ''k'')) \<noteq> cmd_key (CmdSet (prefixed \<lparr>keyPrefix = ''dev:app''\<rparr> ''k'') ''v'' 0)"
proof (rule prefixes_isolate_clients)
  show "CmdDel (prefixed \<lparr>keyPrefix = ''dev:auth''\<rparr> ''k'') \<in>
      set (snd (run_ops demo_json (logged demo_server) \<lparr>keyPrefix = ''dev:auth''\<rparr> [(0, XDel ''k'')] ([], [])))"
    by (simp add: run_ops_def fst_operations snd_fst_logged)
  show "CmdSet (prefixed \<lparr>keyPrefix = ''dev:app''\<rparr> ''k'') ''v'' 0 \<in>
      set (snd (run_ops demo_json (logged demo_server) \<lparr>keyPrefix = ''dev:app''\<rparr> [(0, XSetEx ''k'' (VStr ''v'') 0)] ([], [])))"
    by (simp add: run_ops_def SetEx_def prepareValue_def split_beta snd_fst_logged)
qed simp_all

section \<open>The cache contract\<close>

text \<open>What Redis promises of strings: a read returns what the last write of the key stored, as long as
  it has neither expired nor been deleted.\<close>

definition redis_laws :: "'b server \<Rightarrow> bool" where
  "redis_laws srv \<longleftrightarrow>
     (\<forall>b t t' k k' v ttl w. snd (srv t' (CmdGet k') (fst (srv t (CmdSet k v ttl) b))) = Inr (RStr w) \<longrightarrow>
        k' = k \<and> w = v \<or> (\<exists>u. snd (srv u (CmdGet k') b) = Inr (RStr w))) \<and>
     (\<forall>b t t' k k' w. snd (srv t' (CmdGet k') (fst (srv t (CmdGet k) b))) = Inr (RStr w) \<longrightarrow>
        (\<exists>u. snd (srv u (CmdGet k') b) = Inr (RStr w))) \<and>
     (\<forall>b t t' k k' w. snd (srv t' (CmdGet k') (fst (srv t (CmdDel k) b))) = Inr (RStr w) \<longrightarrow>
        (\<exists>u. snd (srv u (CmdGet k') b) = Inr (RStr w)))"

lemma redis_lawsD:
  assumes "redis_laws srv"
  shows "snd (srv t' (CmdGet k') (fst (srv t (CmdSet k v ttl) b))) = Inr (RStr w) \<Longrightarrow>
      k' = k \<and> w = v \<or> (\<exists>u. snd (srv u (CmdGet k') b) = Inr (RStr w))"
    "snd (srv t' (CmdGet k') (fst (srv t (CmdGet k) b))) = Inr (RStr w) \<Longrightarrow>
      \<exists>u. snd (srv u (CmdGet k') b) = Inr (RStr w)"
    "snd (srv t' (CmdGet k') (fst (srv t (CmdDel k) b))) = Inr (RStr w) \<Longrightarrow>
      \<exists>u. snd (srv u (CmdGet k') b) = Inr (RStr w)"
  using assms unfolding redis_laws_def by blast+

definition redis_holds :: "(string \<Rightarrow> string \<Rightarrow> bool) \<Rightarrow> ('v, 'd) json \<times> 'b server \<times> RedisClient \<times> 'b \<Rightarrow> bool" where
  "redis_holds P s =
     (case s of (j, srv, c, b) \<Rightarrow>
        redis_laws srv \<and> (\<forall>t k v. snd (srv t (CmdGet (prefixed c k)) b) = Inr (RStr v) \<longrightarrow> P k v))"

text \<open>The client's string operations, threading the server's state.\<close>

definition redis_get ::
  "int \<Rightarrow> string \<Rightarrow> ('v, 'd) json \<times> 'b server \<times> RedisClient \<times> 'b \<Rightarrow>
     (('v, 'd) json \<times> 'b server \<times> RedisClient \<times> 'b) \<times> string option" where
  "redis_get t k s =
     (case s of (j, srv, c, b) \<Rightarrow>
        case Get_into j srv c t k (Some (DStr [])) b of
          (b', Some (DStr v), None) \<Rightarrow> ((j, srv, c, b'), Some v)
        | (b', _, _) \<Rightarrow> ((j, srv, c, b'), None))"

definition redis_set ::
  "int \<Rightarrow> string \<Rightarrow> string \<Rightarrow> duration \<Rightarrow> ('v, 'd) json \<times> 'b server \<times> RedisClient \<times> 'b \<Rightarrow>
     ('v, 'd) json \<times> 'b server \<times> RedisClient \<times> 'b" where
  "redis_set t k v ttl s = (case s of (j, srv, c, b) \<Rightarrow> (j, srv, c, fst (SetEx j srv c t k (VStr v) ttl b)))"

definition redis_del ::
  "int \<Rightarrow> string \<Rightarrow> ('v, 'd) json \<times> 'b server \<times> RedisClient \<times> 'b \<Rightarrow> ('v, 'd) json \<times> 'b server \<times> RedisClient \<times> 'b" where
  "redis_del t k s = (case s of (j, srv, c, b) \<Rightarrow> (j, srv, c, fst (Del srv c t k b)))"

lemma redis_get_eq:
  "redis_get t k (j, srv, c, b) =
     ((j, srv, c, fst (srv t (CmdGet (prefixed c k)) b)),
      case snd (srv t (CmdGet (prefixed c k)) b) of Inr (RStr v) \<Rightarrow> Some v | _ \<Rightarrow> None)"
  by (auto simp: redis_get_def Get_into_def split: prod.splits sum.splits reply.splits)

interpretation redis: cache_contract redis_get redis_set redis_del redis_holds
proof (unfold_locales, goal_cases)
  case (1 P s t k)
  obtain j srv c b where s: "s = (j, srv, c, b)" by (cases s)
  with 1 show ?case by (auto simp: redis_holds_def redis_get_eq dest!: redis_lawsD(2))
next
  case (2 P s t k v)
  obtain j srv c b where s: "s = (j, srv, c, b)" by (cases s)
  with 2 show ?case by (auto simp: redis_holds_def redis_get_eq split: sum.splits reply.splits)
next
  case (3 P s k v t ttl)
  obtain j srv c b where s: "s = (j, srv, c, b)" by (cases s)
  have "fst (SetEx j srv c t k (VStr v) ttl b) = fst (srv t (CmdSet (prefixed c k) v ttl) b)"
    by (simp add: SetEx_def prepareValue_def split_beta)
  with 3 s show ?case by (auto simp: redis_holds_def redis_set_def dest!: redis_lawsD(1))
next
  case (4 P s t k)
  obtain j srv c b where s: "s = (j, srv, c, b)" by (cases s)
  with 4 show ?case by (auto simp: redis_holds_def redis_del_def fst_operations dest!: redis_lawsD(3))
qed

text \<open>C26. The Redis client never makes a value up: over a server that behaves as documented and
  answers no key at first, every string a \<open>Get\<close> returns was stored by a \<open>SetEx\<close> for the same key,
  through any sequence of \<open>Get\<close>, \<open>SetEx\<close> and \<open>Del\<close>.\<close>

theorem redis_reads_sound:
  assumes "redis_laws srv" "\<forall>t k v. snd (srv t (CmdGet k) b) \<noteq> Inr (RStr v)"
    and "(k, v) \<in> set (fst (run_cache redis_get redis_set redis_del ops (j, srv, c, b)))"
  shows "\<exists>t ttl. OpSet t k v ttl \<in> set ops"
proof -
  let ?P = "\<lambda>k v. \<exists>t ttl. OpSet t k v ttl \<in> set ops"
  have "redis_holds ?P (j, srv, c, b)" using assms(1,2) by (simp add: redis_holds_def)
  moreover have "op_stores ?P op" if "op \<in> set ops" for op
    using that by (cases op rule: cache_op.exhaust) auto
  ultimately show ?thesis using redis.run_sound [OF _ _ assms(3), of ?P] by blast
qed

lemma demo_get: "snd (demo_server t (CmdGet k) b) = Inr (RStr v) \<longleftrightarrow> map_of b k = Some v"
  by (auto simp: demo_server_def split: option.splits)

lemma map_of_without: "map_of (filter (\<lambda>e. fst e \<noteq> k) b) k' = (if k' = k then None else map_of b k')"
  by (induction b) auto

lemma demo_redis_laws: "redis_laws demo_server"
  unfolding redis_laws_def demo_get
  by (auto simp: demo_server_def update_conv' map_of_without split: if_splits)

theorem redis_reads_sound_witness:
  "\<exists>t ttl. OpSet t ''k'' ''v'' ttl \<in> set [OpSet 0 ''k'' ''v'' 60, OpGet 1 ''k'']"
proof (rule redis_reads_sound [OF demo_redis_laws])
  show "\<forall>t k v. snd (demo_server t (CmdGet k) []) \<noteq> Inr (RStr v)" unfolding demo_get by simp
  show "(''k'', ''v'') \<in> set (fst (run_cache redis_get redis_set redis_del
      [OpSet 0 ''k'' ''v'' 60, OpGet 1 ''k''] (demo_json, demo_server, \<lparr>keyPrefix = ''app''\<rparr>, [])))"
    by (simp add: redis_set_def redis_get_eq SetEx_def prepareValue_def demo_server_def)
qed

section \<open>GetOrSetEx\<close>

text \<open>For a value that JSON encodes and decodes, the caller of a miss and of the next hit get the same
  content, and the hit does not need the callback.\<close>

lemma GetOrSetEx_miss_then_hit:
  assumes "js_marshal j x = Some sx" "\<And>d. js_unmarshal j sx (DAny d) = (DAny dx, True)" "\<not> is_nil (VAny x)"
    and "srv t (CmdGet (prefixed c key)) b = (b1, Inl RNil)"
    and "srv t (CmdSet (prefixed c key) sx (wrap64 (ttl * 1000000000))) b1 = (b2, Inr r)"
    and "srv t' (CmdGet (prefixed c key)) b2 = (b3, Inr (RStr sx))"
  shows "GetOrSetEx j is_nil srv c t key ttl (Some (DAny d)) n (Inr (VAny x)) b = (b2, False, Cached (DAny dx))"
    "GetOrSetEx j is_nil srv c t' key ttl (Some (DAny d')) n callback b2 = (b3, True, Cached (DAny dx))"
  using assms by (simp_all add: GetOrSetEx_def Get_into_def SetEx_def prepareValue_def Let_def)

text \<open>A miss of \<open>GetOrSetEx\<close> with a string destination loses the value: a fresh string is stored as
  it is, but decoded as JSON into the destination; when the string is not a JSON text the decoding
  fails, its error is dropped, and the caller gets the destination as it was before, with no
  error. The next call is a hit and returns the string.\<close>

theorem GetOrSetEx_string_miss_unfilled:
  assumes "js_unmarshal j s (DStr old) = (DStr old, False)" "\<not> is_nil (VStr s)"
    and "srv t (CmdGet (prefixed c key)) b = (b1, Inl RNil)"
    and "srv t (CmdSet (prefixed c key) s (wrap64 (ttl * 1000000000))) b1 = (b2, Inr r)"
    and "srv t' (CmdGet (prefixed c key)) b2 = (b3, Inr (RStr s))"
  shows "GetOrSetEx j is_nil srv c t key ttl (Some (DStr old)) n (Inr (VStr s)) b = (b2, False, Cached (DStr old)) \<and>
    GetOrSetEx j is_nil srv c t' key ttl (Some (DStr old)) n (Inr (VStr s)) b2 = (b3, True, Cached (DStr s))"
  using assms by (simp add: GetOrSetEx_def Get_into_def SetEx_def prepareValue_def Let_def)

theorem GetOrSetEx_string_miss_unfilled_witness:
  "GetOrSetEx demo_json (\<lambda>_. False) demo_server \<lparr>keyPrefix = ''app''\<rparr> 0 ''k'' 60 (Some (DStr [])) () (Inr (VStr ''v'')) [] =
     ([(''app:k'', ''v'')], False, Cached (DStr []))"
  using GetOrSetEx_string_miss_unfilled [of demo_json "''v''" "[]" "\<lambda>_. False" demo_server 0
      "\<lparr>keyPrefix = ''app''\<rparr>" "''k''" "[]" "[]" 60 "[(''app:k'', ''v'')]" ROk 1 "[(''app:k'', ''v'')]" "()"]
  by (simp add: demo_json_def demo_server_def prefixed_def)

text \<open>\<open>GetOrSet\<close> decodes what it reads as JSON: a plain string in the cache is never a hit, and the
  callback runs every time.\<close>

lemma GetOrSet_string_never_hits:
  assumes "\<not> snd (js_unmarshal j s (DAny n))" "srv t (CmdGet (prefixed c key)) b = (b1, Inr (RStr s))"
  shows "\<exists>b2. GetOrSet j srv c t key n (Inr (VStr s)) b = (b2, Fresh (VStr s))"
  using assms by (auto simp: GetOrSet_def Get_into_def split: prod.splits)

section \<open>Numbers and scores\<close>

lemma HGetInt64_after_HSetInt64:
  assumes "in_int64 n" "srv t (CmdHSet (prefixed c key) field (itoa n)) b = (b1, Inr r)"
    and "srv t' (CmdHGet (prefixed c key) field) b1 = (b2, Inr (RStr (itoa n)))"
  shows "HSetInt64 srv c t key field n b = (b1, None) \<and> HGetInt64 srv c t' key field b1 = (b2, Inr n)"
  using assms by (simp add: HSetInt64_def HGetInt64_def send_def err_of_def atoi_itoa)

lemma ScoreToTime_TimeToScore: "ScoreToTime (Some (TimeToScore t)) = (if t = 0 then None else Some t)"
  by (simp add: ScoreToTime_def TimeToScore_def trunc_def)

section \<open>Locks\<close>

text \<open>\<open>SetWithLock\<close> runs the critical section only between acquiring and releasing the lock. When the
  time to live is too short or the lock is not acquired, the section does not run; otherwise the
  events are exactly: the lock acquired, the section, the unlock of the same mutex, even when the section
  returns an error or panics, and the result is that of the section.\<close>

theorem SetWithLock_protocol:
  assumes "SetWithLock rs key ttl fn (b, []) = ((b', tr), r)"
  shows "(\<exists>e. r = Inl e \<and> (\<forall>x. EFn x \<notin> set tr) \<and> (ttl < MinTTL \<longleftrightarrow> e = ErrTTLTooShort \<and> tr = [])) \<or>
    (\<exists>mutex x u. MinTTL \<le> ttl \<and> r = Inr x \<and> tr = [ELock key ttl (Inr mutex), EFn x, EUnlock mutex u])"
proof (cases "ttl < MinTTL")
  case True
  with assms show ?thesis by (auto simp: SetWithLock_def SetLock_def)
next
  case False
  with assms show ?thesis
    by (auto simp: SetWithLock_def SetLock_def SetUnlock_def split: prod.splits sum.splits)
qed

theorem SetWithLock_protocol_witness:
  "let rs = \<lparr>rs_lock = \<lambda>b key ttl tries delay. (b, Inr ()), rs_unlock = \<lambda>b m. (b, False, None)\<rparr>
   in SetWithLock rs ''k'' MinTTL (\<lambda>b. (Suc b, FnOk)) (0, []) =
        ((1, [ELock ''k'' MinTTL (Inr ()), EFn FnOk, EUnlock () (False, None)]), Inr FnOk)"
  using SetWithLock_protocol [of "\<lparr>rs_lock = \<lambda>b key ttl tries delay. (b, Inr ()), rs_unlock = \<lambda>b m. (b, False, None)\<rparr>"
      "''k''" MinTTL "\<lambda>b. (Suc b, FnOk)" 0 1 "[ELock ''k'' MinTTL (Inr ()), EFn FnOk, EUnlock () (False, None)]" "Inr FnOk"]
  by (simp add: SetWithLock_def SetLock_def SetUnlock_def)

end
