(* ===== verification/ClickHouse_Model.thy ===== *)
theory ClickHouse_Model
  imports Kit_Prelude Cursor_Interface
begin

text \<open>
  The ClickHouse table wrapper: the query builder of
  \<open>infrastructure/clickhouse/model/query_builder.go\<close>, the field metadata of
  \<open>reflection.go\<close> and the table operations of \<open>methods.go\<close> and \<open>model.go\<close>. The driver
  connection, the JSON package and the values stored in struct fields are parameters. The theory
  shows that a query carries one argument per placeholder, that a batch is sent whole or not at
  all, and which page a cursor query returns.
\<close>

section \<open>constants.go, types.go\<close>

definition DefaultPage :: go_int where "DefaultPage = 1"
definition DefaultPerPage :: go_int where "DefaultPerPage = 25"
definition MaxPerPage :: go_int where "MaxPerPage = 300"
definition MaxOffset :: go_int where "MaxOffset = 10000"

type_synonym FilterOperator = string

definition OpEqual :: FilterOperator where "OpEqual = ''=''"
definition OpNotEqual :: FilterOperator where "OpNotEqual = ''!=''"
definition OpGreater :: FilterOperator where "OpGreater = ''>''"
definition OpGreaterEqual :: FilterOperator where "OpGreaterEqual = ''>=''"
definition OpLess :: FilterOperator where "OpLess = ''<''"
definition OpLessEqual :: FilterOperator where "OpLessEqual = ''<=''"
definition OpLike :: FilterOperator where "OpLike = ''LIKE''"
definition OpIn :: FilterOperator where "OpIn = ''IN''"
definition OpNotIn :: FilterOperator where "OpNotIn = ''NOT IN''"
definition OpBetween :: FilterOperator where "OpBetween = ''BETWEEN''"

lemmas op_defs = OpEqual_def OpNotEqual_def OpGreater_def OpGreaterEqual_def OpLess_def
  OpLessEqual_def OpLike_def OpIn_def OpNotIn_def OpBetween_def

record 'a ch_filter =
  f_Field :: string
  f_Operator :: FilterOperator
  f_Value :: 'a
  f_EndValue :: 'a

section \<open>query_builder.go\<close>

record 'a QueryBuilder =
  qb_table :: string
  qb_selectCols :: "string list"
  qb_whereParts :: "string list"
  qb_whereArgs :: "'a list"
  qb_orderBy :: string
  qb_limit :: go_int
  qb_offset :: go_int

definition NewQueryBuilder :: "string \<Rightarrow> 'a QueryBuilder" where
  "NewQueryBuilder table =
     \<lparr>qb_table = table, qb_selectCols = [], qb_whereParts = [], qb_whereArgs = [], qb_orderBy = [],
      qb_limit = 0, qb_offset = 0\<rparr>"

definition Select :: "string list \<Rightarrow> 'a QueryBuilder \<Rightarrow> 'a QueryBuilder" where
  "Select cols q = q\<lparr>qb_selectCols := cols\<rparr>"

definition add_where :: "string \<Rightarrow> 'a list \<Rightarrow> 'a QueryBuilder \<Rightarrow> 'a QueryBuilder" where
  "add_where part args q =
     q\<lparr>qb_whereParts := qb_whereParts q @ [part], qb_whereArgs := qb_whereArgs q @ args\<rparr>"

definition where_part :: "string \<Rightarrow> FilterOperator \<Rightarrow> string" where
  "where_part field op =
     (if op = OpIn \<or> op = OpNotIn then field @ '' '' @ op @ '' (?)''
      else if op = OpBetween then field @ '' BETWEEN ? AND ?''
      else field @ '' '' @ op @ '' ?'')"

definition Where :: "string \<Rightarrow> FilterOperator \<Rightarrow> 'a \<Rightarrow> 'a QueryBuilder \<Rightarrow> 'a QueryBuilder" where
  "Where field op val q = add_where (where_part field op) [val] q"

definition WhereFilter :: "'a ch_filter \<Rightarrow> 'a QueryBuilder \<Rightarrow> 'a QueryBuilder" where
  "WhereFilter f q =
     (if f_Operator f = OpBetween
      then add_where (f_Field f @ '' BETWEEN ? AND ?'') [f_Value f, f_EndValue f] q
      else Where (f_Field f) (f_Operator f) (f_Value f) q)"

definition WhereFilters :: "'a ch_filter list \<Rightarrow> 'a QueryBuilder \<Rightarrow> 'a QueryBuilder" where
  "WhereFilters filters q = fold WhereFilter filters q"

text \<open>A map is the list of its entries in the order in which the loop meets them.\<close>

definition WhereMap :: "(string \<times> 'a) list \<Rightarrow> 'a QueryBuilder \<Rightarrow> 'a QueryBuilder" where
  "WhereMap m q = fold (\<lambda>(field, val). Where field OpEqual val) m q"

definition WhereLike :: "string \<Rightarrow> 'a \<Rightarrow> 'a QueryBuilder \<Rightarrow> 'a QueryBuilder" where
  "WhereLike field pattern q = add_where (field @ '' LIKE ?'') [pattern] q"

definition WhereRaw :: "string \<Rightarrow> 'a list \<Rightarrow> 'a QueryBuilder \<Rightarrow> 'a QueryBuilder" where
  "WhereRaw clause args q = add_where clause args q"

definition OrderBy :: "string \<Rightarrow> 'a QueryBuilder \<Rightarrow> 'a QueryBuilder" where
  "OrderBy order q = q\<lparr>qb_orderBy := order\<rparr>"

definition Limit :: "go_int \<Rightarrow> 'a QueryBuilder \<Rightarrow> 'a QueryBuilder" where
  "Limit n q = q\<lparr>qb_limit := n\<rparr>"

definition Offset :: "go_int \<Rightarrow> 'a QueryBuilder \<Rightarrow> 'a QueryBuilder" where
  "Offset n q = q\<lparr>qb_offset := n\<rparr>"

definition where_clause :: "string list \<Rightarrow> string" where
  "where_clause parts = (if parts \<noteq> [] then '' WHERE '' @ go_join '' AND '' parts else [])"

definition BuildSelect :: "'a QueryBuilder \<Rightarrow> string \<times> 'a list" where
  "BuildSelect q =
     (''SELECT '' @
      (if qb_selectCols q \<noteq> [] then go_join '', '' (qb_selectCols q) else ''*'') @
      '' FROM '' @ qb_table q @
      where_clause (qb_whereParts q) @
      (if qb_orderBy q \<noteq> [] then '' ORDER BY '' @ qb_orderBy q else []) @
      (if qb_limit q > 0 then '' LIMIT '' @ itoa (qb_limit q) else []) @
      (if qb_offset q > 0 then '' OFFSET '' @ itoa (qb_offset q) else []),
      qb_whereArgs q)"

definition BuildCount :: "'a QueryBuilder \<Rightarrow> string \<times> 'a list" where
  "BuildCount q =
     (''SELECT COUNT(*) FROM '' @ qb_table q @ where_clause (qb_whereParts q), qb_whereArgs q)"

definition BuildInsert :: "string \<Rightarrow> string list \<Rightarrow> string" where
  "BuildInsert table columns =
     ''INSERT INTO '' @ table @ '' ('' @ go_join '', '' columns @ '') VALUES ('' @
     go_join '', '' (replicate (length columns) ''?'') @ '')''"

definition BuildInsertBatch :: "string \<Rightarrow> string list \<Rightarrow> string" where
  "BuildInsertBatch table columns =
     ''INSERT INTO '' @ table @ '' ('' @ go_join '', '' columns @ '')''"

definition ParseSort :: "string \<Rightarrow> string \<Rightarrow> string \<Rightarrow> string" where
  "ParseSort order defaultField defaultOrder =
     (if order = [] then
        (if defaultField = [] then [] else defaultField @ '' '' @ defaultOrder)
      else
        case go_split (CHR '':'') order of
          [field, dir] \<Rightarrow>
            (let direction = to_upper dir
             in field @ '' '' @
                (if direction \<noteq> ''ASC'' \<and> direction \<noteq> ''DESC'' then defaultOrder else direction))
        | _ \<Rightarrow> defaultField @ '' '' @ defaultOrder)"

section \<open>reflection.go, model.go\<close>

text \<open>What the reflection package says of a struct field. A pointer kind carries the kind it points
  to.\<close>

datatype kind = KTime | KByte | KNumeric | KMap kind | KSlice kind | KPtr kind | KOther

record struct_field =
  sf_Name :: string
  sf_Exported :: bool
  sf_ChTag :: string
  sf_JsonTag :: string
  sf_Kind :: kind

record fieldInfo =
  fi_Name :: string
  fi_Column :: string
  fi_Index :: nat
  fi_IsJSON :: bool
  fi_IsPointer :: bool
  fi_IsTime :: bool

datatype ch_error =
    ErrEmptyItems | ErrInvalidType | ErrNoFields | ErrNotFound | ErrInvalidFilter | ErrQueryFailed string | ErrScanFailed string
  | ErrBatchFailed string | ErrMarshalFailed string

definition isNumericKey :: "kind \<Rightarrow> bool" where
  "isNumericKey k = (k = KByte \<or> k = KNumeric)"

definition column_name :: "struct_field \<Rightarrow> string" where
  "column_name sf =
     (if sf_ChTag sf \<noteq> [] then sf_ChTag sf
      else takeWhile (\<lambda>c. c \<noteq> CHR '','') (sf_JsonTag sf))"

definition base_kind :: "kind \<Rightarrow> kind" where
  "base_kind k = (case k of KPtr k' \<Rightarrow> k' | _ \<Rightarrow> k)"

definition is_json_kind :: "kind \<Rightarrow> bool" where
  "is_json_kind k =
     (case base_kind k of
        KSlice el \<Rightarrow> el \<noteq> KByte
      | KMap key \<Rightarrow> \<not> isNumericKey key
      | _ \<Rightarrow> False)"

definition field_info :: "nat \<Rightarrow> struct_field \<Rightarrow> fieldInfo" where
  "field_info i sf =
     \<lparr>fi_Name = sf_Name sf, fi_Column = column_name sf, fi_Index = i,
      fi_IsJSON = is_json_kind (sf_Kind sf), fi_IsPointer = (case sf_Kind sf of KPtr _ \<Rightarrow> True | _ \<Rightarrow> False),
      fi_IsTime = (sf_Kind sf = KTime \<or> sf_Kind sf = KPtr KTime)\<rparr>"

text \<open>\<open>None\<close> is a type parameter that is not a struct.\<close>

definition extractFields :: "struct_field list option \<Rightarrow> ch_error + fieldInfo list" where
  "extractFields t =
     (case t of
        None \<Rightarrow> Inl ErrInvalidType
      | Some sfs \<Rightarrow>
          (let infos = map (\<lambda>(i, sf). field_info i sf)
                 (filter (\<lambda>(i, sf). sf_Exported sf \<and> column_name sf \<noteq> [] \<and> column_name sf \<noteq> ''-'')
                   (enumerate 0 sfs))
           in if infos = [] then Inl ErrNoFields else Inr infos))"

definition getColumnNames :: "fieldInfo list \<Rightarrow> string list" where
  "getColumnNames infos = map fi_Column infos"

text \<open>The two helpers for an INSERT; \<open>None\<close> is the panic of \<open>make\<close> with a negative length.\<close>

definition buildInsertColumns :: "fieldInfo list \<Rightarrow> string" where
  "buildInsertColumns infos = go_join '', '' (getColumnNames infos)"

definition buildPlaceholders :: "int \<Rightarrow> string option" where
  "buildPlaceholders count = (if count < 0 then None else Some (go_join '', '' (replicate (nat count) ''?'')))"

lemma BuildInsert_helpers:
  "buildPlaceholders (int (length infos)) = Some ps \<Longrightarrow>
   BuildInsert table (getColumnNames infos) =
     ''INSERT INTO '' @ table @ '' ('' @ buildInsertColumns infos @ '') VALUES ('' @ ps @ '')''"
  by (auto simp: BuildInsert_def buildInsertColumns_def buildPlaceholders_def getColumnNames_def)

record TableConfig =
  TimestampField :: string
  DefaultOrderDir :: string
  DefaultTimeout :: duration

record ch_table =
  t_tableName :: string
  t_cfg :: TableConfig
  t_fields :: "fieldInfo list"

definition NewTable :: "struct_field list option \<Rightarrow> string \<Rightarrow> TableConfig \<Rightarrow> ch_error + ch_table" where
  "NewTable t tableName cfg =
     (case extractFields t of
        Inl err \<Rightarrow> Inl err
      | Inr infos \<Rightarrow>
          Inr \<lparr>t_tableName = tableName,
               t_cfg = \<lparr>TimestampField = (if TimestampField cfg = [] then ''timestamp'' else TimestampField cfg),
                        DefaultOrderDir = (if DefaultOrderDir cfg = [] then ''DESC'' else DefaultOrderDir cfg),
                        DefaultTimeout = (if DefaultTimeout cfg = 0 then 30 * 1000000000 else DefaultTimeout cfg)\<rparr>,
               t_fields = infos\<rparr>)"

definition Query :: "ch_table \<Rightarrow> 'a QueryBuilder" where
  "Query t = NewQueryBuilder (t_tableName t)"

section \<open>methods.go\<close>

text \<open>A struct value is the list of its field values; a pointer field is nil or points to a value. A
  query argument is a field value, a string, a number, nil or a nested map.\<close>

datatype 'a fval = NilPtr | Ptr 'a | Val 'a

datatype 'a arg = ANil | AVal 'a | AStr string | AInt int | AMap "(string \<times> 'a arg) list"

text \<open>Calls of the driver, recorded with what they returned.\<close>

datatype 'a ch_call =
    CExec string "'a arg list" "string option"
  | CPrepare string "string option"
  | CAppend "'a arg list" "string option"
  | CSend "string option"

text \<open>The driver and the JSON package. \<open>exec\<close>, \<open>prepare\<close>, \<open>append_row\<close> and \<open>send\<close> return an error or
  nothing, depending on the calls made before; a row set is its rows followed by the error of \<open>rows.Err\<close>.
  \<open>scan\<close> fills the destinations of one row: a value for an ordinary field, a string for a JSON field.\<close>

record ('a, 'row) ch_driver =
  d_exec :: "'a ch_call list \<Rightarrow> string \<Rightarrow> 'a arg list \<Rightarrow> string option"
  d_prepare :: "'a ch_call list \<Rightarrow> string \<Rightarrow> string option"
  d_append :: "'a ch_call list \<Rightarrow> 'a arg list \<Rightarrow> string option"
  d_send :: "'a ch_call list \<Rightarrow> string option"
  d_count :: "string \<Rightarrow> 'a arg list \<Rightarrow> string + 64 word"
  d_query :: "string \<Rightarrow> 'a arg list \<Rightarrow> string + ('row list \<times> string option)"
  d_scan :: "'row \<Rightarrow> fieldInfo list \<Rightarrow> string + ('a fval + string) list"
  d_zero :: "'a fval list"
  d_marshal :: "'a \<Rightarrow> string option"
  d_unmarshal :: "string \<Rightarrow> 'a fval \<Rightarrow> 'a fval"
  d_time :: "'a \<Rightarrow> int"

definition field_value :: "('a, 'row) ch_driver \<Rightarrow> 'a fval list \<Rightarrow> fieldInfo \<Rightarrow> ch_error + 'a arg" where
  "field_value d item f =
     (let json = (\<lambda>x. if fi_IsJSON f
                      then case d_marshal d x of
                             None \<Rightarrow> Inl (ErrMarshalFailed (fi_Name f))
                           | Some js \<Rightarrow> Inr (AStr js)
                      else Inr (AVal x))
      in case item ! fi_Index f of
           NilPtr \<Rightarrow> Inr ANil
         | Ptr x \<Rightarrow> json x
         | Val x \<Rightarrow> json x)"

fun extract_all ::
  "('a, 'row) ch_driver \<Rightarrow> 'a fval list \<Rightarrow> fieldInfo list \<Rightarrow> ch_error + 'a arg list" where
  "extract_all d item [] = Inr []"
| "extract_all d item (f # fs) =
     (case field_value d item f of
        Inl err \<Rightarrow> Inl err
      | Inr v \<Rightarrow>
          (case extract_all d item fs of Inl err \<Rightarrow> Inl err | Inr vs \<Rightarrow> Inr (v # vs)))"

definition extractValues :: "('a, 'row) ch_driver \<Rightarrow> ch_table \<Rightarrow> 'a fval list \<Rightarrow> ch_error + 'a arg list" where
  "extractValues d t item = extract_all d item (t_fields t)"

definition Insert ::
  "('a, 'row) ch_driver \<Rightarrow> ch_table \<Rightarrow> 'a fval list \<Rightarrow> 'a ch_call list \<Rightarrow> 'a ch_call list \<times> ch_error option" where
  "Insert d t item tr =
     (case extractValues d t item of
        Inl err \<Rightarrow> (tr, Some err)
      | Inr values \<Rightarrow>
          (let query = BuildInsert (t_tableName t) (getColumnNames (t_fields t));
               r = d_exec d tr query values
           in (tr @ [CExec query values r], map_option ErrQueryFailed r)))"

fun append_items ::
  "('a, 'row) ch_driver \<Rightarrow> ch_table \<Rightarrow> 'a fval list list \<Rightarrow> 'a ch_call list \<Rightarrow> 'a ch_call list \<times> ch_error option" where
  "append_items d t [] tr = (tr, None)"
| "append_items d t (item # items) tr =
     (case extractValues d t item of
        Inl err \<Rightarrow> (tr, Some err)
      | Inr values \<Rightarrow>
          (let r = d_append d tr values; tr1 = tr @ [CAppend values r] in
           case r of
             Some err \<Rightarrow> (tr1, Some (ErrBatchFailed err))
           | None \<Rightarrow> append_items d t items tr1))"

definition InsertBatch ::
  "('a, 'row) ch_driver \<Rightarrow> ch_table \<Rightarrow> 'a fval list list \<Rightarrow> 'a ch_call list \<Rightarrow> 'a ch_call list \<times> ch_error option" where
  "InsertBatch d t items tr =
     (if items = [] then (tr, Some ErrEmptyItems)
      else
        let query = BuildInsertBatch (t_tableName t) (getColumnNames (t_fields t));
            r = d_prepare d tr query;
            tr1 = tr @ [CPrepare query r]
        in case r of
             Some err \<Rightarrow> (tr1, Some (ErrBatchFailed err))
           | None \<Rightarrow>
               (case append_items d t items tr1 of
                  (tr2, Some err) \<Rightarrow> (tr2, Some err)
                | (tr2, None) \<Rightarrow>
                    (let r2 = d_send d tr2
                     in (tr2 @ [CSend r2], map_option ErrBatchFailed r2))))"

definition Count :: "('a, 'row) ch_driver \<Rightarrow> ch_table \<Rightarrow> (string \<times> 'a arg) list \<Rightarrow> ch_error + 64 word" where
  "Count d t filters =
     (case BuildCount (WhereMap filters (Query t)) of
        (query, args) \<Rightarrow>
          (case d_count d query args of Inl err \<Rightarrow> Inl (ErrQueryFailed err) | Inr n \<Rightarrow> Inr n))"

text \<open>One row: the scanned values are stored, then the JSON strings that are not empty are
  decoded into their fields.\<close>

definition store_field :: "('a, 'row) ch_driver \<Rightarrow> fieldInfo \<times> ('a fval + string) \<Rightarrow> 'a fval list \<Rightarrow> 'a fval list" where
  "store_field d fv item =
     (case snd fv of
        Inl v \<Rightarrow> item[fi_Index (fst fv) := v]
      | Inr js \<Rightarrow>
          if js = [] then item
          else item[fi_Index (fst fv) := d_unmarshal d js (item ! fi_Index (fst fv))])"

fun scan_items :: "('a, 'row) ch_driver \<Rightarrow> ch_table \<Rightarrow> 'row list \<Rightarrow> ch_error + 'a fval list list" where
  "scan_items d t [] = Inr []"
| "scan_items d t (row # rows) =
     (case d_scan d row (t_fields t) of
        Inl err \<Rightarrow> Inl (ErrScanFailed err)
      | Inr vals \<Rightarrow>
          (case scan_items d t rows of
             Inl err \<Rightarrow> Inl err
           | Inr items \<Rightarrow> Inr (fold (store_field d) (zip (t_fields t) vals) (d_zero d) # items)))"

definition scanRows ::
  "('a, 'row) ch_driver \<Rightarrow> ch_table \<Rightarrow> 'row list \<times> string option \<Rightarrow> ch_error + 'a fval list list" where
  "scanRows d t rows =
     (case scan_items d t (fst rows) of
        Inl err \<Rightarrow> Inl err
      | Inr items \<Rightarrow>
          (case snd rows of Some err \<Rightarrow> Inl (ErrQueryFailed err) | None \<Rightarrow> Inr items))"

definition run_select ::
  "('a, 'row) ch_driver \<Rightarrow> ch_table \<Rightarrow> 'a arg QueryBuilder \<Rightarrow> ch_error + 'a fval list list" where
  "run_select d t q =
     (case BuildSelect q of
        (query, args) \<Rightarrow>
          (case d_query d query args of
             Inl err \<Rightarrow> Inl (ErrQueryFailed err)
           | Inr rows \<Rightarrow> scanRows d t rows))"

record PaginationOpts =
  po_Page :: go_int
  po_PerPage :: go_int

record 'i PaginatedResult =
  pr_Items :: "'i list"
  pr_Page :: go_int
  pr_PerPage :: go_int
  pr_TotalItems :: go_int
  pr_TotalPages :: go_int

definition page_of :: "PaginationOpts option \<Rightarrow> go_int \<times> go_int" where
  "page_of pagination =
     (case pagination of
        None \<Rightarrow> (DefaultPage, DefaultPerPage)
      | Some p \<Rightarrow>
          (if po_Page p > 0 then po_Page p else DefaultPage,
           if po_PerPage p > 0 \<and> po_PerPage p \<le> MaxPerPage then po_PerPage p else DefaultPerPage))"

definition page_offset :: "go_int \<Rightarrow> go_int \<Rightarrow> go_int" where
  "page_offset page perPage =
     (let offset = wrap64 (wrap64 (page - 1) * perPage) in if offset > MaxOffset then MaxOffset else offset)"

text \<open>The common part of \<open>FindByOffset\<close> and \<open>FindWithFilters\<close>: the count, the page query and the
  metadata. \<open>wheres\<close> adds the conditions, \<open>int64(uint64)\<close> keeps the bits.\<close>

definition find_page ::
  "('a, 'row) ch_driver \<Rightarrow> ch_table \<Rightarrow> ('a arg QueryBuilder \<Rightarrow> 'a arg QueryBuilder) \<Rightarrow>
     PaginationOpts option \<Rightarrow> string \<Rightarrow> ch_error + 64 word \<Rightarrow> ch_error + 'a fval list PaginatedResult" where
  "find_page d t wheres pagination sort_order counted =
     (case page_of pagination of
        (page, perPage) \<Rightarrow>
          (case counted of
             Inl err \<Rightarrow> Inl err
           | Inr n \<Rightarrow>
               (let totalItems = sint n;
                    orderBy = ParseSort sort_order (TimestampField (t_cfg t)) (DefaultOrderDir (t_cfg t));
                    q = Offset (page_offset page perPage) (Limit perPage (OrderBy orderBy
                          (wheres (Select (getColumnNames (t_fields t)) (Query t)))))
                in case run_select d t q of
                     Inl err \<Rightarrow> Inl err
                   | Inr items \<Rightarrow>
                       Inr \<lparr>pr_Items = items, pr_Page = page, pr_PerPage = perPage, pr_TotalItems = totalItems,
                            pr_TotalPages = go_div (wrap64 (totalItems + perPage - 1)) perPage\<rparr>)))"

definition FindByOffset ::
  "('a, 'row) ch_driver \<Rightarrow> ch_table \<Rightarrow> (string \<times> 'a arg) list \<Rightarrow> PaginationOpts option \<Rightarrow> string \<Rightarrow>
     ch_error + 'a fval list PaginatedResult" where
  "FindByOffset d t filters pagination sort_order =
     find_page d t (WhereMap filters) pagination sort_order (Count d t filters)"

definition FindWithFilters ::
  "('a, 'row) ch_driver \<Rightarrow> ch_table \<Rightarrow> 'a arg ch_filter list \<Rightarrow> PaginationOpts option \<Rightarrow> string \<Rightarrow>
     ch_error + 'a fval list PaginatedResult" where
  "FindWithFilters d t filters pagination sort_order =
     find_page d t (WhereFilters filters) pagination sort_order
       (case BuildCount (WhereFilters filters (Query t)) of
          (query, args) \<Rightarrow>
            (case d_count d query args of Inl err \<Rightarrow> Inl (ErrQueryFailed err) | Inr n \<Rightarrow> Inr n))"

record 'a TimeCursorOpts =
  tc_Cursor :: "'a arg option"
  tc_Direction :: string
  tc_Limit :: go_int
  tc_SortAsc :: bool

record 'i TimeCursorResult =
  tr_Items :: "'i list"
  tr_NextCursor :: int
  tr_PrevCursor :: int
  tr_HasNext :: bool
  tr_HasPrevious :: bool

text \<open>\<open>time.Time{}\<close>, midnight of January 1 of year 1, in nanoseconds.\<close>

definition zero_time :: int where
  "zero_time = - 62135596800000000000"

definition equal_fold :: "string \<Rightarrow> string \<Rightarrow> bool" where
  "equal_fold a b = (to_lower a = to_lower b)"

text \<open>\<open>None\<close> is the panic of the type assertion on a pointer field.\<close>

fun timestamp_of :: "('a, 'row) ch_driver \<Rightarrow> 'a fval list \<Rightarrow> string \<Rightarrow> fieldInfo list \<Rightarrow> int option" where
  "timestamp_of d item fieldName [] = Some zero_time"
| "timestamp_of d item fieldName (f # fs) =
     (if (equal_fold (fi_Column f) fieldName \<or> equal_fold (fi_Name f) fieldName) \<and> fi_IsTime f
      then (case item ! fi_Index f of Val x \<Rightarrow> Some (d_time d x) | _ \<Rightarrow> None)
      else timestamp_of d item fieldName fs)"

definition getTimestampFromItem ::
  "('a, 'row) ch_driver \<Rightarrow> ch_table \<Rightarrow> 'a fval list \<Rightarrow> string \<Rightarrow> int option" where
  "getTimestampFromItem d t item fieldName = timestamp_of d item fieldName (t_fields t)"

definition cursor_fetch_limit :: "'a TimeCursorOpts option \<Rightarrow> go_int" where
  "cursor_fetch_limit opts =
     (case opts of
        None \<Rightarrow> 20
      | Some o' \<Rightarrow> if tc_Limit o' > 0 \<and> tc_Limit o' \<le> MaxPerPage then tc_Limit o' else 20)"

definition sort_asc :: "'a TimeCursorOpts option \<Rightarrow> bool" where
  "sort_asc opts = (case opts of None \<Rightarrow> False | Some o' \<Rightarrow> tc_SortAsc o')"

definition going_back :: "'a TimeCursorOpts option \<Rightarrow> bool" where
  "going_back opts = (case opts of None \<Rightarrow> False | Some o' \<Rightarrow> tc_Direction o' = ''prev'')"

definition cursor_of :: "'a TimeCursorOpts option \<Rightarrow> 'a arg option" where
  "cursor_of opts = Option.bind opts tc_Cursor"

definition cursor_timestamp_field :: "ch_table \<Rightarrow> string" where
  "cursor_timestamp_field t =
     (if TimestampField (t_cfg t) = [] then ''timestamp'' else TimestampField (t_cfg t))"

definition cursor_filters ::
  "ch_table \<Rightarrow> 'a arg ch_filter list \<Rightarrow> 'a TimeCursorOpts option \<Rightarrow> 'a arg ch_filter list" where
  "cursor_filters t filters opts =
     (case cursor_of opts of
        None \<Rightarrow> filters
      | Some c \<Rightarrow>
          filters @ [\<lparr>f_Field = cursor_timestamp_field t,
                      f_Operator =
                        (if going_back opts then if \<not> sort_asc opts then OpGreater else OpLess
                         else if \<not> sort_asc opts then OpLess else OpGreater),
                      f_Value = c, f_EndValue = ANil\<rparr>])"

definition cursor_query ::
  "ch_table \<Rightarrow> 'a arg ch_filter list \<Rightarrow> 'a TimeCursorOpts option \<Rightarrow> 'a arg QueryBuilder" where
  "cursor_query t filters opts =
     Limit (cursor_fetch_limit opts + 1)
       (OrderBy (cursor_timestamp_field t @ '' '' @ (if sort_asc opts then ''ASC'' else ''DESC''))
         (WhereFilters (cursor_filters t filters opts) (Select (getColumnNames (t_fields t)) (Query t))))"

definition cursor_result ::
  "('a, 'row) ch_driver \<Rightarrow> ch_table \<Rightarrow> 'a TimeCursorOpts option \<Rightarrow> 'a fval list list \<Rightarrow>
     'a fval list TimeCursorResult option" where
  "cursor_result d t opts fetched =
     (let limit = cursor_fetch_limit opts;
          hasMore = int (length fetched) > limit;
          items = (if hasMore then take (nat limit) fetched else fetched);
          none = \<lparr>tr_Items = items, tr_NextCursor = zero_time, tr_PrevCursor = zero_time,
                  tr_HasNext = False, tr_HasPrevious = False\<rparr>
      in if items = [] then Some none
         else
           Option.bind (getTimestampFromItem d t (hd items) (cursor_timestamp_field t)) (\<lambda>firstTimestamp.
           Option.bind (getTimestampFromItem d t (last items) (cursor_timestamp_field t)) (\<lambda>lastTimestamp.
             Some (none\<lparr>tr_NextCursor := lastTimestamp, tr_PrevCursor := firstTimestamp,
               tr_HasPrevious := (if going_back opts then hasMore else cursor_of opts \<noteq> None),
               tr_HasNext := (if going_back opts then cursor_of opts \<noteq> None else hasMore)\<rparr>))))"

definition FindByCursor ::
  "('a, 'row) ch_driver \<Rightarrow> ch_table \<Rightarrow> 'a arg ch_filter list \<Rightarrow> 'a TimeCursorOpts option \<Rightarrow>
     (ch_error + 'a fval list TimeCursorResult) option" where
  "FindByCursor d t filters opts =
     (case run_select d t (cursor_query t filters opts) of
        Inl err \<Rightarrow> Some (Inl err)
      | Inr fetched \<Rightarrow> map_option Inr (cursor_result d t opts fetched))"

text \<open>\<open>buildWhereFromMap\<close>; \<open>text\<close> is the verb \<open>%v\<close>.\<close>

definition op_condition ::
  "('a arg \<Rightarrow> string) \<Rightarrow> string \<Rightarrow> string \<times> 'a arg \<Rightarrow> (string \<times> 'a arg) list" where
  "op_condition text field ov =
     (case ov of (op, v) \<Rightarrow>
        if op = ''$regex'' then [(field @ '' LIKE ?'', AStr (trim_prefix (text v) ''^'' @ ''%''))]
        else if op = ''$gt'' then [(field @ '' > ?'', v)]
        else if op = ''$gte'' then [(field @ '' >= ?'', v)]
        else if op = ''$lt'' then [(field @ '' < ?'', v)]
        else if op = ''$lte'' then [(field @ '' <= ?'', v)]
        else if op = ''$ne'' then [(field @ '' != ?'', v)]
        else if op = ''$in'' then [(field @ '' IN (?)'', v)]
        else [])"

definition buildWhereFromMap ::
  "('a arg \<Rightarrow> string) \<Rightarrow> (string \<times> 'a arg) list \<Rightarrow> string list \<times> 'a arg list" where
  "buildWhereFromMap text filters =
     (let conds = concat (map (\<lambda>(field, v).
            case v of AMap m \<Rightarrow> concat (map (op_condition text field) m) | _ \<Rightarrow> [(field @ '' = ?'', v)]) filters)
      in (map fst conds, map snd conds))"

section \<open>Placeholders and arguments\<close>

definition qmarks :: "string \<Rightarrow> nat" where
  "qmarks s = count_list s (CHR ''?'')"

lemma qmarks_simps [simp]:
  "qmarks [] = 0" "qmarks (c # s) = (if c = CHR ''?'' then Suc (qmarks s) else qmarks s)"
  "qmarks (s @ s') = qmarks s + qmarks s'"
  by (simp_all add: qmarks_def)

lemma qmarks_0: "CHR ''?'' \<notin> set s \<Longrightarrow> qmarks s = 0"
  by (simp add: qmarks_def)

lemma qmarks_join: "qmarks sep = 0 \<Longrightarrow> qmarks (go_join sep ss) = sum_list (map qmarks ss)"
  by (induction sep ss rule: go_join.induct) simp_all

lemma qmarks_itoa: "qmarks (itoa n) = 0"
proof -
  have "CHR ''?'' \<notin> set (show_nat m)" for m
    using show_nat_digits [of m] by (auto simp: list_all_iff is_dec_def)
  then show ?thesis by (intro qmarks_0) (simp add: itoa_def)
qed

text \<open>The calls a caller may chain on a builder.\<close>

datatype 'a builder_call =
    CSelect "string list"
  | CWhere string FilterOperator 'a
  | CWhereFilter "'a ch_filter"
  | CWhereMap "(string \<times> 'a) list"
  | CWhereLike string 'a
  | CWhereRaw string "'a list"
  | COrderBy string
  | CLimit go_int
  | COffset go_int

primrec call_builder :: "'a builder_call \<Rightarrow> 'a QueryBuilder \<Rightarrow> 'a QueryBuilder" where
  "call_builder (CSelect cols) = Select cols"
| "call_builder (CWhere field op v) = Where field op v"
| "call_builder (CWhereFilter f) = WhereFilter f"
| "call_builder (CWhereMap m) = WhereMap m"
| "call_builder (CWhereLike field v) = WhereLike field v"
| "call_builder (CWhereRaw clause args) = WhereRaw clause args"
| "call_builder (COrderBy order) = OrderBy order"
| "call_builder (CLimit n) = Limit n"
| "call_builder (COffset n) = Offset n"

text \<open>Calls whose names hold no question mark, whose raw clauses bring one argument per placeholder,
  and that pass \<open>BETWEEN\<close> through a \<open>Filter\<close> only.\<close>

primrec sound_call :: "'a builder_call \<Rightarrow> bool" where
  "sound_call (CSelect cols) = (\<forall>c \<in> set cols. qmarks c = 0)"
| "sound_call (CWhere field op v) = (qmarks field = 0 \<and> qmarks op = 0 \<and> op \<noteq> OpBetween)"
| "sound_call (CWhereFilter f) = (qmarks (f_Field f) = 0 \<and> qmarks (f_Operator f) = 0)"
| "sound_call (CWhereMap m) = (\<forall>(field, v) \<in> set m. qmarks field = 0)"
| "sound_call (CWhereLike field v) = (qmarks field = 0)"
| "sound_call (CWhereRaw clause args) = (qmarks clause = length args)"
| "sound_call (COrderBy order) = (qmarks order = 0)"
| "sound_call (CLimit n) = True"
| "sound_call (COffset n) = True"

definition balanced :: "'a QueryBuilder \<Rightarrow> bool" where
  "balanced q \<longleftrightarrow>
     sum_list (map qmarks (qb_whereParts q)) = length (qb_whereArgs q) \<and>
     qmarks (qb_table q) = 0 \<and> qmarks (qb_orderBy q) = 0 \<and> (\<forall>c \<in> set (qb_selectCols q). qmarks c = 0)"

lemma balanced_add_where: "balanced q \<Longrightarrow> qmarks part = length args \<Longrightarrow> balanced (add_where part args q)"
  by (simp add: balanced_def add_where_def)

lemma balanced_Where:
  "balanced q \<Longrightarrow> qmarks field = 0 \<Longrightarrow> qmarks op = 0 \<Longrightarrow> op \<noteq> OpBetween \<Longrightarrow> balanced (Where field op v q)"
  by (simp add: Where_def balanced_add_where where_part_def)

lemma balanced_WhereFilter:
  "balanced q \<Longrightarrow> qmarks (f_Field f) = 0 \<Longrightarrow> qmarks (f_Operator f) = 0 \<Longrightarrow> balanced (WhereFilter f q)"
  by (simp add: WhereFilter_def balanced_add_where balanced_Where)

lemma balanced_WhereMap:
  "balanced q \<Longrightarrow> \<forall>(field, v) \<in> set m. qmarks field = 0 \<Longrightarrow> balanced (WhereMap m q)"
  unfolding WhereMap_def by (induction m arbitrary: q) (auto simp: balanced_Where op_defs)

lemma balanced_call: "balanced q \<Longrightarrow> sound_call c \<Longrightarrow> balanced (call_builder c q)"
  by (cases c)
    (simp_all add: balanced_Where balanced_WhereFilter balanced_WhereMap WhereLike_def WhereRaw_def balanced_add_where,
     auto simp: balanced_def Select_def OrderBy_def Limit_def Offset_def)

lemma balanced_calls: "balanced q \<Longrightarrow> \<forall>c \<in> set cs. sound_call c \<Longrightarrow> balanced (fold call_builder cs q)"
  by (induction cs arbitrary: q) (auto simp: balanced_call)

lemma balanced_new: "qmarks table = 0 \<Longrightarrow> balanced (NewQueryBuilder table)"
  by (simp add: balanced_def NewQueryBuilder_def)

lemma where_clause_qmarks: "qmarks (where_clause parts) = sum_list (map qmarks parts)"
  by (simp add: where_clause_def qmarks_join)



text \<open>\<open>Where\<close> with \<open>BETWEEN\<close> leaves one placeholder without argument.\<close>

lemma Where_between_unbalanced:
  "qmarks (fst (BuildSelect (Where ''ts'' OpBetween v (NewQueryBuilder ''events'')))) = 2 \<and>
   length (snd (BuildSelect (Where ''ts'' OpBetween v (NewQueryBuilder ''events'')))) = 1"
  by (simp add: BuildSelect_def Where_def where_part_def where_clause_def add_where_def NewQueryBuilder_def op_defs)

lemma insert_placeholders:
  "qmarks table = 0 \<Longrightarrow> \<forall>c \<in> set columns. qmarks c = 0 \<Longrightarrow> qmarks (BuildInsert table columns) = length columns"
  by (simp add: BuildInsert_def qmarks_join sum_list_replicate)

section \<open>Batches\<close>

definition is_send :: "'a ch_call \<Rightarrow> bool" where
  "is_send c = (case c of CSend _ \<Rightarrow> True | _ \<Rightarrow> False)"

lemma append_items_calls:
  "append_items d t items tr = (tr', r) \<Longrightarrow>
     \<exists>cs. tr' = tr @ cs \<and> (\<forall>c \<in> set cs. \<not> is_send c) \<and>
       (r = None \<longrightarrow> (\<exists>vss. list_all2 (\<lambda>item vs. extractValues d t item = Inr vs) items vss \<and>
          cs = map (\<lambda>vs. CAppend vs None) vss))"
proof (induction items arbitrary: tr)
  case (Cons item items)
  show ?case
  proof (cases "extractValues d t item")
    case (Inl err)
    with Cons.prems show ?thesis by auto
  next
    case (Inr vs)
    show ?thesis
    proof (cases "d_append d tr vs")
      case (Some err)
      with Cons.prems Inr show ?thesis by (auto simp: Let_def is_send_def)
    next
      case None
      have rest: "append_items d t items (tr @ [CAppend vs None]) = (tr', r)"
        using Cons.prems Inr None by (simp add: Let_def)
      obtain cs where cs: "tr' = (tr @ [CAppend vs None]) @ cs" "\<forall>c \<in> set cs. \<not> is_send c"
        "r = None \<longrightarrow> (\<exists>vss. list_all2 (\<lambda>item vs. extractValues d t item = Inr vs) items vss \<and>
          cs = map (\<lambda>vs. CAppend vs None) vss)"
        using Cons.IH [OF rest] by blast
      have "\<exists>vss. list_all2 (\<lambda>item vs. extractValues d t item = Inr vs) (item # items) vss \<and>
          CAppend vs None # cs = map (\<lambda>vs. CAppend vs None) vss" if r: "r = None"
      proof -
        obtain vss where "list_all2 (\<lambda>item vs. extractValues d t item = Inr vs) items vss"
          "cs = map (\<lambda>vs. CAppend vs None) vss" using cs(3) r by blast
        with Inr show ?thesis by (intro exI [of _ "vs # vss"]) simp
      qed
      with cs show ?thesis by (intro exI [of _ "CAppend vs None # cs"]) (simp add: is_send_def)
    qed
  qed
qed auto

text \<open>\<open>InsertBatch\<close> is all or nothing: it reports success exactly when the batch was sent, and the
  batch it sends holds the values of every item, one row each and in order. When it reports an
  error no batch was sent.\<close>

theorem InsertBatch_all_or_nothing:
  assumes "InsertBatch d t items [] = (tr, r)"
  shows "(r = None \<longleftrightarrow> CSend None \<in> set tr) \<and>
    (r = None \<longrightarrow> (\<exists>vss. list_all2 (\<lambda>item vs. extractValues d t item = Inr vs) items vss \<and>
       tr = CPrepare (BuildInsertBatch (t_tableName t) (getColumnNames (t_fields t))) None #
              map (\<lambda>vs. CAppend vs None) vss @ [CSend None]))"
proof -
  let ?q = "BuildInsertBatch (t_tableName t) (getColumnNames (t_fields t))"
  consider "items = []" | err where "items \<noteq> []" "d_prepare d [] ?q = Some err"
    | "items \<noteq> []" "d_prepare d [] ?q = None" by fastforce
  then show ?thesis
  proof cases
    case 3
    obtain tr2 r2 where app: "append_items d t items [CPrepare ?q None] = (tr2, r2)" by fastforce
    obtain cs where cs: "tr2 = CPrepare ?q None # cs" "\<forall>c \<in> set cs. \<not> is_send c"
      "r2 = None \<longrightarrow> (\<exists>vss. list_all2 (\<lambda>item vs. extractValues d t item = Inr vs) items vss \<and>
          cs = map (\<lambda>vs. CAppend vs None) vss)"
      using append_items_calls [OF app] by auto
    have "CSend x \<notin> set tr2" for x using cs(1,2) by (auto simp: is_send_def)
    moreover have "tr = (if r2 = None then tr2 @ [CSend (d_send d tr2)] else tr2)"
      "r = (if r2 = None then map_option ErrBatchFailed (d_send d tr2) else r2)"
      using assms 3 app by (auto simp: InsertBatch_def Let_def split: option.splits)
    ultimately show ?thesis using cs by (auto split: if_splits)
  qed (use assms in \<open>auto simp: InsertBatch_def\<close>)
qed

section \<open>Cursor pagination\<close>

text \<open>What the pagination relies on. \<open>D\<close> is the content of the table that satisfies the caller's
  filters, in ascending order of timestamps that are all different; the server answers the
  client's query, in its sort order, with the rows behind the cursor up to the limit; a row is scanned
  into an item that carries its timestamp.\<close>

definition behind :: "bool \<Rightarrow> ('row \<Rightarrow> int) \<Rightarrow> int option \<Rightarrow> 'row \<Rightarrow> bool" where
  "behind asc ts cursor r =
     (case cursor of None \<Rightarrow> True | Some x \<Rightarrow> if asc then x < ts r else ts r < x)"

definition time_opts :: "int option \<Rightarrow> go_int \<Rightarrow> bool \<Rightarrow> 'a TimeCursorOpts" where
  "time_opts cursor limit asc =
     \<lparr>tc_Cursor = map_option AInt cursor, tc_Direction = ''next'', tc_Limit = limit, tc_SortAsc = asc\<rparr>"

definition in_order :: "bool \<Rightarrow> 'row list \<Rightarrow> 'row list" where
  "in_order asc D = (if asc then D else rev D)"

definition answers ::
  "('a, 'row) ch_driver \<Rightarrow> ch_table \<Rightarrow> 'a arg ch_filter list \<Rightarrow> go_int \<Rightarrow> bool \<Rightarrow> 'row list \<Rightarrow>
     ('row \<Rightarrow> int) \<Rightarrow> ('row \<Rightarrow> 'a fval list) \<Rightarrow> bool" where
  "answers d t filters limit asc D ts item \<longleftrightarrow>
     sorted_wrt (\<lambda>a b. ts a < ts b) D \<and>
     (\<forall>cursor. case BuildSelect (cursor_query t filters (Some (time_opts cursor limit asc))) of
        (query, args) \<Rightarrow>
          d_query d query args =
            Inr (take (nat limit + 1) (in_order asc (filter (behind asc ts cursor) D)), None)) \<and>
     (\<forall>r. scan_items d t [r] = Inr [item r] \<and>
        getTimestampFromItem d t (item r) (cursor_timestamp_field t) = Some (ts r))"

lemma scan_items_map:
  "(\<And>r. scan_items d t [r] = Inr [item r]) \<Longrightarrow> scan_items d t rows = Inr (map item rows)"
proof (induction rows)
  case (Cons r rows)
  have "\<exists>v. d_scan d r (t_fields t) = Inr v \<and> fold (store_field d) (zip (t_fields t) v) (d_zero d) = item r"
    using Cons.prems [of r] by (cases "d_scan d r (t_fields t)") simp_all
  with Cons.IH [OF Cons.prems] show ?case by auto
qed simp

definition cursor_at :: "('row \<Rightarrow> int) \<Rightarrow> 'row list \<Rightarrow> nat \<Rightarrow> int option" where
  "cursor_at ts M i = (if i = 0 then None else Some (ts (M ! (i - 1))))"

lemma rows_behind_cursor:
  assumes "sorted_wrt (\<lambda>a b. ts a < ts b) D" "i \<le> length D"
  shows "in_order asc (filter (behind asc ts (cursor_at ts (in_order asc D) i)) D) = drop i (in_order asc D)"
proof (cases i)
  case 0
  then show ?thesis by (simp add: cursor_at_def behind_def)
next
  case (Suc j)
  let ?M = "in_order asc D" and ?R = "\<lambda>a b. if asc then ts a < ts b else ts b < ts a"
  have "sorted_wrt ?R ?M" using assms(1) by (simp add: in_order_def sorted_wrt_rev)
  then have "filter (?R (?M ! j)) ?M = drop (Suc j) ?M"
    using assms(2) Suc by (intro filter_after_nth) (auto simp: in_order_def split: if_splits)
  moreover have "in_order asc (filter P D) = filter P ?M" for P
    by (simp add: in_order_def rev_filter)
  ultimately show ?thesis by (simp add: Suc cursor_at_def behind_def [abs_def])
qed

definition time_page ::
  "('a, 'row) ch_driver \<Rightarrow> ch_table \<Rightarrow> 'a arg ch_filter list \<Rightarrow> go_int \<Rightarrow> bool \<Rightarrow> int option \<Rightarrow>
     ('a fval list list \<times> bool \<times> int option) option" where
  "time_page d t filters limit asc cursor =
     (case FindByCursor d t filters (Some (time_opts cursor limit asc)) of
        Some (Inr r) \<Rightarrow> Some (tr_Items r, tr_HasNext r, Some (tr_NextCursor r))
      | _ \<Rightarrow> None)"

lemma time_page_at:
  fixes d :: "('a, 'row) ch_driver"
  assumes a: "answers d t filters limit asc D ts item" and l: "0 < limit" "limit \<le> MaxPerPage"
    and "i \<le> length D" and M_def: "M = in_order asc D"
  shows "\<exists>nxt. time_page d t filters limit asc (cursor_at ts M i) =
      Some (map item (take (nat limit) (drop i M)), i + nat limit < length M, nxt) \<and>
    (i + nat limit < length M \<longrightarrow> nxt = cursor_at ts M (i + nat limit))"
proof -
  let ?o = "Some (time_opts (cursor_at ts M i) limit asc :: 'a TimeCursorOpts)" and ?L = "nat limit"
  let ?P = "take (?L + 1) (drop i M)"
  have sorted: "sorted_wrt (\<lambda>a b. ts a < ts b) D"
    and scan: "\<And>r. scan_items d t [r] = Inr [item r]"
    and time: "\<And>r. getTimestampFromItem d t (item r) (cursor_timestamp_field t) = Some (ts r)"
    using a unfolding answers_def by blast+
  have fetch: "cursor_fetch_limit ?o = limit" using l by (simp add: cursor_fetch_limit_def time_opts_def)
  have "run_select d t (cursor_query t filters ?o) = Inr (map item ?P)"
    using a rows_behind_cursor [OF sorted assms(4), of asc] scan_items_map [OF scan]
    by (auto simp: answers_def run_select_def scanRows_def M_def split: prod.splits)
  then have run: "FindByCursor d t filters ?o = map_option Inr (cursor_result d t ?o (map item ?P))"
    by (simp add: FindByCursor_def)
  have fwd: "\<not> going_back ?o" by (simp add: going_back_def time_opts_def)
  have has_more: "int (length (map item ?P)) > limit \<longleftrightarrow> i + ?L < length M" using l by auto
  have its: "(if i + ?L < length M then take ?L (map item ?P) else map item ?P) = map item (take ?L (drop i M))"
    by (simp add: take_map min_def)
  show ?thesis
  proof (cases "take ?L (drop i M) = []")
    case True
    then have "drop i M = []" using l by simp
    with True show ?thesis
      using l by (simp add: time_page_def run cursor_result_def fetch Let_def)
  next
    case False
    let ?Q = "take ?L (drop i M)"
    have "cursor_result d t ?o (map item ?P) = Some
        \<lparr>tr_Items = map item ?Q, tr_NextCursor = ts (last ?Q), tr_PrevCursor = ts (hd ?Q),
         tr_HasNext = (i + ?L < length M), tr_HasPrevious = (cursor_of ?o \<noteq> None)\<rparr>"
      unfolding cursor_result_def Let_def fetch has_more its using False fwd
      by (simp add: hd_map last_map time)
    then have "time_page d t filters limit asc (cursor_at ts M i) =
        Some (map item ?Q, i + ?L < length M, Some (ts (last ?Q)))"
      by (simp add: time_page_def run)
    moreover have "Some (ts (last ?Q)) = cursor_at ts M (i + ?L)" if "i + ?L < length M"
      using that False l by (simp add: last_conv_nth cursor_at_def)
    ultimately show ?thesis by blast
  qed
qed

interpretation time_pages: cursor_pager
  "\<lambda>(d, t, filters, limit, asc, D, ts, item).
     answers d t filters limit asc D ts item \<and> 0 < limit \<and> limit \<le> MaxPerPage"
  "\<lambda>(d, t, filters, limit, asc, D, ts, item). time_page d t filters limit asc"
  "\<lambda>(d, t, filters, limit, asc, D, ts, item). cursor_at ts (in_order asc D)"
  "\<lambda>(d, t, filters, limit, asc, D, ts, item). map item (in_order asc D)"
  "\<lambda>(d, t, filters, limit, asc, D, ts, item). nat limit"
proof (unfold_locales, goal_cases)
  case (1 e)
  then show ?case by auto
next
  case (2 e i)
  obtain d t filters limit asc D ts item where e: "e = (d, t, filters, limit, asc, D, ts, item)"
    by (metis prod.collapse)
  with 2 show ?case
    using time_page_at [of d t filters limit asc D ts item i "in_order asc D"]
    by (auto simp: in_order_def take_map drop_map)
qed

text \<open>Time-cursor pagination is complete when all timestamps differ: a client that follows
  \<open>NextCursor\<close>, in either sort order and with any page size up to 300, receives every row that
  matches its filters exactly once and in time order, and is told to stop.\<close>

theorem FindByCursor_walk_complete:
  assumes "answers d t filters limit asc D ts item" "0 < limit" "limit \<le> MaxPerPage" "length D < fuel"
  shows "follow fuel (time_page d t filters limit asc) None = Some (map item (in_order asc D))"
  using time_pages.follow_complete [of "(d, t, filters, limit, asc, D, ts, item)" fuel] assms
  by (simp add: cursor_at_def in_order_def)

text \<open>A table of events with a timestamp and a number, newest first, served in pages of \<open>n - 1\<close>.\<close>

definition older_than :: "(int \<times> nat) arg list \<Rightarrow> int \<times> nat \<Rightarrow> bool" where
  "older_than args r = (case args of [AInt x] \<Rightarrow> fst r < x | _ \<Rightarrow> True)"

definition demo_driver :: "(int \<times> nat) list \<Rightarrow> nat \<Rightarrow> (int \<times> nat, int \<times> nat) ch_driver" where
  "demo_driver rows n =
     \<lparr>d_exec = \<lambda>tr q args. None, d_prepare = \<lambda>tr q. None, d_append = \<lambda>tr args. None, d_send = \<lambda>tr. None,
      d_count = \<lambda>q args. Inr 0,
      d_query = \<lambda>q args. Inr (take n (rev (filter (older_than args) rows)), None),
      d_scan = \<lambda>row infos. Inr [Inl (Val row)], d_zero = [Val (0, 0)], d_marshal = \<lambda>x. None,
      d_unmarshal = \<lambda>js old. old, d_time = fst\<rparr>"

definition demo_table :: ch_table where
  "demo_table =
     \<lparr>t_tableName = ''events'',
      t_cfg = \<lparr>TimestampField = ''ts'', DefaultOrderDir = ''DESC'', DefaultTimeout = 0\<rparr>,
      t_fields = [\<lparr>fi_Name = ''Ts'', fi_Column = ''ts'', fi_Index = 0, fi_IsJSON = False, fi_IsPointer = False,
        fi_IsTime = True\<rparr>]\<rparr>"

lemma demo_args:
  "snd (BuildSelect (cursor_query t [] (Some (time_opts cursor limit asc)))) =
     (case cursor of None \<Rightarrow> [] | Some x \<Rightarrow> [AInt x])"
  by (cases cursor)
    (simp_all add: BuildSelect_def cursor_query_def cursor_filters_def cursor_of_def time_opts_def WhereFilters_def
      WhereFilter_def Where_def add_where_def Limit_def OrderBy_def Select_def Query_def NewQueryBuilder_def op_defs)

lemma demo_answers:
  assumes "sorted_wrt (\<lambda>a b. fst a < fst b) rows"
  shows "answers (demo_driver rows (nat limit + 1)) demo_table [] limit False rows fst (\<lambda>r. [Val r])"
proof -
  have "older_than (case cursor of None \<Rightarrow> [] | Some x \<Rightarrow> [AInt x]) = behind False fst cursor" for cursor
    by (cases cursor) (simp_all add: fun_eq_iff behind_def older_than_def)
  then have "d_query (demo_driver rows (nat limit + 1)) q
        (snd (BuildSelect (cursor_query demo_table [] (Some (time_opts cursor limit False))))) =
      Inr (take (nat limit + 1) (in_order False (filter (behind False fst cursor) rows)), None)" for cursor q
    unfolding demo_args by (simp add: demo_driver_def in_order_def)
  then show ?thesis
    using assms
    by (simp add: answers_def split_beta getTimestampFromItem_def cursor_timestamp_field_def equal_fold_def)
      (simp add: demo_driver_def demo_table_def store_field_def equal_fold_def)
qed

theorem FindByCursor_walk_complete_witness:
  "follow 4 (time_page (demo_driver [(1, 10), (5, 20), (9, 30)] 3) demo_table [] 2 False) None =
     Some [[Val (9, 30)], [Val (5, 20)], [Val (1, 10)]]"
proof -
  have "answers (demo_driver [(1, 10), (5, 20), (9, 30)] 3) demo_table [] 2 False
      [(1, 10), (5, 20), (9, 30)] fst (\<lambda>r. [Val r])"
    using demo_answers [of "[(1, 10), (5, 20), (9, 30)]" 2] by simp
  from FindByCursor_walk_complete [OF this, of 4] show ?thesis
    by (simp add: MaxPerPage_def in_order_def)
qed

theorem InsertBatch_all_or_nothing_witness:
  "snd (InsertBatch (demo_driver [] 1) demo_table [[Val (1, 10)], [Val (2, 20)]] []) = None \<and>
   CSend None \<in> set (fst (InsertBatch (demo_driver [] 1) demo_table [[Val (1, 10)], [Val (2, 20)]] []))"
proof -
  let ?r = "InsertBatch (demo_driver [] 1) demo_table [[Val (1, 10)], [Val (2, 20)]] []"
  have "snd ?r = None"
    by (simp add: InsertBatch_def Let_def extractValues_def field_value_def demo_driver_def demo_table_def)
  with InsertBatch_all_or_nothing [of "demo_driver [] 1" demo_table "[[Val (1, 10)], [Val (2, 20)]]" "fst ?r" "snd ?r"]
  show ?thesis by simp
qed

text \<open>Two events with the same timestamp on either side of a page boundary: the second is never
  returned.\<close>

lemma equal_timestamps_lost:
  "follow 4 (time_page (demo_driver [(1, 10), (5, 20), (5, 30)] 2) demo_table [] 1 False) None =
     Some [[Val (5, 30)], [Val (1, 10)]]"
  by code_simp

end
