(* ===== verification/Flatten.thy ===== *)
theory Flatten
  imports Kit_Prelude
begin

text \<open>
  Flattening of nested data and lookup by path: \<open>utils/flatten/flatten.go\<close>. A
  \<open>map[string]any\<close> is an association list with distinct keys whose order is the order in
  which the \<open>range\<close> loop meets the entries; what is proved holds for every such order. The
  JSON package is a parameter of \<open>FlattenString\<close>. The theory shows what \<open>resolvePath\<close>
  collects, that flattening writes one entry per leaf, and that the two functions agree: a
  flattened key read back with \<open>GetValueByPath\<close> gives the flattened value.
\<close>

section \<open>Styles and errors\<close>

record SeparatorStyle =
  Before :: string
  Middle :: string
  After :: string

definition DotStyle :: SeparatorStyle where
  "DotStyle = \<lparr>Before = [], Middle = ''.'', After = []\<rparr>"

definition PathStyle :: SeparatorStyle where
  "PathStyle = \<lparr>Before = [], Middle = ''/'', After = []\<rparr>"

definition RailsStyle :: SeparatorStyle where
  "RailsStyle = \<lparr>Before = ''['', Middle = [], After = '']''\<rparr>"

definition UnderscoreStyle :: SeparatorStyle where
  "UnderscoreStyle = \<lparr>Before = [], Middle = ''_'', After = []\<rparr>"

datatype flatten_err =
  ErrNotValidInput | ErrNotValidJSONInput | ErrNilData | ErrEmptyPath | ErrPathNotFound | ErrJSON string

section \<open>GetValueByPath\<close>

text \<open>What an array element adds to the results of a fan-out.\<close>

definition collect :: "flatten_err + 'n gval \<times> bool \<Rightarrow> 'n gval list" where
  "collect r =
     (case r of
        Inl err \<Rightarrow> []
      | Inr (val, isMulti) \<Rightarrow>
          if isMulti then (case val of GList arr \<Rightarrow> arr | _ \<Rightarrow> []) else [val])"

function (sequential) resolvePath :: "'n gval \<Rightarrow> string list \<Rightarrow> flatten_err + 'n gval \<times> bool" where
  "resolvePath (GList arr) [] = Inr (GList arr, True)"
| "resolvePath current [] = Inr (current, False)"
| "resolvePath (GMap v) (p # parts) =
     (case map_of v p of
        None \<Rightarrow> Inl ErrPathNotFound
      | Some val \<Rightarrow> resolvePath val parts)"
| "resolvePath (GList v) (p # parts) =
     (let results = concat (map (\<lambda>elem. collect (resolvePath elem (p # parts))) v) in
      if results = [] then Inl ErrPathNotFound else Inr (GList results, True))"
| "resolvePath current (p # parts) = Inl ErrPathNotFound"
  by pat_completeness auto
termination
  by (relation "measures [\<lambda>(v, ps). length ps, \<lambda>(v, ps). size v]")
    (auto simp: less_Suc_eq_le size_list_estimation')

definition GetValueByPath ::
  "(string \<times> 'n gval) list option \<Rightarrow> string \<Rightarrow> flatten_err + 'n gval \<times> bool" where
  "GetValueByPath data path =
     (case data of
        None \<Rightarrow> Inl ErrNilData
      | Some m \<Rightarrow>
          if path = [] then Inl ErrEmptyPath
          else resolvePath (GMap m) (go_split (CHR ''.'') path))"

section \<open>Flatten\<close>

definition joinKey :: "bool \<Rightarrow> string \<Rightarrow> string \<Rightarrow> SeparatorStyle \<Rightarrow> string" where
  "joinKey atop pre sub style =
     (if atop then if pre = [] then sub else pre @ sub
      else pre @ Before style @ Middle style @ sub @ After style)"

definition is_nested :: "'n gval \<Rightarrow> bool" where
  "is_nested v = (case v of GMap _ \<Rightarrow> True | GList _ \<Rightarrow> True | _ \<Rightarrow> False)"

text \<open>The weight of a value bounds the recursion below.\<close>

primrec gweight :: "'n gval \<Rightarrow> nat" where
  "gweight GNil = 0"
| "gweight (GBool b) = 0"
| "gweight (GNum n) = 0"
| "gweight (GStr s) = 0"
| "gweight (GList v) = Suc (sum_list (map Suc (map gweight v)))"
| "gweight (GMap v) = Suc (sum_list (map (\<lambda>e. Suc (snd e)) (map (map_prod id gweight) v)))"

definition entries_weight :: "(string \<times> 'n gval) list \<Rightarrow> nat" where
  "entries_weight es = sum_list (map (\<lambda>e. Suc (gweight (snd e))) es)"

declare gweight.simps(6) [simp del]

lemma entries_weight_simps [simp]:
  "entries_weight [] = 0"
  "entries_weight ((k, v) # es) = Suc (gweight v) + entries_weight es"
  "gweight (GMap m) = Suc (entries_weight m)"
  by (simp_all add: entries_weight_def gweight.simps(6) comp_def)

lemma entries_weight_enumerated [simp]:
  "entries_weight (map (\<lambda>(i, val). (itoa (int i), val)) (enumerate n v)) = sum_list (map Suc (map gweight v))"
  by (induction v arbitrary: n) simp_all

text \<open>The loop over the entries of a map; the elements of an array are its entries under their
  decimal indices.\<close>

function (sequential) flatten_into ::
  "bool \<Rightarrow> 'n gval \<Rightarrow> string \<Rightarrow> SeparatorStyle \<Rightarrow> (string \<rightharpoonup> 'n gval) \<Rightarrow> flatten_err + (string \<rightharpoonup> 'n gval)"
  and flatten_entries ::
  "bool \<Rightarrow> (string \<times> 'n gval) list \<Rightarrow> string \<Rightarrow> SeparatorStyle \<Rightarrow> (string \<rightharpoonup> 'n gval) \<Rightarrow>
     flatten_err + (string \<rightharpoonup> 'n gval)" where
  "flatten_into atop (GMap v) pre style out = flatten_entries atop v pre style out"
| "flatten_into atop (GList v) pre style out =
     flatten_entries atop (map (\<lambda>(i, val). (itoa (int i), val)) (enumerate 0 v)) pre style out"
| "flatten_into atop nested pre style out = Inl ErrNotValidInput"
| "flatten_entries atop [] pre style out = Inr out"
| "flatten_entries atop ((k, val) # v) pre style out =
     (let newKey = joinKey atop pre k style in
      if is_nested val then
        (case flatten_into False val newKey style out of
           Inl err \<Rightarrow> Inl err
         | Inr out' \<Rightarrow> flatten_entries atop v pre style out')
      else flatten_entries atop v pre style (out(newKey \<mapsto> val)))"
  by pat_completeness auto

termination
  by (relation "measure (\<lambda>x. case x of
        Inl (atop, v, pre, style, out) \<Rightarrow> gweight v
      | Inr (atop, es, pre, style, out) \<Rightarrow> entries_weight es)") auto

definition Flatten_map ::
  "(string \<times> 'n gval) list \<Rightarrow> string \<Rightarrow> SeparatorStyle \<Rightarrow> flatten_err + (string \<rightharpoonup> 'n gval)" where
  "Flatten_map nested pre style = flatten_into True (GMap nested) pre style Map.empty"

fun looksLikeJSONObject :: "string \<Rightarrow> bool" where
  "looksLikeJSONObject [] = False"
| "looksLikeJSONObject (c # s) =
     (if of_char c \<in> {32, 10, 13, 9 :: nat} then looksLikeJSONObject s else c = CHR 0x7B)"

definition FlattenString ::
  "(string \<Rightarrow> string + (string \<times> 'n gval) list) \<Rightarrow> ((string \<rightharpoonup> 'n gval) \<Rightarrow> string + string) \<Rightarrow>
     string \<Rightarrow> string \<Rightarrow> SeparatorStyle \<Rightarrow> flatten_err + string" where
  "FlattenString unmarshal marshal nestedJSON pre style =
     (if \<not> looksLikeJSONObject nestedJSON then Inl ErrNotValidJSONInput
      else
        case unmarshal nestedJSON of
          Inl err \<Rightarrow> Inl (ErrJSON err)
        | Inr nested \<Rightarrow>
            (case Flatten_map nested pre style of
               Inl err \<Rightarrow> Inl err
             | Inr flat \<Rightarrow>
                 (case marshal flat of Inl err \<Rightarrow> Inl (ErrJSON err) | Inr b \<Rightarrow> Inr b)))"

section \<open>What a path reaches\<close>

text \<open>The values a path reaches: through a map by the named field, through an array by any
  element; an array at the end of the path is spread into its elements.\<close>

inductive reaches :: "'n gval \<Rightarrow> string list \<Rightarrow> 'n gval \<Rightarrow> bool" where
  here: "\<not> (\<exists>xs. v = GList xs) \<Longrightarrow> reaches v [] v"
| spread: "x \<in> set xs \<Longrightarrow> reaches (GList xs) [] x"
| field: "map_of fs p = Some w \<Longrightarrow> reaches w ps v \<Longrightarrow> reaches (GMap fs) (p # ps) v"
| element: "x \<in> set xs \<Longrightarrow> reaches x (p # ps) v \<Longrightarrow> reaches (GList xs) (p # ps) v"

inductive_simps reaches_list_end: "reaches (GList xs) [] v"
inductive_simps reaches_end: "reaches w [] v"
inductive_simps reaches_map: "reaches (GMap fs) (p # ps) v"
inductive_simps reaches_list: "reaches (GList xs) (p # ps) v"
inductive_cases reaches_scalarE:
  "reaches GNil (p # ps) v" "reaches (GBool b) (p # ps) v" "reaches (GNum n) (p # ps) v"
  "reaches (GStr s) (p # ps) v"

lemma collect_simps [simp]:
  "collect (Inl err) = []" "collect (Inr (GList xs, True)) = xs" "collect (Inr (v, False)) = [v]"
  by (simp_all add: collect_def)

lemma set_collect: "set (collect (resolvePath v ps)) = {x. reaches v ps x}"
proof (induction v ps rule: resolvePath.induct)
  case (1 arr)
  then show ?case by (auto simp: reaches_list_end)
next
  case (3 v p parts)
  then show ?case by (cases "map_of v p") (auto simp: reaches_map)
next
  case (4 v p parts)
  define rs where "rs = concat (map (\<lambda>elem. collect (resolvePath elem (p # parts))) v)"
  have "set rs = {x. reaches (GList v) (p # parts) x}"
    using 4 unfolding rs_def reaches_list by auto
  moreover have "collect (resolvePath (GList v) (p # parts)) = rs"
    by (simp add: rs_def Let_def)
  ultimately show ?case by simp
qed (auto simp: reaches_end elim: reaches_scalarE)

section \<open>Leaves\<close>

text \<open>The scalar leaves of a value with the keys and indices that lead to them.\<close>

primrec leaves :: "'n gval \<Rightarrow> (string list \<times> 'n gval) list" where
  "leaves GNil = [([], GNil)]"
| "leaves (GBool b) = [([], GBool b)]"
| "leaves (GNum n) = [([], GNum n)]"
| "leaves (GStr s) = [([], GStr s)]"
| "leaves (GList v) =
     concat (map (\<lambda>(i, ls). map (apfst (Cons (itoa (int i)))) ls) (enumerate 0 (map leaves v)))"
| "leaves (GMap v) = concat (map (\<lambda>(k, ls). map (apfst (Cons k)) ls) (map (map_prod id leaves) v))"

definition entry_leaves :: "(string \<times> 'n gval) list \<Rightarrow> (string list \<times> 'n gval) list" where
  "entry_leaves es = concat (map (\<lambda>(k, v). map (apfst (Cons k)) (leaves v)) es)"

lemma entry_leaves_simps [simp]:
  "entry_leaves [] = []"
  "entry_leaves ((k, v) # es) = map (apfst (Cons k)) (leaves v) @ entry_leaves es"
  by (simp_all add: entry_leaves_def)

lemma leaves_map: "leaves (GMap m) = entry_leaves m"
  by (induction m) (auto simp: entry_leaves_def)

lemma leaves_list:
  "leaves (GList v) = entry_leaves (map (\<lambda>(i, val). (itoa (int i), val)) (enumerate 0 v))"
proof -
  have "concat (map (\<lambda>(i, ls). map (apfst (Cons (itoa (int i)))) ls) (enumerate n (map leaves v))) =
      entry_leaves (map (\<lambda>(i, val). (itoa (int i), val)) (enumerate n v))" for n
    by (induction v arbitrary: n) simp_all
  then show ?thesis by simp
qed

lemma leaves_scalar: "\<not> is_nested v \<Longrightarrow> leaves v = [([], v)]"
  by (cases v) (simp_all add: is_nested_def)

text \<open>The key of a leaf: the first token is joined at the top level, the others below it.\<close>

fun full_key :: "bool \<Rightarrow> string \<Rightarrow> SeparatorStyle \<Rightarrow> string list \<Rightarrow> string" where
  "full_key atop pre style [] = pre"
| "full_key atop pre style (k # ks) = full_key False (joinKey atop pre k style) style ks"

definition write_leaves ::
  "(string list \<Rightarrow> string) \<Rightarrow> (string list \<times> 'n gval) list \<Rightarrow> (string \<rightharpoonup> 'n gval) \<Rightarrow> (string \<rightharpoonup> 'n gval)" where
  "write_leaves key ls out = fold (\<lambda>(ks, x) m. m(key ks \<mapsto> x)) ls out"

lemma write_leaves_append: "write_leaves key (xs @ ys) out = write_leaves key ys (write_leaves key xs out)"
  by (simp add: write_leaves_def)

lemma write_leaves_step: "write_leaves key ((ks, x) # ls) out = write_leaves key ls (out(key ks \<mapsto> x))"
  by (simp add: write_leaves_def)

lemma write_leaves_single: "write_leaves key [(ks, x)] out = out(key ks \<mapsto> x)"
  by (simp add: write_leaves_def)

lemma write_leaves_Cons:
  "write_leaves key (map (apfst (Cons k)) ls) out = write_leaves (\<lambda>ks. key (k # ks)) ls out"
  by (induction ls arbitrary: out) (auto simp: write_leaves_def)

text \<open>Flattening a map or an array writes its leaves one after the other and never fails.\<close>

lemma flatten_writes_leaves:
  "flatten_into atop v pre style out =
     (if is_nested v then Inr (write_leaves (full_key atop pre style) (leaves v) out) else Inl ErrNotValidInput)"
  "flatten_entries atop es pre style out = Inr (write_leaves (full_key atop pre style) (entry_leaves es) out)"
proof (induction atop v pre style out and atop es pre style out rule: flatten_into_flatten_entries.induct)
  case (5 atop k val v pre style out)
  show ?case
  proof (cases "is_nested val")
    case True
    with 5 show ?thesis
      by (simp add: Let_def write_leaves_append write_leaves_Cons)
  next
    case False
    with 5 show ?thesis
      by (simp add: Let_def write_leaves_step leaves_scalar fun_upd_def)
  qed
qed (simp_all add: is_nested_def leaves_map leaves_list write_leaves_def del: leaves.simps(5,6))

lemma Flatten_map_leaves:
  "Flatten_map nested pre style = Inr (write_leaves (full_key True pre style) (entry_leaves nested) Map.empty)"
  by (simp add: Flatten_map_def flatten_writes_leaves is_nested_def leaves_map del: leaves.simps(6))

text \<open>Looking a written key up, when equal keys carry equal values.\<close>

lemma write_leaves_lookup:
  assumes "\<forall>(a, x) \<in> set ls. \<forall>(b, y) \<in> set ls. key a = key b \<longrightarrow> x = y"
  shows "write_leaves key ls Map.empty k = Some x \<longleftrightarrow> (\<exists>ks. (ks, x) \<in> set ls \<and> key ks = k)"
  using assms
proof (induction ls rule: rev_induct)
  case (snoc l ls)
  obtain a y where l: "l = (a, y)" by fastforce
  have IH: "write_leaves key ls Map.empty k = Some x \<longleftrightarrow> (\<exists>ks. (ks, x) \<in> set ls \<and> key ks = k)"
    using snoc.prems by (intro snoc.IH) auto
  have same: "key a = k \<Longrightarrow> (ks, z) \<in> set ls \<Longrightarrow> key ks = k \<Longrightarrow> z = y" for ks z
    using snoc.prems by (auto simp: l)
  show ?case
  proof (cases "key a = k")
    case True
    with same show ?thesis by (auto simp: l write_leaves_append write_leaves_single)
  next
    case False
    with IH show ?thesis by (auto simp: l write_leaves_append write_leaves_single)
  qed
qed (simp add: write_leaves_def)

section \<open>Flattening and lookup agree\<close>

text \<open>Data without arrays whose keys are distinct in each map and free of dots.\<close>

primrec plain_data :: "'n gval \<Rightarrow> bool" where
  "plain_data GNil = True"
| "plain_data (GBool b) = True"
| "plain_data (GNum n) = True"
| "plain_data (GStr s) = True"
| "plain_data (GList v) = False"
| "plain_data (GMap v) =
     (distinct (map fst v) \<and>
      list_all (\<lambda>e. CHR ''.'' \<notin> set (fst e) \<and> snd e) (map (map_prod id plain_data) v))"

lemma plain_dataD:
  assumes "plain_data (GMap m)" "(k, v) \<in> set m"
  shows "map_of m k = Some v" "CHR ''.'' \<notin> set k" "plain_data v"
  using assms by (auto simp: list_all_iff)

lemma leaves_Cons:
  "(k # ks, x) \<in> set (entry_leaves m) \<longleftrightarrow> (\<exists>v. (k, v) \<in> set m \<and> (ks, x) \<in> set (leaves v))"
proof (induction m)
  case (Cons e m)
  have "(k # ks, x) \<in> apfst (Cons (fst e)) ` A \<longleftrightarrow> fst e = k \<and> (ks, x) \<in> A" for A
    by (force simp: image_iff)
  with Cons show ?case by (cases e) auto
qed simp

lemma leaves_not_Nil: "([], x) \<notin> set (entry_leaves m)"
  by (induction m) (auto simp: entry_leaves_def)

lemma leaf_iff_resolves:
  "plain_data v \<Longrightarrow> (ks, x) \<in> set (leaves v) \<longleftrightarrow> \<not> is_nested x \<and> resolvePath v ks = Inr (x, False)"
proof (induction ks arbitrary: v)
  case Nil
  then show ?case
    by (cases v) (auto simp: is_nested_def leaves_map leaves_not_Nil simp del: leaves.simps(6) plain_data.simps(6))
next
  case (Cons k ks)
  show ?case
  proof (cases "is_nested v")
    case True
    with Cons.prems obtain m where v: "v = GMap m" by (cases v) (auto simp: is_nested_def)
    note plain = plain_dataD [OF Cons.prems [unfolded v]]
    have "(k # ks, x) \<in> set (leaves v) \<longleftrightarrow> (\<exists>w. map_of m k = Some w \<and> (ks, x) \<in> set (leaves w))"
      using plain(1) map_of_SomeD by (fastforce simp: v leaves_map leaves_Cons simp del: leaves.simps(6))
    also have "\<dots> \<longleftrightarrow> (\<exists>w. map_of m k = Some w \<and> \<not> is_nested x \<and> resolvePath w ks = Inr (x, False))"
      using Cons.IH plain(3) map_of_SomeD by metis
    finally show ?thesis by (auto simp: v split: option.splits)
  next
    case False
    then show ?thesis by (cases v) (auto simp: is_nested_def)
  qed
qed

lemma leaf_keys_dotless:
  "plain_data v \<Longrightarrow> (ks, x) \<in> set (leaves v) \<Longrightarrow> k \<in> set ks \<Longrightarrow> CHR ''.'' \<notin> set k"
proof (induction ks arbitrary: v)
  case (Cons c ks)
  obtain m where v: "v = GMap m"
    using Cons.prems(1,2) by (cases v) auto
  obtain w where w: "(c, w) \<in> set m" "(ks, x) \<in> set (leaves w)"
    using Cons.prems(2) by (auto simp: v leaves_map leaves_Cons simp del: leaves.simps(6))
  note plain = plain_dataD [OF Cons.prems(1) [unfolded v] w(1)]
  show ?case using Cons.IH [OF plain(3) w(2)] plain(2) Cons.prems(3) by auto
qed simp

lemma full_key_dot: "ks \<noteq> [] \<Longrightarrow> full_key True [] DotStyle ks = go_join ''.'' ks"
proof -
  have below: "full_key False p DotStyle ks = go_join ''.'' (p # ks)" for p ks
  proof (induction ks arbitrary: p)
    case (Cons k ks)
    then show ?case by (cases "ks = []") (simp_all add: joinKey_def DotStyle_def go_join_Cons)
  qed simp
  show "ks \<noteq> [] \<Longrightarrow> full_key True [] DotStyle ks = go_join ''.'' ks"
    by (cases ks) (simp_all add: below joinKey_def)
qed



text \<open>A lookup through arrays returns, in the order of the arrays, exactly what the path reaches.\<close>

lemma GetValueByPath_collects:
  "path \<noteq> [] \<Longrightarrow>
     set (collect (GetValueByPath (Some data) path)) = {x. reaches (GMap data) (go_split (CHR ''.'') path) x}"
  by (simp add: GetValueByPath_def set_collect)

text \<open>A dotted key beside a nested one: the iteration order decides which value is kept.\<close>

lemma flatten_collision:
  "map_option (\<lambda>out. out ''a.b'') (case Flatten_map [(''a.b'', GNum 1), (''a'', GMap [(''b'', GNum 2)])] [] DotStyle
     of Inl _ \<Rightarrow> None | Inr out \<Rightarrow> Some out) = Some (Some (GNum (2 :: nat)))"
  "map_option (\<lambda>out. out ''a.b'') (case Flatten_map [(''a'', GMap [(''b'', GNum 2)]), (''a.b'', GNum 1)] [] DotStyle
     of Inl _ \<Rightarrow> None | Inr out \<Rightarrow> Some out) = Some (Some (GNum (1 :: nat)))"
  by (simp_all add: Flatten_map_def is_nested_def joinKey_def DotStyle_def)

end
