(* ===== verification/Configuration.thy ===== *)
theory Configuration
  imports Http_Core Mongo_Manager Redis_Client "HOL-Library.Monad_Syntax"
begin

text \<open>
  Package \<open>microservices/config\<close>: loading declared keys from the environment once per
  process, the guard against development secrets in production, the typed getters and the
  configurations, stream names, subjects and durables built from them. The process
  environment is a function from names to values; JSON decoding is a parameter. A panic is
  the value \<open>None\<close>, the exit of \<open>log.Fatalf\<close> an outcome of its own.
\<close>

section \<open>types.go\<close>

text \<open>A configuration value: nil, the five supported dynamic types, or a value of any other type. A slice
  is \<open>None\<close> when it is nil, as \<open>reflect.DeepEqual\<close> tells a nil slice from an empty one. JSON objects
  are opaque and compared by equality.\<close>

datatype 'j cfg_val =
    CNil | CStr string | CInt int | CBool bool | CArr "string list option" | CJson 'j | COther 'j

record 'j ConfigDefinition =
  cd_Key :: string
  cd_Env :: string
  cd_Type :: string
  cd_Default :: "'j cfg_val"
  cd_Sensitive :: bool

type_synonym 'j cfg_map = "string \<rightharpoonup> 'j cfg_val"
type_synonym environment = "string \<Rightarrow> string option"

section \<open>getters.go\<close>

text \<open>\<open>strconv.ParseBool\<close>.\<close>

definition parse_bool :: "string \<Rightarrow> bool option" where
  "parse_bool s =
     (if s \<in> {''1'', ''t'', ''T'', ''true'', ''TRUE'', ''True''} then Some True
      else if s \<in> {''0'', ''f'', ''F'', ''false'', ''FALSE'', ''False''} then Some False
      else None)"

definition getEnvBool :: "environment \<Rightarrow> string \<Rightarrow> bool \<Rightarrow> bool" where
  "getEnvBool env key defaultValue =
     (case env key of
        Some valueStr \<Rightarrow>
          if valueStr \<noteq> [] then
            (case parse_bool valueStr of None \<Rightarrow> defaultValue | Some v \<Rightarrow> v)
          else defaultValue
      | None \<Rightarrow> defaultValue)"

definition getEnvString :: "environment \<Rightarrow> string \<Rightarrow> string \<Rightarrow> string" where
  "getEnvString env key defaultValue =
     (case env key of
        Some v \<Rightarrow> if v \<noteq> [] then v else defaultValue
      | None \<Rightarrow> defaultValue)"

definition getEnvInt :: "environment \<Rightarrow> string \<Rightarrow> int \<Rightarrow> int" where
  "getEnvInt env key defaultValue =
     (case env key of
        Some valueStr \<Rightarrow>
          if valueStr \<noteq> [] then
            (case atoi valueStr of None \<Rightarrow> defaultValue | Some v \<Rightarrow> v)
          else defaultValue
      | None \<Rightarrow> defaultValue)"

definition getEnvArray :: "environment \<Rightarrow> string \<Rightarrow> string list option \<Rightarrow> string list option" where
  "getEnvArray env key defaultValue =
     (case env key of
        Some v \<Rightarrow> if v \<noteq> [] then Some (go_split (CHR '','') v) else defaultValue
      | None \<Rightarrow> defaultValue)"

definition getEnvJSON :: "(string \<Rightarrow> 'j option) \<Rightarrow> environment \<Rightarrow> string \<Rightarrow> 'j \<Rightarrow> 'j" where
  "getEnvJSON unmarshal env key defaultValue =
     (case env key of
        Some v \<Rightarrow>
          if v \<noteq> [] then
            (case unmarshal v of None \<Rightarrow> defaultValue | Some parsed \<Rightarrow> parsed)
          else defaultValue
      | None \<Rightarrow> defaultValue)"

section \<open>validation.go\<close>

record Violation =
  v_Key :: string
  v_Env :: string

text \<open>A missing key reads as nil.\<close>

definition current_value :: "'j cfg_map \<Rightarrow> string \<Rightarrow> 'j cfg_val" where
  "current_value m k = (case m k of None \<Rightarrow> CNil | Some v \<Rightarrow> v)"

fun FindSensitiveDefaultsInUse :: "'j ConfigDefinition list \<Rightarrow> 'j cfg_map \<Rightarrow> Violation list" where
  "FindSensitiveDefaultsInUse [] current = []"
| "FindSensitiveDefaultsInUse (d # defs) current =
     (if \<not> cd_Sensitive d then FindSensitiveDefaultsInUse defs current
      else if current_value current (cd_Key d) = cd_Default d
      then \<lparr>v_Key = cd_Key d, v_Env = cd_Env d\<rparr> # FindSensitiveDefaultsInUse defs current
      else FindSensitiveDefaultsInUse defs current)"

definition IsDevEnv :: "string \<Rightarrow> bool" where
  "IsDevEnv goEnv \<longleftrightarrow> goEnv = [] \<or> goEnv = ''dev'' \<or> goEnv = ''development''"

section \<open>config.go\<close>

text \<open>The value of one definition: the type assertion on \<open>Default\<close> panics when it fails, and an
  unsupported type is skipped.\<close>

datatype 'j resolved = RPanic | RSkip | RValue "'j cfg_val"

definition resolve_definition ::
  "(string \<Rightarrow> 'j option) \<Rightarrow> environment \<Rightarrow> 'j ConfigDefinition \<Rightarrow> 'j resolved" where
  "resolve_definition unmarshal env d =
     (if cd_Type d = ''string'' then
        (case cd_Default d of CStr s \<Rightarrow> RValue (CStr (getEnvString env (cd_Env d) s)) | _ \<Rightarrow> RPanic)
      else if cd_Type d = ''int'' then
        (case cd_Default d of CInt i \<Rightarrow> RValue (CInt (getEnvInt env (cd_Env d) i)) | _ \<Rightarrow> RPanic)
      else if cd_Type d = ''bool'' then
        (case cd_Default d of CBool b \<Rightarrow> RValue (CBool (getEnvBool env (cd_Env d) b)) | _ \<Rightarrow> RPanic)
      else if cd_Type d = ''array'' then
        (case cd_Default d of CArr a \<Rightarrow> RValue (CArr (getEnvArray env (cd_Env d) a)) | _ \<Rightarrow> RPanic)
      else if cd_Type d = ''json'' then
        (case cd_Default d of CJson j \<Rightarrow> RValue (CJson (getEnvJSON unmarshal env (cd_Env d) j)) | _ \<Rightarrow> RPanic)
      else RSkip)"

fun load_definitions ::
  "(string \<Rightarrow> 'j option) \<Rightarrow> environment \<Rightarrow> 'j ConfigDefinition list \<Rightarrow> 'j cfg_map \<Rightarrow> 'j cfg_map option" where
  "load_definitions unmarshal env [] config = Some config"
| "load_definitions unmarshal env (d # defs) config =
     (case resolve_definition unmarshal env d of
        RPanic \<Rightarrow> None
      | RSkip \<Rightarrow> load_definitions unmarshal env defs config
      | RValue v \<Rightarrow> load_definitions unmarshal env defs (config(cd_Key d \<mapsto> v)))"

definition config_env :: "'j cfg_map \<Rightarrow> string" where
  "config_env config = (case config ''go_env'' of Some (CStr s) \<Rightarrow> s | _ \<Rightarrow> [])"

text \<open>The package variables \<open>once\<close> and \<open>instance\<close>.\<close>

record 'j config_state =
  once_done :: bool
  instance_of :: "'j cfg_map option"

datatype 'j init_outcome = Returned "'j cfg_map option" | Panicked | Exited "Violation list"

text \<open>\<open>sync.Once\<close> counts a call that panicked as done; the second component of the result lists the
  violations warned about.\<close>

definition InitConfig ::
  "(string \<Rightarrow> 'j option) \<Rightarrow> environment \<Rightarrow> 'j ConfigDefinition list \<Rightarrow> 'j config_state \<Rightarrow>
     'j config_state \<times> Violation list \<times> 'j init_outcome" where
  "InitConfig unmarshal env definitions st =
     (if once_done st then (st, [], Returned (instance_of st))
      else
        (case load_definitions unmarshal env definitions Map.empty of
           None \<Rightarrow> (st\<lparr>once_done := True\<rparr>, [], Panicked)
         | Some config \<Rightarrow>
             (let violations = FindSensitiveDefaultsInUse definitions config in
              if violations \<noteq> [] \<and> \<not> IsDevEnv (config_env config)
              then (st\<lparr>once_done := True\<rparr>, [], Exited violations)
              else (st\<lparr>once_done := True, instance_of := Some config\<rparr>, violations, Returned (Some config)))))"

section \<open>methods.go: getters\<close>

datatype cfg_error = ErrKeyNotFound string | ErrConverting string string

definition GetConfigValue :: "'j config_state \<Rightarrow> string \<Rightarrow> 'j cfg_val option" where
  "GetConfigValue st key = map_option (\<lambda>config. current_value config key) (instance_of st)"

definition GetStringValue :: "'j config_state \<Rightarrow> string \<Rightarrow> (cfg_error + string) option" where
  "GetStringValue st key =
     (case instance_of st of
        None \<Rightarrow> None
      | Some config \<Rightarrow>
          Some (case config key of
             None \<Rightarrow> Inl (ErrKeyNotFound key)
           | Some (CStr s) \<Rightarrow> Inr s
           | Some _ \<Rightarrow> Inl (ErrConverting key ''string'')))"

definition GetIntValue :: "'j config_state \<Rightarrow> string \<Rightarrow> (cfg_error + int) option" where
  "GetIntValue st key =
     (case instance_of st of
        None \<Rightarrow> None
      | Some config \<Rightarrow>
          Some (case config key of
             None \<Rightarrow> Inl (ErrKeyNotFound key)
           | Some (CInt i) \<Rightarrow> Inr i
           | Some _ \<Rightarrow> Inl (ErrConverting key ''int'')))"

definition GetBoolValue :: "'j config_state \<Rightarrow> string \<Rightarrow> (cfg_error + bool) option" where
  "GetBoolValue st key =
     (case instance_of st of
        None \<Rightarrow> None
      | Some config \<Rightarrow>
          Some (case config key of
             None \<Rightarrow> Inl (ErrKeyNotFound key)
           | Some (CBool b) \<Rightarrow> Inr b
           | Some _ \<Rightarrow> Inl (ErrConverting key ''bool'')))"

text \<open>The pattern \<open>v, _ := GetStringValue(key)\<close>: an error leaves the zero value.\<close>

definition or_zero :: "'a \<Rightarrow> (cfg_error + 'a) option \<Rightarrow> 'a option" where
  "or_zero zero r = map_option (case_sum (\<lambda>_. zero) (\<lambda>v. v)) r"

abbreviation str_value :: "'j config_state \<Rightarrow> string \<Rightarrow> string option" where
  "str_value st key \<equiv> or_zero [] (GetStringValue st key)"

abbreviation int_value :: "'j config_state \<Rightarrow> string \<Rightarrow> int option" where
  "int_value st key \<equiv> or_zero 0 (GetIntValue st key)"

section \<open>methods.go: configurations of the infrastructure\<close>

definition GetMongoConfig :: "'j config_state \<Rightarrow> mongo_config option" where
  "GetMongoConfig st = do {
     mongoUri \<leftarrow> str_value st ''mongo_uri'';
     mongoDB \<leftarrow> str_value st ''mongo_database'';
     go_env \<leftarrow> str_value st ''go_env'';
     Some \<lparr>cfg_URI = mongoUri, cfg_Database = go_env @ ''-'' @ mongoDB, cfg_EnableMonitor = True,
       cfg_MonitorInterval = 10, cfg_UseBsonD = False, cfg_EnableBackpressure = False,
       cfg_BackpressureWindow = 0, cfg_ThrottledThresholdMs = 0, cfg_BackoffThresholdMs = 0\<rparr> }"

text \<open>\<open>GetAuthConfig\<close> only logs what its validation finds; the messages are the second result.\<close>

datatype auth_problem = SecretMissing | JwksMissingRS256 | JwksMissingOAuth2 | UnknownStrategy | RolesUrlMissing

definition auth_problems :: "AuthConfig \<Rightarrow> auth_problem list" where
  "auth_problems a =
     (if Strategy a = ''jwt'' then
        (if Algorithm a = ''HS256'' \<and> Secret a = [] then [SecretMissing] else []) @
        (if Algorithm a = ''RS256'' \<and> JWKSURL a = [] then [JwksMissingRS256] else [])
      else if Strategy a = ''oauth2'' then
        (if JWKSURL a = [] then [JwksMissingOAuth2] else [])
      else [UnknownStrategy]) @
     (if RolesSource a = ''api'' \<and> RolesAPIURL a = [] then [RolesUrlMissing] else [])"

definition GetAuthConfig :: "'j config_state \<Rightarrow> (AuthConfig \<times> auth_problem list) option" where
  "GetAuthConfig st = do {
     strategy \<leftarrow> str_value st ''auth_strategy'';
     secret \<leftarrow> str_value st ''auth_secret'';
     jwksUrl \<leftarrow> str_value st ''auth_jwks_url'';
     algorithm \<leftarrow> str_value st ''auth_algorithm'';
     rolesSource \<leftarrow> str_value st ''auth_roles_source'';
     rolesPath \<leftarrow> str_value st ''auth_roles_path'';
     rolesApiURL \<leftarrow> str_value st ''auth_roles_api_url'';
     let a = \<lparr>Strategy = strategy, Secret = secret, JWKSURL = jwksUrl, Algorithm = algorithm,
       RolesPath = rolesPath, RolesSource = rolesSource, RolesAPIURL = rolesApiURL\<rparr>;
     Some (a, auth_problems a) }"

record RedisConfig =
  rc_Host :: string
  rc_Port :: int
  rc_Username :: string
  rc_Password :: string
  rc_DB :: int
  rc_KeyPrefix :: string

definition getRedisConfigBase :: "'j config_state \<Rightarrow> int \<Rightarrow> string \<Rightarrow> RedisConfig option" where
  "getRedisConfigBase st db pfx = do {
     host \<leftarrow> str_value st ''redis_host'';
     port \<leftarrow> int_value st ''redis_port'';
     username \<leftarrow> str_value st ''redis_username'';
     password \<leftarrow> str_value st ''redis_password'';
     Some \<lparr>rc_Host = host, rc_Port = port, rc_Username = username, rc_Password = password,
       rc_DB = db, rc_KeyPrefix = pfx\<rparr> }"

definition GetRedisConfig :: "'j config_state \<Rightarrow> RedisConfig option" where
  "GetRedisConfig st = do {
     serviceName \<leftarrow> str_value st ''service_name'';
     goEnv \<leftarrow> str_value st ''go_env'';
     db \<leftarrow> int_value st ''redis_db'';
     getRedisConfigBase st db (goEnv @ '':'' @ serviceName) }"

definition GetSharedRedisConfig :: "'j config_state \<Rightarrow> RedisConfig option" where
  "GetSharedRedisConfig st = do {
     goEnv \<leftarrow> str_value st ''go_env'';
     db \<leftarrow> int_value st ''redis_shared_db'';
     getRedisConfigBase st db (goEnv @ '':shared'') }"

record NatsOptions =
  no_Url :: string
  no_Name :: string
  no_MaxReconnect :: int
  no_Timeout :: duration
  no_User :: string
  no_Password :: string

text \<open>The three connections read different keys and build the options in the same way; user and
  password are set only when they are not empty, over a zero value.\<close>

definition nats_options :: "string \<Rightarrow> string \<Rightarrow> string \<Rightarrow> string \<Rightarrow> NatsOptions" where
  "nats_options url user password name =
     (let options = \<lparr>no_Url = url, no_Name = name, no_MaxReconnect = -1,
            no_Timeout = 5 * 1000000000, no_User = [], no_Password = []\<rparr>;
          options = (if user \<noteq> [] then options\<lparr>no_User := user\<rparr> else options)
      in if password \<noteq> [] then options\<lparr>no_Password := password\<rparr> else options)"

definition GetNatsConfig :: "'j config_state \<Rightarrow> NatsOptions option" where
  "GetNatsConfig st = do {
     natsURL \<leftarrow> str_value st ''nats_url'';
     natsUsername \<leftarrow> str_value st ''nats_username'';
     natsPassword \<leftarrow> str_value st ''nats_password'';
     natsClient_name \<leftarrow> str_value st ''nats_client_name'';
     Some (nats_options natsURL natsUsername natsPassword natsClient_name) }"

definition GetNatsCoreConfig :: "'j config_state \<Rightarrow> NatsOptions option" where
  "GetNatsCoreConfig st = do {
     natsURL \<leftarrow> str_value st ''nats_core_url'';
     natsUsername \<leftarrow> str_value st ''nats_core_username'';
     natsPassword \<leftarrow> str_value st ''nats_core_password'';
     natsClientName \<leftarrow> str_value st ''nats_core_client_name'';
     Some (nats_options natsURL natsUsername natsPassword natsClientName) }"

definition GetNatsLeafConfig :: "'j config_state \<Rightarrow> NatsOptions option" where
  "GetNatsLeafConfig st = do {
     natsURL \<leftarrow> str_value st ''nats_leaf_url'';
     natsUsername \<leftarrow> str_value st ''nats_leaf_username'';
     natsPassword \<leftarrow> str_value st ''nats_leaf_password'';
     natsClientName \<leftarrow> str_value st ''nats_leaf_client_name'';
     Some (nats_options natsURL natsUsername natsPassword natsClientName) }"

definition GetMyApiKey :: "'j config_state \<Rightarrow> string option" where
  "GetMyApiKey st = str_value st ''my_api_key''"

record ClickHouseConfig =
  chc_Host :: string
  chc_Port :: int
  chc_Database :: string
  chc_Username :: string
  chc_Password :: string

definition GetClickHouseConfig :: "'j config_state \<Rightarrow> ClickHouseConfig option" where
  "GetClickHouseConfig st = do {
     host \<leftarrow> str_value st ''clickhouse_host'';
     port \<leftarrow> int_value st ''clickhouse_port'';
     database \<leftarrow> str_value st ''clickhouse_database'';
     username \<leftarrow> str_value st ''clickhouse_username'';
     password \<leftarrow> str_value st ''clickhouse_password'';
     Some \<lparr>chc_Host = host, chc_Port = port, chc_Database = database, chc_Username = username,
       chc_Password = password\<rparr> }"

section \<open>methods.go: names\<close>

definition GetEnv :: "'j config_state \<Rightarrow> string" where
  "GetEnv st =
     (if instance_of st = None then ''dev''
      else
        (case GetStringValue st ''go_env'' of
           Some (Inr v) \<Rightarrow> if v = [] then ''dev'' else v
         | _ \<Rightarrow> ''dev''))"

definition StreamName :: "'j config_state \<Rightarrow> string \<Rightarrow> string \<Rightarrow> string" where
  "StreamName st service context =
     (let env = to_upper (GetEnv st); svc = to_upper service in
      if context = [] then env @ ''-MAPEXOS-'' @ svc
      else env @ ''-MAPEXOS-'' @ svc @ ''-'' @ to_upper context)"

definition Subject :: "'j config_state \<Rightarrow> string \<Rightarrow> string \<Rightarrow> string" where
  "Subject st service action =
     to_lower (GetEnv st) @ ''.mapexos.'' @ to_lower service @ ''.'' @ to_lower action"

definition Durable :: "'j config_state \<Rightarrow> string \<Rightarrow> string \<Rightarrow> string" where
  "Durable st service context =
     to_lower (GetEnv st) @ ''-'' @ to_lower service @ ''-'' @ to_lower context @ ''-consumer''"

section \<open>Loading\<close>

text \<open>A default of the declared type, the condition of the type assertions.\<close>

definition default_matches :: "'j ConfigDefinition \<Rightarrow> bool" where
  "default_matches d =
     (case cd_Default d of
        CStr _ \<Rightarrow> cd_Type d \<notin> {''int'', ''bool'', ''array'', ''json''}
      | CInt i \<Rightarrow> cd_Type d \<notin> {''string'', ''bool'', ''array'', ''json''}
      | CBool _ \<Rightarrow> cd_Type d \<notin> {''string'', ''int'', ''array'', ''json''}
      | CArr _ \<Rightarrow> cd_Type d \<notin> {''string'', ''int'', ''bool'', ''json''}
      | CJson _ \<Rightarrow> cd_Type d \<notin> {''string'', ''int'', ''bool'', ''array''}
      | _ \<Rightarrow> cd_Type d \<notin> {''string'', ''int'', ''bool'', ''array'', ''json''})"

text \<open>What a value of a declared type is.\<close>

definition value_of_type :: "string \<Rightarrow> 'j cfg_val \<Rightarrow> bool" where
  "value_of_type ty v =
     (case v of
        CStr _ \<Rightarrow> ty = ''string''
      | CInt i \<Rightarrow> ty = ''int'' \<and> in_int64 i
      | CBool _ \<Rightarrow> ty = ''bool''
      | CArr _ \<Rightarrow> ty = ''array''
      | CJson _ \<Rightarrow> ty = ''json''
      | _ \<Rightarrow> False)"

definition supported :: "string \<Rightarrow> bool" where
  "supported ty \<longleftrightarrow> ty \<in> {''string'', ''int'', ''bool'', ''array'', ''json''}"

text \<open>The defaults of type \<open>int\<close> are Go \<open>int\<close>s.\<close>

definition int_default_ok :: "'j ConfigDefinition \<Rightarrow> bool" where
  "int_default_ok d = (case cd_Default d of CInt i \<Rightarrow> in_int64 i | _ \<Rightarrow> True)"

lemma resolve_panics_iff: "resolve_definition u env d = RPanic \<longleftrightarrow> \<not> default_matches d"
  by (cases "cd_Default d") (simp_all add: resolve_definition_def default_matches_def)

lemma resolve_skips_iff: "resolve_definition u env d = RSkip \<longleftrightarrow> \<not> supported (cd_Type d)"
  by (cases "cd_Default d") (simp_all add: resolve_definition_def supported_def)

lemma atoi_in_int64: "atoi s = Some i \<Longrightarrow> in_int64 i"
  by (auto simp: atoi_def Let_def split: prod.splits if_splits)

lemma getEnvInt_in_int64: "in_int64 i \<Longrightarrow> in_int64 (getEnvInt env key i)"
  by (auto simp: getEnvInt_def atoi_in_int64 split: option.splits)

lemma resolve_typed:
  assumes "resolve_definition u env d = RValue v" "int_default_ok d"
  shows "value_of_type (cd_Type d) v"
  using assms
  by (auto simp: resolve_definition_def value_of_type_def int_default_ok_def getEnvInt_in_int64
      split: if_splits cfg_val.splits)

lemma load_None_iff:
  "load_definitions u env defs config = None \<longleftrightarrow> (\<exists>d\<in>set defs. \<not> default_matches d)"
proof (induction defs arbitrary: config)
  case (Cons d defs)
  then show ?case
    by (cases "resolve_definition u env d") (auto simp flip: resolve_panics_iff [of u env])
qed simp

lemma load_frame:
  "load_definitions u env defs config = Some config' \<Longrightarrow> k \<notin> cd_Key ` set defs \<Longrightarrow> config' k = config k"
  by (induction defs arbitrary: config) (auto split: resolved.splits)

lemma load_lookup:
  assumes "load_definitions u env defs config = Some config'" "distinct (map cd_Key defs)"
    and "d \<in> set defs" "resolve_definition u env d = RValue v"
  shows "config' (cd_Key d) = Some v"
  using assms
proof (induction defs arbitrary: config)
  case (Cons e defs)
  show ?case
  proof (cases "d = e")
    case True
    with Cons.prems show ?thesis by (auto dest: load_frame)
  next
    case False
    with Cons.prems show ?thesis
      by (auto split: resolved.splits intro: Cons.IH)
  qed
qed simp

lemma getters_of_typed:
  assumes "instance_of st = Some config" "config k = Some v" "value_of_type ty v"
  shows "GetConfigValue st k = Some v" "ty = ''string'' \<Longrightarrow> \<exists>s. GetStringValue st k = Some (Inr s)"
    "ty = ''int'' \<Longrightarrow> \<exists>i. GetIntValue st k = Some (Inr i) \<and> in_int64 i"
    "ty = ''bool'' \<Longrightarrow> \<exists>b. GetBoolValue st k = Some (Inr b)"
  using assms
  by (cases v; simp add: GetConfigValue_def GetStringValue_def GetIntValue_def GetBoolValue_def
      current_value_def value_of_type_def)+

lemma violations_iff:
  "FindSensitiveDefaultsInUse defs config = [] \<longleftrightarrow>
     (\<forall>d\<in>set defs. cd_Sensitive d \<longrightarrow> current_value config (cd_Key d) \<noteq> cd_Default d)"
  by (induction defs) auto

lemma InitConfig_cases:
  assumes "\<not> once_done st" "InitConfig u env defs st = (st', w, out)"
  obtains (panic) "load_definitions u env defs Map.empty = None" "out = Panicked" "instance_of st' = instance_of st"
  | (refuse) config where "load_definitions u env defs Map.empty = Some config"
      "FindSensitiveDefaultsInUse defs config \<noteq> []" "\<not> IsDevEnv (config_env config)"
      "out = Exited (FindSensitiveDefaultsInUse defs config)" "instance_of st' = instance_of st"
  | (start) config where "load_definitions u env defs Map.empty = Some config"
      "FindSensitiveDefaultsInUse defs config = [] \<or> IsDevEnv (config_env config)"
      "out = Returned (Some config)" "instance_of st' = Some config"
      "w = FindSensitiveDefaultsInUse defs config"
proof (cases "load_definitions u env defs Map.empty")
  case None
  with assms show thesis by (intro panic) (auto simp: InitConfig_def)
next
  case (Some config)
  show thesis
  proof (cases "FindSensitiveDefaultsInUse defs config \<noteq> [] \<and> \<not> IsDevEnv (config_env config)")
    case True
    with assms Some show thesis by (intro refuse [OF Some]) (auto simp: InitConfig_def)
  next
    case False
    with assms Some show thesis by (intro start [OF Some]) (auto simp: InitConfig_def Let_def)
  qed
qed

section \<open>The guard and the types\<close>

text \<open>
  C10. The production guard. When \<open>InitConfig\<close> returns a configuration whose environment is not a
  development one, no sensitive key holds its hard-coded default and there is nothing to warn
  about; in particular every sensitive string was supplied by its environment variable with a
  non-empty value other than the default, and that value is what \<open>GetStringValue\<close> returns.
\<close>

theorem production_guard:
  assumes fresh: "\<not> once_done st"
    and init: "InitConfig u env defs st = (st', w, Returned (Some config))"
    and prod: "\<not> IsDevEnv (config_env config)"
    and d: "d \<in> set defs" "cd_Sensitive d"
  shows "current_value config (cd_Key d) \<noteq> cd_Default d \<and> w = [] \<and>
    (cd_Type d = ''string'' \<and> distinct (map cd_Key defs) \<longrightarrow>
       (\<exists>v. env (cd_Env d) = Some v \<and> v \<noteq> [] \<and> CStr v \<noteq> cd_Default d \<and>
         GetStringValue st' (cd_Key d) = Some (Inr v)))"
  using fresh init
proof (cases rule: InitConfig_cases)
  case (start config')
  then have none: "FindSensitiveDefaultsInUse defs config = []" and load: "load_definitions u env defs Map.empty = Some config"
    and inst: "instance_of st' = Some config"
    using prod by auto
  then have neq: "current_value config (cd_Key d) \<noteq> cd_Default d"
    using d by (simp add: violations_iff)
  moreover have "\<exists>v. env (cd_Env d) = Some v \<and> v \<noteq> [] \<and> CStr v \<noteq> cd_Default d \<and>
      GetStringValue st' (cd_Key d) = Some (Inr v)"
    if ty: "cd_Type d = ''string''" and dist: "distinct (map cd_Key defs)"
  proof -
    have "resolve_definition u env d \<noteq> RPanic"
      using load d(1) by (metis load_None_iff option.distinct(1) resolve_panics_iff)
    then obtain s where s: "cd_Default d = CStr s"
      by (simp add: resolve_definition_def ty split: cfg_val.splits)
    then have "resolve_definition u env d = RValue (CStr (getEnvString env (cd_Env d) s))"
      by (simp add: resolve_definition_def ty)
    from load_lookup [OF load dist d(1) this]
    have "config (cd_Key d) = Some (CStr (getEnvString env (cd_Env d) s))" .
    with neq s inst show ?thesis
      by (auto simp: current_value_def getEnvString_def GetStringValue_def split: option.splits if_splits)
  qed
  ultimately show ?thesis using start none by auto
qed auto

definition demo_defs :: "unit ConfigDefinition list" where
  "demo_defs =
     [\<lparr>cd_Key = ''go_env'', cd_Env = ''GO_ENV'', cd_Type = ''string'', cd_Default = CStr ''dev'', cd_Sensitive = False\<rparr>,
      \<lparr>cd_Key = ''auth_secret'', cd_Env = ''AUTH_SECRET'', cd_Type = ''string'', cd_Default = CStr ''changeme'', cd_Sensitive = True\<rparr>,
      \<lparr>cd_Key = ''redis_port'', cd_Env = ''REDIS_PORT'', cd_Type = ''int'', cd_Default = CInt 6379, cd_Sensitive = False\<rparr>]"

definition demo_env :: environment where
  "demo_env = [''GO_ENV'' \<mapsto> ''prod'', ''AUTH_SECRET'' \<mapsto> ''s3cret'', ''REDIS_PORT'' \<mapsto> ''x'']"

definition demo_fresh :: "unit config_state" where
  "demo_fresh = \<lparr>once_done = False, instance_of = None\<rparr>"

definition demo_config :: "unit cfg_map" where
  "demo_config = [''go_env'' \<mapsto> CStr ''prod'', ''auth_secret'' \<mapsto> CStr ''s3cret'', ''redis_port'' \<mapsto> CInt 6379]"

lemmas config_eval = demo_defs_def demo_env_def demo_fresh_def demo_config_def InitConfig_def
  resolve_definition_def getEnvString_def getEnvInt_def current_value_def IsDevEnv_def config_env_def

lemma atoi_x: "atoi ''x'' = None"
  by (simp add: atoi_def sign_body_def is_dec_def)

lemma demo_init:
  "InitConfig (\<lambda>_. None) demo_env demo_defs demo_fresh =
     (\<lparr>once_done = True, instance_of = Some demo_config\<rparr>, [], Returned (Some demo_config))"
  by (simp add: config_eval atoi_x)

theorem production_guard_witness:
  "\<exists>v. demo_env ''AUTH_SECRET'' = Some v \<and> v \<noteq> [] \<and>
    GetStringValue \<lparr>once_done = True, instance_of = Some demo_config\<rparr> ''auth_secret'' = Some (Inr v)"
proof -
  let ?d = "\<lparr>cd_Key = ''auth_secret'', cd_Env = ''AUTH_SECRET'', cd_Type = ''string'',
    cd_Default = CStr ''changeme'' :: unit cfg_val, cd_Sensitive = True\<rparr>"
  have "\<not> once_done demo_fresh" "\<not> IsDevEnv (config_env demo_config)" "?d \<in> set demo_defs"
    "distinct (map cd_Key demo_defs)"
    by (simp_all add: config_eval)
  then show ?thesis
    using production_guard [OF _ demo_init, of ?d] by auto
qed

text \<open>
  C27. Declarations are types. If every default has its declared type and keys are declared once,
  \<open>InitConfig\<close> does not panic, whatever the environment holds; when it returns, every key of a
  supported type holds a value of that type (a malformed variable falls back to the default), so
  the getter of that type succeeds, and a key nobody declared is reported as not found.
\<close>

theorem declared_keys_are_typed:
  assumes fresh: "\<not> once_done st" and init: "InitConfig u env defs st = (st', w, out)"
    and defaults: "list_all default_matches defs" "list_all int_default_ok defs"
    and dist: "distinct (map cd_Key defs)"
  shows "out \<noteq> Panicked \<and>
    (\<forall>config. out = Returned (Some config) \<longrightarrow>
      (\<forall>d\<in>set defs. supported (cd_Type d) \<longrightarrow>
         (\<exists>v. GetConfigValue st' (cd_Key d) = Some v \<and> value_of_type (cd_Type d) v) \<and>
         (cd_Type d = ''string'' \<longrightarrow> (\<exists>s. GetStringValue st' (cd_Key d) = Some (Inr s))) \<and>
         (cd_Type d = ''int'' \<longrightarrow> (\<exists>i. GetIntValue st' (cd_Key d) = Some (Inr i) \<and> in_int64 i)) \<and>
         (cd_Type d = ''bool'' \<longrightarrow> (\<exists>b. GetBoolValue st' (cd_Key d) = Some (Inr b)))) \<and>
      (\<forall>k. k \<notin> cd_Key ` set defs \<longrightarrow> GetStringValue st' k = Some (Inl (ErrKeyNotFound k))))"
  using fresh init
proof (cases rule: InitConfig_cases)
  case panic
  then show ?thesis using defaults by (auto simp: load_None_iff list_all_iff)
next
  case (refuse config)
  then show ?thesis by simp
next
  case (start config)
  have typed: "\<exists>v. config (cd_Key d) = Some v \<and> value_of_type (cd_Type d) v"
    if "d \<in> set defs" "supported (cd_Type d)" for d
  proof -
    have "resolve_definition u env d \<noteq> RPanic" "resolve_definition u env d \<noteq> RSkip"
      using that defaults(1) by (simp_all add: resolve_panics_iff resolve_skips_iff list_all_iff)
    then obtain v where v: "resolve_definition u env d = RValue v"
      by (cases "resolve_definition u env d") simp_all
    then show ?thesis
      using load_lookup [OF start(1) dist that(1) v] resolve_typed [OF v] that(1) defaults(2)
      by (auto simp: list_all_iff)
  qed
  have undeclared: "GetStringValue st' k = Some (Inl (ErrKeyNotFound k))" if "k \<notin> cd_Key ` set defs" for k
    using load_frame [OF start(1) that] start(4) by (simp add: GetStringValue_def)
  have getters: "(\<exists>v. GetConfigValue st' (cd_Key d) = Some v \<and> value_of_type (cd_Type d) v) \<and>
      (cd_Type d = ''string'' \<longrightarrow> (\<exists>s. GetStringValue st' (cd_Key d) = Some (Inr s))) \<and>
      (cd_Type d = ''int'' \<longrightarrow> (\<exists>i. GetIntValue st' (cd_Key d) = Some (Inr i) \<and> in_int64 i)) \<and>
      (cd_Type d = ''bool'' \<longrightarrow> (\<exists>b. GetBoolValue st' (cd_Key d) = Some (Inr b)))"
    if d: "d \<in> set defs" "supported (cd_Type d)" for d
  proof -
    obtain v where v: "config (cd_Key d) = Some v" "value_of_type (cd_Type d) v" using typed [OF d] by blast
    then show ?thesis using getters_of_typed [OF start(4) v] by simp
  qed
  show ?thesis using start(3) undeclared getters by (simp, blast)
qed

theorem declared_keys_are_typed_witness:
  "\<exists>i. GetIntValue \<lparr>once_done = True, instance_of = Some demo_config\<rparr> ''redis_port'' = Some (Inr i) \<and> in_int64 i"
proof -
  have "\<not> once_done demo_fresh" "list_all default_matches demo_defs" "list_all int_default_ok demo_defs"
    "distinct (map cd_Key demo_defs)"
    by (simp_all add: config_eval default_matches_def int_default_ok_def in_int64_def)
  then show ?thesis
    using declared_keys_are_typed [OF _ demo_init] by (simp add: demo_defs_def supported_def)
qed

text \<open>Only the first call counts, also when it panicked: a later call changes nothing and returns what
  the first left behind.\<close>

lemma InitConfig_once:
  assumes "InitConfig u env defs st = (st', w, out)"
  shows "InitConfig u' env' defs' st' = (st', [], Returned (instance_of st'))"
  using assms by (auto simp: InitConfig_def Let_def split: option.splits if_splits)

section \<open>Credentials that are not configured\<close>

text \<open>What the JWT library promises in the other direction: a token whose signature fits the key the
  callback returns is accepted, with its claims.\<close>

definition jwt_complete ::
  "'n jwt_parser \<Rightarrow> (string \<Rightarrow> string) \<Rightarrow> (string \<Rightarrow> string \<Rightarrow> bool) \<Rightarrow> bool" where
  "jwt_complete parse alg_of sig_ok \<longleftrightarrow>
     (\<forall>t kf key. kf (alg_of t) = Some key \<and> sig_ok key t \<longrightarrow>
        (\<exists>tok claims. parse t kf = Inr tok \<and> tok_Valid tok \<and> tok_Claims tok = Some claims))"

lemma str_value_missing:
  assumes "instance_of st = Some config" "config key = None"
  shows "str_value st key = Some []"
  using assms by (simp add: GetStringValue_def or_zero_def)

lemma str_value_str:
  assumes "instance_of st = Some config" "config key = Some (CStr s)"
  shows "str_value st key = Some s"
  using assms by (simp add: GetStringValue_def or_zero_def)

lemma str_value_defined: "instance_of st = Some config \<Longrightarrow> \<exists>s. str_value st key = Some s"
  by (simp add: GetStringValue_def or_zero_def)

text \<open>
  What happens when credentials are missing. Without \<open>my_api_key\<close> the API-key middleware refuses
  every request. Without \<open>auth_secret\<close>, however, \<open>GetAuthConfig\<close> only logs the problem and
  returns an empty secret, and with strategy \<open>jwt\<close> and HS256 \<open>AuthMiddleware\<close> then lets through
  every token signed with the empty key.
\<close>

theorem missing_credentials:
  assumes inst: "instance_of st = Some config"
    and api: "config ''my_api_key'' = None" and secret: "config ''auth_secret'' = None"
    and jwt: "config ''auth_strategy'' = Some (CStr ''jwt'')" "config ''auth_algorithm'' = Some (CStr ''HS256'')"
    and complete: "jwt_complete parse5 alg_of sig_ok"
  shows "\<exists>key a problems. GetMyApiKey st = Some key \<and> GetAuthConfig st = Some (a, problems) \<and>
    SecretMissing \<in> set problems \<and>
    (\<forall>c :: 'n fiber_ctx. \<exists>r. ApiKeyAuthMiddleware key c = Reply r \<and> Status r = 401) \<and>
    (\<forall>c. let t = trim_prefix (fc_header c ''Authorization'') ''Bearer '' in
       fc_header c ''Authorization'' \<noteq> [] \<longrightarrow> alg_of t = ''HS256'' \<longrightarrow> sig_ok [] t \<longrightarrow>
       (\<exists>c'. AuthMiddleware parse5 parse4 jwks a c = Next c'))"
proof -
  have vals: "str_value st ''my_api_key'' = Some []" "str_value st ''auth_secret'' = Some []"
    "str_value st ''auth_strategy'' = Some ''jwt''" "str_value st ''auth_algorithm'' = Some ''HS256''"
    by (intro str_value_missing [OF inst] str_value_str [OF inst] api secret jwt)+
  obtain u rs rp ra where "str_value st ''auth_jwks_url'' = Some u" "str_value st ''auth_roles_source'' = Some rs"
    "str_value st ''auth_roles_path'' = Some rp" "str_value st ''auth_roles_api_url'' = Some ra"
    using str_value_defined [OF inst] by metis
  with vals obtain a problems where a: "GetAuthConfig st = Some (a, problems)" "SecretMissing \<in> set problems"
    "Strategy a = ''jwt''" "Secret a = []" "Algorithm a = ''HS256''"
    by (simp add: GetAuthConfig_def auth_problems_def)
  have "\<exists>c'. AuthMiddleware parse5 parse4 jwks a c = Next c'"
    if c: "fc_header c ''Authorization'' \<noteq> []" "alg_of t = ''HS256''" "sig_ok [] t"
      "t = trim_prefix (fc_header c ''Authorization'') ''Bearer ''" for c t
  proof -
    obtain tok claims where "parse5 t (\<lambda>alg. if alg \<noteq> ''HS256'' then None else Some []) = Inr tok"
      "tok_Valid tok" "tok_Claims tok = Some claims"
      using complete [unfolded jwt_complete_def, rule_format,
          of "\<lambda>alg. if alg \<noteq> ''HS256'' then None else Some []" t "[]"] c(2,3) by auto
    with c a(3-5) show ?thesis
      by (simp add: AuthMiddleware_def ParseJWTTokenWithSecret_def checked_claims_def)
  qed
  moreover have "\<exists>r. ApiKeyAuthMiddleware [] (c :: 'n fiber_ctx) = Reply r \<and> Status r = 401" for c
    by (simp add: ApiKeyAuthMiddleware_def Custom_def)
  ultimately show ?thesis
    using a(1,2) vals(1) by (auto simp: GetMyApiKey_def Let_def)
qed

definition keyless_config :: "unit config_state" where
  "keyless_config = \<lparr>once_done = True, instance_of = Some
     [''auth_strategy'' \<mapsto> CStr ''jwt'', ''auth_algorithm'' \<mapsto> CStr ''HS256'']\<rparr>"

text \<open>A parser for tokens whose signature is the empty string, for any key it is given.\<close>

definition keyless_parser :: "nat jwt_parser" where
  "keyless_parser t kf =
     (if kf ''HS256'' = Some [] then Inr \<lparr>tok_Valid = True, tok_Claims = Some [(''userId'', GStr t)]\<rparr>
      else Inl ''bad signature'')"

theorem missing_credentials_witness:
  "\<exists>a problems c'. GetAuthConfig keyless_config = Some (a, problems) \<and>
     AuthMiddleware keyless_parser keyless_parser (\<lambda>_. Inl []) a demo_ctx = Next c'"
proof -
  let ?config = "[''auth_strategy'' \<mapsto> CStr ''jwt'', ''auth_algorithm'' \<mapsto> CStr ''HS256''] :: unit cfg_map"
  have "instance_of keyless_config = Some ?config"
    by (simp add: keyless_config_def)
  moreover have "?config ''my_api_key'' = None" "?config ''auth_secret'' = None"
    "?config ''auth_strategy'' = Some (CStr ''jwt'')" "?config ''auth_algorithm'' = Some (CStr ''HS256'')"
    by simp_all
  moreover have "jwt_complete keyless_parser (\<lambda>_. ''HS256'') (\<lambda>key t. key = [])"
    by (simp add: jwt_complete_def keyless_parser_def)
  ultimately show ?thesis
    using missing_credentials [of keyless_config ?config keyless_parser "\<lambda>_. ''HS256''" "\<lambda>key t. key = []"
        keyless_parser "\<lambda>_. Inl []"]
    by (auto simp: demo_ctx_def Let_def)
qed

section \<open>Separation of environments and services\<close>

lemma of_char_case:
  "(of_char (upper_char c) :: nat) = (let n = of_char c in if 97 \<le> n \<and> n \<le> 122 then n - 32 else n)"
  "(of_char (lower_char c) :: nat) = (let n = of_char c in if 65 \<le> n \<and> n \<le> 90 then n + 32 else n)"
proof -
  have "n - 32 < 256" if "n \<le> 122" for n :: nat using that by linarith
  moreover have "n + 32 < 256" if "n \<le> 90" for n :: nat using that by linarith
  ultimately show
    "(of_char (upper_char c) :: nat) = (let n = of_char c in if 97 \<le> n \<and> n \<le> 122 then n - 32 else n)"
    "(of_char (lower_char c) :: nat) = (let n = of_char c in if 65 \<le> n \<and> n \<le> 90 then n + 32 else n)"
    by (simp_all add: upper_char_def lower_char_def Let_def)
qed

lemma lower_upper_char [simp]: "lower_char (upper_char c) = lower_char c"
proof -
  have "(of_char (lower_char (upper_char c)) :: nat) = of_char (lower_char c)"
    by (auto simp: of_char_case Let_def)
  then show ?thesis by simp
qed

lemma lower_upper [simp]: "to_lower (to_upper s) = to_lower s"
  by (simp add: to_lower_def to_upper_def)

lemma char_case_iff:
  assumes "of_char x < (65 :: nat)"
  shows "upper_char c = x \<longleftrightarrow> c = x" "lower_char c = x \<longleftrightarrow> c = x"
proof -
  have "upper_char c = x \<longleftrightarrow> (of_char (upper_char c) :: nat) = of_char x"
    "lower_char c = x \<longleftrightarrow> (of_char (lower_char c) :: nat) = of_char x"
    "c = x \<longleftrightarrow> (of_char c :: nat) = of_char x"
    by simp_all
  then show "upper_char c = x \<longleftrightarrow> c = x" "lower_char c = x \<longleftrightarrow> c = x"
    using assms unfolding of_char_case Let_def by (auto simp del: of_char_eq_iff split: if_splits)
qed

lemma case_no_char:
  assumes "of_char x < (65 :: nat)"
  shows "x \<in> set (to_upper s) \<longleftrightarrow> x \<in> set s" "x \<in> set (to_lower s) \<longleftrightarrow> x \<in> set s"
  using char_case_iff [OF assms] by (force simp: to_upper_def to_lower_def)+

lemma GetEnv_string: "GetStringValue st ''go_env'' = Some (Inr e) \<Longrightarrow> e \<noteq> [] \<Longrightarrow> GetEnv st = e"
  by (auto simp: GetEnv_def GetStringValue_def split: option.splits)

lemma GetMongoConfig_Database:
  assumes "GetStringValue st ''go_env'' = Some (Inr e)" "GetMongoConfig st = Some m"
  shows "\<exists>db. cfg_Database m = e @ CHR ''-'' # db"
  using assms by (auto simp: GetMongoConfig_def or_zero_def bind_eq_Some_conv)

lemma GetRedisConfig_KeyPrefix:
  assumes "GetRedisConfig st = Some r" "str_value st ''go_env'' = Some e" "str_value st ''service_name'' = Some svc"
  shows "rc_KeyPrefix r = e @ CHR '':'' # svc"
  using assms by (auto simp: GetRedisConfig_def getRedisConfigBase_def bind_eq_Some_conv)

lemma GetRedisConfig_values:
  assumes "GetRedisConfig st = Some r"
  obtains e svc where "str_value st ''go_env'' = Some e" "str_value st ''service_name'' = Some svc"
  using assms by (auto simp: GetRedisConfig_def bind_eq_Some_conv)

lemma first_segment_differs:
  fixes e e' :: string
  assumes "c \<notin> set e" "c \<notin> set e'" "e \<noteq> e'"
  shows "e @ c # x \<noteq> e' @ c # x'"
  using assms append_sep_inject [of e c x e' x'] by (auto simp: go_split_no_sep)

text \<open>
  Environments are kept apart. Two processes whose \<open>go_env\<close> values differ other than by case, and
  contain none of the separators, never build the same subject, stream name or durable,
  whatever services and contexts they name; they use different MongoDB databases, and no key
  their Redis clients address is common to both.
\<close>

theorem environments_separated:
  assumes env: "GetStringValue st ''go_env'' = Some (Inr e)" "GetStringValue st' ''go_env'' = Some (Inr e')"
    and named: "e \<noteq> []" "e' \<noteq> []" "to_lower e \<noteq> to_lower e'"
    and plain: "\<forall>x\<in>set (e @ e'). x \<noteq> CHR ''-'' \<and> x \<noteq> CHR ''.'' \<and> x \<noteq> CHR '':''"
  shows "Subject st s a \<noteq> Subject st' s' a' \<and> StreamName st s a \<noteq> StreamName st' s' a' \<and>
    Durable st s a \<noteq> Durable st' s' a' \<and>
    (\<forall>m m'. GetMongoConfig st = Some m \<longrightarrow> GetMongoConfig st' = Some m' \<longrightarrow> cfg_Database m \<noteq> cfg_Database m') \<and>
    (\<forall>r r' k k'. GetRedisConfig st = Some r \<longrightarrow> GetRedisConfig st' = Some r' \<longrightarrow>
       prefixed \<lparr>keyPrefix = rc_KeyPrefix r\<rparr> k \<noteq> prefixed \<lparr>keyPrefix = rc_KeyPrefix r'\<rparr> k')"
proof (intro conjI allI impI)
  have sep: "c \<notin> set (to_upper e)" "c \<notin> set (to_upper e')" "c \<notin> set (to_lower e)" "c \<notin> set (to_lower e')"
    "c \<notin> set e" "c \<notin> set e'" if "c \<in> {CHR ''-'', CHR ''.'', CHR '':''}" for c
  proof -
    have "of_char c < (65 :: nat)" using that by auto
    with that plain show "c \<notin> set (to_upper e)" "c \<notin> set (to_upper e')" "c \<notin> set (to_lower e)"
      "c \<notin> set (to_lower e')" "c \<notin> set e" "c \<notin> set e'"
      by (auto simp: case_no_char)
  qed
  have upper: "to_upper e \<noteq> to_upper e'" using named(3) by (metis lower_upper)
  note get = GetEnv_string [OF env(1) named(1)] GetEnv_string [OF env(2) named(2)]
  show "Subject st s a \<noteq> Subject st' s' a'"
    using first_segment_differs [of "CHR ''.''", OF sep(3,4) named(3)] by (simp add: Subject_def get)
  show "StreamName st s a \<noteq> StreamName st' s' a'"
    using first_segment_differs [of "CHR ''-''", OF sep(1,2) upper] by (simp add: StreamName_def get Let_def)
  show "Durable st s a \<noteq> Durable st' s' a'"
    using first_segment_differs [of "CHR ''-''", OF sep(3,4) named(3)] by (simp add: Durable_def get)
  have diff: "e \<noteq> e'" using named(3) by blast
  show "cfg_Database m \<noteq> cfg_Database m'" if "GetMongoConfig st = Some m" "GetMongoConfig st' = Some m'" for m m'
    using GetMongoConfig_Database [OF env(1) that(1)] GetMongoConfig_Database [OF env(2) that(2)]
      first_segment_differs [of "CHR ''-''", OF sep(5,6) diff] by (auto dest: sym)
  have go: "str_value st ''go_env'' = Some e" "str_value st' ''go_env'' = Some e'"
    using env by (simp_all add: or_zero_def)
  show "prefixed \<lparr>keyPrefix = rc_KeyPrefix r\<rparr> k \<noteq> prefixed \<lparr>keyPrefix = rc_KeyPrefix r'\<rparr> k'"
    if r: "GetRedisConfig st = Some r" "GetRedisConfig st' = Some r'" for r r' k k'
  proof -
    obtain svc svc' where "rc_KeyPrefix r = e @ CHR '':'' # svc" "rc_KeyPrefix r' = e' @ CHR '':'' # svc'"
      using GetRedisConfig_values [OF r(1)] GetRedisConfig_values [OF r(2)]
        GetRedisConfig_KeyPrefix [OF r(1) go(1)] GetRedisConfig_KeyPrefix [OF r(2) go(2)] by metis
    then show ?thesis
      using first_segment_differs [of "CHR '':''", OF sep(5,6) diff] by (simp add: prefixed_def)
  qed
qed

definition named_env :: "string \<Rightarrow> unit config_state" where
  "named_env e = \<lparr>once_done = True, instance_of = Some [''go_env'' \<mapsto> CStr e]\<rparr>"

theorem environments_separated_witness:
  "Subject (named_env ''dev'') ''events'' ''save'' \<noteq> Subject (named_env ''prod'') ''events'' ''save''"
proof -
  have "GetStringValue (named_env ''dev'') ''go_env'' = Some (Inr ''dev'')"
    "GetStringValue (named_env ''prod'') ''go_env'' = Some (Inr ''prod'')"
    by (simp_all add: named_env_def GetStringValue_def)
  moreover have "to_lower ''dev'' \<noteq> to_lower ''prod''" by (simp add: to_lower_def)
  moreover have "\<forall>x\<in>set (''dev'' @ ''prod''). x \<noteq> CHR ''-'' \<and> x \<noteq> CHR ''.'' \<and> x \<noteq> CHR '':''" by simp
  ultimately show ?thesis
    using environments_separated [of "named_env ''dev''" "''dev''" "named_env ''prod''" "''prod''"] by simp
qed

text \<open>Within an environment, services without a colon in their names have disjoint Redis keys.\<close>

lemma services_separated:
  assumes "GetRedisConfig st = Some r" "GetRedisConfig st' = Some r'"
    and "str_value st ''go_env'' = Some e" "str_value st' ''go_env'' = Some e"
    and "str_value st ''service_name'' = Some svc" "str_value st' ''service_name'' = Some svc'"
    and "CHR '':'' \<notin> set svc" "CHR '':'' \<notin> set svc'" "svc \<noteq> svc'"
  shows "prefixed \<lparr>keyPrefix = rc_KeyPrefix r\<rparr> k \<noteq> prefixed \<lparr>keyPrefix = rc_KeyPrefix r'\<rparr> k'"
  using assms GetRedisConfig_KeyPrefix [OF assms(1,3,5)] GetRedisConfig_KeyPrefix [OF assms(2,4,6)]
  by (intro prefixed_disjoint) (simp_all add: go_split_append_sep go_split_no_sep)

text \<open>The parts of a stream name are joined by a dash that the parts may contain.\<close>

lemma StreamName_ambiguous: "StreamName st ''A'' ''B'' = StreamName st ''A-B'' []"
  by (simp add: StreamName_def Let_def to_upper_def upper_char_def)

text \<open>The environment of the names defaults to \<open>dev\<close>, that of the databases and Redis prefixes does not.\<close>

lemma empty_env_names:
  assumes "instance_of st = Some config" "config ''go_env'' = None"
  shows "GetEnv st = ''dev''" "\<exists>m db. GetMongoConfig st = Some m \<and> cfg_Database m = CHR ''-'' # db"
  using assms str_value_defined [OF assms(1)]
  by (auto simp: GetEnv_def GetStringValue_def GetMongoConfig_def or_zero_def)

end
