(* ===== verification/Typeconv.thy ===== *)
theory Typeconv
  imports Complex_Main Kit_Prelude
begin

text \<open>
  Package \<open>utils/typeconv\<close>: conversions between dynamic values, numbers, strings, booleans and
  times. A \<open>float64\<close> is a rational, an infinity or NaN, with negative zero of its own; rounding
  to 53 bits is written out, because every integer conversion of the package goes through
  \<open>float64\<close>. Printing of floats and of values of other types, hexadecimal float literals,
  conversions of floats outside the integer range, time layouts and the time zone database
  are parameters.
\<close>

section \<open>float64\<close>

datatype f64 = FNum rat | FNegZero | FInf bool | FNaN

fun bit_len :: "nat \<Rightarrow> nat" where
  "bit_len n = (if n = 0 then 0 else Suc (bit_len (n div 2)))"

declare bit_len.simps [simp del]

text \<open>The exponent of the leading bit of a positive rational: with numerator and denominator of \<open>a\<close> and
  \<open>b\<close> bits it is \<open>a - b\<close> or one less.\<close>

definition floor_log2 :: "rat \<Rightarrow> int" where
  "floor_log2 x =
     (let (p, q) = quotient_of x;
          k = int (bit_len (nat p)) - int (bit_len (nat q))
      in if 2 powi k \<le> x then k else k - 1)"

definition round_half_even :: "rat \<Rightarrow> int" where
  "round_half_even x =
     (let n = \<lfloor>x\<rfloor>; d = x - of_int n in
      if d < 1 / 2 then n else if 1 / 2 < d then n + 1 else if even n then n else n + 1)"

text \<open>The nearest float of magnitude \<open>a\<close>: 53 significant bits, exponents from -1074, infinity from
  \<open>2 ^ 1024\<close> on.\<close>

definition nearest64 :: "bool \<Rightarrow> rat \<Rightarrow> f64" where
  "nearest64 neg a =
     (let e = (if a = 0 then 0 else max (-1074) (floor_log2 a - 52));
          y = of_int (round_half_even (a / 2 powi e)) * 2 powi e
      in if 2 ^ 1024 \<le> y then FInf neg
         else if neg then (if y = 0 then FNegZero else FNum (- y))
         else FNum y)"

definition float_of_rat :: "rat \<Rightarrow> f64" where
  "float_of_rat x = nearest64 (x < 0) \<bar>x\<bar>"

definition float_of_int :: "int \<Rightarrow> f64" where
  "float_of_int i = float_of_rat (of_int i)"

text \<open>\<open>strconv.ParseFloat(s, 64)\<close>: a sign, decimal digits with an optional point and exponent, or an
  infinity or NaN by name; a magnitude that rounds to infinity is a range error. What is not of this form is left to \<open>hex\<close>.\<close>

definition exponent_part :: "string \<Rightarrow> int option" where
  "exponent_part s =
     (case s of
        [] \<Rightarrow> Some 0
      | c # r \<Rightarrow>
          if c \<in> {CHR ''e'', CHR ''E''} then
            (let (neg, ds) = sign_body r in
             if ds \<noteq> [] \<and> list_all is_dec ds
             then Some (if neg then - int (dec_number ds) else int (dec_number ds)) else None)
          else None)"

definition parse_float :: "(string \<Rightarrow> f64 option) \<Rightarrow> string \<Rightarrow> f64 option" where
  "parse_float hex s =
     (let (neg, body) = sign_body s;
          ip = takeWhile is_dec body;
          r = dropWhile is_dec body;
          fp = (case r of [] \<Rightarrow> [] | c # t \<Rightarrow> if c = CHR ''.'' then takeWhile is_dec t else []);
          t = (case r of [] \<Rightarrow> [] | c # t \<Rightarrow> if c = CHR ''.'' then dropWhile is_dec t else r)
      in if to_lower body \<in> {''inf'', ''infinity''} then Some (FInf neg)
         else if to_lower s = ''nan'' then Some FNaN
         else if ip @ fp = [] then None
         else
           (case exponent_part t of
              None \<Rightarrow> hex s
            | Some e \<Rightarrow>
                (case nearest64 neg (of_nat (dec_number (ip @ fp)) * 10 powi (e - int (length fp))) of
                   FInf _ \<Rightarrow> None
                 | f \<Rightarrow> Some f)))"

text \<open>\<open>int64(f)\<close> truncates; outside the range the result depends on the implementation.\<close>

definition trunc_rat :: "rat \<Rightarrow> int" where
  "trunc_rat x = (if x < 0 then \<lceil>x\<rceil> else \<lfloor>x\<rfloor>)"

definition int64_of :: "(f64 \<Rightarrow> int) \<Rightarrow> f64 \<Rightarrow> int" where
  "int64_of out f =
     (case f of
        FNum x \<Rightarrow> if in_int64 (trunc_rat x) then trunc_rat x else out f
      | FNegZero \<Rightarrow> 0
      | _ \<Rightarrow> out f)"

text \<open>Subtraction of a finite float and multiplication by a positive one.\<close>

definition f64_minus :: "f64 \<Rightarrow> rat \<Rightarrow> f64" where
  "f64_minus f y =
     (case f of
        FNum x \<Rightarrow> float_of_rat (x - y)
      | FNegZero \<Rightarrow> if y = 0 then FNegZero else float_of_rat (- y)
      | _ \<Rightarrow> f)"

definition f64_times :: "f64 \<Rightarrow> rat \<Rightarrow> f64" where
  "f64_times f y = (case f of FNum x \<Rightarrow> float_of_rat (x * y) | _ \<Rightarrow> f)"

section \<open>Dynamic values\<close>

datatype int_kind = KInt | KInt8 | KInt16 | KInt32 | KInt64 | KUint | KUint8 | KUint16 | KUint32 | KUint64

text \<open>A time is its nanoseconds since the Unix epoch and its location.\<close>

datatype 'l gtime = GTime int 'l

datatype ('o, 'l) dyn =
    VNil
  | VFloat64 f64
  | VFloat32 f64
  | VInt int_kind int
  | VBoolean bool
  | VString string
  | VByteSlice string
  | VStringer string
  | VTime "'l gtime"
  | VOther 'o

record ('o, 'l) conv_libs =
  lib_hex :: "string \<Rightarrow> f64 option"
  lib_int64_out :: "f64 \<Rightarrow> int"
  lib_fmt_float64 :: "f64 \<Rightarrow> string"
  lib_fmt_float32 :: "f64 \<Rightarrow> string"
  lib_fmt_other :: "'o \<Rightarrow> string"
  lib_time_string :: "'l gtime \<Rightarrow> string"
  lib_ParseInLocation :: "string \<Rightarrow> string \<Rightarrow> 'l \<Rightarrow> 'l gtime option"
  lib_LoadLocation :: "string \<Rightarrow> 'l option"
  lib_UTC :: 'l

datatype conv_error = ErrNilValue | ErrTypeConversion string

section \<open>Conversions\<close>

definition ToFloat64 :: "('o, 'l) conv_libs \<Rightarrow> ('o, 'l) dyn \<Rightarrow> conv_error + f64" where
  "ToFloat64 L v =
     (case v of
        VNil \<Rightarrow> Inl ErrNilValue
      | VFloat64 f \<Rightarrow> Inr f
      | VFloat32 f \<Rightarrow> Inr f
      | VInt k i \<Rightarrow> Inr (float_of_int i)
      | VBoolean b \<Rightarrow> if b then Inr (FNum 1) else Inr (FNum 0)
      | VString s \<Rightarrow>
          (case parse_float (lib_hex L) s of
             None \<Rightarrow> Inl (ErrTypeConversion ''number'')
           | Some f \<Rightarrow> Inr f)
      | _ \<Rightarrow> Inl (ErrTypeConversion ''number''))"

text \<open>The variants that report success as a boolean.\<close>

definition try_conv :: "'a \<Rightarrow> conv_error + 'a \<Rightarrow> 'a \<times> bool" where
  "try_conv zero r = (case r of Inl _ \<Rightarrow> (zero, False) | Inr v \<Rightarrow> (v, True))"

definition TryFloat64 :: "('o, 'l) conv_libs \<Rightarrow> ('o, 'l) dyn \<Rightarrow> f64 \<times> bool" where
  "TryFloat64 L v = try_conv (FNum 0) (ToFloat64 L v)"

definition ToInt64 :: "('o, 'l) conv_libs \<Rightarrow> ('o, 'l) dyn \<Rightarrow> conv_error + int" where
  "ToInt64 L v =
     (case ToFloat64 L v of
        Inl err \<Rightarrow> Inl err
      | Inr f \<Rightarrow> Inr (int64_of (lib_int64_out L) f))"

definition TryInt64 :: "('o, 'l) conv_libs \<Rightarrow> ('o, 'l) dyn \<Rightarrow> int \<times> bool" where
  "TryInt64 L v = try_conv 0 (ToInt64 L v)"

definition format_bool :: "bool \<Rightarrow> string" where
  "format_bool b = (if b then ''true'' else ''false'')"

definition ToString :: "('o, 'l) conv_libs \<Rightarrow> ('o, 'l) dyn \<Rightarrow> conv_error + string" where
  "ToString L v =
     (case v of
        VNil \<Rightarrow> Inl ErrNilValue
      | VString s \<Rightarrow> Inr s
      | VByteSlice s \<Rightarrow> Inr s
      | VStringer s \<Rightarrow> Inr s
      | VTime t \<Rightarrow> Inr (lib_time_string L t)
      | VBoolean b \<Rightarrow> Inr (format_bool b)
      | VInt k i \<Rightarrow> Inr (itoa i)
      | VFloat32 f \<Rightarrow> Inr (lib_fmt_float32 L f)
      | VFloat64 f \<Rightarrow> Inr (lib_fmt_float64 L f)
      | VOther x \<Rightarrow> Inr (lib_fmt_other L x))"

definition TryString :: "('o, 'l) conv_libs \<Rightarrow> ('o, 'l) dyn \<Rightarrow> string \<times> bool" where
  "TryString L v = try_conv [] (ToString L v)"

definition nonzero :: "f64 \<Rightarrow> bool" where
  "nonzero f = (case f of FNum x \<Rightarrow> x \<noteq> 0 | FNegZero \<Rightarrow> False | _ \<Rightarrow> True)"

definition ToBool :: "('o, 'l) conv_libs \<Rightarrow> ('o, 'l) dyn \<Rightarrow> conv_error + bool" where
  "ToBool L v =
     (case v of
        VNil \<Rightarrow> Inl ErrNilValue
      | VBoolean b \<Rightarrow> Inr b
      | VString s \<Rightarrow>
          (let lower = to_lower (trim_space s) in
           if lower \<in> {''true'', ''1'', ''yes'', ''on''} then Inr True
           else if lower \<in> {''false'', ''0'', ''no'', ''off'', []} then Inr False
           else Inl (ErrTypeConversion ''boolean''))
      | VInt k i \<Rightarrow> Inr (nonzero (fst (TryFloat64 L v)))
      | VFloat32 f \<Rightarrow> Inr (nonzero (fst (TryFloat64 L v)))
      | VFloat64 f \<Rightarrow> Inr (nonzero (fst (TryFloat64 L v)))
      | _ \<Rightarrow> Inl (ErrTypeConversion ''boolean''))"

definition TryBool :: "('o, 'l) conv_libs \<Rightarrow> ('o, 'l) dyn \<Rightarrow> bool \<times> bool" where
  "TryBool L v = try_conv False (ToBool L v)"

section \<open>Times\<close>

definition DateFormats :: "string list" where
  "DateFormats =
     [''2006-01-02T15:04:05Z07:00'', ''2006-01-02T15:04:05.999999999Z07:00'', ''2006-01-02T15:04:05'',
      ''2006-01-02 15:04:05'', ''2006-01-02'', ''02/01/2006'', ''01/02/2006'', ''2006/01/02'']"

definition TimeFormats :: "string list" where
  "TimeFormats = [''15:04:05'', ''15:04'', ''3:04 PM'', ''3:04:05 PM'']"

definition GetLocation :: "('o, 'l) conv_libs \<Rightarrow> string \<Rightarrow> 'l" where
  "GetLocation L timezone =
     (if timezone = [] then lib_UTC L
      else (case lib_LoadLocation L timezone of None \<Rightarrow> lib_UTC L | Some loc \<Rightarrow> loc))"

text \<open>\<open>time.Unix(sec, nsec).In(loc)\<close> and \<open>t.In(loc)\<close>.\<close>

definition unix_in :: "int \<Rightarrow> int \<Rightarrow> 'l \<Rightarrow> 'l gtime" where
  "unix_in sec nsec loc = GTime (sec * 1000000000 + nsec) loc"

primrec time_in :: "'l gtime \<Rightarrow> 'l \<Rightarrow> 'l gtime" where
  "time_in (GTime ns l) loc = GTime ns loc"

definition GetCurrentTime :: "('o, 'l) conv_libs \<Rightarrow> 'l gtime \<Rightarrow> string \<Rightarrow> 'l gtime" where
  "GetCurrentTime L now timezone = time_in now (GetLocation L timezone)"

fun first_format :: "('o, 'l) conv_libs \<Rightarrow> string list \<Rightarrow> string \<Rightarrow> 'l \<Rightarrow> 'l gtime option" where
  "first_format L [] s loc = None"
| "first_format L (format # formats) s loc =
     (case lib_ParseInLocation L format s loc of
        Some t \<Rightarrow> Some t
      | None \<Rightarrow> first_format L formats s loc)"

definition parseTimeString :: "('o, 'l) conv_libs \<Rightarrow> string \<Rightarrow> 'l \<Rightarrow> conv_error + 'l gtime" where
  "parseTimeString L s loc =
     (case first_format L DateFormats s loc of
        Some t \<Rightarrow> Inr t
      | None \<Rightarrow>
          (case first_format L TimeFormats s loc of
             Some t \<Rightarrow> Inr t
           | None \<Rightarrow> Inl (ErrTypeConversion ''time'')))"

definition ToTime :: "('o, 'l) conv_libs \<Rightarrow> ('o, 'l) dyn \<Rightarrow> string \<Rightarrow> conv_error + 'l gtime" where
  "ToTime L v timezone =
     (let loc = GetLocation L timezone in
      case v of
        VNil \<Rightarrow> Inl ErrNilValue
      | VTime t \<Rightarrow> Inr (time_in t loc)
      | VString s \<Rightarrow> parseTimeString L s loc
      | VFloat64 f \<Rightarrow>
          (let sec = int64_of (lib_int64_out L) f;
               frac = (case float_of_int sec of FNum s \<Rightarrow> f64_minus f s | _ \<Rightarrow> f64_minus f 0);
               nsec = int64_of (lib_int64_out L) (f64_times frac 1000000000)
           in Inr (unix_in sec nsec loc))
      | VInt k i \<Rightarrow>
          if k = KInt64 \<or> k = KInt then Inr (unix_in i 0 loc) else Inl (ErrTypeConversion ''time'')
      | _ \<Rightarrow> Inl (ErrTypeConversion ''time''))"

definition TryTime :: "('o, 'l) conv_libs \<Rightarrow> 'l gtime \<Rightarrow> ('o, 'l) dyn \<Rightarrow> string \<Rightarrow> 'l gtime \<times> bool" where
  "TryTime L zero v timezone = try_conv zero (ToTime L v timezone)"

section \<open>Checks and dynamic conversion\<close>

definition IsNumeric :: "('o, 'l) conv_libs \<Rightarrow> ('o, 'l) dyn \<Rightarrow> bool" where
  "IsNumeric L v = snd (TryFloat64 L v)"

definition IsString :: "('o, 'l) dyn \<Rightarrow> bool" where
  "IsString v = (case v of VString _ \<Rightarrow> True | _ \<Rightarrow> False)"

definition IsBool :: "('o, 'l) conv_libs \<Rightarrow> ('o, 'l) dyn \<Rightarrow> bool" where
  "IsBool L v = snd (TryBool L v)"

definition ConvertByKind ::
  "('o, 'l) conv_libs \<Rightarrow> ('o, 'l) dyn \<Rightarrow> string \<Rightarrow> string \<Rightarrow> conv_error + ('o, 'l) dyn" where
  "ConvertByKind L v kind timezone =
     (if v = VNil then Inl ErrNilValue
      else
        let k = to_lower kind in
        if k = ''string'' then map_sum (\<lambda>e. e) VString (ToString L v)
        else if k \<in> {''number'', ''float'', ''integer'', ''int''} then map_sum (\<lambda>e. e) VFloat64 (ToFloat64 L v)
        else if k \<in> {''boolean'', ''bool''} then map_sum (\<lambda>e. e) VBoolean (ToBool L v)
        else if k \<in> {''date'', ''datetime'', ''time''} then map_sum (\<lambda>e. e) VTime (ToTime L v timezone)
        else Inr v)"

section \<open>Exactness and round trips\<close>

lemma bit_len_bounds: "0 < n \<Longrightarrow> 0 < bit_len n \<and> 2 ^ (bit_len n - 1) \<le> n \<and> n < 2 ^ bit_len n"
proof (induction n rule: bit_len.induct)
  case (1 n)
  show ?case
  proof (cases "n div 2 = 0")
    case True
    with 1(2) have "n = 1" by simp
    then show ?thesis by (simp add: bit_len.simps)
  next
    case False
    let ?k = "bit_len (n div 2)"
    have IH: "0 < ?k" "2 ^ (?k - 1) \<le> n div 2" "n div 2 < 2 ^ ?k" using 1 False by auto
    have "2 * 2 ^ (?k - 1) = (2 :: nat) ^ ?k" using IH(1) by (simp flip: power_Suc)
    moreover have k: "bit_len n = Suc ?k" using 1(2) by (simp add: bit_len.simps [of n])
    moreover have "n div 2 * 2 \<le> n" "n < 2 * (n div 2) + 2" by simp_all
    ultimately have "2 ^ ?k \<le> n" "n < 2 * 2 ^ ?k" using IH by linarith+
    with k show ?thesis by simp
  qed
qed

lemma bit_len_eqI:
  assumes "2 ^ k \<le> n" "n < 2 ^ Suc k"
  shows "bit_len n = Suc k"
proof -
  have "0 < n" using assms(1) by (metis less_le_trans zero_less_numeral zero_less_power)
  from bit_len_bounds [OF this] obtain j where j: "bit_len n = Suc j" "2 ^ j \<le> n" "n < 2 ^ Suc j"
    by (cases "bit_len n") auto
  have "(2 :: nat) ^ j < 2 ^ Suc k" "(2 :: nat) ^ k < 2 ^ Suc j" using assms j by linarith+
  then have "j < Suc k" "k < Suc j" by (simp_all only: power_strict_increasing_iff)
  with j(1) show ?thesis by simp
qed

lemma floor_log2_of_nat:
  assumes "0 < n"
  shows "floor_log2 (of_nat n) = int (bit_len n) - 1"
proof -
  have "bit_len 1 = 1" by (simp add: bit_len.simps)
  moreover have "quotient_of (of_nat n) = (int n, 1)"
    by (metis of_int_of_nat_eq quotient_of_int Rat.of_int_def)
  moreover have "(2 :: rat) powi (int (bit_len n) - 1) \<le> of_nat n"
  proof -
    have "int (bit_len n) - 1 = int (bit_len n - 1)" using bit_len_bounds [OF assms] by linarith
    then have "(2 :: rat) powi (int (bit_len n) - 1) = of_nat (2 ^ (bit_len n - 1))"
      by (simp only: power_int_of_nat) simp
    also have "\<dots> \<le> of_nat n" using bit_len_bounds [OF assms] by (simp only: of_nat_le_iff)
    finally show ?thesis .
  qed
  ultimately show ?thesis by (simp add: floor_log2_def)
qed

lemma round_half_even_int [simp]: "round_half_even (of_int m) = m"
  by (simp add: round_half_even_def)

text \<open>Natural numbers up to \<open>2 ^ 53\<close> are floats.\<close>

lemma nearest64_exact:
  assumes "n \<le> 2 ^ 53"
  shows "nearest64 neg (of_nat n) = (if neg then if n = 0 then FNegZero else FNum (- of_nat n) else FNum (of_nat n))"
proof -
  define e where "e = (if n = 0 then 0 else max (-1074) (floor_log2 (of_nat n) - 52))"
  have "\<exists>m. (of_nat n :: rat) = of_int m * 2 powi e"
  proof (cases "n = 0 \<or> n = 2 ^ 53")
    case True
    have "bit_len (2 ^ 53) = 54" by (rule bit_len_eqI [of 53, simplified]) simp_all
    then have "n = 2 ^ 53 \<Longrightarrow> e = 1" using floor_log2_of_nat [of n] by (simp add: e_def)
    with True show ?thesis
      by (auto intro: exI [of _ 0] exI [of _ "2 ^ 52"])
  next
    case False
    then have n: "0 < n" "n < 2 ^ 53" using assms by auto
    then have "(2 :: nat) ^ (bit_len n - 1) < 2 ^ 53" using bit_len_bounds [OF n(1)] by linarith
    then have "bit_len n - 1 < 53" by (simp only: power_strict_increasing_iff)
    then obtain k where k: "e = - int k"
      using n(1) bit_len_bounds [OF n(1)] floor_log2_of_nat [OF n(1)]
      by (intro that [of "53 - bit_len n"]) (auto simp: e_def)
    have "(of_nat n :: rat) = of_int (int n * 2 ^ k) * 2 powi e"
      by (simp add: k power_int_minus)
    then show ?thesis by blast
  qed
  then obtain m where m: "(of_nat n :: rat) = of_int m * 2 powi e" by blast
  then have "of_nat n / 2 powi e = (of_int m :: rat)" by (simp add: field_simps)
  then have "of_int (round_half_even (of_nat n / 2 powi e)) * 2 powi e = (of_nat n :: rat)"
    using m by (simp only: round_half_even_int)
  moreover have "(of_nat n :: rat) < 2 ^ 1024"
  proof -
    have "(of_nat n :: rat) \<le> of_nat (2 ^ 53)" using assms by (simp only: of_nat_le_iff)
    also have "\<dots> < 2 ^ 1024" by simp
    finally show ?thesis .
  qed
  ultimately show ?thesis
    by (auto simp: nearest64_def Let_def e_def)
qed


lemma round_half_even_le: "of_int (round_half_even x) \<le> x + 1"
  by (auto simp: round_half_even_def Let_def) linarith+

lemma nearest64_finite:
  assumes "n < 2 ^ 1000"
  shows "nearest64 neg (of_nat n) \<noteq> FInf b"
proof -
  define e where "e = (if n = 0 then 0 else max (-1074) (floor_log2 (of_nat n) - 52))"
  define y :: rat where "y = of_int (round_half_even (of_nat n / 2 powi e)) * 2 powi e"
  have pe: "(2 :: rat) powi e \<le> of_nat n + 1"
  proof (cases "e \<le> 0")
    case True
    then have "(2 :: rat) powi e \<le> 1" using power_int_increasing [of e 0 "2 :: rat"] by simp
    then show ?thesis by simp
  next
    case False
    then have n: "0 < n" and e: "e = int (bit_len n) - 53" using floor_log2_of_nat [of n]
      by (auto simp: e_def split: if_splits)
    have "(2 :: rat) powi e \<le> 2 powi int (bit_len n - 1)"
      using e by (intro power_int_increasing) auto
    also have "\<dots> = of_nat (2 ^ (bit_len n - 1))" by simp
    also have "\<dots> \<le> of_nat n" using bit_len_bounds [OF n] by (simp only: of_nat_le_iff)
    finally show ?thesis by simp
  qed
  have "y \<le> (of_nat n / 2 powi e + 1) * 2 powi e"
    unfolding y_def by (intro mult_right_mono round_half_even_le) simp
  also have "\<dots> = of_nat n + 2 powi e" by (simp add: field_simps)
  also have "\<dots> \<le> of_nat (2 * n + 1)" using pe by simp
  also have "\<dots> < of_nat (2 ^ 1024)" using assms by (simp only: of_nat_less_iff) simp
  also have "\<dots> = 2 ^ 1024" by simp
  finally show ?thesis unfolding y_def e_def by (auto simp: nearest64_def Let_def)
qed

lemma float_of_int_nat: "float_of_int i = nearest64 (i < 0) (of_nat (nat \<bar>i\<bar>))"
  by (simp add: float_of_int_def float_of_rat_def)

lemma float_of_int_exact: "\<bar>i\<bar> \<le> 2 ^ 53 \<Longrightarrow> float_of_int i = FNum (of_int i)"
  using nearest64_exact [of "nat \<bar>i\<bar>"] by (auto simp: float_of_int_nat)

lemma to_lower_digits: "list_all is_dec ds \<Longrightarrow> to_lower ds = ds"
  by (induction ds) (auto simp: to_lower_def lower_char_def is_dec_def Let_def)

lemma parse_float_digits:
  assumes "list_all is_dec ds" "ds \<noteq> []" "dec_number ds < 2 ^ 1000" "sign_body s = (neg, ds)" "s = ds \<or> hd s = CHR ''-''"
  shows "parse_float hex s = Some (nearest64 neg (of_nat (dec_number ds)))"
proof -
  have run: "takeWhile is_dec ds = ds" "dropWhile is_dec ds = []"
    using assms(1) by (simp_all add: list_all_iff takeWhile_eq_all_conv)
  have "to_lower ds \<notin> {''inf'', ''infinity''}" "to_lower s \<noteq> ''nan''"
  proof -
    show "to_lower ds \<notin> {''inf'', ''infinity''}"
      using assms(1) by (auto simp: to_lower_digits is_dec_def)
    show "to_lower s \<noteq> ''nan''"
      using assms(5)
    proof
      assume "s = ds"
      then show ?thesis using assms(1) by (auto simp: to_lower_digits is_dec_def)
    next
      assume "hd s = CHR ''-''"
      then show ?thesis by (cases s) (auto simp: to_lower_def lower_char_def)
    qed
  qed
  moreover have "(case nearest64 neg (of_nat (dec_number ds)) of FInf _ \<Rightarrow> None | f \<Rightarrow> Some f) =
      Some (nearest64 neg (of_nat (dec_number ds)))"
    using nearest64_finite [OF assms(3)] by (auto split: f64.splits)
  ultimately show ?thesis
    using assms(2,4) unfolding parse_float_def by (simp add: exponent_part_def Let_def run)
qed

lemma parse_float_itoa:
  assumes "\<bar>i\<bar> < 2 ^ 1000"
  shows "parse_float hex (itoa i) = Some (float_of_int i)"
proof -
  note ds = show_nat_digits [of "nat \<bar>i\<bar>"]
  have b: "nat \<bar>i\<bar> < 2 ^ 1000" using assms by (simp add: nat_less_iff)
  show ?thesis
  proof (cases "i < 0")
    case True
    then show ?thesis using ds b parse_float_digits [of "show_nat (nat \<bar>i\<bar>)" "itoa i" True]
      by (simp add: itoa_def sign_body_def float_of_int_nat)
  next
    case False
    then show ?thesis using ds b parse_float_digits [of "show_nat (nat \<bar>i\<bar>)" "itoa i" False]
      by (simp add: itoa_def sign_body_dec float_of_int_nat)
  qed
qed

lemma int64_of_int: "in_int64 i \<Longrightarrow> int64_of out (FNum (of_int i)) = i"
  by (simp add: int64_of_def trunc_rat_def)

lemma boolean_words: "to_lower (trim_space ''true'') = ''true''" "to_lower (trim_space ''false'') = ''false''"
  by code_simp+

text \<open>
  C28. Conversions to text and back. Printing an integer of any kind and reading the text gives the same
  \<open>float64\<close> and the same \<open>int64\<close> as converting the integer directly, and up to \<open>2 ^ 53\<close> in
  magnitude that is the integer itself; a printed boolean reads back as itself.
\<close>

theorem conversion_roundtrip:
  assumes "\<bar>i\<bar> < 2 ^ 64"
  shows "(\<exists>s. ToString L (VInt k i) = Inr s \<and>
      ToFloat64 L (VString s) = ToFloat64 L (VInt k i) \<and> ToInt64 L (VString s) = ToInt64 L (VInt k i) \<and>
      (\<bar>i\<bar> \<le> 2 ^ 53 \<longrightarrow> ToInt64 L (VString s) = Inr i \<and> ToFloat64 L (VString s) = Inr (FNum (of_int i)))) \<and>
    (\<exists>s. ToString L (VBoolean b) = Inr s \<and> ToBool L (VString s) = Inr b)"
proof -
  have "(2 :: int) ^ 64 < 2 ^ 1000" by simp
  with assms have "\<bar>i\<bar> < 2 ^ 1000" by linarith
  then have same: "ToFloat64 L (VString (itoa i)) = ToFloat64 L (VInt k i)"
    by (simp add: ToFloat64_def parse_float_itoa)
  moreover from same have "ToInt64 L (VString (itoa i)) = ToInt64 L (VInt k i)"
    by (simp add: ToInt64_def)
  moreover have "ToInt64 L (VInt k i) = Inr i \<and> ToFloat64 L (VInt k i) = Inr (FNum (of_int i))" if "\<bar>i\<bar> \<le> 2 ^ 53"
  proof -
    have "in_int64 i" using that by (auto simp: in_int64_def)
    then show ?thesis using that by (simp add: ToInt64_def ToFloat64_def float_of_int_exact int64_of_int)
  qed
  moreover have "ToBool L (VString (format_bool b)) = Inr b"
    using boolean_words by (cases b) (simp_all add: ToBool_def format_bool_def)
  ultimately show ?thesis by (simp add: ToString_def)
qed

definition demo_libs :: "(unit, unit) conv_libs" where
  "demo_libs = \<lparr>lib_hex = \<lambda>_. None, lib_int64_out = \<lambda>_. - (2 ^ 63), lib_fmt_float64 = \<lambda>_. [],
     lib_fmt_float32 = \<lambda>_. [], lib_fmt_other = \<lambda>_. [], lib_time_string = \<lambda>_. [],
     lib_ParseInLocation = \<lambda>_ _ _. None, lib_LoadLocation = \<lambda>_. None, lib_UTC = ()\<rparr>"

theorem conversion_roundtrip_witness:
  "\<exists>s. ToString demo_libs (VInt KInt64 (-42)) = Inr s \<and> ToInt64 demo_libs (VString s) = Inr (-42)"
  using conversion_roundtrip [of "-42" demo_libs KInt64 True] by auto

text \<open>Every integer passes through a \<open>float64\<close>: from \<open>2 ^ 53\<close> on the result may differ from the argument,
  although an \<open>int64\<close> was asked for and given.\<close>

lemma float_of_int_inexact: "float_of_int 9007199254740993 = FNum 9007199254740992"
proof -
  have "bit_len 9007199254740993 = 54" by (rule bit_len_eqI [of 53, simplified]) simp_all
  then have "floor_log2 9007199254740993 = 53"
    using floor_log2_of_nat [of 9007199254740993] by simp
  moreover have "round_half_even (9007199254740993 / 2) = 4503599627370496"
  proof -
    have "\<lfloor>9007199254740993 / 2 :: rat\<rfloor> = 4503599627370496" by (simp add: floor_eq_iff)
    then show ?thesis by (simp add: round_half_even_def)
  qed
  ultimately show ?thesis by (simp add: float_of_int_def float_of_rat_def nearest64_def)
qed

lemma ToInt64_inexact: "ToInt64 L (VInt KInt64 9007199254740993) = Inr 9007199254740992"
  by (simp add: ToInt64_def ToFloat64_def float_of_int_inexact int64_of_def trunc_rat_def in_int64_def)

lemma float_of_rat_0 [simp]: "float_of_rat 0 = FNum 0"
  by (simp add: float_of_rat_def nearest64_def round_half_even_def)

text \<open>A whole number of seconds gives the same time as \<open>float64\<close> and as \<open>int64\<close>.\<close>

lemma ToTime_whole_seconds:
  assumes "\<bar>i\<bar> \<le> 2 ^ 53"
  shows "ToTime L (VFloat64 (FNum (of_int i))) tz = ToTime L (VInt KInt64 i) tz"
proof -
  have "in_int64 i" using assms by (auto simp: in_int64_def)
  then have "int64_of out (FNum (of_int i)) = i" for out by (rule int64_of_int)
  then show ?thesis
    using float_of_int_exact [OF assms]
    by (simp add: ToTime_def Let_def f64_minus_def f64_times_def int64_of_def trunc_rat_def in_int64_def)
qed

end
