(* ===== verification/Template_Replace.thy ===== *)
theory Template_Replace
  imports Kit_Prelude
begin

text \<open>
  Package \<open>utils/templatereplace\<close>: placeholders \<open>{{a.b.c}}\<close> in the strings of a JSON-like value are
  replaced by the value found in a map of contexts. The regular expression is a scan from the
  left; printing of numbers, lists and maps with \<open>%v\<close> is a parameter. The theory shows that
  one pass replaces exactly the placeholders of the template, so that inserted text is
  never scanned again, and that replacing does not change the shape of the value.
\<close>

section \<open>The pattern\<close>

text \<open>A match of the pattern at the head of the string: two opening braces, a non-empty run without a
  closing brace, two closing braces. The result is the path and the rest of the string.\<close>

definition match_template :: "string \<Rightarrow> (string \<times> string) option" where
  "match_template s =
     (if has_prefix s ''{{'' then
        (let path = takeWhile (\<lambda>c. c \<noteq> CHR ''}'') (drop 2 s);
             r = dropWhile (\<lambda>c. c \<noteq> CHR ''}'') (drop 2 s)
         in if path \<noteq> [] \<and> has_prefix r ''}}'' then Some (path, drop 2 r) else None)
      else None)"

lemma match_template_shorter: "match_template s = Some (path, r) \<Longrightarrow> length r < length s"
proof -
  assume m: "match_template s = Some (path, r)"
  then have "r = drop 2 (dropWhile (\<lambda>c. c \<noteq> CHR ''}'') (drop 2 s))" "s \<noteq> []"
    by (auto simp: match_template_def Let_def has_prefix_def split: if_splits)
  then have "length r \<le> length (dropWhile (\<lambda>c. c \<noteq> CHR ''}'') (drop 2 s))" by simp
  also have "\<dots> \<le> length (drop 2 s)" by (rule length_dropWhile_le)
  also have "\<dots> < length s" using \<open>s \<noteq> []\<close> by simp
  finally show ?thesis .
qed

text \<open>\<open>ReplaceAllStringFunc\<close>: the leftmost matches from left to right, without overlap.\<close>

function replace_all :: "(string \<Rightarrow> string) \<Rightarrow> string \<Rightarrow> string" where
  "replace_all f [] = []"
| "replace_all f (c # cs) =
     (case match_template (c # cs) of
        Some (path, r) \<Rightarrow> f path @ replace_all f r
      | None \<Rightarrow> c # replace_all f cs)"
  by pat_completeness auto

termination
  by (relation "measure (\<lambda>(f, s). length s)") (auto dest: match_template_shorter)

fun contains_open :: "string \<Rightarrow> bool" where
  "contains_open (a # b # s) = ((a = CHR ''{'' \<and> b = CHR ''{'') \<or> contains_open (b # s))"
| "contains_open _ = False"

section \<open>Resolution\<close>

text \<open>\<open>fmt.Sprintf("%v", x)\<close> of a value that is not nil.\<close>

definition print_v :: "('n gval \<Rightarrow> string) \<Rightarrow> 'n gval \<Rightarrow> string" where
  "print_v fmt v =
     (case v of
        GStr s \<Rightarrow> s
      | GBool b \<Rightarrow> if b then ''true'' else ''false''
      | _ \<Rightarrow> fmt v)"

fun walk_parts :: "string list \<Rightarrow> 'n gval \<Rightarrow> 'n gval option" where
  "walk_parts [] current = Some current"
| "walk_parts (part # parts) current =
     (case current of
        GMap m \<Rightarrow>
          (case map_of m part of
             None \<Rightarrow> None
           | Some v \<Rightarrow> walk_parts parts v)
      | _ \<Rightarrow> None)"

text \<open>\<open>None\<close> and \<open>GNil\<close> are both nil.\<close>

definition navigate :: "string \<Rightarrow> (string \<times> 'n gval) list \<Rightarrow> 'n gval option" where
  "navigate path contexts =
     (case go_split (CHR ''.'') path of
        [] \<Rightarrow> None
      | p # parts \<Rightarrow>
          (case map_of contexts p of
             None \<Rightarrow> None
           | Some current \<Rightarrow> walk_parts parts current))"

definition substitute :: "('n gval \<Rightarrow> string) \<Rightarrow> (string \<times> 'n gval) list \<Rightarrow> string \<Rightarrow> string" where
  "substitute fmt contexts path =
     (case navigate path contexts of
        None \<Rightarrow> ''{{'' @ path @ ''}}''
      | Some GNil \<Rightarrow> ''{{'' @ path @ ''}}''
      | Some v \<Rightarrow> print_v fmt v)"

definition resolveString :: "('n gval \<Rightarrow> string) \<Rightarrow> string \<Rightarrow> (string \<times> 'n gval) list \<Rightarrow> string" where
  "resolveString fmt s contexts =
     (if \<not> contains_open s then s else replace_all (substitute fmt contexts) s)"

definition ResolveString :: "('n gval \<Rightarrow> string) \<Rightarrow> string \<Rightarrow> (string \<times> 'n gval) list \<Rightarrow> string" where
  "ResolveString fmt s contexts = resolveString fmt s contexts"

fun Resolve :: "('n gval \<Rightarrow> string) \<Rightarrow> 'n gval \<Rightarrow> (string \<times> 'n gval) list \<Rightarrow> 'n gval" where
  "Resolve fmt (GStr s) contexts = GStr (resolveString fmt s contexts)"
| "Resolve fmt (GMap m) contexts = GMap (map (\<lambda>(k, inner). (k, Resolve fmt inner contexts)) m)"
| "Resolve fmt (GList l) contexts = GList (map (\<lambda>inner. Resolve fmt inner contexts) l)"
| "Resolve fmt v contexts = v"

section \<open>One pass over a template\<close>

text \<open>A template as its author thinks of it: literal text and placeholders.\<close>

datatype tok = Lit string | Hole string

primrec render :: "tok \<Rightarrow> string" where
  "render (Lit s) = s"
| "render (Hole path) = ''{{'' @ path @ ''}}''"

primrec well_formed :: "tok \<Rightarrow> bool" where
  "well_formed (Lit s) = (CHR ''{'' \<notin> set s)"
| "well_formed (Hole path) = (path \<noteq> [] \<and> CHR ''}'' \<notin> set path)"

primrec fill :: "(string \<Rightarrow> string) \<Rightarrow> tok \<Rightarrow> string" where
  "fill f (Lit s) = s"
| "fill f (Hole path) = f path"

lemma no_open_no_match: "\<not> has_prefix s ''{{'' \<Longrightarrow> match_template s = None"
  by (simp add: match_template_def)

lemma has_prefix_Cons: "has_prefix (c # cs) (p # ps) \<longleftrightarrow> c = p \<and> has_prefix cs ps"
  by (auto simp: has_prefix_def)

lemma has_prefix_Nil [simp]: "has_prefix s []"
  by (simp add: has_prefix_def)

lemma replace_all_lit: "CHR ''{'' \<notin> set s \<Longrightarrow> replace_all f (s @ t) = s @ replace_all f t"
  by (induction s) (auto simp: no_open_no_match has_prefix_Cons)

lemma match_hole:
  assumes "path \<noteq> []" "CHR ''}'' \<notin> set path"
  shows "match_template (''{{'' @ path @ ''}}'' @ t) = Some (path, t)"
proof -
  have "takeWhile (\<lambda>c. c \<noteq> CHR ''}'') (path @ ''}}'' @ t) = path"
    "dropWhile (\<lambda>c. c \<noteq> CHR ''}'') (path @ ''}}'' @ t) = ''}}'' @ t"
    using assms(2) by (auto simp: takeWhile_append dropWhile_append)
  then show ?thesis using assms(1) by (simp add: match_template_def has_prefix_Cons)
qed

lemma replace_all_hole:
  assumes "path \<noteq> []" "CHR ''}'' \<notin> set path"
  shows "replace_all f (''{{'' @ path @ ''}}'' @ t) = f path @ replace_all f t"
  using match_hole [OF assms, of t] by simp

lemma replace_all_render:
  "list_all well_formed ts \<Longrightarrow> replace_all f (concat (map render ts)) = concat (map (fill f) ts)"
proof (induction ts)
  case (Cons t ts)
  then show ?case
    by (cases t) (simp_all add: replace_all_lit replace_all_hole [simplified])
qed simp

lemma no_open_fixed: "\<not> contains_open s \<Longrightarrow> replace_all f s = s"
proof (induction s)
  case (Cons c s)
  then have "\<not> has_prefix (c # s) ''{{''" "\<not> contains_open s"
    by (cases s; auto simp: has_prefix_def)+
  with Cons.IH show ?case by (simp add: no_open_no_match)
qed simp

text \<open>The test for an opening pair is only an optimisation.\<close>

lemma resolveString_replace: "resolveString fmt s contexts = replace_all (substitute fmt contexts) s"
  by (simp add: resolveString_def no_open_fixed)

text \<open>
  C29. One pass. On a template made of literal text without opening braces and of placeholders,
  \<open>ResolveString\<close> returns the literals as they are and in place of each placeholder the value
  at its path, or the placeholder itself when there is none; what a value contains, braces
  included, is inserted as it is and not expanded again.
\<close>

theorem ResolveString_fills_holes:
  assumes "list_all well_formed ts"
  shows "ResolveString fmt (concat (map render ts)) contexts =
    concat (map (fill (\<lambda>path. case navigate path contexts of
        Some v \<Rightarrow> if v = GNil then ''{{'' @ path @ ''}}'' else print_v fmt v
      | None \<Rightarrow> ''{{'' @ path @ ''}}'')) ts)"
proof -
  have "substitute fmt contexts = (\<lambda>path. case navigate path contexts of
        Some v \<Rightarrow> if v = GNil then ''{{'' @ path @ ''}}'' else print_v fmt v
      | None \<Rightarrow> ''{{'' @ path @ ''}}'')"
    by (auto simp: fun_eq_iff substitute_def split: option.splits gval.splits)
  then show ?thesis
    using replace_all_render [OF assms] by (simp add: ResolveString_def resolveString_replace)
qed

theorem ResolveString_fills_holes_witness:
  "ResolveString (\<lambda>_ :: nat gval. []) ''to {{user.name}}: {{x}}''
     [(''user'', GMap [(''name'', GStr ''{{x}}'')])] = ''to {{x}}: {{x}}''"
proof -
  let ?ts = "[Lit ''to '', Hole ''user.name'', Lit '': '', Hole ''x'']"
  have "list_all well_formed ?ts" by simp
  from ResolveString_fills_holes [OF this, of "\<lambda>_ :: nat gval. []" "[(''user'', GMap [(''name'', GStr ''{{x}}'')])]"]
  show ?thesis by (simp add: navigate_def print_v_def)
qed

section \<open>Paths and shape\<close>

text \<open>A path of parts without a dot leads through the maps part by part.\<close>

lemma navigate_join:
  assumes "p # parts \<noteq> []" "\<forall>q\<in>set (p # parts). CHR ''.'' \<notin> set q"
  shows "navigate (go_join ''.'' (p # parts)) contexts = walk_parts (p # parts) (GMap contexts)"
  using go_split_join [OF assms(1), of "CHR ''.''"] assms(2) by (simp add: navigate_def)

lemma map_of_map_snd: "map_of (map (\<lambda>(k, v). (k, f v)) m) k = map_option f (map_of m k)"
  by (induction m) auto

text \<open>
  \<open>Resolve\<close> keeps the shape of a value: following keys through the maps of the result reaches
  exactly what they reach in the argument, resolved.
\<close>

theorem Resolve_commutes_with_paths:
  "walk_parts parts (Resolve fmt v contexts) = map_option (\<lambda>w. Resolve fmt w contexts) (walk_parts parts v)"
proof (induction parts arbitrary: v)
  case (Cons part parts)
  then show ?case
    by (cases v) (auto simp: map_of_map_snd split: option.split)
qed simp

end
