(* ===== verification/Mapper.thy ===== *)
theory Mapper
  imports Mongo_Model
begin

text \<open>
  Package \<open>utils/mapper\<close>: conversion between DTOs and entities. Structs are lists of fields with
  their reflected type, as the post-processors walk them; the source of a walk is given by the
  fields \<open>FieldByName\<close> finds. The copier library, the JSON package, the codec of object
  identifiers and the accessor methods of the mapped types are parameters. Slice types are
  unnamed. A panic of \<open>reflect\<close> is a value of the result. The theory shows what the
  post-processors store in every field and that identifiers survive the way from an entity to
  a DTO and back.
\<close>

section \<open>Reflected types and values\<close>

text \<open>Strings have a type name, \<open>''string''\<close> for the predeclared type. Object identifiers are those of
  driver v2, the type \<open>model.ObjectId\<close>, or of driver v1.\<close>

datatype gotype = TStr string | TOid | TOidV1 | TPtr gotype | TSlice gotype | TOtherType string

datatype 'o fval =
    VStr string
  | VOid 'o
  | FOidV1 string
  | FNilPtr
  | FPtr "'o fval"
  | FNilSlice
  | FSlice "'o fval list"
  | FOther string

record 'o go_field =
  gf_Name :: string
  gf_Type :: gotype
  gf_CanSet :: bool
  gf_Value :: "'o fval"

type_synonym 'o gostruct = "'o go_field list"

abbreviation string_type :: gotype where "string_type \<equiv> TStr ''string''"

definition field_by_name :: "'o gostruct \<Rightarrow> string \<Rightarrow> 'o go_field option" where
  "field_by_name s n = find (\<lambda>f. gf_Name f = n) s"

record MapperOptions =
  ObjectIdToString :: bool
  StringToObjectId :: bool

section \<open>Type checkers\<close>

definition isObjectIdSlice :: "gotype \<Rightarrow> bool" where
  "isObjectIdSlice t = (case t of TSlice e \<Rightarrow> e = TOidV1 \<or> e = TOid | _ \<Rightarrow> False)"

definition is_string_kind :: "gotype \<Rightarrow> bool" where
  "is_string_kind t = (case t of TStr _ \<Rightarrow> True | _ \<Rightarrow> False)"

definition isStringSlice :: "gotype \<Rightarrow> bool" where
  "isStringSlice t = (case t of TSlice e \<Rightarrow> is_string_kind e | _ \<Rightarrow> False)"

definition isStringSlicePtr :: "gotype \<Rightarrow> bool" where
  "isStringSlicePtr t = (case t of TPtr (TSlice e) \<Rightarrow> is_string_kind e | _ \<Rightarrow> False)"

definition isObjectIdPtr :: "gotype \<Rightarrow> bool" where
  "isObjectIdPtr t = (case t of TPtr e \<Rightarrow> e = TOidV1 \<or> e = TOid | _ \<Rightarrow> False)"

definition isStringPtr :: "gotype \<Rightarrow> bool" where
  "isStringPtr t = (case t of TPtr e \<Rightarrow> is_string_kind e | _ \<Rightarrow> False)"

section \<open>Converters\<close>

text \<open>What a converter does to the destination: leave it, set it, or panic. Setting panics unless the
  destination has the type of the new value.\<close>

datatype 'o change = Keep | Put "'o fval" | Panic

definition set_as :: "gotype \<Rightarrow> gotype \<Rightarrow> 'o fval \<Rightarrow> 'o change" where
  "set_as t dst v = (if dst = t then Put v else Panic)"

text \<open>The assertion \<open>x.(model.ObjectId)\<close> and the text of a string value.\<close>

fun as_oid :: "'o fval \<Rightarrow> 'o option" where
  "as_oid (VOid x) = Some x"
| "as_oid _ = None"

fun as_text :: "'o fval \<Rightarrow> string" where
  "as_text (VStr s) = s"
| "as_text _ = ''<Value>''"

fun all_oids :: "'o fval list \<Rightarrow> 'o list option" where
  "all_oids [] = Some []"
| "all_oids (v # vs) =
     (case as_oid v of
        None \<Rightarrow> None
      | Some x \<Rightarrow> (case all_oids vs of None \<Rightarrow> None | Some xs \<Rightarrow> Some (x # xs)))"

definition convertObjectIdSliceToStringSlicePtr :: "'o oid_codec \<Rightarrow> gotype \<Rightarrow> 'o fval \<Rightarrow> 'o change" where
  "convertObjectIdSliceToStringSlicePtr oc dst src =
     (case src of
        FSlice (v # vs) \<Rightarrow>
          (case all_oids (v # vs) of
             None \<Rightarrow> Panic
           | Some oids \<Rightarrow> set_as (TPtr (TSlice string_type)) dst (FPtr (FSlice (map (\<lambda>x. VStr (oc_hex oc x)) oids))))
      | _ \<Rightarrow> Keep)"

definition convertObjectIdSliceToStringSlice :: "'o oid_codec \<Rightarrow> gotype \<Rightarrow> 'o fval \<Rightarrow> 'o change" where
  "convertObjectIdSliceToStringSlice oc dst src =
     (case src of
        FSlice (v # vs) \<Rightarrow>
          (case all_oids (v # vs) of
             None \<Rightarrow> Panic
           | Some oids \<Rightarrow> set_as (TSlice string_type) dst (FSlice (map (\<lambda>x. VStr (oc_hex oc x)) oids)))
      | _ \<Rightarrow> Keep)"

definition convertObjectIdPtrToStringPtr :: "'o oid_codec \<Rightarrow> ('o \<Rightarrow> bool) \<Rightarrow> gotype \<Rightarrow> 'o fval \<Rightarrow> 'o change" where
  "convertObjectIdPtrToStringPtr oc is_zero dst src =
     (case src of
        FPtr v \<Rightarrow>
          (case as_oid v of
             None \<Rightarrow> Panic
           | Some x \<Rightarrow> if is_zero x then Keep else set_as (TPtr string_type) dst (FPtr (VStr (oc_hex oc x))))
      | _ \<Rightarrow> Keep)"

definition convertStringSliceToStringSlicePtr :: "gotype \<Rightarrow> 'o fval \<Rightarrow> 'o change" where
  "convertStringSliceToStringSlicePtr dst src =
     (case src of
        FSlice (v # vs) \<Rightarrow> set_as (TPtr (TSlice string_type)) dst (FPtr (FSlice (map (\<lambda>x. VStr (as_text x)) (v # vs))))
      | _ \<Rightarrow> Keep)"

text \<open>Empty and invalid strings are skipped.\<close>

definition valid_oids :: "'o oid_codec \<Rightarrow> string list \<Rightarrow> 'o list" where
  "valid_oids oc ss =
     List.map_filter (\<lambda>s. if s \<noteq> [] then (case ToObjectID oc (AnyStr s) of Inl _ \<Rightarrow> None | Inr x \<Rightarrow> Some x) else None) ss"

definition convertStringSliceToObjectIdSlice :: "'o oid_codec \<Rightarrow> gotype \<Rightarrow> 'o fval \<Rightarrow> 'o change" where
  "convertStringSliceToObjectIdSlice oc dst src =
     (case src of
        FSlice (v # vs) \<Rightarrow> set_as (TSlice TOid) dst (FSlice (map VOid (valid_oids oc (map as_text (v # vs)))))
      | _ \<Rightarrow> Keep)"

definition convertStringSlicePtrToObjectIdSlice :: "'o oid_codec \<Rightarrow> gotype \<Rightarrow> 'o fval \<Rightarrow> 'o change" where
  "convertStringSlicePtrToObjectIdSlice oc dst src =
     (case src of
        FPtr (FSlice (v # vs)) \<Rightarrow> set_as (TSlice TOid) dst (FSlice (map VOid (valid_oids oc (map as_text (v # vs)))))
      | _ \<Rightarrow> Keep)"

section \<open>Post-processors\<close>

definition object_id_to_string_change ::
  "'o oid_codec \<Rightarrow> ('o \<Rightarrow> bool) \<Rightarrow> gotype \<Rightarrow> 'o go_field \<Rightarrow> 'o change" where
  "object_id_to_string_change oc is_zero dst src =
     (if isObjectIdSlice (gf_Type src) \<and> isStringSlicePtr dst
      then convertObjectIdSliceToStringSlicePtr oc dst (gf_Value src)
      else if isObjectIdSlice (gf_Type src) \<and> isStringSlice dst
      then convertObjectIdSliceToStringSlice oc dst (gf_Value src)
      else if isObjectIdPtr (gf_Type src) \<and> isStringPtr dst
      then convertObjectIdPtrToStringPtr oc is_zero dst (gf_Value src)
      else if isStringSlice (gf_Type src) \<and> isStringSlicePtr dst
      then convertStringSliceToStringSlicePtr dst (gf_Value src)
      else Keep)"

definition string_to_object_id_change :: "'o oid_codec \<Rightarrow> gotype \<Rightarrow> 'o go_field \<Rightarrow> 'o change" where
  "string_to_object_id_change oc dst src =
     (if isStringSlice (gf_Type src) \<and> isObjectIdSlice dst
      then convertStringSliceToObjectIdSlice oc dst (gf_Value src)
      else if isStringSlicePtr (gf_Type src) \<and> isObjectIdSlice dst
      then convertStringSlicePtrToObjectIdSlice oc dst (gf_Value src)
      else Keep)"

text \<open>The walk over the fields of the destination, the same in both directions.\<close>

fun post_process :: "(gotype \<Rightarrow> 'o go_field \<Rightarrow> 'o change) \<Rightarrow> 'o gostruct \<Rightarrow> 'o gostruct \<Rightarrow> 'o gostruct option" where
  "post_process change [] src = Some []"
| "post_process change (f # fs) src =
     (case (if \<not> gf_CanSet f then Keep
            else (case field_by_name src (gf_Name f) of
                    None \<Rightarrow> Keep
                  | Some g \<Rightarrow> change (gf_Type f) g)) of
        Panic \<Rightarrow> None
      | Keep \<Rightarrow> map_option (\<lambda>rest. f # rest) (post_process change fs src)
      | Put v \<Rightarrow> map_option (\<lambda>rest. f\<lparr>gf_Value := v\<rparr> # rest) (post_process change fs src))"

definition postProcessObjectIdToString ::
  "'o oid_codec \<Rightarrow> ('o \<Rightarrow> bool) \<Rightarrow> 'o gostruct \<Rightarrow> 'o gostruct \<Rightarrow> 'o gostruct option" where
  "postProcessObjectIdToString oc is_zero dto entity =
     post_process (object_id_to_string_change oc is_zero) dto entity"

definition postProcessStringToObjectId ::
  "'o oid_codec \<Rightarrow> 'o gostruct \<Rightarrow> 'o gostruct \<Rightarrow> 'o gostruct option" where
  "postProcessStringToObjectId oc entity dto = post_process (string_to_object_id_change oc) entity dto"

section \<open>Type converters for copier\<close>

record 'o TypeConverter =
  tc_SrcType :: gotype
  tc_DstType :: gotype
  tc_Fn :: "'o fval \<Rightarrow> 'o fval"

definition oid_to_string :: "'o oid_codec \<Rightarrow> ('o \<Rightarrow> bool) \<Rightarrow> 'o fval \<Rightarrow> 'o fval" where
  "oid_to_string oc is_zero src =
     (case as_oid src of
        Some x \<Rightarrow> if is_zero x then VStr [] else VStr (oc_hex oc x)
      | None \<Rightarrow> VStr [])"

definition oid_to_string_ptr :: "'o oid_codec \<Rightarrow> ('o \<Rightarrow> bool) \<Rightarrow> 'o fval \<Rightarrow> 'o fval" where
  "oid_to_string_ptr oc is_zero src =
     (case as_oid src of
        Some x \<Rightarrow> if is_zero x then FNilPtr else FPtr (VStr (oc_hex oc x))
      | None \<Rightarrow> FNilPtr)"

definition getObjectIdToStringConverters :: "'o oid_codec \<Rightarrow> ('o \<Rightarrow> bool) \<Rightarrow> 'o TypeConverter list" where
  "getObjectIdToStringConverters oc is_zero =
     [\<lparr>tc_SrcType = TOid, tc_DstType = string_type, tc_Fn = oid_to_string oc is_zero\<rparr>,
      \<lparr>tc_SrcType = TOid, tc_DstType = TPtr string_type, tc_Fn = oid_to_string_ptr oc is_zero\<rparr>]"

definition text_to_oid :: "'o oid_codec \<Rightarrow> 'o \<Rightarrow> string \<Rightarrow> 'o fval" where
  "text_to_oid oc zero s =
     (if s = [] then VOid zero
      else (case ToObjectID oc (AnyStr s) of Inl _ \<Rightarrow> VOid zero | Inr x \<Rightarrow> VOid x))"

definition string_to_oid :: "'o oid_codec \<Rightarrow> 'o \<Rightarrow> 'o fval \<Rightarrow> 'o fval" where
  "string_to_oid oc zero src = (case src of VStr s \<Rightarrow> text_to_oid oc zero s | _ \<Rightarrow> VOid zero)"

definition string_ptr_to_oid :: "'o oid_codec \<Rightarrow> 'o \<Rightarrow> 'o fval \<Rightarrow> 'o fval" where
  "string_ptr_to_oid oc zero src = (case src of FPtr (VStr s) \<Rightarrow> text_to_oid oc zero s | _ \<Rightarrow> VOid zero)"

definition getStringToObjectIdConverters :: "'o oid_codec \<Rightarrow> 'o \<Rightarrow> 'o TypeConverter list" where
  "getStringToObjectIdConverters oc zero =
     [\<lparr>tc_SrcType = string_type, tc_DstType = TOid, tc_Fn = string_to_oid oc zero\<rparr>,
      \<lparr>tc_SrcType = TPtr string_type, tc_DstType = TOid, tc_Fn = string_ptr_to_oid oc zero\<rparr>]"

section \<open>Mapping\<close>

text \<open>\<open>copier.CopyWithOption(&dst, src, {DeepCopy: true, Converters})\<close> returns the new destination or an
  error. The outcome of a mapping is a struct, an error or a panic.\<close>

type_synonym 'o copier = "'o TypeConverter list \<Rightarrow> 'o gostruct \<Rightarrow> string + 'o gostruct"

datatype 'o mapped = Mapped "'o gostruct" | CopyFailed string | MapPanic

definition DtoToEntity :: "'o copier \<Rightarrow> 'o gostruct \<Rightarrow> 'o mapped" where
  "DtoToEntity copy dto = (case copy [] dto of Inl err \<Rightarrow> CopyFailed err | Inr entity \<Rightarrow> Mapped entity)"

definition DtoToEntityWithOptions ::
  "'o oid_codec \<Rightarrow> 'o \<Rightarrow> 'o copier \<Rightarrow> 'o gostruct \<Rightarrow> MapperOptions \<Rightarrow> 'o mapped" where
  "DtoToEntityWithOptions oc zero copy dto opts =
     (case copy (if StringToObjectId opts then getStringToObjectIdConverters oc zero else []) dto of
        Inl err \<Rightarrow> CopyFailed err
      | Inr entity \<Rightarrow>
          if StringToObjectId opts then
            (case postProcessStringToObjectId oc entity dto of None \<Rightarrow> MapPanic | Some e \<Rightarrow> Mapped e)
          else Mapped entity)"

text \<open>The methods \<open>SetCreated\<close> and \<open>SetUpdated\<close> of the DTO and \<open>GetCreated\<close> and \<open>GetUpdated\<close> of the entity,
  where the types have them; a time is an integer and the zero time 0.\<close>

record 'o accessors =
  m_SetCreated :: "(int \<Rightarrow> 'o gostruct \<Rightarrow> 'o gostruct) option"
  m_SetUpdated :: "(int \<Rightarrow> 'o gostruct \<Rightarrow> 'o gostruct) option"
  m_GetCreated :: "('o gostruct \<Rightarrow> int) option"
  m_GetUpdated :: "('o gostruct \<Rightarrow> int) option"

definition copy_time ::
  "(int \<Rightarrow> 'o gostruct \<Rightarrow> 'o gostruct) option \<Rightarrow> ('o gostruct \<Rightarrow> int) option \<Rightarrow> 'o gostruct \<Rightarrow> 'o gostruct \<Rightarrow> 'o gostruct" where
  "copy_time setter getter entity dto =
     (case setter of
        None \<Rightarrow> dto
      | Some put \<Rightarrow>
          (case getter of
             None \<Rightarrow> dto
           | Some get \<Rightarrow> if get entity \<noteq> 0 then put (get entity) dto else dto))"

definition copy_times :: "'o accessors \<Rightarrow> 'o gostruct \<Rightarrow> 'o gostruct \<Rightarrow> 'o gostruct" where
  "copy_times M entity dto =
     copy_time (m_SetUpdated M) (m_GetUpdated M) entity
       (copy_time (m_SetCreated M) (m_GetCreated M) entity dto)"

definition EntityToDto :: "'o copier \<Rightarrow> 'o accessors \<Rightarrow> 'o gostruct \<Rightarrow> 'o mapped" where
  "EntityToDto copy M entity =
     (case copy [] entity of Inl err \<Rightarrow> CopyFailed err | Inr dto \<Rightarrow> Mapped (copy_times M entity dto))"

definition EntityToDtoWithOptions ::
  "'o oid_codec \<Rightarrow> ('o \<Rightarrow> bool) \<Rightarrow> 'o copier \<Rightarrow> 'o accessors \<Rightarrow> 'o gostruct \<Rightarrow> MapperOptions \<Rightarrow> 'o mapped" where
  "EntityToDtoWithOptions oc is_zero copy M entity opts =
     (case copy (if ObjectIdToString opts then getObjectIdToStringConverters oc is_zero else []) entity of
        Inl err \<Rightarrow> CopyFailed err
      | Inr dto \<Rightarrow>
          if ObjectIdToString opts then
            (case postProcessObjectIdToString oc is_zero dto entity of
               None \<Rightarrow> MapPanic
             | Some d \<Rightarrow> Mapped (copy_times M entity d))
          else Mapped (copy_times M entity dto))"

text \<open>The conversions through JSON; \<open>marshal\<close> and \<open>unmarshal\<close> are the serialize package at the types in
  question: a failed \<open>Marshal\<close> has the package's only error, that of \<open>Unmarshal\<close> is passed on.\<close>

definition via_json :: "('a \<Rightarrow> string option) \<Rightarrow> (string \<Rightarrow> string + 'b) \<Rightarrow> 'a \<Rightarrow> string + 'b" where
  "via_json marshal unmarshal data =
     (case marshal data of
        None \<Rightarrow> Inl ''failed to marshal data''
      | Some raw \<Rightarrow> (case unmarshal raw of Inl err \<Rightarrow> Inl err | Inr r \<Rightarrow> Inr r))"

definition DtoToMap :: "('a \<Rightarrow> string option) \<Rightarrow> (string \<Rightarrow> string + 'm) \<Rightarrow> 'a \<Rightarrow> string + 'm" where
  "DtoToMap marshal unmarshal dto = via_json marshal unmarshal dto"

definition MapToStruct :: "('m \<Rightarrow> string option) \<Rightarrow> (string \<Rightarrow> string + 'a) \<Rightarrow> 'm \<Rightarrow> string + 'a" where
  "MapToStruct marshal unmarshal data = via_json marshal unmarshal data"

definition MapToStructFromAny :: "('v \<Rightarrow> string option) \<Rightarrow> (string \<Rightarrow> string + 'a) \<Rightarrow> 'v \<Rightarrow> string + 'a" where
  "MapToStructFromAny marshal unmarshal data = via_json marshal unmarshal data"

section \<open>What the walk does\<close>

definition field_change :: "(gotype \<Rightarrow> 'o go_field \<Rightarrow> 'o change) \<Rightarrow> 'o gostruct \<Rightarrow> 'o go_field \<Rightarrow> 'o change" where
  "field_change change src f =
     (if \<not> gf_CanSet f then Keep
      else (case field_by_name src (gf_Name f) of None \<Rightarrow> Keep | Some g \<Rightarrow> change (gf_Type f) g))"

definition apply_change :: "'o change \<Rightarrow> 'o go_field \<Rightarrow> 'o go_field" where
  "apply_change ch f = (case ch of Put v \<Rightarrow> f\<lparr>gf_Value := v\<rparr> | _ \<Rightarrow> f)"

lemma post_process_eq:
  "post_process change fs src =
     (if \<exists>f\<in>set fs. field_change change src f = Panic then None
      else Some (map (\<lambda>f. apply_change (field_change change src f) f) fs))"
proof (induction fs)
  case (Cons f fs)
  then show ?case
    by (cases "field_change change src f") (auto simp: field_change_def [symmetric] apply_change_def)
qed simp

lemma field_by_name_map:
  assumes "\<And>f. gf_Name (h f) = gf_Name f"
  shows "field_by_name (map h fs) n = map_option h (field_by_name fs n)"
  using assms by (induction fs) (simp_all add: field_by_name_def)

lemma apply_change_name [simp]: "gf_Name (apply_change ch f) = gf_Name f"
  by (cases ch) (simp_all add: apply_change_def)

lemma post_process_field:
  assumes "post_process change fs src = Some fs'" "field_by_name fs n = Some f"
  shows "field_by_name fs' n = Some (apply_change (field_change change src f) f)"
  using assms by (auto simp: post_process_eq field_by_name_map split: if_splits)

lemma field_by_name_name: "field_by_name s n = Some f \<Longrightarrow> gf_Name f = n"
  by (auto simp: field_by_name_def find_Some_iff)

lemma all_oids_FOid [simp]: "all_oids (map VOid ids) = Some ids"
  by (induction ids) simp_all

lemmas type_checks = isObjectIdSlice_def isStringSlice_def isStringSlicePtr_def isObjectIdPtr_def isStringPtr_def
  is_string_kind_def

section \<open>Round trip of identifiers\<close>

definition oid_codec_ok :: "'o oid_codec \<Rightarrow> bool" where
  "oid_codec_ok oc \<longleftrightarrow> (\<forall>x. oc_parse oc (oc_hex oc x) = Some x \<and> oc_hex oc x \<noteq> [])"

lemma valid_oids_hex: "oid_codec_ok oc \<Longrightarrow> valid_oids oc (map (oc_hex oc) ids) = ids"
  by (induction ids) (simp_all add: valid_oids_def oid_codec_ok_def ToObjectID_def List.map_filter_simps)

text \<open>A single identifier: the converters of the two directions are inverse, the zero identifier and
  the empty string included.\<close>

lemma converters_inverse:
  assumes "oid_codec_ok oc" "\<And>x. is_zero x \<longleftrightarrow> x = zero"
  shows "string_to_oid oc zero (oid_to_string oc is_zero (VOid x)) = VOid x"
    "string_ptr_to_oid oc zero (oid_to_string_ptr oc is_zero (VOid x)) = VOid x"
  using assms
  by (auto simp: string_to_oid_def oid_to_string_def text_to_oid_def ToObjectID_def oid_codec_ok_def
      string_ptr_to_oid_def oid_to_string_ptr_def)

text \<open>What the mapping needs of the copier: the destination has a settable field of this name and one of
  these types.\<close>

definition dst_field :: "'o copier \<Rightarrow> string \<Rightarrow> gotype set \<Rightarrow> bool" where
  "dst_field copy n ts \<longleftrightarrow>
     (\<forall>convs src d. copy convs src = Inr d \<longrightarrow>
        (\<exists>f. field_by_name d n = Some f \<and> gf_CanSet f \<and> gf_Type f \<in> ts))"

abbreviation string_slices :: "gotype set" where
  "string_slices \<equiv> {TSlice string_type, TPtr (TSlice string_type)}"

lemma to_dto_field:
  fixes oc :: "'o oid_codec"
  assumes f: "gf_Type f = TSlice TOid" "gf_Value f = FSlice (map VOid ids)" "ids \<noteq> []"
    and t: "t \<in> string_slices"
  defines "texts \<equiv> FSlice (map (\<lambda>x. VStr (oc_hex oc x)) ids)"
  shows "object_id_to_string_change oc is_zero t f = Put (if t = TSlice string_type then texts else FPtr texts)"
  using assms
  by (cases ids) (auto simp: object_id_to_string_change_def type_checks set_as_def
      convertObjectIdSliceToStringSlicePtr_def convertObjectIdSliceToStringSlice_def)

lemma from_dto_field:
  assumes "oid_codec_ok oc" "ids \<noteq> []"
    and g: "gf_Type g \<in> string_slices"
      "gf_Value g = (if gf_Type g = TSlice string_type then texts else FPtr texts)"
      "texts = FSlice (map (\<lambda>x. VStr (oc_hex oc x)) ids)"
  shows "string_to_object_id_change oc (TSlice TOid) g = Put (FSlice (map VOid ids))"
proof -
  have "valid_oids oc (map as_text (map (\<lambda>x. VStr (oc_hex oc x)) ids)) = ids"
    using valid_oids_hex [OF assms(1), of ids] by (simp add: comp_def)
  with assms show ?thesis
    by (cases ids) (auto simp: string_to_object_id_change_def type_checks set_as_def
        convertStringSliceToObjectIdSlice_def convertStringSlicePtrToObjectIdSlice_def comp_def)
qed

text \<open>
  Identifiers survive the round trip. If a non-empty slice of object identifiers of an entity is
  mapped to a DTO whose field of that name is a slice of strings or a pointer to one, and the DTO
  is mapped back, the field holds the same identifiers in the same order, whatever copier did
  with it.
\<close>

theorem id_slices_roundtrip:
  fixes oc :: "'o oid_codec"
  assumes codec: "oid_codec_ok oc"
    and out: "EntityToDtoWithOptions oc is_zero copy1 M entity o1 = Mapped dto" "ObjectIdToString o1"
    and home: "DtoToEntityWithOptions oc zero copy2 dto o2 = Mapped entity'" "StringToObjectId o2"
    and f: "field_by_name entity n = Some f" "gf_Type f = TSlice TOid"
      "gf_Value f = FSlice (map VOid ids)" "ids \<noteq> []"
    and copiers: "dst_field copy1 n string_slices" "dst_field copy2 n {TSlice TOid}"
    and setters: "\<And>d. field_by_name (copy_times M entity d) n = field_by_name d n"
  shows "\<exists>f'. field_by_name entity' n = Some f' \<and> gf_Value f' = FSlice (map VOid ids)"
proof -
  obtain convs d where d: "copy1 convs entity = Inr d" and
    "\<exists>d'. postProcessObjectIdToString oc is_zero d entity = Some d' \<and> dto = copy_times M entity d'"
    using out by (auto simp: EntityToDtoWithOptions_def split: sum.splits option.splits)
  then obtain d' where d': "postProcessObjectIdToString oc is_zero d entity = Some d'" "dto = copy_times M entity d'"
    by blast
  obtain g where g: "field_by_name d n = Some g" "gf_CanSet g" "gf_Type g \<in> string_slices"
    using copiers(1) d unfolding dst_field_def by blast
  define texts :: "'o fval" where "texts = FSlice (map (\<lambda>x. VStr (oc_hex oc x)) ids)"
  define h where "h = g\<lparr>gf_Value := if gf_Type g = TSlice string_type then texts else FPtr texts\<rparr>"
  have "field_change (object_id_to_string_change oc is_zero) entity g =
      Put (if gf_Type g = TSlice string_type then texts else FPtr texts)"
    using field_by_name_name [OF g(1)] f(1) g(2) to_dto_field [OF f(2-4) g(3)]
    by (simp add: field_change_def texts_def)
  then have "field_by_name d' n = Some h"
    using post_process_field [OF d'(1) [unfolded postProcessObjectIdToString_def] g(1)]
    by (simp add: apply_change_def h_def)
  then have h: "field_by_name dto n = Some h" "gf_Type h \<in> string_slices"
    using setters d'(2) g(3) by (simp_all add: h_def)
  obtain convs' e where e: "copy2 convs' dto = Inr e" "postProcessStringToObjectId oc e dto = Some entity'"
    using home by (auto simp: DtoToEntityWithOptions_def split: sum.splits option.splits)
  obtain k where k: "field_by_name e n = Some k" "gf_CanSet k" "gf_Type k = TSlice TOid"
    using copiers(2) e(1) unfolding dst_field_def by blast
  have "field_change (string_to_object_id_change oc) dto k = Put (FSlice (map VOid ids))"
    using field_by_name_name [OF k(1)] h k(2,3) from_dto_field [OF codec f(4) h(2) _ texts_def]
    by (simp add: field_change_def h_def)
  then show ?thesis
    using post_process_field [OF e(2) [unfolded postProcessStringToObjectId_def] k(1)]
    by (simp add: apply_change_def)
qed

definition demo_codec :: "nat oid_codec" where
  "demo_codec = \<lparr>oc_hex = show_nat, oc_parse = \<lambda>s. if s \<noteq> [] then Some (dec_number s) else None\<rparr>"

definition demo_field :: "gotype \<Rightarrow> nat fval \<Rightarrow> nat go_field" where
  "demo_field t v = \<lparr>gf_Name = ''RoleIds'', gf_Type = t, gf_CanSet = True, gf_Value = v\<rparr>"

definition no_accessors :: "nat accessors" where
  "no_accessors = \<lparr>m_SetCreated = None, m_SetUpdated = None, m_GetCreated = None, m_GetUpdated = None\<rparr>"

definition demo_entity :: "nat gostruct" where
  "demo_entity = [demo_field (TSlice TOid) (FSlice [VOid 7, VOid 12])]"

definition demo_opts :: MapperOptions where
  "demo_opts = \<lparr>ObjectIdToString = True, StringToObjectId = True\<rparr>"

lemma demo_codec_ok: "oid_codec_ok demo_codec"
  using show_nat_digits by (simp add: oid_codec_ok_def demo_codec_def)

lemma demo_dst_field:
  "dst_field (\<lambda>_ _. Inr [demo_field t v]) ''RoleIds'' ts \<longleftrightarrow> t \<in> ts"
  by (simp add: dst_field_def field_by_name_def demo_field_def)

theorem id_slices_roundtrip_witness:
  "\<exists>dto entity' f'. EntityToDtoWithOptions demo_codec (\<lambda>x. x = 0)
       (\<lambda>_ _. Inr [demo_field (TPtr (TSlice string_type)) FNilPtr]) no_accessors demo_entity demo_opts = Mapped dto \<and>
     DtoToEntityWithOptions demo_codec 0 (\<lambda>_ _. Inr [demo_field (TSlice TOid) FNilSlice]) dto demo_opts = Mapped entity' \<and>
     field_by_name entity' ''RoleIds'' = Some f' \<and> gf_Value f' = FSlice (map VOid [7, 12])"
proof -
  let ?copy1 = "\<lambda>_ _. Inr [demo_field (TPtr (TSlice string_type)) FNilPtr]"
  let ?copy2 = "\<lambda>_ _. Inr [demo_field (TSlice TOid) FNilSlice]"
  have f: "field_by_name demo_entity ''RoleIds'' = Some (demo_field (TSlice TOid) (FSlice [VOid 7, VOid 12]))"
    by (simp add: field_by_name_def demo_entity_def demo_field_def)
  obtain dto where dto: "EntityToDtoWithOptions demo_codec (\<lambda>x. x = 0) ?copy1 no_accessors demo_entity demo_opts = Mapped dto"
    "dto = [demo_field (TPtr (TSlice string_type)) (FPtr (FSlice [VStr (oc_hex demo_codec 7), VStr (oc_hex demo_codec 12)]))]"
    by (simp add: EntityToDtoWithOptions_def demo_opts_def postProcessObjectIdToString_def f [unfolded demo_field_def]
        object_id_to_string_change_def type_checks convertObjectIdSliceToStringSlicePtr_def set_as_def
        copy_times_def copy_time_def no_accessors_def demo_field_def)
  obtain entity' where home: "DtoToEntityWithOptions demo_codec 0 ?copy2 dto demo_opts = Mapped entity'"
    by (simp add: DtoToEntityWithOptions_def demo_opts_def postProcessStringToObjectId_def dto(2) field_by_name_def
        demo_field_def string_to_object_id_change_def type_checks convertStringSlicePtrToObjectIdSlice_def set_as_def)
  have "\<exists>f'. field_by_name entity' ''RoleIds'' = Some f' \<and> gf_Value f' = FSlice (map VOid [7, 12])"
    by (rule id_slices_roundtrip [OF demo_codec_ok dto(1) _ home _ f])
      (simp_all add: demo_opts_def demo_dst_field copy_times_def copy_time_def no_accessors_def,
       simp_all add: demo_field_def)
  with dto(1) home show ?thesis by blast
qed

section \<open>Panics\<close>

text \<open>Values of a type, and the types the converters can assign: predeclared strings and identifiers of
  driver v2.\<close>

fun has_gotype :: "gotype \<Rightarrow> 'o fval \<Rightarrow> bool" where
  "has_gotype (TStr n) v = (\<exists>s. v = VStr s)"
| "has_gotype TOid v = (\<exists>x. v = VOid x)"
| "has_gotype TOidV1 v = (\<exists>x. v = FOidV1 x)"
| "has_gotype (TPtr t) v = (v = FNilPtr \<or> (\<exists>w. v = FPtr w \<and> has_gotype t w))"
| "has_gotype (TSlice t) v = (v = FNilSlice \<or> (\<exists>ws. v = FSlice ws \<and> (\<forall>w\<in>set ws. has_gotype t w)))"
| "has_gotype (TOtherType n) v = (\<exists>s. v = FOther s)"

primrec plain_type :: "gotype \<Rightarrow> bool" where
  "plain_type (TStr n) = (n = ''string'')"
| "plain_type TOid = True"
| "plain_type TOidV1 = False"
| "plain_type (TPtr t) = plain_type t"
| "plain_type (TSlice t) = plain_type t"
| "plain_type (TOtherType n) = True"

definition plain_struct :: "'o gostruct \<Rightarrow> bool" where
  "plain_struct s = (\<forall>f\<in>set s. plain_type (gf_Type f) \<and> has_gotype (gf_Type f) (gf_Value f))"

lemma all_oids_typed: "\<forall>w\<in>set ws. has_gotype TOid w \<Longrightarrow> \<exists>ids. all_oids ws = Some ids"
  by (induction ws) (fastforce split: option.splits)+

lemma object_id_to_string_no_panic:
  assumes "plain_type t" "plain_type (gf_Type g)" "has_gotype (gf_Type g) (gf_Value g)"
  shows "object_id_to_string_change oc is_zero t g \<noteq> Panic"
proof -
  have ids: "\<exists>ids. all_oids (v # vs) = Some ids"
    if "gf_Type g = TSlice TOid" "gf_Value g = FSlice (v # vs)" for v vs
    using assms(3) that by (intro all_oids_typed) simp
  have oid: "\<exists>x. v = VOid x" if "gf_Type g = TPtr TOid" "gf_Value g = FPtr v" for v
    using assms(3) that by simp
  have t: "isStringSlicePtr t \<Longrightarrow> t = TPtr (TSlice string_type)" "isStringSlice t \<Longrightarrow> t = TSlice string_type"
    "isStringPtr t \<Longrightarrow> t = TPtr string_type" "isObjectIdSlice (gf_Type g) \<Longrightarrow> gf_Type g = TSlice TOid"
    "isObjectIdPtr (gf_Type g) \<Longrightarrow> gf_Type g = TPtr TOid"
    using assms(1,2) by (auto simp: type_checks split: gotype.splits)
  have "isObjectIdSlice (gf_Type g) \<Longrightarrow> isStringSlicePtr t \<Longrightarrow>
      convertObjectIdSliceToStringSlicePtr oc t (gf_Value g) \<noteq> Panic"
    "isObjectIdSlice (gf_Type g) \<Longrightarrow> isStringSlice t \<Longrightarrow>
      convertObjectIdSliceToStringSlice oc t (gf_Value g) \<noteq> Panic"
    using t(1,2,4) ids
    by (auto simp: convertObjectIdSliceToStringSlicePtr_def convertObjectIdSliceToStringSlice_def set_as_def
        simp del: all_oids.simps split: fval.split list.split option.split)
  moreover have "isObjectIdPtr (gf_Type g) \<Longrightarrow> isStringPtr t \<Longrightarrow>
      convertObjectIdPtrToStringPtr oc is_zero t (gf_Value g) \<noteq> Panic"
    using t(3,5) oid by (cases "gf_Value g") (auto simp: convertObjectIdPtrToStringPtr_def set_as_def split: if_splits)
  moreover have "isStringSlicePtr t \<Longrightarrow> convertStringSliceToStringSlicePtr t (gf_Value g) \<noteq> Panic"
    using t(1) by (auto simp: convertStringSliceToStringSlicePtr_def set_as_def split: fval.split list.split)
  ultimately show ?thesis by (simp add: object_id_to_string_change_def)
qed

lemma string_to_object_id_no_panic:
  assumes "plain_type t"
  shows "string_to_object_id_change oc t g \<noteq> Panic"
proof -
  have "isObjectIdSlice t \<Longrightarrow> t = TSlice TOid"
    using assms by (auto simp: type_checks split: gotype.splits)
  then show ?thesis
    by (auto simp: string_to_object_id_change_def convertStringSliceToObjectIdSlice_def
        convertStringSlicePtrToObjectIdSlice_def set_as_def split: fval.splits list.splits)
qed

lemma field_by_name_in: "field_by_name s n = Some f \<Longrightarrow> f \<in> set s"
  by (auto simp: field_by_name_def find_Some_iff)

text \<open>
  Mapping between well-typed structs of predeclared strings and driver v2 identifiers never
  panics, in either direction.
\<close>

theorem mapping_does_not_panic:
  assumes "plain_struct src" "\<And>convs d. copy convs src = Inr d \<Longrightarrow> plain_struct d"
  shows "EntityToDtoWithOptions oc is_zero copy M src opts \<noteq> MapPanic \<and>
    DtoToEntityWithOptions oc zero copy src opts \<noteq> MapPanic"
proof -
  have total: "post_process (object_id_to_string_change oc is_zero) d src \<noteq> None"
    "post_process (string_to_object_id_change oc) d src \<noteq> None" if "plain_struct d" for d
  proof -
    have "field_change (object_id_to_string_change oc is_zero) src f \<noteq> Panic"
      "field_change (string_to_object_id_change oc) src f \<noteq> Panic" if "f \<in> set d" for f
      using that \<open>plain_struct d\<close> assms(1)
      by (auto simp: field_change_def plain_struct_def object_id_to_string_no_panic string_to_object_id_no_panic
          split: option.split dest!: field_by_name_in)
    then show "post_process (object_id_to_string_change oc is_zero) d src \<noteq> None"
      "post_process (string_to_object_id_change oc) d src \<noteq> None"
      by (auto simp: post_process_eq)
  qed
  have "EntityToDtoWithOptions oc is_zero copy M src opts \<noteq> MapPanic"
  proof (cases "copy (if ObjectIdToString opts then getObjectIdToStringConverters oc is_zero else []) src")
    case (Inr d)
    with total(1) [OF assms(2) [OF Inr]] show ?thesis
      by (auto simp: EntityToDtoWithOptions_def postProcessObjectIdToString_def)
  qed (simp add: EntityToDtoWithOptions_def)
  moreover have "DtoToEntityWithOptions oc zero copy src opts \<noteq> MapPanic"
  proof (cases "copy (if StringToObjectId opts then getStringToObjectIdConverters oc zero else []) src")
    case (Inr d)
    with total(2) [OF assms(2) [OF Inr]] show ?thesis
      by (auto simp: DtoToEntityWithOptions_def postProcessStringToObjectId_def)
  qed (simp add: DtoToEntityWithOptions_def)
  ultimately show ?thesis ..
qed

text \<open>Identifiers of driver v1 pass the type checkers, which name them, but not the assertion.\<close>

lemma v1_ids_panic:
  "postProcessObjectIdToString oc is_zero
     [\<lparr>gf_Name = ''Ids'', gf_Type = TSlice string_type, gf_CanSet = True, gf_Value = FNilSlice\<rparr>]
     [\<lparr>gf_Name = ''Ids'', gf_Type = TSlice TOidV1, gf_CanSet = True, gf_Value = FSlice [FOidV1 ''a'']\<rparr>] = None"
  by (simp add: postProcessObjectIdToString_def field_by_name_def object_id_to_string_change_def type_checks
      convertObjectIdSliceToStringSlice_def)

end
