(* ===== verification/Shutdown.thy ===== *)
theory Shutdown
  imports Kit_Prelude "HOL-Library.Multiset"
begin

text \<open>
  Package \<open>microservices/shutdown\<close>: hooks are grouped by priority, the groups run one after the
  other and the hooks of a group concurrently, until all have run or the deadline has passed.
  \<open>WaitForSignal\<close> is a step relation: the order in which goroutines of a group start and
  finish, the moment of the deadline and the choice of an unstable sort are left open. A hook is
  identified by its name, priority and function. The theory shows that hooks of a lower priority
  number have finished before a hook starts, and that every hook runs exactly once unless the
  deadline passes.
\<close>

section \<open>types.go, shutdown.go, internals.go\<close>

record 'f shutdownHook =
  hk_Name :: string
  hk_Priority :: int
  hk_Fn :: 'f

record 'f ShutdownManager =
  sm_hooks :: "'f shutdownHook list"
  sm_terminating :: bool

definition New_manager :: "'f ShutdownManager" where
  "New_manager = \<lparr>sm_hooks = [], sm_terminating = False\<rparr>"

text \<open>The loop of \<open>groupByPriority\<close>: \<open>prev\<close> is the hook before, \<open>current\<close> the open group.\<close>

fun group_loop :: "'f shutdownHook \<Rightarrow> 'f shutdownHook list \<Rightarrow> 'f shutdownHook list list \<Rightarrow> 'f shutdownHook list \<Rightarrow>
     'f shutdownHook list list" where
  "group_loop prev current groups [] = groups @ [current]"
| "group_loop prev current groups (h # hs) =
     (if hk_Priority h \<noteq> hk_Priority prev
      then group_loop h [h] (groups @ [current]) hs
      else group_loop h (current @ [h]) groups hs)"

definition groupByPriority :: "'f shutdownHook list \<Rightarrow> 'f shutdownHook list list" where
  "groupByPriority hooks = (case hooks of [] \<Rightarrow> [] | h # hs \<Rightarrow> group_loop h [h] [] hs)"

section \<open>methods.go\<close>

definition IsShuttingDown :: "'f ShutdownManager \<Rightarrow> bool" where
  "IsShuttingDown m = sm_terminating m"

definition SetShuttingDown :: "bool \<Rightarrow> 'f ShutdownManager \<Rightarrow> 'f ShutdownManager" where
  "SetShuttingDown v m = m\<lparr>sm_terminating := v\<rparr>"

definition RegisterFunc :: "string \<Rightarrow> int \<Rightarrow> 'f \<Rightarrow> 'f ShutdownManager \<Rightarrow> 'f ShutdownManager" where
  "RegisterFunc name priority fn m =
     m\<lparr>sm_hooks := sm_hooks m @ [\<lparr>hk_Name = name, hk_Priority = priority, hk_Fn = fn\<rparr>]\<rparr>"

text \<open>\<open>Register\<close> takes a component and registers its method; \<open>shut\<close> is the method value.\<close>

definition Register :: "('c \<Rightarrow> 'f) \<Rightarrow> string \<Rightarrow> int \<Rightarrow> 'c \<Rightarrow> 'f ShutdownManager \<Rightarrow> 'f ShutdownManager" where
  "Register shut name priority s m = RegisterFunc name priority (shut s) m"

text \<open>\<open>WaitForSignal\<close>. Before the signal it is \<open>Idle\<close>; then it has
  the hooks copied and sorted, the groups that are still to run, goroutines
  that were launched and have not called their hook yet, and hooks that are running; at the end it
  has returned, after completing or after breaking off. The trace lists calls and returns. Hooks can be
  registered at any time; the copy is not affected.\<close>

datatype 'f event = Started "'f shutdownHook" | Finished "'f shutdownHook" bool

datatype phase = Idle | Active | Completed | Aborted

record 'f wait_state =
  ws_manager :: "'f ShutdownManager"
  ws_phase :: phase
  ws_hooks :: "'f shutdownHook list"
  ws_pending :: "'f shutdownHook list list"
  ws_launched :: "'f shutdownHook multiset"
  ws_running :: "'f shutdownHook multiset"
  ws_expired :: bool
  ws_trace :: "'f event list"

definition wait_init :: "'f ShutdownManager \<Rightarrow> 'f wait_state" where
  "wait_init m = \<lparr>ws_manager = m, ws_phase = Idle, ws_hooks = [], ws_pending = [], ws_launched = {#}, ws_running = {#},
     ws_expired = False, ws_trace = []\<rparr>"

inductive wait_step :: "'f wait_state \<Rightarrow> 'f wait_state \<Rightarrow> bool" where
  register:
    "wait_step s (s\<lparr>ws_manager := RegisterFunc name priority fn (ws_manager s)\<rparr>)"
| signal:
    "ws_phase s = Idle \<Longrightarrow> mset hooks = mset (sm_hooks (ws_manager s)) \<Longrightarrow>
     sorted (map hk_Priority hooks) \<Longrightarrow>
     wait_step s (s\<lparr>ws_manager := SetShuttingDown True (ws_manager s), ws_phase := Active,
       ws_hooks := hooks, ws_pending := groupByPriority hooks\<rparr>)"
| deadline:
    "ws_phase s = Active \<Longrightarrow> wait_step s (s\<lparr>ws_expired := True\<rparr>)"
| launch:
    "ws_phase s = Active \<Longrightarrow> ws_launched s = {#} \<Longrightarrow> ws_running s = {#} \<Longrightarrow> ws_pending s = g # gs \<Longrightarrow>
     \<not> ws_expired s \<Longrightarrow> wait_step s (s\<lparr>ws_pending := gs, ws_launched := mset g\<rparr>)"
| call:
    "ws_phase s = Active \<Longrightarrow> h \<in># ws_launched s \<Longrightarrow>
     wait_step s (s\<lparr>ws_launched := ws_launched s - {#h#}, ws_running := add_mset h (ws_running s),
       ws_trace := ws_trace s @ [Started h]\<rparr>)"
| finish:
    "ws_phase s = Active \<Longrightarrow> h \<in># ws_running s \<Longrightarrow>
     wait_step s (s\<lparr>ws_running := ws_running s - {#h#}, ws_trace := ws_trace s @ [Finished h ok]\<rparr>)"
| abort:
    "ws_phase s = Active \<Longrightarrow> ws_launched s = {#} \<Longrightarrow> ws_running s = {#} \<Longrightarrow> ws_pending s \<noteq> [] \<Longrightarrow>
     ws_expired s \<Longrightarrow> wait_step s (s\<lparr>ws_phase := Aborted\<rparr>)"
| complete:
    "ws_phase s = Active \<Longrightarrow> ws_launched s = {#} \<Longrightarrow> ws_running s = {#} \<Longrightarrow> ws_pending s = [] \<Longrightarrow>
     wait_step s (s\<lparr>ws_phase := Completed\<rparr>)"

inductive wait_reachable :: "'f ShutdownManager \<Rightarrow> 'f wait_state \<Rightarrow> bool" for m where
  start: "wait_reachable m (wait_init m)"
| step: "wait_reachable m s \<Longrightarrow> wait_step s t \<Longrightarrow> wait_reachable m t"

inductive_cases wait_stepE: "wait_step s t"

section \<open>Groups\<close>

lemma group_loop_concat: "concat (group_loop prev current groups hs) = concat groups @ current @ hs"
  by (induction prev current groups hs rule: group_loop.induct) simp_all

lemma concat_groupByPriority: "concat (groupByPriority hs) = hs"
  by (simp add: groupByPriority_def group_loop_concat split: list.split)

text \<open>Groups as they should be: not empty, of one priority each, in increasing order of priority.\<close>

definition uniform :: "int \<Rightarrow> 'f shutdownHook list \<Rightarrow> bool" where
  "uniform p g \<longleftrightarrow> g \<noteq> [] \<and> (\<forall>h\<in>set g. hk_Priority h = p)"

fun ordered_groups :: "'f shutdownHook list list \<Rightarrow> bool" where
  "ordered_groups [] = True"
| "ordered_groups (g # gs) =
     (\<exists>p. uniform p g \<and> (\<forall>h\<in>set (concat gs). p < hk_Priority h) \<and> ordered_groups gs)"

lemma group_loop_acc: "group_loop prev current groups hs = groups @ group_loop prev current [] hs"
proof (induction hs arbitrary: prev current groups)
  case (Cons h hs)
  show ?case
    using Cons.IH [of h "[h]" "groups @ [current]"] Cons.IH [of h "[h]" "[current]"]
      Cons.IH [of h "current @ [h]" groups] by simp
qed simp

lemma ordered_group_loop:
  assumes "uniform (hk_Priority prev) current" "sorted (map hk_Priority (prev # hs))"
  shows "ordered_groups (group_loop prev current [] hs)"
  using assms
proof (induction hs arbitrary: prev current)
  case Nil
  then show ?case by auto
next
  case (Cons h hs)
  show ?case
  proof (cases "hk_Priority h = hk_Priority prev")
    case True
    then have "uniform (hk_Priority h) (current @ [h])"
      using Cons.prems(1) by (auto simp: uniform_def)
    then show ?thesis using Cons True by simp
  next
    case False
    have "\<forall>g\<in>set (concat (group_loop h [h] [] hs)). hk_Priority prev < hk_Priority g"
      using Cons.prems(2) False by (auto simp: group_loop_concat)
    moreover have "ordered_groups (group_loop h [h] [] hs)"
      using Cons.prems(2) by (intro Cons.IH) (auto simp: uniform_def)
    moreover have "group_loop prev current [] (h # hs) = current # group_loop h [h] [] hs"
      using False group_loop_acc [of h "[h]" "[current]" hs] by simp
    ultimately show ?thesis using Cons.prems(1) by auto
  qed
qed

lemma ordered_groupByPriority: "sorted (map hk_Priority hs) \<Longrightarrow> ordered_groups (groupByPriority hs)"
  by (cases hs) (simp_all add: groupByPriority_def ordered_group_loop uniform_def)

section \<open>The invariant\<close>

definition finished :: "'f event list \<Rightarrow> 'f shutdownHook multiset" where
  "finished tr = mset (List.map_filter (\<lambda>e. case e of Finished h ok \<Rightarrow> Some h | _ \<Rightarrow> None) tr)"

definition started :: "'f event list \<Rightarrow> 'f shutdownHook multiset" where
  "started tr = mset (List.map_filter (\<lambda>e. case e of Started h \<Rightarrow> Some h | _ \<Rightarrow> None) tr)"

lemma trace_simps [simp]:
  "finished [] = {#}" "finished (tr @ [Started h]) = finished tr"
  "finished (tr @ [Finished h ok]) = add_mset h (finished tr)"
  "started [] = {#}" "started (tr @ [Started h]) = add_mset h (started tr)"
  "started (tr @ [Finished h ok]) = started tr"
  by (simp_all add: finished_def started_def List.map_filter_def)

abbreviation below :: "'f shutdownHook \<Rightarrow> 'f shutdownHook multiset \<Rightarrow> 'f shutdownHook multiset" where
  "below h \<equiv> filter_mset (\<lambda>g. hk_Priority g < hk_Priority h)"

text \<open>Whenever a hook starts, all hooks of smaller priority have finished.\<close>

definition ordered_trace :: "'f shutdownHook multiset \<Rightarrow> 'f event list \<Rightarrow> bool" where
  "ordered_trace H tr \<longleftrightarrow> (\<forall>xs h ys. tr = xs @ Started h # ys \<longrightarrow> below h (finished xs) = below h H)"

lemma ordered_trace_snoc:
  "ordered_trace H (tr @ [e]) \<longleftrightarrow>
     ordered_trace H tr \<and> (\<forall>h. e = Started h \<longrightarrow> below h (finished tr) = below h H)"
proof -
  have "tr @ [e] = xs @ Started h # ys \<longleftrightarrow>
      (ys = [] \<and> xs = tr \<and> e = Started h) \<or> (\<exists>zs. ys = zs @ [e] \<and> tr = xs @ Started h # zs)" for xs h ys
    by (cases ys rule: rev_cases) auto
  then show ?thesis unfolding ordered_trace_def by auto
qed

definition wait_inv :: "'f wait_state \<Rightarrow> bool" where
  "wait_inv s \<longleftrightarrow>
     (if ws_phase s = Idle then ws_trace s = [] \<and> ws_launched s = {#} \<and> ws_running s = {#} \<and> ws_pending s = []
      else
        ordered_groups (ws_pending s) \<and>
        finished (ws_trace s) + ws_running s + ws_launched s + mset (concat (ws_pending s)) = mset (ws_hooks s) \<and>
        started (ws_trace s) = finished (ws_trace s) + ws_running s \<and>
        (\<exists>p. (\<forall>h\<in>#ws_running s + ws_launched s. hk_Priority h = p) \<and>
             (\<forall>h\<in>set (concat (ws_pending s)). p < hk_Priority h)) \<and>
        ordered_trace (mset (ws_hooks s)) (ws_trace s) \<and>
        (ws_phase s \<noteq> Active \<longrightarrow> ws_running s = {#} \<and> ws_launched s = {#}) \<and>
        (ws_phase s = Completed \<longrightarrow> ws_pending s = []) \<and>
        (ws_phase s = Aborted \<longrightarrow> ws_expired s))"

lemma below_none: "(\<forall>g\<in>#M. hk_Priority h \<le> hk_Priority g) \<Longrightarrow> below h M = {#}"
  by (auto simp flip: set_mset_eq_empty_iff)

lemma wait_inv_step:
  assumes "wait_step s t" "wait_inv s"
  shows "wait_inv t"
  using assms
proof (cases rule: wait_step.cases)
  case (signal hooks)
  have "\<exists>p. \<forall>h\<in>set hooks. p < hk_Priority h"
  proof (intro exI ballI)
    fix h assume "h \<in> set hooks"
    then have "Min (insert 0 (hk_Priority ` set hooks)) \<le> hk_Priority h" by (intro Min_le) auto
    then show "Min (insert 0 (hk_Priority ` set hooks)) - 1 < hk_Priority h" by linarith
  qed
  with signal assms(2) show ?thesis
    by (auto simp: wait_inv_def concat_groupByPriority ordered_groupByPriority ordered_trace_def)
next
  case (launch g gs)
  then obtain p where "uniform p g" "\<forall>h\<in>set (concat gs). p < hk_Priority h" "ordered_groups gs"
    using assms(2) by (auto simp: wait_inv_def)
  then have "\<exists>p. (\<forall>h\<in>#mset g. hk_Priority h = p) \<and> (\<forall>h\<in>set (concat gs). p < hk_Priority h)"
    by (auto simp: uniform_def)
  with launch \<open>ordered_groups gs\<close> assms(2) show ?thesis
    by (auto simp: wait_inv_def add.assoc)
next
  case (call h)
  then obtain p where p: "\<forall>g\<in>#ws_running s + ws_launched s. hk_Priority g = p"
    "\<forall>g\<in>set (concat (ws_pending s)). p < hk_Priority g"
    and sum: "finished (ws_trace s) + ws_running s + ws_launched s + mset (concat (ws_pending s)) = mset (ws_hooks s)"
    using assms(2) by (auto simp: wait_inv_def)
  have h: "hk_Priority h = p" using call p(1) by simp
  have "below h (ws_running s) = {#}" "below h (ws_launched s) = {#}" "below h (mset (concat (ws_pending s))) = {#}"
    by (intro below_none; use p h in \<open>force intro: less_imp_le\<close>)+
  then have "below h (finished (ws_trace s)) = below h (mset (ws_hooks s))"
    by (simp flip: sum)
  moreover have "add_mset h (ws_running s) + (ws_launched s - {#h#}) = ws_running s + ws_launched s"
    using call by simp
  ultimately show ?thesis
    using call assms(2) by (auto simp: wait_inv_def ordered_trace_snoc)
next
  case (finish h ok)
  then have "\<exists>p. (\<forall>g\<in>#ws_running s + ws_launched s - {#h#}. hk_Priority g = p) \<and>
      (\<forall>y\<in>set (ws_pending s). \<forall>g\<in>set y. p < hk_Priority g)"
    using assms(2) by (fastforce simp: wait_inv_def dest: in_diffD)
  then show ?thesis
    using finish assms(2) by (auto simp: wait_inv_def ordered_trace_snoc)
qed (auto simp: wait_inv_def ordered_trace_snoc)

lemma reachable_inv: "wait_reachable m s \<Longrightarrow> wait_inv s"
proof (induction rule: wait_reachable.induct)
  case start
  then show ?case by (simp add: wait_inv_def wait_init_def)
next
  case (step s t)
  then show ?case by (blast intro: wait_inv_step)
qed

section \<open>Order, completeness and progress\<close>

text \<open>
  C12. Shutdown order. However the goroutines interleave, when a hook starts every hook of a smaller
  priority number has finished, as often as it was registered; a hook never runs twice; and when
  \<open>WaitForSignal\<close> returns, every hook it copied has run to its end, unless the deadline had
  passed.
\<close>

theorem shutdown_order:
  assumes "wait_reachable m s"
  shows "(\<forall>xs h ys g. ws_trace s = xs @ Started h # ys \<longrightarrow> hk_Priority g < hk_Priority h \<longrightarrow>
       count (finished xs) g = count (mset (ws_hooks s)) g) \<and>
    (ws_phase s \<noteq> Idle \<longrightarrow> started (ws_trace s) \<subseteq># mset (ws_hooks s)) \<and>
    (ws_phase s = Completed \<longrightarrow> finished (ws_trace s) = mset (ws_hooks s)) \<and>
    (ws_phase s = Aborted \<longrightarrow> ws_expired s)"
proof -
  from assms have inv: "wait_inv s" by (rule reachable_inv)
  show ?thesis
  proof (cases "ws_phase s = Idle")
    case True
    then show ?thesis using inv by (simp add: wait_inv_def)
  next
    case False
    then have sum: "finished (ws_trace s) + ws_running s + ws_launched s + mset (concat (ws_pending s)) = mset (ws_hooks s)"
      and st: "started (ws_trace s) = finished (ws_trace s) + ws_running s"
      and ord: "ordered_trace (mset (ws_hooks s)) (ws_trace s)"
      using inv by (simp_all add: wait_inv_def)
    have "started (ws_trace s) \<subseteq># mset (ws_hooks s)"
      unfolding st sum [symmetric] by (simp add: add.assoc)
    moreover have "count (finished xs) g = count (mset (ws_hooks s)) g"
      if "ws_trace s = xs @ Started h # ys" "hk_Priority g < hk_Priority h" for xs h ys g
    proof -
      have "count (below h (finished xs)) g = count (below h (mset (ws_hooks s))) g"
        using ord that(1) by (simp add: ordered_trace_def)
      with that(2) show ?thesis by simp
    qed
    moreover have "finished (ws_trace s) = mset (ws_hooks s)" if "ws_phase s = Completed"
      using inv that sum by (auto simp: wait_inv_def)
    ultimately show ?thesis using inv False by (auto simp: wait_inv_def)
  qed
qed

text \<open>A run over two hooks of different priority, registered in the wrong order.\<close>

definition demo_hook :: "string \<Rightarrow> int \<Rightarrow> unit shutdownHook" where
  "demo_hook n p = \<lparr>hk_Name = n, hk_Priority = p, hk_Fn = ()\<rparr>"

abbreviation "http_hook \<equiv> demo_hook ''http'' 0"
abbreviation "conn_hook \<equiv> demo_hook ''conn'' 5"

definition demo_manager :: "unit ShutdownManager" where
  "demo_manager = RegisterFunc ''http'' 0 () (RegisterFunc ''conn'' 5 () New_manager)"

definition demo_run :: "phase \<Rightarrow> unit shutdownHook list list \<Rightarrow> unit shutdownHook multiset \<Rightarrow> unit shutdownHook multiset \<Rightarrow>
     unit event list \<Rightarrow> unit wait_state" where
  "demo_run ph gs L R tr = \<lparr>ws_manager = SetShuttingDown True demo_manager, ws_phase = ph,
     ws_hooks = [http_hook, conn_hook], ws_pending = gs, ws_launched = L, ws_running = R, ws_expired = False,
     ws_trace = tr\<rparr>"

lemma demo_reachable:
  "wait_reachable demo_manager
     (demo_run Completed [] {#} {#} [Started http_hook, Finished http_hook True, Started conn_hook, Finished conn_hook False])"
proof -
  let ?r = "wait_reachable demo_manager"
  have "wait_step (wait_init demo_manager) (demo_run Active [[http_hook], [conn_hook]] {#} {#} [])"
    using wait_step.signal [of "wait_init demo_manager" "[http_hook, conn_hook]"]
    by (simp add: wait_init_def demo_run_def demo_manager_def RegisterFunc_def New_manager_def demo_hook_def groupByPriority_def
        SetShuttingDown_def add_mset_commute)
  then have "?r (demo_run Active [[http_hook], [conn_hook]] {#} {#} [])"
    by (rule wait_reachable.step [OF wait_reachable.start])
  then have "?r (demo_run Active [[conn_hook]] {#http_hook#} {#} [])"
    by (rule wait_reachable.step) (use wait_step.launch [of "demo_run Active [[http_hook], [conn_hook]] {#} {#} []"] in \<open>simp add: demo_run_def\<close>)
  then have "?r (demo_run Active [[conn_hook]] {#} {#http_hook#} [Started http_hook])"
    by (rule wait_reachable.step) (use wait_step.call [of "demo_run Active [[conn_hook]] {#http_hook#} {#} []" http_hook] in \<open>simp add: demo_run_def\<close>)
  then have "?r (demo_run Active [[conn_hook]] {#} {#} [Started http_hook, Finished http_hook True])"
    by (rule wait_reachable.step) (use wait_step.finish [of "demo_run Active [[conn_hook]] {#} {#http_hook#} [Started http_hook]" http_hook True] in \<open>simp add: demo_run_def\<close>)
  then have "?r (demo_run Active [] {#conn_hook#} {#} [Started http_hook, Finished http_hook True])"
    by (rule wait_reachable.step) (use wait_step.launch [of "demo_run Active [[conn_hook]] {#} {#} [Started http_hook, Finished http_hook True]"] in \<open>simp add: demo_run_def\<close>)
  then have "?r (demo_run Active [] {#} {#conn_hook#} [Started http_hook, Finished http_hook True, Started conn_hook])"
    by (rule wait_reachable.step) (use wait_step.call [of "demo_run Active [] {#conn_hook#} {#} [Started http_hook, Finished http_hook True]" conn_hook] in \<open>simp add: demo_run_def\<close>)
  then have "?r (demo_run Active [] {#} {#} [Started http_hook, Finished http_hook True, Started conn_hook, Finished conn_hook False])"
    by (rule wait_reachable.step) (use wait_step.finish [of "demo_run Active [] {#} {#conn_hook#} [Started http_hook, Finished http_hook True, Started conn_hook]" conn_hook False] in \<open>simp add: demo_run_def\<close>)
  then show ?thesis
    by (rule wait_reachable.step) (use wait_step.complete [of "demo_run Active [] {#} {#} [Started http_hook, Finished http_hook True, Started conn_hook, Finished conn_hook False]"] in \<open>simp add: demo_run_def\<close>)
qed

theorem shutdown_order_witness:
  "finished [Started http_hook, Finished http_hook True, Started conn_hook, Finished conn_hook False] =
     mset [http_hook, conn_hook]"
  using shutdown_order [OF demo_reachable] by (simp add: demo_run_def)

text \<open>\<open>WaitForSignal\<close> never blocks on its own: as long as it has not returned, some step other than the
  deadline is possible. Each such step after the signal lowers a measure, so with hooks that return it
  returns; a hook that ignores its context and never returns keeps it waiting beyond the deadline.\<close>

definition wait_measure :: "'f wait_state \<Rightarrow> nat" where
  "wait_measure s =
     3 * length (concat (ws_pending s)) + length (ws_pending s) + 2 * size (ws_launched s) + size (ws_running s) +
     (if ws_phase s = Active then 1 else 0)"

lemma wait_progress:
  assumes "ws_phase s = Active"
  shows "\<exists>t. wait_step s t \<and> wait_measure t < wait_measure s"
proof -
  consider (call) h where "h \<in># ws_launched s" | (finish) h where "h \<in># ws_running s"
    | (quiet) "ws_launched s = {#}" "ws_running s = {#}"
    by (metis multiset_nonemptyE)
  then show ?thesis
  proof cases
    case call
    then have "size (ws_launched s) = Suc (size (ws_launched s - {#h#}))" by (simp add: size_Suc_Diff1)
    then show ?thesis
      using wait_step.call [OF assms call] by (intro exI conjI) (auto simp: wait_measure_def assms)
  next
    case finish
    then have "size (ws_running s) = Suc (size (ws_running s - {#h#}))" by (simp add: size_Suc_Diff1)
    then show ?thesis
      using wait_step.finish [OF assms finish, of True] by (intro exI conjI) (auto simp: wait_measure_def assms)
  next
    case quiet
    show ?thesis
    proof (cases "ws_pending s")
      case Nil
      then show ?thesis
        using wait_step.complete [OF assms quiet] by (intro exI conjI) (auto simp: wait_measure_def assms)
    next
      case (Cons g gs)
      show ?thesis
      proof (cases "ws_expired s")
        case True
        then show ?thesis
          using wait_step.abort [OF assms quiet] Cons by (intro exI conjI) (auto simp: wait_measure_def assms)
      next
        case False
        then show ?thesis
          using wait_step.launch [OF assms quiet Cons] by (intro exI conjI) (auto simp: wait_measure_def assms Cons quiet)
      qed
    qed
  qed
qed

lemma stuck_hook_blocks:
  assumes "wait_step s t" "ws_phase s = Active" "h \<in># ws_running s"
  shows "(\<exists>ok. ws_trace t = ws_trace s @ [Finished h ok]) \<or> ws_phase t = Active \<and> h \<in># ws_running t"
  using assms by (cases rule: wait_step.cases) (auto simp: in_diff_count)

end
