(* ===== verification/Service_Health.thy ===== *)
theory Service_Health
  imports Http_Core Mongo_Manager
begin

text \<open>
  The ClickHouse connection manager of \<open>infrastructure/clickhouse/manager\<close>, the health
  adapters and the health service of \<open>microservices/http/health\<close>. Opening and pinging
  connections are parameters. The checkers of a health check run concurrently and write into
  a map that is then read in Go's unspecified order: the order of completion and the order of
  iteration are parameters too, and the result is shown not to depend on the latter.
\<close>

section \<open>ClickHouse manager\<close>

record ch_config =
  chm_Host :: string
  chm_Port :: go_int
  chm_Database :: string
  chm_Username :: string
  chm_Password :: string
  chm_MaxOpenConns :: go_int
  chm_MaxIdleConns :: go_int
  chm_EnableMonitor :: bool
  chm_MonitorInterval :: duration

record 'k ClickHouseManager =
  cm_conn :: "'k option"
  cm_database :: string
  cm_isConnected :: bool
  cm_lastLatency :: int
  cm_cfg :: ch_config

datatype ch_conn_error = ErrMissingConfig | ErrNotConnectedCH | ErrConnectionFailed string | ErrPingFailed string

definition DefaultMonitorInterval :: duration where "DefaultMonitorInterval = 10 * 1000000000"
definition DefaultPort :: go_int where "DefaultPort = 9000"
definition DefaultConnectTimeout :: duration where "DefaultConnectTimeout = 5 * 1000000000"
definition DefaultPingTimeout :: duration where "DefaultPingTimeout = 3 * 1000000000"

record ch_options =
  opt_Addr :: "string list"
  opt_Database :: string
  opt_Username :: string
  opt_Password :: string
  opt_DialTimeout :: duration
  opt_MaxOpenConns :: go_int
  opt_MaxIdleConns :: go_int
  opt_ConnMaxLifetime :: duration

text \<open>What the driver does during one operation: opening gives a connection or an error, a ping an
  error or none.\<close>

record 'k ch_driver =
  drv_open :: "ch_options \<Rightarrow> string + 'k"
  drv_ping :: "'k \<Rightarrow> string option"

definition connect_options :: "ch_config \<Rightarrow> ch_options" where
  "connect_options cfg =
     \<lparr>opt_Addr = [chm_Host cfg @ '':'' @ itoa (chm_Port cfg)],
      opt_Database = chm_Database cfg, opt_Username = chm_Username cfg, opt_Password = chm_Password cfg,
      opt_DialTimeout = DefaultConnectTimeout,
      opt_MaxOpenConns = (if chm_MaxOpenConns cfg = 0 then 10 else chm_MaxOpenConns cfg),
      opt_MaxIdleConns = (if chm_MaxIdleConns cfg = 0 then 5 else chm_MaxIdleConns cfg),
      opt_ConnMaxLifetime = 3600 * 1000000000\<rparr>"

definition ch_connect :: "'k ch_driver \<Rightarrow> 'k ClickHouseManager \<Rightarrow> 'k ClickHouseManager \<times> ch_conn_error option" where
  "ch_connect d m =
     (case drv_open d (connect_options (cm_cfg m)) of
        Inl err \<Rightarrow> (m\<lparr>cm_isConnected := False\<rparr>, Some (ErrConnectionFailed err))
      | Inr conn \<Rightarrow>
          (case drv_ping d conn of
             Some err \<Rightarrow> (m\<lparr>cm_isConnected := False\<rparr>, Some (ErrPingFailed err))
           | None \<Rightarrow> (m\<lparr>cm_conn := Some conn, cm_isConnected := True\<rparr>, None)))"

text \<open>One tick of the monitor; \<open>before\<close> is the driver when the connection is pinged, \<open>after\<close> when it
  is opened again, and \<open>ms\<close> the latency measured.\<close>

definition monitor_tick ::
  "'k ch_driver \<Rightarrow> 'k ch_driver \<Rightarrow> int \<Rightarrow> 'k ClickHouseManager \<Rightarrow> 'k ClickHouseManager" where
  "monitor_tick before after ms m =
     (case cm_conn m of
        None \<Rightarrow> m\<lparr>cm_isConnected := False\<rparr>
      | Some conn \<Rightarrow>
          (case drv_ping before conn of
             Some err \<Rightarrow> fst (ch_connect after (m\<lparr>cm_isConnected := False\<rparr>))
           | None \<Rightarrow> m\<lparr>cm_lastLatency := ms, cm_isConnected := True\<rparr>))"

definition ch_ping :: "'k ch_driver \<Rightarrow> 'k ClickHouseManager \<Rightarrow> string option" where
  "ch_ping d m =
     (case cm_conn m of
        None \<Rightarrow> Some ''clickhouse is not connected''
      | Some conn \<Rightarrow> drv_ping d conn)"

definition New_clickhouse :: "'k ch_driver \<Rightarrow> ch_config \<Rightarrow> ch_conn_error + 'k ClickHouseManager" where
  "New_clickhouse d cfg =
     (if chm_Host cfg = [] \<or> chm_Database cfg = [] \<or> chm_Username cfg = [] then Inl ErrMissingConfig
      else
        let cfg = (if chm_Port cfg = 0 then cfg\<lparr>chm_Port := DefaultPort\<rparr> else cfg);
            cfg = (if chm_MonitorInterval cfg = 0 then cfg\<lparr>chm_MonitorInterval := DefaultMonitorInterval\<rparr> else cfg);
            m = \<lparr>cm_conn = None, cm_database = chm_Database cfg, cm_isConnected = False, cm_lastLatency = 0, cm_cfg = cfg\<rparr>
        in case ch_connect d m of
             (m', Some err) \<Rightarrow> Inl err
           | (m', None) \<Rightarrow> Inr m')"

definition CH_IsConnected :: "'k ClickHouseManager \<Rightarrow> bool" where
  "CH_IsConnected m = cm_isConnected m"

definition GetConn :: "'k ClickHouseManager \<Rightarrow> 'k option" where
  "GetConn m = cm_conn m"

definition GetDatabase :: "'k ClickHouseManager \<Rightarrow> string" where
  "GetDatabase m = cm_database m"

definition GetConfig :: "'k ClickHouseManager \<Rightarrow> ch_config" where
  "GetConfig m = (cm_cfg m)\<lparr>chm_Password := ''***''\<rparr>"

definition CH_LastLatency :: "'k ClickHouseManager \<Rightarrow> int" where
  "CH_LastLatency m = cm_lastLatency m"

record ch_health =
  chh_Connected :: bool
  chh_Database :: string
  chh_Host :: string
  chh_Port :: go_int
  chh_LastCheckAt :: int
  chh_ErrorMessage :: string

text \<open>\<open>Health\<close> without a context reports the flag alone; with one it pings too.\<close>

definition CH_Health :: "'k ch_driver option \<Rightarrow> int \<Rightarrow> 'k ClickHouseManager \<Rightarrow> ch_health" where
  "CH_Health d now m =
     (let status = \<lparr>chh_Connected = cm_isConnected m, chh_Database = cm_database m, chh_Host = chm_Host (cm_cfg m),
            chh_Port = chm_Port (cm_cfg m), chh_LastCheckAt = now, chh_ErrorMessage = []\<rparr>
      in case d of
           None \<Rightarrow> status
         | Some d \<Rightarrow>
             (case ch_ping d m of
                None \<Rightarrow> status
              | Some err \<Rightarrow> status\<lparr>chh_Connected := False, chh_ErrorMessage := err\<rparr>))"

text \<open>\<open>Close\<close>; \<open>closed\<close> is the error of the driver.\<close>

definition CH_Close :: "string option \<Rightarrow> 'k ClickHouseManager \<Rightarrow> 'k ClickHouseManager \<times> string option" where
  "CH_Close closed m =
     (case cm_conn m of
        Some conn \<Rightarrow> (m\<lparr>cm_isConnected := False\<rparr>, closed)
      | None \<Rightarrow> (m, None))"

section \<open>Health adapters\<close>

record HealthStatus =
  hs_Connected :: bool
  hs_Service :: string
  hs_LatencyMs :: int
  hs_LastCheckAt :: int
  hs_ErrorMessage :: string

definition mongo_check :: "MongoManager \<Rightarrow> int \<Rightarrow> HealthStatus" where
  "mongo_check m now = \<lparr>hs_Connected = IsConnected m, hs_Service = ''mongodb'', hs_LatencyMs = LastLatency m,
     hs_LastCheckAt = now, hs_ErrorMessage = []\<rparr>"

definition clickhouse_check :: "'k ClickHouseManager \<Rightarrow> int \<Rightarrow> HealthStatus" where
  "clickhouse_check m now = \<lparr>hs_Connected = CH_IsConnected m, hs_Service = ''clickhouse'',
     hs_LatencyMs = CH_LastLatency m, hs_LastCheckAt = now, hs_ErrorMessage = []\<rparr>"

text \<open>The adapters of Redis, MinIO and NATS ping; \<open>kind\<close> is \<open>''redis''\<close>, \<open>''minio''\<close> or \<open>''nats''\<close>.\<close>

definition adapter_name :: "string \<Rightarrow> string \<Rightarrow> string" where
  "adapter_name kind name = kind @ '':'' @ name"

definition ping_check :: "string \<Rightarrow> string \<Rightarrow> string option \<Rightarrow> int \<Rightarrow> int \<Rightarrow> HealthStatus" where
  "ping_check kind name err latency now =
     (let status = \<lparr>hs_Connected = (err = None), hs_Service = adapter_name kind name, hs_LatencyMs = latency,
            hs_LastCheckAt = now, hs_ErrorMessage = []\<rparr>
      in case err of None \<Rightarrow> status | Some e \<Rightarrow> status\<lparr>hs_ErrorMessage := e\<rparr>)"

definition redis_check :: "string \<Rightarrow> string option \<Rightarrow> int \<Rightarrow> int \<Rightarrow> HealthStatus" where
  "redis_check name err latency now = ping_check ''redis'' name err latency now"

definition minio_check :: "string \<Rightarrow> string option \<Rightarrow> int \<Rightarrow> int \<Rightarrow> HealthStatus" where
  "minio_check name err latency now = ping_check ''minio'' name err latency now"

definition nats_check :: "string \<Rightarrow> int \<times> string option \<Rightarrow> int \<Rightarrow> HealthStatus" where
  "nats_check name rtt now = ping_check ''nats'' name (snd rtt) (go_div (fst rtt) 1000000) now"

section \<open>Health service\<close>

record HealthConfig =
  hc_ServiceName :: string
  hc_Version :: string
  hc_CacheTTL :: duration
  hc_Timeout :: duration

record CheckerConfig =
  ck_Name :: string
  ck_Critical :: bool

record CheckDetail =
  dt_Connected :: bool
  dt_Critical :: bool
  dt_LatencyMs :: int
  dt_ErrorMessage :: string

record HealthResponse =
  hr_Status :: string
  hr_Service :: string
  hr_Version :: string
  hr_Uptime :: string
  hr_Timestamp :: int
  hr_LastCheckAt :: int
  hr_Checks :: "(string \<times> CheckDetail) list"

record HealthService =
  sv_cfg :: HealthConfig
  sv_checkers :: "CheckerConfig list"
  sv_startedAt :: int
  sv_cachedResp :: "HealthResponse option"
  sv_lastCheckAt :: int

definition NewService :: "HealthConfig \<Rightarrow> CheckerConfig list \<Rightarrow> int \<Rightarrow> HealthService" where
  "NewService cfg checkers now =
     (let cfg = (if hc_CacheTTL cfg = 0 then cfg\<lparr>hc_CacheTTL := 10 * 1000000000\<rparr> else cfg);
          cfg = (if hc_Timeout cfg = 0 then cfg\<lparr>hc_Timeout := 5 * 1000000000\<rparr> else cfg)
      in \<lparr>sv_cfg = cfg, sv_checkers = checkers, sv_startedAt = now, sv_cachedResp = None, sv_lastCheckAt = 0\<rparr>)"

definition check_detail :: "CheckerConfig \<Rightarrow> HealthStatus \<Rightarrow> CheckDetail" where
  "check_detail cc hs = \<lparr>dt_Connected = hs_Connected hs, dt_Critical = ck_Critical cc,
     dt_LatencyMs = hs_LatencyMs hs, dt_ErrorMessage = hs_ErrorMessage hs\<rparr>"

fun aggregate :: "string \<Rightarrow> CheckDetail list \<Rightarrow> string" where
  "aggregate status [] = status"
| "aggregate status (d # ds) =
     (if \<not> dt_Connected d \<and> dt_Critical d then ''unhealthy''
      else aggregate (if \<not> dt_Connected d then ''degraded'' else status) ds)"

text \<open>One round of checks: the statuses the checkers return, the order in which their goroutines store
  them, and the order in which the map is read.\<close>

record health_round =
  rd_status :: "CheckerConfig \<Rightarrow> HealthStatus"
  rd_done :: "CheckerConfig list"
  rd_iter :: "(string \<times> CheckDetail) list \<Rightarrow> (string \<times> CheckDetail) list"
  rd_uptime :: "duration \<Rightarrow> string"

definition collect_checks :: "health_round \<Rightarrow> (string \<times> CheckDetail) list" where
  "collect_checks r =
     fold (\<lambda>cc m. AList.update (ck_Name cc) (check_detail cc (rd_status r cc)) m) (rd_done r) []"

definition Check :: "health_round \<Rightarrow> int \<Rightarrow> HealthService \<Rightarrow> HealthService \<times> HealthResponse" where
  "Check r now s =
     (if sv_cachedResp s \<noteq> None \<and> now - sv_lastCheckAt s < hc_CacheTTL (sv_cfg s)
      then (s, the (sv_cachedResp s))
      else
        let checks = collect_checks r;
            resp = \<lparr>hr_Status = aggregate ''healthy'' (map snd (rd_iter r checks)),
                    hr_Service = hc_ServiceName (sv_cfg s), hr_Version = hc_Version (sv_cfg s),
                    hr_Uptime = rd_uptime r (now - sv_startedAt s),
                    hr_Timestamp = now, hr_LastCheckAt = now, hr_Checks = checks\<rparr>
        in (s\<lparr>sv_cachedResp := Some resp, sv_lastCheckAt := now\<rparr>, resp))"

text \<open>The handler's status code and payload.\<close>

definition Handler :: "health_round \<Rightarrow> int \<Rightarrow> HealthService \<Rightarrow> HealthService \<times> int \<times> HealthResponse" where
  "Handler r now s =
     (case Check r now s of
        (s', result) \<Rightarrow> (s', if hr_Status result = ''unhealthy'' then 503 else 200, result))"

section \<open>ClickHouse: the connected flag\<close>

text \<open>The life of a manager after \<open>New\<close>: ticks of the monitor and closing, in any order.\<close>

inductive ch_reachable :: "'k ClickHouseManager \<Rightarrow> bool" where
  ch_new: "New_clickhouse d cfg = Inr m \<Longrightarrow> ch_reachable m"
| ch_tick: "ch_reachable m \<Longrightarrow> ch_reachable (monitor_tick before after ms m)"
| ch_close: "ch_reachable m \<Longrightarrow> ch_reachable (fst (CH_Close closed m))"

lemma ch_connect_conn: "cm_conn m \<noteq> None \<or> snd (ch_connect d m) = None \<Longrightarrow> cm_conn (fst (ch_connect d m)) \<noteq> None"
  by (auto simp: ch_connect_def split: sum.splits option.splits)

lemma ch_reachable_conn: "ch_reachable m \<Longrightarrow> cm_conn m \<noteq> None"
proof (induction rule: ch_reachable.induct)
  case (ch_new d cfg m)
  then show ?case
    using ch_connect_conn [where d = d]
    by (auto simp: New_clickhouse_def Let_def split: if_splits prod.splits option.splits) (metis fst_conv snd_conv option.distinct(1))+
next
  case (ch_tick m before after ms)
  then show ?case
    using ch_connect_conn [of "m\<lparr>cm_isConnected := False\<rparr>" after]
    by (auto simp: monitor_tick_def split: option.splits)
next
  case (ch_close m closed)
  then show ?case by (auto simp: CH_Close_def split: option.splits)
qed

text \<open>\<open>Close\<close> keeps the connection in the manager and does not stop the monitor: when the ping of the
  closed connection fails, the next tick opens a new one.\<close>

lemma closed_manager_reconnects:
  assumes "ch_reachable m" "\<And>k. drv_ping before k = Some err"
    and "drv_open after (connect_options (cm_cfg m)) = Inr k" "drv_ping after k = None"
  shows "\<not> CH_IsConnected (fst (CH_Close closed m)) \<and>
    CH_IsConnected (monitor_tick before after ms (fst (CH_Close closed m)))"
  using ch_reachable_conn [OF assms(1)] assms(2-4)
  by (auto simp: CH_Close_def monitor_tick_def ch_connect_def CH_IsConnected_def)

section \<open>The health endpoint\<close>

lemma aggregate_eq:
  "aggregate status ds =
     (if \<exists>d\<in>set ds. \<not> dt_Connected d \<and> dt_Critical d then ''unhealthy''
      else if \<exists>d\<in>set ds. \<not> dt_Connected d then ''degraded'' else status)"
  by (induction ds arbitrary: status) auto

lemma update_fresh: "k \<notin> fst ` set al \<Longrightarrow> AList.update k v al = al @ [(k, v)]"
  by (induction al) auto

lemma fold_update_distinct:
  "distinct (map f xs) \<Longrightarrow> f ` set xs \<inter> fst ` set acc = {} \<Longrightarrow>
   fold (\<lambda>x m. AList.update (f x) (g x) m) xs acc = acc @ map (\<lambda>x. (f x, g x)) xs"
proof (induction xs arbitrary: acc)
  case (Cons x xs)
  then have "AList.update (f x) (g x) acc = acc @ [(f x, g x)]" by (auto intro: update_fresh)
  moreover have "f ` set xs \<inter> fst ` set (acc @ [(f x, g x)]) = {}" using Cons.prems by auto
  ultimately show ?case using Cons by simp
qed simp

lemma collect_checks_eq:
  "distinct (map ck_Name (rd_done r)) \<Longrightarrow>
   collect_checks r = map (\<lambda>cc. (ck_Name cc, check_detail cc (rd_status r cc))) (rd_done r)"
  unfolding collect_checks_def by (subst fold_update_distinct) simp_all

text \<open>
  C30. The health endpoint tells the truth. When a round of checks is run on checkers with different
  names, whatever the order in which they finish and the map is read: the answer is 503 exactly
  if some critical dependency is down, the status is \<open>degraded\<close> exactly if only non-critical
  ones are down, and \<open>healthy\<close> exactly if all are up.
\<close>

theorem health_status_exact:
  assumes stale: "sv_cachedResp s = None \<or> hc_CacheTTL (sv_cfg s) \<le> now - sv_lastCheckAt s"
    and names: "distinct (map ck_Name (sv_checkers s))"
    and perm: "mset (rd_done r) = mset (sv_checkers s)"
    and iter: "mset (rd_iter r (collect_checks r)) = mset (collect_checks r)"
    and reply: "Handler r now s = (s', code, resp)"
  defines "down \<equiv> \<lambda>cc. \<not> hs_Connected (rd_status r cc)"
  shows "(code = 503 \<longleftrightarrow> (\<exists>cc\<in>set (sv_checkers s). ck_Critical cc \<and> down cc)) \<and>
    (hr_Status resp = ''degraded'' \<longleftrightarrow>
       (\<exists>cc\<in>set (sv_checkers s). down cc) \<and> (\<forall>cc\<in>set (sv_checkers s). ck_Critical cc \<longrightarrow> \<not> down cc)) \<and>
    (hr_Status resp = ''healthy'' \<longleftrightarrow> (\<forall>cc\<in>set (sv_checkers s). \<not> down cc))"
proof -
  have sets: "set (rd_done r) = set (sv_checkers s)" using perm by (metis set_mset_mset)
  have "distinct (map ck_Name (rd_done r))"
    using names perm by (metis mset_eq_imp_distinct_iff mset_map)
  then have "set (map snd (rd_iter r (collect_checks r))) =
      (\<lambda>cc. check_detail cc (rd_status r cc)) ` set (sv_checkers s)"
    using mset_eq_setD [OF iter] sets by (simp add: collect_checks_eq image_image)
  moreover have "hr_Status resp = aggregate ''healthy'' (map snd (rd_iter r (collect_checks r)))"
    "code = (if hr_Status resp = ''unhealthy'' then 503 else 200)"
    using stale reply by (auto simp: Handler_def Check_def Let_def)
  ultimately show ?thesis
    by (auto simp: aggregate_eq check_detail_def down_def)
qed

definition demo_checkers :: "CheckerConfig list" where
  "demo_checkers = [\<lparr>ck_Name = ''mongodb'', ck_Critical = True\<rparr>, \<lparr>ck_Name = ''redis:main'', ck_Critical = False\<rparr>]"

definition demo_service :: HealthService where
  "demo_service = NewService \<lparr>hc_ServiceName = ''api'', hc_Version = ''1'', hc_CacheTTL = 0, hc_Timeout = 0\<rparr> demo_checkers 0"

definition demo_round :: health_round where
  "demo_round = \<lparr>rd_status = (\<lambda>cc. redis_check ''main'' (if ck_Critical cc then Some ''refused'' else None) 1 5),
     rd_done = rev demo_checkers, rd_iter = rev, rd_uptime = (\<lambda>_. [])\<rparr>"

theorem health_status_exact_witness: "fst (snd (Handler demo_round 5 demo_service)) = 503"
proof -
  obtain s' code resp where h: "Handler demo_round 5 demo_service = (s', code, resp)"
    by (cases "Handler demo_round 5 demo_service") auto
  have "sv_cachedResp demo_service = None" "sv_checkers demo_service = demo_checkers"
    by (simp_all add: demo_service_def NewService_def Let_def)
  moreover have "distinct (map ck_Name demo_checkers)" by (simp add: demo_checkers_def)
  moreover have "mset (rd_done demo_round) = mset demo_checkers"
    "mset (rd_iter demo_round (collect_checks demo_round)) = mset (collect_checks demo_round)"
    by (simp_all add: demo_round_def)
  ultimately have "code = 503"
    using health_status_exact [OF _ _ _ _ h]
    by (auto simp: demo_checkers_def demo_round_def redis_check_def ping_check_def)
  then show ?thesis by (simp add: h)
qed

text \<open>A cached answer is younger than the time to live.\<close>

definition service_ok :: "HealthService \<Rightarrow> bool" where
  "service_ok s = (\<forall>resp. sv_cachedResp s = Some resp \<longrightarrow> hr_LastCheckAt resp = sv_lastCheckAt s)"

lemma service_ok_NewService: "service_ok (NewService cfg checkers now)"
  by (simp add: service_ok_def NewService_def Let_def)

lemma Check_staleness:
  assumes "service_ok s" "Check r now s = (s', resp)"
  shows "service_ok s' \<and> (hr_LastCheckAt resp = now \<or> now - hr_LastCheckAt resp < hc_CacheTTL (sv_cfg s))"
  using assms by (auto simp: Check_def service_ok_def Let_def split: if_splits)

text \<open>Two checkers with the same name share an entry: the one that finishes last hides the other, so a
  failed critical dependency can be reported as healthy.\<close>

lemma same_name_hides_failure:
  defines "critical \<equiv> \<lparr>ck_Name = ''redis:main'', ck_Critical = True\<rparr>"
    and "other \<equiv> \<lparr>ck_Name = ''redis:main'', ck_Critical = False\<rparr>"
  shows "hr_Status (snd (Check \<lparr>rd_status = (\<lambda>cc. redis_check ''main'' (if ck_Critical cc then Some ''refused'' else None) 1 5),
      rd_done = [critical, other], rd_iter = id, rd_uptime = (\<lambda>_. [])\<rparr> 5
      (NewService \<lparr>hc_ServiceName = ''api'', hc_Version = ''1'', hc_CacheTTL = 0, hc_Timeout = 0\<rparr> [critical, other] 0))) = ''healthy''"
  by (simp add: Check_def NewService_def collect_checks_def critical_def other_def check_detail_def redis_check_def
      ping_check_def Let_def)

end
