(* ===== verification/Envelope.thy ===== *)
theory Envelope
  imports Kit_Prelude
begin

text \<open>
  Package \<open>utils/envelope\<close>: envelope encryption with a master key and a fresh data key per record.
  AES-GCM is a parameter with the law that opening what was sealed gives the plaintext; the
  random source is the list of bytes it will deliver. A wrong nonce length is a panic of the
  GCM implementation. The theory shows that \<open>Decrypt\<close> inverts \<open>Encrypt\<close>, what \<open>Encrypt\<close> needs, and
  which envelopes panic.
\<close>

definition keySize :: nat where "keySize = 32"
definition nonceSize :: nat where "nonceSize = 12"

record EncryptedEnvelope =
  EncryptedDEK :: string
  DEKNonce :: string
  EncryptedData :: string
  DataNonce :: string

record EnvelopeService =
  masterKey :: string

datatype 'a env_result = EnvOk 'a | EnvErr string | EnvPanic

record gcm =
  gcm_seal :: "string \<Rightarrow> string \<Rightarrow> string \<Rightarrow> string"
  gcm_open :: "string \<Rightarrow> string \<Rightarrow> string \<Rightarrow> string option"

text \<open>\<open>hex.DecodeString\<close>.\<close>

definition hex_val :: "char \<Rightarrow> nat option" where
  "hex_val c =
     (let n = of_char c in
      if 48 \<le> n \<and> n \<le> 57 then Some (n - 48)
      else if 97 \<le> n \<and> n \<le> 102 then Some (n - 87)
      else if 65 \<le> n \<and> n \<le> 70 then Some (n - 55)
      else None)"

definition upper_hex :: "nat \<Rightarrow> char" where
  "upper_hex d = char_of (if d < 10 then 48 + d else 55 + d)"

text \<open>\<open>InvalidByteError\<close>: the byte as a rune in the verb \<open>%#U\<close>.\<close>

definition invalid_byte :: "char \<Rightarrow> string" where
  "invalid_byte c =
     (let n = of_char c :: nat in
      ''encoding/hex: invalid byte: U+00'' @ [upper_hex (n div 16), upper_hex (n mod 16)] @
        (if 32 \<le> n \<and> n < 127 then [CHR '' '', CHR 0x27, c, CHR 0x27]
         else if 160 < n \<and> n \<noteq> 173
         then [CHR '' '', CHR 0x27, char_of (192 + n div 64), char_of (128 + n mod 64), CHR 0x27]
         else []))"

fun hex_decode :: "string \<Rightarrow> string + string" where
  "hex_decode [] = Inr []"
| "hex_decode [c] = Inl (if hex_val c = None then invalid_byte c else ''encoding/hex: odd length hex string'')"
| "hex_decode (a # b # s) =
     (case hex_val a of
        None \<Rightarrow> Inl (invalid_byte a)
      | Some x \<Rightarrow>
          (case hex_val b of
             None \<Rightarrow> Inl (invalid_byte b)
           | Some y \<Rightarrow> map_sum id (\<lambda>bs. char_of (16 * x + y) # bs) (hex_decode s)))"

definition New_envelope :: "string \<Rightarrow> string + EnvelopeService" where
  "New_envelope masterKeyHex =
     (case hex_decode masterKeyHex of
        Inl err \<Rightarrow> Inl (''envelope: invalid hex master key: '' @ err)
      | Inr key \<Rightarrow>
          if length key \<noteq> keySize
          then Inl (''envelope: master key must be 32 bytes, got '' @ itoa (int (length key)))
          else Inr \<lparr>masterKey = key\<rparr>)"

text \<open>\<open>io.ReadFull(rand.Reader, buf)\<close> and the key sizes \<open>aes.NewCipher\<close> accepts.\<close>

definition read_full :: "nat \<Rightarrow> string \<Rightarrow> string \<times> (string + string)" where
  "read_full n rnd =
     (if n \<le> length rnd then (drop n rnd, Inr (take n rnd))
      else ([], Inl (if rnd = [] then ''EOF'' else ''unexpected EOF'')))"

definition key_size_error :: "string \<Rightarrow> string" where
  "key_size_error key = ''crypto/aes: invalid key size '' @ itoa (int (length key))"

definition aes_key_ok :: "string \<Rightarrow> bool" where
  "aes_key_ok key \<longleftrightarrow> length key \<in> {16, 24, 32}"

definition aesGCMEncrypt :: "gcm \<Rightarrow> string \<Rightarrow> string \<Rightarrow> string \<Rightarrow> string \<times> (string \<times> string) env_result" where
  "aesGCMEncrypt G rnd key plaintext =
     (if \<not> aes_key_ok key then (rnd, EnvErr (key_size_error key))
      else
        (case read_full nonceSize rnd of
           (rnd', Inl err) \<Rightarrow> (rnd', EnvErr err)
         | (rnd', Inr nonce) \<Rightarrow> (rnd', EnvOk (gcm_seal G key nonce plaintext, nonce))))"

definition aesGCMDecrypt :: "gcm \<Rightarrow> string \<Rightarrow> string \<Rightarrow> string \<Rightarrow> string env_result" where
  "aesGCMDecrypt G key ciphertext nonce =
     (if \<not> aes_key_ok key then EnvErr (key_size_error key)
      else if length nonce \<noteq> nonceSize then EnvPanic
      else
        (case gcm_open G key nonce ciphertext of
           None \<Rightarrow> EnvErr ''cipher: message authentication failed''
         | Some plaintext \<Rightarrow> EnvOk plaintext))"

definition Encrypt :: "gcm \<Rightarrow> string \<Rightarrow> EnvelopeService \<Rightarrow> string \<Rightarrow> string \<times> EncryptedEnvelope env_result" where
  "Encrypt G rnd e plaintext =
     (case read_full keySize rnd of
        (rnd1, Inl err) \<Rightarrow> (rnd1, EnvErr (''envelope: failed to generate DEK: '' @ err))
      | (rnd1, Inr dek) \<Rightarrow>
          (case aesGCMEncrypt G rnd1 dek plaintext of
             (rnd2, EnvErr err) \<Rightarrow> (rnd2, EnvErr (''envelope: failed to encrypt data: '' @ err))
           | (rnd2, EnvPanic) \<Rightarrow> (rnd2, EnvPanic)
           | (rnd2, EnvOk (encryptedData, dataNonce)) \<Rightarrow>
               (case aesGCMEncrypt G rnd2 (masterKey e) dek of
                  (rnd3, EnvErr err) \<Rightarrow> (rnd3, EnvErr (''envelope: failed to encrypt DEK: '' @ err))
                | (rnd3, EnvPanic) \<Rightarrow> (rnd3, EnvPanic)
                | (rnd3, EnvOk (encryptedDEK, dekNonce)) \<Rightarrow>
                    (rnd3, EnvOk \<lparr>EncryptedDEK = encryptedDEK, DEKNonce = dekNonce,
                       EncryptedData = encryptedData, DataNonce = dataNonce\<rparr>))))"

definition Decrypt :: "gcm \<Rightarrow> EnvelopeService \<Rightarrow> EncryptedEnvelope option \<Rightarrow> string env_result" where
  "Decrypt G e env =
     (case env of
        None \<Rightarrow> EnvErr ''envelope: nil envelope''
      | Some env \<Rightarrow>
          (case aesGCMDecrypt G (masterKey e) (EncryptedDEK env) (DEKNonce env) of
             EnvErr err \<Rightarrow> EnvErr (''envelope: failed to decrypt DEK: '' @ err)
           | EnvPanic \<Rightarrow> EnvPanic
           | EnvOk dek \<Rightarrow>
               (case aesGCMDecrypt G dek (EncryptedData env) (DataNonce env) of
                  EnvErr err \<Rightarrow> EnvErr (''envelope: failed to decrypt data: '' @ err)
                | EnvPanic \<Rightarrow> EnvPanic
                | EnvOk plaintext \<Rightarrow> EnvOk plaintext)))"

section \<open>Round trip\<close>

definition gcm_correct :: "gcm \<Rightarrow> bool" where
  "gcm_correct G \<longleftrightarrow> (\<forall>key nonce p. gcm_open G key nonce (gcm_seal G key nonce p) = Some p)"

lemma read_full_Inr: "read_full n rnd = (rnd', Inr b) \<Longrightarrow> length b = n \<and> rnd = b @ rnd'"
  by (auto simp: read_full_def split: if_splits)

lemma aesGCM_inverse:
  assumes "gcm_correct G" "aesGCMEncrypt G rnd key p = (rnd', EnvOk (c, nonce))"
  shows "aesGCMDecrypt G key c nonce = EnvOk p" "rnd = nonce @ rnd'" "length nonce = nonceSize" "aes_key_ok key"
  using assms
  by (auto simp: aesGCMEncrypt_def aesGCMDecrypt_def gcm_correct_def split: if_splits prod.splits option.splits sum.splits
      dest: read_full_Inr)

lemma New_envelope_key: "New_envelope k = Inr e \<Longrightarrow> length (masterKey e) = keySize \<and> hex_decode k = Inr (masterKey e)"
  by (auto simp: New_envelope_def split: sum.splits if_splits)

text \<open>
  C31. Encryption succeeds with a valid master key as long as the random source delivers the 56 bytes of
  the data key and the two nonces, each of which is used once; and \<open>Decrypt\<close> with the same
  master key returns exactly the plaintext.
\<close>

theorem envelope_roundtrip:
  assumes G: "gcm_correct G" and svc: "New_envelope masterKeyHex = Inr e"
    and entropy: "length rnd \<ge> keySize + 2 * nonceSize"
  shows "\<exists>rnd' dek env. Encrypt G rnd e plaintext = (rnd', EnvOk env) \<and> Decrypt G e (Some env) = EnvOk plaintext \<and>
    rnd = dek @ DataNonce env @ DEKNonce env @ rnd' \<and>
    length dek = keySize \<and> length (DataNonce env) = nonceSize \<and> length (DEKNonce env) = nonceSize"
proof -
  define dek where "dek = take keySize rnd"
  define r1 where "r1 = drop keySize rnd"
  have r: "read_full keySize rnd = (r1, Inr dek)" "length dek = keySize"
    using entropy by (simp_all add: read_full_def r1_def dek_def)
  have keys: "aes_key_ok dek" "aes_key_ok (masterKey e)"
    using r(2) New_envelope_key [OF svc] by (simp_all add: aes_key_ok_def keySize_def)
  have len: "length r1 \<ge> 2 * nonceSize" using entropy by (simp add: r1_def)
  obtain r2 c n where s1: "aesGCMEncrypt G r1 dek plaintext = (r2, EnvOk (c, n))" and r2: "length r2 \<ge> nonceSize"
    using keys(1) len by (auto simp: aesGCMEncrypt_def read_full_def)
  obtain r3 cd nd where s2: "aesGCMEncrypt G r2 (masterKey e) dek = (r3, EnvOk (cd, nd))"
    using keys(2) r2 by (auto simp: aesGCMEncrypt_def read_full_def)
  note d1 = aesGCM_inverse [OF G s1] and d2 = aesGCM_inverse [OF G s2]
  show ?thesis
    using r s1 s2 d1 d2 read_full_Inr [OF r(1)] by (simp add: Encrypt_def Decrypt_def)
qed

text \<open>The identity cipher of a toy implementation, for a concrete instance.\<close>

definition demo_gcm :: gcm where
  "demo_gcm = \<lparr>gcm_seal = \<lambda>key nonce p. nonce @ p, gcm_open = \<lambda>key nonce c. Some (drop (length nonce) c)\<rparr>"

theorem envelope_roundtrip_witness:
  "\<exists>rnd' env. Encrypt demo_gcm (replicate 56 (CHR ''r'')) \<lparr>masterKey = replicate 32 (char_of (0 :: nat))\<rparr> ''token'' = (rnd', EnvOk env) \<and>
     Decrypt demo_gcm \<lparr>masterKey = replicate 32 (char_of (0 :: nat))\<rparr> (Some env) = EnvOk ''token''"
proof -
  have hex: "hex_decode (replicate (2 * n) (CHR ''0'')) = Inr (replicate n (char_of (0 :: nat)))" for n
    by (induction n) (simp_all add: hex_val_def)
  have "New_envelope (replicate 64 (CHR ''0'')) = Inr \<lparr>masterKey = replicate 32 (char_of (0 :: nat))\<rparr>"
    using hex [of 32] unfolding New_envelope_def keySize_def by simp
  moreover have "gcm_correct demo_gcm" by (simp add: gcm_correct_def demo_gcm_def)
  moreover have "length (replicate 56 (CHR ''r'')) \<ge> keySize + 2 * nonceSize"
    by (simp add: keySize_def nonceSize_def)
  ultimately show ?thesis
    using envelope_roundtrip [of demo_gcm "replicate 64 (CHR ''0'')"] by blast
qed

section \<open>Errors\<close>

text \<open>A nil envelope and a forged data key are errors; an envelope whose nonces are missing panics,
  because GCM refuses other nonce lengths that way.\<close>

lemma Decrypt_missing_nonce_panics:
  assumes "New_envelope k = Inr e" "length (DEKNonce env) \<noteq> nonceSize"
  shows "Decrypt G e (Some env) = EnvPanic"
  using assms New_envelope_key [OF assms(1)] by (simp add: Decrypt_def aesGCMDecrypt_def aes_key_ok_def keySize_def)

lemma map_sum_eq_Inr: "map_sum f g x = Inr b \<longleftrightarrow> (\<exists>y. x = Inr y \<and> b = g y)"
  by (cases x) auto

lemma New_envelope_wrong_length:
  assumes "length masterKeyHex \<noteq> 2 * keySize"
  shows "\<exists>err. New_envelope masterKeyHex = Inl err"
proof -
  have "hex_decode s = Inr b \<Longrightarrow> length s = 2 * length b" for s b
    by (induction s arbitrary: b rule: hex_decode.induct) (auto simp: map_sum_eq_Inr split: option.splits)
  with assms show ?thesis by (auto simp: New_envelope_def split: sum.split)
qed

end
