(* ===== verification/Request_Validation.thy ===== *)
theory Request_Validation
  imports Http_Core Envelope
begin

text \<open>
  Packages \<open>utils/validations\<close> and \<open>http/requestValidation\<close>. A DTO value is given by the tree
  \<open>reflect\<close> shows: pointers, structs, slices, maps; a node has a label and the receivers of its
  \<open>Transform\<close> method. The validator library, the request parsers, the default tags and the
  transforms themselves are parameters; the tree is that of the validated DTO, and transforms
  do not change which nodes it has. Trees are finite: a DTO with a cycle of pointers is outside the model.
  The theory shows that the recursive walk runs the transforms in post-order up to the first error,
  and what the middleware lets through.
\<close>

section \<open>validations: messages\<close>

record field_error =
  fe_Field :: string
  fe_ActualTag :: string
  fe_Param :: string
  fe_Kind :: string

datatype validator_error = ValidationErrors "field_error list" | OtherValidatorError string

definition isStringy :: "field_error \<Rightarrow> bool" where
  "isStringy fe \<longleftrightarrow> fe_Kind fe \<in> {''string'', ''slice'', ''map'', ''array''}"

text \<open>\<open>strings.ReplaceAll(param, " ", ", ")\<close>.\<close>

definition comma_separated :: "string \<Rightarrow> string" where
  "comma_separated s = concat (map (\<lambda>c. if c = CHR '' '' then '', '' else [c]) s)"

definition humanizeFieldError :: "field_error \<Rightarrow> string" where
  "humanizeFieldError fe =
     (let field = fe_Field fe; tag = fe_ActualTag fe; param = fe_Param fe;
          head = ''The field '' @ [CHR 0x27] @ field @ [CHR 0x27]
      in if tag = ''required'' then head @ '' is required.''
         else if tag = ''eqfield'' then head @ '' must be equal to the field '' @ [CHR 0x27] @ param @ [CHR 0x27] @ ''.''
         else if tag = ''nefield'' then head @ '' must be different from the field '' @ [CHR 0x27] @ param @ [CHR 0x27] @ ''.''
         else if tag = ''len'' then head @ '' must be exactly '' @ param @ '' characters long.''
         else if tag = ''min'' then
           (if isStringy fe then head @ '' must have at least '' @ param @ '' characters.''
            else head @ '' must be at least '' @ param @ ''.'')
         else if tag = ''max'' then
           (if isStringy fe then head @ '' must have at most '' @ param @ '' characters.''
            else head @ '' must be at most '' @ param @ ''.'')
         else if tag = ''gt'' then head @ '' must be greater than '' @ param @ ''.''
         else if tag = ''gte'' then head @ '' must be greater than or equal to '' @ param @ ''.''
         else if tag = ''lt'' then head @ '' must be less than '' @ param @ ''.''
         else if tag = ''lte'' then head @ '' must be less than or equal to '' @ param @ ''.''
         else if tag = ''email'' then head @ '' must be a valid email.''
         else if tag = ''alphanum'' then head @ '' must contain only alphanumeric characters.''
         else if tag = ''alpha'' then head @ '' must contain only letters.''
         else if tag = ''numeric'' then head @ '' must contain only numbers.''
         else if tag = ''boolean'' then head @ '' must be a boolean.''
         else if tag = ''url'' then head @ '' must be a valid URL.''
         else if tag = ''uuid'' then head @ '' must be a valid UUID.''
         else if tag = ''ipv4'' then head @ '' must be a valid IPv4 address.''
         else if tag = ''ipv6'' then head @ '' must be a valid IPv6 address.''
         else if tag = ''datetime'' then
           (if param \<noteq> [] then head @ '' must match the date/time format '' @ [CHR 0x27] @ param @ [CHR 0x27] @ ''.''
            else head @ '' must be a valid date/time.'')
         else if tag = ''oneof'' then head @ '' must be one of: '' @ comma_separated param @ ''.''
         else if tag = ''mongoid'' then head @ '' must be a valid MongoDB ObjectID (24 hex chars).''
         else if param \<noteq> [] then head @ '' is invalid ('' @ tag @ ''='' @ param @ '').''
         else head @ '' is invalid ('' @ tag @ '').'')"

definition formatValidationError :: "validator_error \<Rightarrow> string list" where
  "formatValidationError err =
     (case err of
        ValidationErrors ve \<Rightarrow> map humanizeFieldError ve
      | OtherValidatorError text \<Rightarrow> [text])"

text \<open>The result is the slice of messages, nil when validation succeeds.\<close>

definition ValidateStruct :: "('d \<Rightarrow> validator_error option) \<Rightarrow> 'd \<Rightarrow> string list option" where
  "ValidateStruct validator dto =
     (case validator dto of Some err \<Rightarrow> Some (formatValidationError err) | None \<Rightarrow> None)"

datatype parse_error = UnmarshalTypeError string string string | OtherParseError string

definition ParseTypeError :: "parse_error \<Rightarrow> string list" where
  "ParseTypeError err =
     (case err of
        UnmarshalTypeError field expected got \<Rightarrow>
          [''field '' @ field @ '' expected '' @ expected @ '' but came '' @ got]
      | OtherParseError text \<Rightarrow> [''erro de parsing: '' @ text])"

text \<open>The custom tag \<open>mongoid\<close>: \<open>^[a-fA-F0-9]{24}$\<close>.\<close>

definition mongoid_valid :: "string \<Rightarrow> bool" where
  "mongoid_valid s \<longleftrightarrow> length s = 24 \<and> list_all (\<lambda>c. hex_val c \<noteq> None) s"

section \<open>requestValidation: transforms\<close>

record 'l rtype_info =
  rt_label :: 'l
  rt_ptrTransform :: bool
  rt_valTransform :: bool

datatype 'l rvalue =
    RNil
  | RPtr "'l rvalue"
  | RIface "'l rvalue"
  | RStruct string "(bool \<times> 'l rvalue) list" "'l rtype_info"
  | RSlice "'l rvalue list" "'l rtype_info"
  | RArray "'l rvalue list" "'l rtype_info"
  | RMap "'l rvalue list" "'l rtype_info"
  | RScalar "'l rtype_info"

text \<open>The node's own \<open>Transform\<close>: through its address if it has one, otherwise only with a value receiver;
  the method set of a pointer includes the value receivers.\<close>

definition applicable :: "bool \<Rightarrow> 'l rtype_info \<Rightarrow> bool" where
  "applicable canAddr i \<longleftrightarrow> (canAddr \<and> (rt_ptrTransform i \<or> rt_valTransform i)) \<or> rt_valTransform i"

type_synonym ('l, 's) transform = "'l \<Rightarrow> 's \<Rightarrow> 's \<times> string option"

definition transform_self :: "('l, 's) transform \<Rightarrow> bool \<Rightarrow> 'l rtype_info \<Rightarrow> 's \<Rightarrow> 's \<times> string option" where
  "transform_self run canAddr i s = (if applicable canAddr i then run (rt_label i) s else (s, None))"

text \<open>The loops over children stop at the first error.\<close>

fun each :: "('x \<Rightarrow> 's \<Rightarrow> 's \<times> string option) \<Rightarrow> 'x list \<Rightarrow> 's \<Rightarrow> 's \<times> string option" where
  "each f [] s = (s, None)"
| "each f (x # xs) s = (case f x s of (s', Some err) \<Rightarrow> (s', Some err) | (s', None) \<Rightarrow> each f xs s')"

lemma each_cong [fundef_cong]:
  "xs = ys \<Longrightarrow> s = t \<Longrightarrow> (\<And>x s. x \<in> set ys \<Longrightarrow> f x s = g x s) \<Longrightarrow> each f xs s = each g ys t"
proof (induction xs arbitrary: ys s t)
  case (Cons x xs)
  then show ?case by (auto split: prod.splits option.splits)
qed simp

definition and_then :: "'s \<times> string option \<Rightarrow> ('s \<Rightarrow> 's \<times> string option) \<Rightarrow> 's \<times> string option" where
  "and_then r k = (case r of (s, Some err) \<Rightarrow> (s, Some err) | (s, None) \<Rightarrow> k s)"

fun walk :: "('l, 's) transform \<Rightarrow> bool \<Rightarrow> 'l rvalue \<Rightarrow> 's \<Rightarrow> 's \<times> string option" where
  "walk run canAddr RNil s = (s, None)"
| "walk run canAddr (RPtr v) s = walk run True v s"
| "walk run canAddr (RIface v) s = walk run False v s"
| "walk run canAddr (RStruct typeName flds i) s =
     (if typeName = ''time.Time'' then (s, None)
      else and_then
        (each (\<lambda>(exported, f) s. if \<not> exported then (s, None) else walk run canAddr f s) flds s)
        (transform_self run canAddr i))"
| "walk run canAddr (RSlice vs i) s = and_then (each (\<lambda>v s. walk run True v s) vs s) (transform_self run canAddr i)"
| "walk run canAddr (RArray vs i) s = and_then (each (\<lambda>v s. walk run canAddr v s) vs s) (transform_self run canAddr i)"
| "walk run canAddr (RMap vs i) s = and_then (each (\<lambda>v s. walk run False v s) vs s) (transform_self run canAddr i)"
| "walk run canAddr (RScalar i) s = transform_self run canAddr i s"

text \<open>A nil \<open>any\<close> is \<open>None\<close>; a value passed in an interface is not addressable.\<close>

definition runTransformsDeep :: "('l, 's) transform \<Rightarrow> 'l rvalue option \<Rightarrow> 's \<Rightarrow> 's \<times> string option" where
  "runTransformsDeep run v s = (case v of None \<Rightarrow> (s, None) | Some rv \<Rightarrow> walk run False rv s)"

section \<open>requestValidation: binding\<close>

datatype dto_arg = NilArg | PtrToStruct string | OtherArg

text \<open>\<open>getType\<close> panics on anything but nil or a pointer to a struct.\<close>

definition getType :: "dto_arg \<Rightarrow> string option option" where
  "getType dto = (case dto of NilArg \<Rightarrow> Some None | PtrToStruct t \<Rightarrow> Some (Some t) | OtherArg \<Rightarrow> None)"

record Validation =
  bodyType :: "string option"
  queryType :: "string option"
  paramsType :: "string option"

definition NewValidation :: "dto_arg \<Rightarrow> dto_arg \<Rightarrow> dto_arg \<Rightarrow> Validation option" where
  "NewValidation bodyDTO queryDTO paramsDTO =
     (case (getType bodyDTO, getType queryDTO, getType paramsDTO) of
        (Some b, Some q, Some p) \<Rightarrow> Some \<lparr>bodyType = b, queryType = q, paramsType = p\<rparr>
      | _ \<Rightarrow> None)"

record ('d, 'l) binding =
  bd_zero :: "string \<Rightarrow> 'd"
  bd_defaults :: "'d \<Rightarrow> 'd \<times> string option"
  bd_validate :: "'d \<Rightarrow> validator_error option"
  bd_reflect :: "'d \<Rightarrow> 'l rvalue option"
  bd_transform :: "('l, 'd) transform"

text \<open>The result is the DTO as it is left and the messages, nil (\<open>None\<close>) when all went well.\<close>

definition validateAndBind ::
  "('d, 'l) binding \<Rightarrow> ('d \<Rightarrow> 'd \<times> parse_error option) \<Rightarrow> 'd \<Rightarrow> 'd \<times> string list option" where
  "validateAndBind B parser dto =
     (case parser dto of
        (dto, Some err) \<Rightarrow> (dto, Some (ParseTypeError err))
      | (dto, None) \<Rightarrow>
          (case bd_defaults B dto of
             (dto, Some err) \<Rightarrow> (dto, Some [''Internal error while setting default values''])
           | (dto, None) \<Rightarrow>
               (case ValidateStruct (bd_validate B) dto of
                  Some errs \<Rightarrow> (dto, Some errs)
                | None \<Rightarrow>
                    (case runTransformsDeep (bd_transform B) (bd_reflect B dto) dto of
                       (dto, Some err) \<Rightarrow> (dto, Some [err])
                     | (dto, None) \<Rightarrow> (dto, None)))))"

definition prefixErrors :: "string \<Rightarrow> string list \<Rightarrow> string list" where
  "prefixErrors context errs = map (\<lambda>err. ''['' @ context @ ''] '' @ err) errs"

text \<open>The middleware over the three parts of a request; the locals map names to DTOs.\<close>

record 'd request_parsers =
  rp_Body :: "'d \<Rightarrow> 'd \<times> parse_error option"
  rp_Query :: "'d \<Rightarrow> 'd \<times> parse_error option"
  rp_Params :: "'d \<Rightarrow> 'd \<times> parse_error option"

type_synonym 'd dto_locals = "string \<rightharpoonup> 'd"

definition bind_part ::
  "('d, 'l) binding \<Rightarrow> string option \<Rightarrow> ('d \<Rightarrow> 'd \<times> parse_error option) \<Rightarrow> string \<Rightarrow> string \<Rightarrow>
     'd dto_locals \<Rightarrow> string list + 'd dto_locals" where
  "bind_part B ty parser context key locals =
     (case ty of
        None \<Rightarrow> Inr locals
      | Some t \<Rightarrow>
          (case validateAndBind B parser (bd_zero B t) of
             (dto, errs) \<Rightarrow>
               (let es = (case errs of None \<Rightarrow> [] | Some es \<Rightarrow> es) in
                if es \<noteq> [] then Inl (prefixErrors context es) else Inr (locals(key \<mapsto> dto)))))"

definition ValidationMiddleware ::
  "('d, 'l) binding \<Rightarrow> Validation \<Rightarrow> 'd request_parsers \<Rightarrow> 'd dto_locals \<Rightarrow> 'n Response + 'd dto_locals" where
  "ValidationMiddleware B v P locals =
     (case bind_part B (bodyType v) (rp_Body P) ''BODY_VALIDATION'' ''bodyDTO'' locals of
        Inl errs \<Rightarrow> Inl (BadRequest errs)
      | Inr l1 \<Rightarrow>
          (case bind_part B (queryType v) (rp_Query P) ''QUERY_VALIDATION'' ''queryDTO'' l1 of
             Inl errs \<Rightarrow> Inl (BadRequest errs)
           | Inr l2 \<Rightarrow>
               (case bind_part B (paramsType v) (rp_Params P) ''PARAMS_VALIDATION'' ''paramsDTO'' l2 of
                  Inl errs \<Rightarrow> Inl (BadRequest errs)
                | Inr l3 \<Rightarrow> Inr l3)))"

text \<open>\<open>GetDTO\<close>; \<open>as_T\<close> is the type assertion.\<close>

definition GetDTO :: "('d \<Rightarrow> 't option) \<Rightarrow> 'd dto_locals \<Rightarrow> string \<Rightarrow> string + 't" where
  "GetDTO as_T locals key =
     (case Option.bind (locals key) as_T of
        None \<Rightarrow> Inl (''H130: invalid or missing '' @ key)
      | Some dto \<Rightarrow> Inr dto)"

section \<open>Package validator\<close>

text \<open>The same steps without HTTP: its walk has no exception for \<open>time.Time\<close>.\<close>

fun vwalk :: "('l, 's) transform \<Rightarrow> bool \<Rightarrow> 'l rvalue \<Rightarrow> 's \<Rightarrow> 's \<times> string option" where
  "vwalk run canAddr RNil s = (s, None)"
| "vwalk run canAddr (RPtr v) s = vwalk run True v s"
| "vwalk run canAddr (RIface v) s = vwalk run False v s"
| "vwalk run canAddr (RStruct typeName flds i) s =
     and_then
       (each (\<lambda>(exported, f) s. if \<not> exported then (s, None) else vwalk run canAddr f s) flds s)
       (transform_self run canAddr i)"
| "vwalk run canAddr (RSlice vs i) s = and_then (each (\<lambda>v s. vwalk run True v s) vs s) (transform_self run canAddr i)"
| "vwalk run canAddr (RArray vs i) s = and_then (each (\<lambda>v s. vwalk run canAddr v s) vs s) (transform_self run canAddr i)"
| "vwalk run canAddr (RMap vs i) s = and_then (each (\<lambda>v s. vwalk run False v s) vs s) (transform_self run canAddr i)"
| "vwalk run canAddr (RScalar i) s = transform_self run canAddr i s"

definition v_runTransformsDeep :: "('l, 's) transform \<Rightarrow> 'l rvalue option \<Rightarrow> 's \<Rightarrow> 's \<times> string option" where
  "v_runTransformsDeep run v s = (case v of None \<Rightarrow> (s, None) | Some rv \<Rightarrow> vwalk run False rv s)"

datatype validate_error =
    DtoNil | DtoNotPointerToStruct | UnmarshalFailed parse_error | DefaultsFailed string
  | ValidationFailed "string list" | TransformFailed string

definition validateDTOType :: "dto_arg \<Rightarrow> validate_error option" where
  "validateDTOType dto =
     (case dto of NilArg \<Rightarrow> Some DtoNil | PtrToStruct _ \<Rightarrow> None | OtherArg \<Rightarrow> Some DtoNotPointerToStruct)"

definition Validate :: "('d, 'l) binding \<Rightarrow> dto_arg \<Rightarrow> 'd \<Rightarrow> 'd \<times> validate_error option" where
  "Validate B arg dto =
     (case validateDTOType arg of
        Some err \<Rightarrow> (dto, Some err)
      | None \<Rightarrow>
          (case bd_defaults B dto of
             (dto, Some err) \<Rightarrow> (dto, Some (DefaultsFailed err))
           | (dto, None) \<Rightarrow>
               (case ValidateStruct (bd_validate B) dto of
                  Some errs \<Rightarrow> (dto, Some (ValidationFailed errs))
                | None \<Rightarrow>
                    (case v_runTransformsDeep (bd_transform B) (bd_reflect B dto) dto of
                       (dto, Some err) \<Rightarrow> (dto, Some (TransformFailed err))
                     | (dto, None) \<Rightarrow> (dto, None)))))"

definition UnmarshalAndValidate ::
  "('d, 'l) binding \<Rightarrow> ('d \<Rightarrow> 'd \<times> parse_error option) \<Rightarrow> dto_arg \<Rightarrow> 'd \<Rightarrow> 'd \<times> validate_error option" where
  "UnmarshalAndValidate B unmarshal arg dto =
     (case validateDTOType arg of
        Some err \<Rightarrow> (dto, Some err)
      | None \<Rightarrow>
          (case unmarshal dto of
             (dto, Some err) \<Rightarrow> (dto, Some (UnmarshalFailed err))
           | (dto, None) \<Rightarrow>
               (case bd_defaults B dto of
                  (dto, Some err) \<Rightarrow> (dto, Some (DefaultsFailed err))
                | (dto, None) \<Rightarrow>
                    (case ValidateStruct (bd_validate B) dto of
                       Some errs \<Rightarrow> (dto, Some (ValidationFailed errs))
                     | None \<Rightarrow>
                         (case v_runTransformsDeep (bd_transform B) (bd_reflect B dto) dto of
                            (dto, Some err) \<Rightarrow> (dto, Some (TransformFailed err))
                          | (dto, None) \<Rightarrow> (dto, None))))))"

section \<open>Post-order\<close>

text \<open>The specification: the labels of the nodes whose \<open>Transform\<close> applies, children before parents, and
  the transforms run in that order until one fails.\<close>

fun postorder :: "bool \<Rightarrow> 'l rvalue \<Rightarrow> 'l list" where
  "postorder canAddr RNil = []"
| "postorder canAddr (RPtr v) = postorder True v"
| "postorder canAddr (RIface v) = postorder False v"
| "postorder canAddr (RStruct typeName flds i) =
     (if typeName = ''time.Time'' then []
      else concat (map (\<lambda>(exported, f). if exported then postorder canAddr f else []) flds) @
        (if applicable canAddr i then [rt_label i] else []))"
| "postorder canAddr (RSlice vs i) = concat (map (postorder True) vs) @ (if applicable canAddr i then [rt_label i] else [])"
| "postorder canAddr (RArray vs i) = concat (map (postorder canAddr) vs) @ (if applicable canAddr i then [rt_label i] else [])"
| "postorder canAddr (RMap vs i) = concat (map (postorder False) vs) @ (if applicable canAddr i then [rt_label i] else [])"
| "postorder canAddr (RScalar i) = (if applicable canAddr i then [rt_label i] else [])"

lemma each_append: "each f (xs @ ys) s = and_then (each f xs s) (each f ys)"
  by (induction xs arbitrary: s) (auto simp: and_then_def split: prod.splits option.splits)

lemma each_concat:
  assumes "\<And>x s. x \<in> set xs \<Longrightarrow> f x s = each g (h x) s"
  shows "each f xs s = each g (concat (map h xs)) s"
  using assms
proof (induction xs arbitrary: s)
  case (Cons x xs)
  have "f x s = each g (h x) s" using Cons.prems by simp
  moreover have "each f xs s' = each g (concat (map h xs)) s'" for s' using Cons by simp
  ultimately show ?case by (simp add: each_append and_then_def)
qed simp

lemma transform_self_each: "transform_self run canAddr i = each run (if applicable canAddr i then [rt_label i] else [])"
  by (auto simp: transform_self_def fun_eq_iff split: prod.splits option.splits)

lemma walk_postorder: "walk run canAddr v s = each run (postorder canAddr v) s"
proof (induction run canAddr v s rule: walk.induct)
  case (4 run canAddr typeName flds i s)
  have "each (\<lambda>(exported, f) s. if \<not> exported then (s, None) else walk run canAddr f s) flds s =
      each run (concat (map (\<lambda>(exported, f). if exported then postorder canAddr f else []) flds)) s"
    if "typeName \<noteq> ''time.Time''"
    by (rule each_concat) (use 4 that in \<open>auto split: prod.splits\<close>)
  then show ?case by (auto simp: each_append transform_self_each simp del: if_split)
next
  case (5 run canAddr vs i s)
  then show ?case
    using each_concat [of vs "\<lambda>v s. walk run True v s" run "postorder True"] by (simp add: each_append transform_self_each)
next
  case (6 run canAddr vs i s)
  then show ?case
    using each_concat [of vs "\<lambda>v s. walk run canAddr v s" run "postorder canAddr"] by (simp add: each_append transform_self_each)
next
  case (7 run canAddr vs i s)
  then show ?case
    using each_concat [of vs "\<lambda>v s. walk run False v s" run "postorder False"] by (simp add: each_append transform_self_each)
qed (simp_all add: transform_self_each)

text \<open>
  The deep walk is a post-order traversal: \<open>runTransformsDeep\<close> runs exactly the transforms that apply,
  each once, those of the children before that of their parent, and stops at the first that fails.
\<close>

theorem runTransformsDeep_postorder:
  "runTransformsDeep run (Some v) s = each run (postorder False v) s"
  by (simp add: runTransformsDeep_def walk_postorder)

text \<open>Elements of a map are not addressable: a transform with a pointer receiver is not run on them, while
  behind a pointer it is.\<close>

lemma map_elements_skip_pointer_transforms:
  assumes "rt_ptrTransform i" "\<not> rt_valTransform i"
  shows "postorder canAddr (RMap [RScalar i] j) = (if applicable canAddr j then [rt_label j] else [])"
    "postorder canAddr (RMap [RPtr (RScalar i)] j) = rt_label i # (if applicable canAddr j then [rt_label j] else [])"
  using assms by (simp_all add: applicable_def)

section \<open>What the middleware lets through\<close>

text \<open>A DTO that was parsed, completed with defaults, found valid and transformed.\<close>

definition accepted :: "('d, 'l) binding \<Rightarrow> ('d \<Rightarrow> 'd \<times> parse_error option) \<Rightarrow> string \<Rightarrow> 'd \<Rightarrow> bool" where
  "accepted B parser t d \<longleftrightarrow>
     (\<exists>d0 d1. parser (bd_zero B t) = (d0, None) \<and> bd_defaults B d0 = (d1, None) \<and> bd_validate B d1 = None \<and>
        (case bd_reflect B d1 of None \<Rightarrow> d = d1
         | Some v \<Rightarrow> each (bd_transform B) (postorder False v) d1 = (d, None)))"

text \<open>The validator reports no error as nil, never as an empty list.\<close>

definition validator_ok :: "('d, 'l) binding \<Rightarrow> bool" where
  "validator_ok B \<longleftrightarrow> (\<forall>d. bd_validate B d \<noteq> Some (ValidationErrors []))"

lemma formatValidationError_not_Nil: "err \<noteq> ValidationErrors [] \<Longrightarrow> formatValidationError err \<noteq> []"
  by (cases err) (auto simp: formatValidationError_def)

lemma ParseTypeError_not_Nil: "ParseTypeError err \<noteq> []"
  by (cases err) (simp_all add: ParseTypeError_def)

lemma validateAndBind_cases:
  assumes "validator_ok B"
  shows "(\<exists>d. validateAndBind B parser (bd_zero B t) = (d, None) \<and> accepted B parser t d) \<or>
    (\<exists>d es. validateAndBind B parser (bd_zero B t) = (d, Some es) \<and> es \<noteq> [])"
proof -
  have ok: "bd_validate B d = Some err \<Longrightarrow> formatValidationError err \<noteq> []" for d err
    using assms by (auto simp: validator_ok_def intro!: formatValidationError_not_Nil)
  obtain d0 e0 where p: "parser (bd_zero B t) = (d0, e0)" by (cases "parser (bd_zero B t)")
  obtain d1 e1 where q: "bd_defaults B d0 = (d1, e1)" by (cases "bd_defaults B d0")
  obtain d2 e2 where w: "runTransformsDeep (bd_transform B) (bd_reflect B d1) d1 = (d2, e2)"
    by (cases "runTransformsDeep (bd_transform B) (bd_reflect B d1) d1")
  show ?thesis
  proof (cases "e0 = None \<and> e1 = None \<and> bd_validate B d1 = None \<and> e2 = None")
    case True
    then have "accepted B parser t d2"
      using p q w by (auto simp: accepted_def runTransformsDeep_def walk_postorder split: option.splits)
    then show ?thesis using True p q w by (auto simp: validateAndBind_def ValidateStruct_def)
  next
    case False
    then show ?thesis
      using p q w ok ParseTypeError_not_Nil
      by (auto simp: validateAndBind_def ValidateStruct_def split: option.splits)
  qed
qed

lemma bind_part_cases:
  assumes "validator_ok B"
  shows "(case bind_part B ty parser ctx key locals of
      Inr l \<Rightarrow> (case ty of None \<Rightarrow> l = locals | Some t \<Rightarrow> (\<exists>d. accepted B parser t d \<and> l = locals(key \<mapsto> d)))
    | Inl errs \<Rightarrow> errs \<noteq> [] \<and> (\<forall>e\<in>set errs. has_prefix e (''['' @ ctx @ ''] '')))"
proof (cases ty)
  case (Some t)
  from validateAndBind_cases [OF assms, of parser t] show ?thesis
    by (auto simp: bind_part_def Some prefixErrors_def has_prefix_def)
qed (simp add: bind_part_def)

text \<open>
  C9. The handlers behind \<open>ValidationMiddleware\<close> only see validated input. A request passes exactly with
  the DTOs of the configured parts in its locals, each parsed, completed with defaults, valid and
  transformed; otherwise the reply is 400 with at least one message, marked with the part it is about.
\<close>

theorem ValidationMiddleware_sound:
  assumes ok: "validator_ok B"
  shows "case ValidationMiddleware B v P locals of
      Inr l \<Rightarrow>
        (\<forall>t. bodyType v = Some t \<longrightarrow> (\<exists>d. accepted B (rp_Body P) t d \<and> l ''bodyDTO'' = Some d)) \<and>
        (\<forall>t. queryType v = Some t \<longrightarrow> (\<exists>d. accepted B (rp_Query P) t d \<and> l ''queryDTO'' = Some d)) \<and>
        (\<forall>t. paramsType v = Some t \<longrightarrow> (\<exists>d. accepted B (rp_Params P) t d \<and> l ''paramsDTO'' = Some d))
    | Inl r \<Rightarrow> Status (r :: 'n Response) = 400 \<and> (\<exists>es. Errors r = Some es \<and> es \<noteq> [] \<and>
        (\<exists>part \<in> {''BODY_VALIDATION'', ''QUERY_VALIDATION'', ''PARAMS_VALIDATION''}.
           \<forall>e\<in>set es. has_prefix e (''['' @ part @ ''] '')))"
proof -
  note parts = bind_part_cases [OF ok, where ty = "bodyType v" and parser = "rp_Body P" and ctx = "''BODY_VALIDATION''" and key = "''bodyDTO''"]
    bind_part_cases [OF ok, where ty = "queryType v" and parser = "rp_Query P" and ctx = "''QUERY_VALIDATION''" and key = "''queryDTO''"]
    bind_part_cases [OF ok, where ty = "paramsType v" and parser = "rp_Params P" and ctx = "''PARAMS_VALIDATION''" and key = "''paramsDTO''"]
  show ?thesis
  proof (cases "bind_part B (bodyType v) (rp_Body P) ''BODY_VALIDATION'' ''bodyDTO'' locals")
    case (Inl errs)
    then show ?thesis using parts(1) [of locals] by (auto simp: ValidationMiddleware_def BadRequest_def)
  next
    case b: (Inr l1)
    show ?thesis
    proof (cases "bind_part B (queryType v) (rp_Query P) ''QUERY_VALIDATION'' ''queryDTO'' l1")
      case (Inl errs)
      then show ?thesis using b parts(2) [of l1] by (auto simp: ValidationMiddleware_def BadRequest_def)
    next
      case q: (Inr l2)
      show ?thesis
      proof (cases "bind_part B (paramsType v) (rp_Params P) ''PARAMS_VALIDATION'' ''paramsDTO'' l2")
        case (Inl errs)
        then show ?thesis using b q parts(3) [of l2] by (auto simp: ValidationMiddleware_def BadRequest_def)
      next
        case (Inr l3)
        then show ?thesis
          using b q parts(1) [of locals] parts(2) [of l1] parts(3) [of l2]
          by (auto simp: ValidationMiddleware_def split: option.splits)
      qed
    qed
  qed
qed

definition demo_binding :: "(string, unit) binding" where
  "demo_binding = \<lparr>bd_zero = \<lambda>_. [], bd_defaults = \<lambda>d. (d, None),
     bd_validate = \<lambda>d. if d = [] then Some (ValidationErrors [\<lparr>fe_Field = ''Name'', fe_ActualTag = ''required'', fe_Param = [], fe_Kind = ''string''\<rparr>]) else None,
     bd_reflect = \<lambda>_. None, bd_transform = \<lambda>_ d. (d, None)\<rparr>"

theorem ValidationMiddleware_sound_witness:
  "(ValidationMiddleware demo_binding \<lparr>bodyType = Some ''T'', queryType = None, paramsType = None\<rparr>
      \<lparr>rp_Body = \<lambda>_. (''x'', None), rp_Query = \<lambda>d. (d, None), rp_Params = \<lambda>d. (d, None)\<rparr> Map.empty :: unit Response + string dto_locals) =
     Inr [''bodyDTO'' \<mapsto> ''x''] \<and>
   (\<exists>d. accepted demo_binding (\<lambda>_. (''x'', None)) ''T'' d)"
proof -
  let ?v = "\<lparr>bodyType = Some ''T'', queryType = None, paramsType = None\<rparr>"
  let ?P = "\<lparr>rp_Body = \<lambda>_. (''x'', None), rp_Query = \<lambda>d. (d, None), rp_Params = \<lambda>d. (d, None)\<rparr>"
  have ok: "validator_ok demo_binding" by (simp add: validator_ok_def demo_binding_def)
  have "(ValidationMiddleware demo_binding ?v ?P Map.empty :: unit Response + string dto_locals) = Inr [''bodyDTO'' \<mapsto> ''x'']"
    by (simp add: ValidationMiddleware_def bind_part_def validateAndBind_def demo_binding_def ValidateStruct_def runTransformsDeep_def)
  with ValidationMiddleware_sound [OF ok, of ?v ?P Map.empty, where 'n = unit] show ?thesis by auto
qed

section \<open>Both packages validate alike\<close>

text \<open>What \<open>reflect\<close> shows of a \<open>time.Time\<close>: no exported field and no \<open>Transform\<close>.\<close>

fun opaque_times :: "'l rvalue \<Rightarrow> bool" where
  "opaque_times RNil = True"
| "opaque_times (RPtr v) = opaque_times v"
| "opaque_times (RIface v) = opaque_times v"
| "opaque_times (RStruct typeName flds i) =
     ((typeName = ''time.Time'' \<longrightarrow> list_all (\<lambda>(exported, f). \<not> exported) flds \<and> \<not> rt_ptrTransform i \<and> \<not> rt_valTransform i) \<and>
      list_all (\<lambda>(exported, f). opaque_times f) flds)"
| "opaque_times (RSlice vs i) = list_all opaque_times vs"
| "opaque_times (RArray vs i) = list_all opaque_times vs"
| "opaque_times (RMap vs i) = list_all opaque_times vs"
| "opaque_times (RScalar i) = True"

lemma each_skip: "(\<And>x s. x \<in> set xs \<Longrightarrow> f x s = (s, None)) \<Longrightarrow> each f xs s = (s, None)"
  by (induction xs) simp_all

lemma vwalk_walk: "opaque_times v \<Longrightarrow> vwalk run canAddr v s = walk run canAddr v s"
proof (induction run canAddr v s rule: vwalk.induct)
  case (4 run canAddr typeName flds i s)
  show ?case
  proof (cases "typeName = ''time.Time''")
    case True
    then have "each (\<lambda>(exported, f) s. if \<not> exported then (s, None) else vwalk run canAddr f s) flds s = (s, None)"
      using 4(2) by (intro each_skip) (auto simp: list_all_iff)
    then show ?thesis
      using True 4(2) by (simp add: and_then_def transform_self_def applicable_def)
  next
    case False
    have "each (\<lambda>(exported, f) s. if \<not> exported then (s, None) else vwalk run canAddr f s) flds s =
        each (\<lambda>(exported, f) s. if \<not> exported then (s, None) else walk run canAddr f s) flds s"
      using 4 by (intro each_cong refl) (fastforce simp: list_all_iff)
    then show ?thesis using False by simp
  qed
next
  case (5 run canAddr vs i s)
  then have "each (\<lambda>v s. vwalk run True v s) vs s = each (\<lambda>v s. walk run True v s) vs s"
    by (intro each_cong refl) (auto simp: list_all_iff)
  then show ?case by simp
next
  case (6 run canAddr vs i s)
  then have "each (\<lambda>v s. vwalk run canAddr v s) vs s = each (\<lambda>v s. walk run canAddr v s) vs s"
    by (intro each_cong refl) (auto simp: list_all_iff)
  then show ?case by simp
next
  case (7 run canAddr vs i s)
  then have "each (\<lambda>v s. vwalk run False v s) vs s = each (\<lambda>v s. walk run False v s) vs s"
    by (intro each_cong refl) (auto simp: list_all_iff)
  then show ?case by simp
qed simp_all

text \<open>
  The two copies of the validation agree. For a pointer to a struct, whatever the input,
  \<open>UnmarshalAndValidate\<close> accepts exactly the DTOs that \<open>validateAndBind\<close> accepts and leaves them in the
  same state, accepted or not.
\<close>

theorem validators_agree:
  assumes "\<And>d v. bd_reflect B d = Some v \<Longrightarrow> opaque_times v"
  shows "fst (UnmarshalAndValidate B parser (PtrToStruct t) dto) = fst (validateAndBind B parser dto) \<and>
    (snd (UnmarshalAndValidate B parser (PtrToStruct t) dto) = None \<longleftrightarrow> snd (validateAndBind B parser dto) = None)"
proof -
  have same: "v_runTransformsDeep run (bd_reflect B d) = runTransformsDeep run (bd_reflect B d)" for run :: "('b, 'a) transform" and d
    using assms by (auto simp: v_runTransformsDeep_def runTransformsDeep_def vwalk_walk fun_eq_iff split: option.splits)
  show ?thesis
    by (simp add: UnmarshalAndValidate_def validateAndBind_def validateDTOType_def same split: prod.split option.split)
qed

theorem validators_agree_witness:
  "snd (UnmarshalAndValidate demo_binding (\<lambda>_. ([], None)) (PtrToStruct ''T'') []) \<noteq> None \<and>
   snd (validateAndBind demo_binding (\<lambda>_. ([], None)) []) \<noteq> None"
  using validators_agree [of demo_binding "\<lambda>_. ([], None)" "''T''" "[]"]
  by (simp add: demo_binding_def validateAndBind_def ValidateStruct_def)

end
