(* ===== verification/Ip_Whitelist.thy ===== *)
theory Ip_Whitelist
  imports Kit_Prelude
begin

text \<open>
  The address whitelist of \<open>http/auth/ipWhiteList.go\<close>. An address is an IPv4 address of 32 bits or an
  IPv6 address of 128 bits; parsing of addresses and networks and the name resolution of Go's
  package \<open>net\<close> are parameters. An IPv4-mapped IPv6 address is treated as the IPv4 address.
\<close>

unbundle bit_operations_syntax

datatype ip = V4 "32 word" | V6 "128 word"

text \<open>\<open>To4\<close>: the address \<open>::ffff:a.b.c.d\<close> is \<open>a.b.c.d\<close>.\<close>

definition mapped :: "128 word \<Rightarrow> bool" where
  "mapped w \<longleftrightarrow> drop_bit 32 w = 0xFFFF"

definition To4 :: "ip \<Rightarrow> 32 word option" where
  "To4 a = (case a of V4 w \<Rightarrow> Some w | V6 w \<Rightarrow> if mapped w then Some (ucast w) else None)"

definition normalize :: "ip \<Rightarrow> ip" where
  "normalize a = (case To4 a of Some w \<Rightarrow> V4 w | None \<Rightarrow> a)"

text \<open>\<open>IsLoopback\<close> and \<open>IP.Equal\<close>, which compares an IPv4 address with its mapped form.\<close>

definition IsLoopback :: "ip \<Rightarrow> bool" where
  "IsLoopback a = (case To4 a of Some w \<Rightarrow> drop_bit 24 w = 127 | None \<Rightarrow> a = V6 1)"

definition ip_equal :: "ip \<Rightarrow> ip \<Rightarrow> bool" where
  "ip_equal a b \<longleftrightarrow> normalize a = normalize b"

text \<open>A network is an address and a prefix length of its family; \<open>Contains\<close> compares the leading bits,
  after reducing the address to IPv4 if possible, and is false for another family.\<close>

datatype ip_net = Net4 "32 word" nat | Net6 "128 word" nat

definition Contains :: "ip_net \<Rightarrow> ip \<Rightarrow> bool" where
  "Contains n a =
     (case n of
        Net4 w k \<Rightarrow> (case normalize a of V4 x \<Rightarrow> drop_bit (32 - k) x = drop_bit (32 - k) w | V6 _ \<Rightarrow> False)
      | Net6 w k \<Rightarrow> (case normalize a of V6 x \<Rightarrow> drop_bit (128 - k) x = drop_bit (128 - k) w | V4 _ \<Rightarrow> False))"

record net_lib =
  net_ParseIP :: "string \<Rightarrow> ip option"
  net_ParseCIDR :: "string \<Rightarrow> ip_net option"
  net_LookupIP :: "string \<Rightarrow> ip list"

definition hasLetters :: "string \<Rightarrow> bool" where
  "hasLetters s \<longleftrightarrow> (\<exists>c\<in>set s. let n = of_char c :: nat in (65 \<le> n \<and> n \<le> 90) \<or> (97 \<le> n \<and> n \<le> 122))"

text \<open>One turn of the loop: whether the entry lets the client in. An entry \<open>localhost\<close> that does not match
  by the loopback test is still parsed and resolved like any other.\<close>

definition entry_allows :: "net_lib \<Rightarrow> ip \<Rightarrow> string \<Rightarrow> bool" where
  "entry_allows N clientIP raw =
     (let entry = trim_space raw in
      if entry = [] then False
      else if (entry = ''localhost'' \<or> entry = ''loopback'') \<and> IsLoopback clientIP then True
      else
        (case net_ParseCIDR N entry of
           Some ipNet \<Rightarrow> Contains ipNet clientIP
         | None \<Rightarrow>
             (case net_ParseIP N entry of
                Some parsed \<Rightarrow> ip_equal (normalize parsed) clientIP
              | None \<Rightarrow>
                  hasLetters entry \<and> (\<exists>a\<in>set (net_LookupIP N entry). ip_equal (normalize a) clientIP))))"

fun any_entry :: "net_lib \<Rightarrow> ip \<Rightarrow> string list \<Rightarrow> bool" where
  "any_entry N clientIP [] = False"
| "any_entry N clientIP (raw # entries) = (if entry_allows N clientIP raw then True else any_entry N clientIP entries)"

definition ValidateIPWhitelist :: "net_lib \<Rightarrow> string \<Rightarrow> string list \<Rightarrow> bool" where
  "ValidateIPWhitelist N remote allowedIPs =
     (case net_ParseIP N remote of
        None \<Rightarrow> False
      | Some clientIP \<Rightarrow> any_entry N (normalize clientIP) allowedIPs)"

section \<open>Soundness\<close>

lemma any_entry_iff: "any_entry N a entries \<longleftrightarrow> (\<exists>raw\<in>set entries. entry_allows N a raw)"
  by (induction entries) auto

lemma normalize_idem [simp]: "normalize (normalize a) = normalize a"
  by (auto simp: normalize_def To4_def split: ip.splits option.splits if_splits)

lemma normalize_same: "IsLoopback (normalize c) = IsLoopback c" "Contains n (normalize c) = Contains n c"
  by (auto simp: IsLoopback_def Contains_def normalize_def To4_def split: ip.splits ip_net.splits option.splits if_splits)

lemma entry_allows_iff:
  "entry_allows N (normalize c) raw \<longleftrightarrow>
     (let entry = trim_space raw in entry \<noteq> [] \<and>
       (entry \<in> {''localhost'', ''loopback''} \<and> IsLoopback c \<or>
        (\<exists>n. net_ParseCIDR N entry = Some n \<and> Contains n c) \<or>
        net_ParseCIDR N entry = None \<and>
          ((\<exists>p. net_ParseIP N entry = Some p \<and> normalize p = normalize c) \<or>
           net_ParseIP N entry = None \<and> hasLetters entry \<and>
             (\<exists>a\<in>set (net_LookupIP N entry). normalize a = normalize c))))"
proof -
  define entry where "entry = trim_space raw"
  show ?thesis
    unfolding entry_allows_def Let_def ip_equal_def normalize_same normalize_idem entry_def [symmetric]
    by (cases "net_ParseCIDR N entry"; cases "net_ParseIP N entry") auto
qed

text \<open>
  Only listed addresses pass. A client is admitted exactly if its address parses and some entry, up to
  surrounding blanks, denotes it: the loopback names for a loopback address, a network that contains it,
  an address equal to it, or a host name that resolves to it; an IPv4 client is judged the same whether
  its address arrives as IPv4 or mapped into IPv6. An empty whitelist admits nobody.
\<close>

theorem ValidateIPWhitelist_iff:
  "ValidateIPWhitelist N remote allowed \<longleftrightarrow>
     (\<exists>c. net_ParseIP N remote = Some c \<and>
       (\<exists>raw\<in>set allowed. let entry = trim_space raw in entry \<noteq> [] \<and>
         (entry \<in> {''localhost'', ''loopback''} \<and> IsLoopback c \<or>
          (\<exists>n. net_ParseCIDR N entry = Some n \<and> Contains n c) \<or>
          net_ParseCIDR N entry = None \<and>
            ((\<exists>p. net_ParseIP N entry = Some p \<and> normalize p = normalize c) \<or>
             net_ParseIP N entry = None \<and> hasLetters entry \<and>
               (\<exists>a\<in>set (net_LookupIP N entry). normalize a = normalize c)))))"
  unfolding ValidateIPWhitelist_def any_entry_iff entry_allows_iff by (auto simp: Let_def split: option.split)

end
