(* ===== verification/Minio_Client.thy ===== *)
theory Minio_Client
  imports Kit_Prelude
begin

text \<open>
  The object storage client of \<open>infrastructure/minio\<close>. The storage server behind minio-go is a
  parameter: it executes one request at a time on its state and replies. The theory shows
  that a client with a key prefix only addresses keys under that prefix, that what was put is
  what is got, and what listing returns.
\<close>

section \<open>types.go, constants.go, errors.go\<close>

record MinIOClient =
  mc_bucketName :: string
  mc_keyPrefix :: string

record MinioConfig =
  mcf_Endpoint :: string
  mcf_AccessKeyID :: string
  mcf_SecretAccessKey :: string
  mcf_BucketName :: string
  mcf_KeyPrefix :: string
  mcf_UseSSL :: bool
  mcf_Region :: string

record PutOptions =
  po_ContentType :: string
  po_UserMetadata :: "(string \<times> string) list"
  po_CacheControl :: string
  po_Expires :: "int option"

record MinioObjectInfo =
  mi_Key :: string
  mi_Size :: int
  mi_LastModified :: int
  mi_ETag :: string
  mi_ContentType :: string
  mi_UserMetadata :: "(string \<times> string) list"

record GetResult =
  gr_Data :: string
  gr_ContentType :: string
  gr_Size :: int
  gr_LastModified :: int
  gr_ETag :: string
  gr_UserMetadata :: "(string \<times> string) list"

record ObjectInfo =
  oi_Key :: string
  oi_Size :: int
  oi_LastModified :: int
  oi_ETag :: string
  oi_ContentType :: string

record ListOptions =
  lo_Prefix :: string
  lo_Recursive :: bool
  lo_MaxKeys :: int

definition ContentTypeJSON :: string where "ContentTypeJSON = ''application/json''"
definition ContentTypeBinary :: string where "ContentTypeBinary = ''application/octet-stream''"
definition DefaultRegion :: string where "DefaultRegion = ''us-east-1''"

text \<open>An error of the SDK: a server response with a code, or anything else.\<close>

datatype sdk_error = ErrorResponse string | OtherSdkError string

datatype minio_error =
    ErrObjectNotFound | ErrInvalidConfig string | ErrNilData | ErrEmptyKey | ErrConnectionFailed sdk_error
  | ErrUploadFailed sdk_error | ErrDownloadFailed sdk_error | ErrSdk sdk_error

text \<open>The options the SDK takes; the content is given as the bytes the reader delivers, with the size
  announced.\<close>

record SdkPutOptions =
  sp_ContentType :: string
  sp_UserMetadata :: "(string \<times> string) list"
  sp_CacheControl :: string
  sp_Expires :: "int option"

datatype store_cmd =
    PutObject string string string int SdkPutOptions
  | OpenObject string string
  | StatOpened string string
  | ReadOpened string string
  | RemoveObject string string
  | StatObject string string
  | ListObjects string string bool
  | CopyObject string string string
  | ListBuckets
  | BucketExists string

datatype store_reply =
    SDone | SInfo MinioObjectInfo | SData string | SList "(sdk_error + MinioObjectInfo) list" | SBool bool

type_synonym 's store = "store_cmd \<Rightarrow> 's \<Rightarrow> 's \<times> (sdk_error + store_reply)"

section \<open>internals.go\<close>

definition prefixKey :: "MinIOClient \<Rightarrow> string \<Rightarrow> string" where
  "prefixKey m key =
     (if mc_keyPrefix m = [] then key
      else if last (mc_keyPrefix m) = CHR ''/'' then mc_keyPrefix m @ key
      else mc_keyPrefix m @ ''/'' @ key)"

definition buildPutOptions :: "PutOptions option \<Rightarrow> SdkPutOptions" where
  "buildPutOptions opts =
     (case opts of
        None \<Rightarrow> \<lparr>sp_ContentType = ContentTypeBinary, sp_UserMetadata = [], sp_CacheControl = [], sp_Expires = None\<rparr>
      | Some p \<Rightarrow>
          (let putOpts = \<lparr>sp_ContentType = po_ContentType p, sp_UserMetadata = po_UserMetadata p,
                 sp_CacheControl = po_CacheControl p, sp_Expires = None\<rparr>;
               putOpts = (if po_ContentType p = [] then putOpts\<lparr>sp_ContentType := ContentTypeBinary\<rparr> else putOpts)
           in case po_Expires p of None \<Rightarrow> putOpts | Some e \<Rightarrow> putOpts\<lparr>sp_Expires := Some e\<rparr>))"

definition convertObjectInfo :: "MinioObjectInfo \<Rightarrow> ObjectInfo" where
  "convertObjectInfo info = \<lparr>oi_Key = mi_Key info, oi_Size = mi_Size info, oi_LastModified = mi_LastModified info,
     oi_ETag = mi_ETag info, oi_ContentType = mi_ContentType info\<rparr>"

definition isNotFoundError :: "sdk_error \<Rightarrow> bool" where
  "isNotFoundError err = (case err of ErrorResponse c \<Rightarrow> c = ''NoSuchKey'' \<or> c = ''NoSuchBucket'' | _ \<Rightarrow> False)"

section \<open>minio.go\<close>

definition validateConfig :: "MinioConfig \<Rightarrow> string option" where
  "validateConfig config =
     (if mcf_Endpoint config = [] then Some ''endpoint is required''
      else if mcf_AccessKeyID config = [] then Some ''access key ID is required''
      else if mcf_SecretAccessKey config = [] then Some ''secret access key is required''
      else None)"

text \<open>\<open>create\<close> is \<open>minio.New\<close>, given the region.\<close>

definition New_minio :: "(string \<Rightarrow> sdk_error option) \<Rightarrow> 's store \<Rightarrow> MinioConfig \<Rightarrow> 's \<Rightarrow> 's \<times> (minio_error + MinIOClient)" where
  "New_minio create srv config s =
     (case validateConfig config of
        Some err \<Rightarrow> (s, Inl (ErrInvalidConfig err))
      | None \<Rightarrow>
          (case create (if mcf_Region config = [] then DefaultRegion else mcf_Region config) of
             Some err \<Rightarrow> (s, Inl (ErrConnectionFailed err))
           | None \<Rightarrow>
               (case srv ListBuckets s of
                  (s1, Inl err) \<Rightarrow> (s1, Inl (ErrConnectionFailed err))
                | (s1, Inr _) \<Rightarrow>
                    (let client = \<lparr>mc_bucketName = mcf_BucketName config, mc_keyPrefix = mcf_KeyPrefix config\<rparr> in
                     if mcf_BucketName config \<noteq> [] then
                       (case srv (BucketExists (mcf_BucketName config)) s1 of
                          (s2, Inl err) \<Rightarrow> (s2, Inl (ErrSdk err))
                        | (s2, Inr _) \<Rightarrow> (s2, Inr client))
                     else (s1, Inr client)))))"

definition GetBucketName :: "MinIOClient \<Rightarrow> string" where
  "GetBucketName m = mc_bucketName m"

definition Ping :: "'s store \<Rightarrow> 's \<Rightarrow> 's \<times> sdk_error option" where
  "Ping srv s = (case srv ListBuckets s of (s', Inl err) \<Rightarrow> (s', Some err) | (s', Inr _) \<Rightarrow> (s', None))"

section \<open>methods.go\<close>

text \<open>Nil data is \<open>None\<close>.\<close>

definition Put :: "'s store \<Rightarrow> MinIOClient \<Rightarrow> string \<Rightarrow> string option \<Rightarrow> PutOptions option \<Rightarrow> 's \<Rightarrow> 's \<times> minio_error option" where
  "Put srv m key data opts s =
     (if key = [] then (s, Some ErrEmptyKey)
      else
        (case data of
           None \<Rightarrow> (s, Some ErrNilData)
         | Some d \<Rightarrow>
             (case srv (PutObject (mc_bucketName m) (prefixKey m key) d (int (length d)) (buildPutOptions opts)) s of
                (s', Inl err) \<Rightarrow> (s', Some (ErrUploadFailed err))
              | (s', Inr _) \<Rightarrow> (s', None))))"

definition PutStream :: "'s store \<Rightarrow> MinIOClient \<Rightarrow> string \<Rightarrow> string \<Rightarrow> int \<Rightarrow> PutOptions option \<Rightarrow> 's \<Rightarrow> 's \<times> minio_error option" where
  "PutStream srv m key content sz opts s =
     (if key = [] then (s, Some ErrEmptyKey)
      else
        (case srv (PutObject (mc_bucketName m) (prefixKey m key) content sz (buildPutOptions opts)) s of
           (s', Inl err) \<Rightarrow> (s', Some (ErrUploadFailed err))
         | (s', Inr _) \<Rightarrow> (s', None)))"

definition download_error :: "sdk_error \<Rightarrow> minio_error" where
  "download_error err = (if isNotFoundError err then ErrObjectNotFound else ErrDownloadFailed err)"

definition Get_object :: "'s store \<Rightarrow> MinIOClient \<Rightarrow> string \<Rightarrow> 's \<Rightarrow> 's \<times> (minio_error + GetResult)" where
  "Get_object srv m key s =
     (if key = [] then (s, Inl ErrEmptyKey)
      else
        let k = prefixKey m key; b = mc_bucketName m in
        case srv (OpenObject b k) s of
          (s1, Inl err) \<Rightarrow> (s1, Inl (download_error err))
        | (s1, Inr _) \<Rightarrow>
            (case srv (StatOpened b k) s1 of
               (s2, Inl err) \<Rightarrow> (s2, Inl (download_error err))
             | (s2, Inr (SInfo info)) \<Rightarrow>
                 (case srv (ReadOpened b k) s2 of
                    (s3, Inl err) \<Rightarrow> (s3, Inl (ErrDownloadFailed err))
                  | (s3, Inr (SData d)) \<Rightarrow>
                      (s3, Inr \<lparr>gr_Data = d, gr_ContentType = mi_ContentType info, gr_Size = mi_Size info,
                         gr_LastModified = mi_LastModified info, gr_ETag = mi_ETag info,
                         gr_UserMetadata = mi_UserMetadata info\<rparr>)
                  | (s3, Inr _) \<Rightarrow> (s3, Inl (ErrDownloadFailed (OtherSdkError ''unexpected reply''))))
             | (s2, Inr _) \<Rightarrow> (s2, Inl (ErrDownloadFailed (OtherSdkError ''unexpected reply'')))))"

text \<open>The stream is the opened object; only its metadata are read.\<close>

definition GetStream :: "'s store \<Rightarrow> MinIOClient \<Rightarrow> string \<Rightarrow> 's \<Rightarrow> 's \<times> (minio_error + ObjectInfo)" where
  "GetStream srv m key s =
     (if key = [] then (s, Inl ErrEmptyKey)
      else
        let k = prefixKey m key; b = mc_bucketName m in
        case srv (OpenObject b k) s of
          (s1, Inl err) \<Rightarrow> (s1, Inl (download_error err))
        | (s1, Inr _) \<Rightarrow>
            (case srv (StatOpened b k) s1 of
               (s2, Inl err) \<Rightarrow> (s2, Inl (download_error err))
             | (s2, Inr (SInfo info)) \<Rightarrow> (s2, Inr (convertObjectInfo info))
             | (s2, Inr _) \<Rightarrow> (s2, Inl (ErrDownloadFailed (OtherSdkError ''unexpected reply'')))))"

definition Delete :: "'s store \<Rightarrow> MinIOClient \<Rightarrow> string \<Rightarrow> 's \<Rightarrow> 's \<times> minio_error option" where
  "Delete srv m key s =
     (if key = [] then (s, Some ErrEmptyKey)
      else
        (case srv (RemoveObject (mc_bucketName m) (prefixKey m key)) s of
           (s', Inl err) \<Rightarrow> (s', Some (ErrSdk err))
         | (s', Inr _) \<Rightarrow> (s', None)))"

definition Exists :: "'s store \<Rightarrow> MinIOClient \<Rightarrow> string \<Rightarrow> 's \<Rightarrow> 's \<times> (minio_error + bool)" where
  "Exists srv m key s =
     (if key = [] then (s, Inl ErrEmptyKey)
      else
        (case srv (StatObject (mc_bucketName m) (prefixKey m key)) s of
           (s', Inl err) \<Rightarrow> if isNotFoundError err then (s', Inr False) else (s', Inl (ErrSdk err))
         | (s', Inr _) \<Rightarrow> (s', Inr True)))"

definition Stat :: "'s store \<Rightarrow> MinIOClient \<Rightarrow> string \<Rightarrow> 's \<Rightarrow> 's \<times> (minio_error + ObjectInfo)" where
  "Stat srv m key s =
     (if key = [] then (s, Inl ErrEmptyKey)
      else
        (case srv (StatObject (mc_bucketName m) (prefixKey m key)) s of
           (s', Inl err) \<Rightarrow> if isNotFoundError err then (s', Inl ErrObjectNotFound) else (s', Inl (ErrSdk err))
         | (s', Inr (SInfo info)) \<Rightarrow> (s', Inr (convertObjectInfo info))
         | (s', Inr _) \<Rightarrow> (s', Inl (ErrSdk (OtherSdkError ''unexpected reply'')))))"

text \<open>The loop over the channel of \<open>ListObjects\<close>; \<open>limit\<close> is \<open>MaxKeys\<close> when options were given.\<close>

fun list_loop :: "int option \<Rightarrow> ObjectInfo list \<Rightarrow> (sdk_error + MinioObjectInfo) list \<Rightarrow> sdk_error + ObjectInfo list" where
  "list_loop limit objects [] = Inr objects"
| "list_loop limit objects (Inl err # rest) = Inl err"
| "list_loop limit objects (Inr obj # rest) =
     (let objects = objects @ [convertObjectInfo obj] in
      case limit of
        Some n \<Rightarrow> if n > 0 \<and> int (length objects) \<ge> n then Inr objects else list_loop limit objects rest
      | None \<Rightarrow> list_loop limit objects rest)"

definition List_objects :: "'s store \<Rightarrow> MinIOClient \<Rightarrow> ListOptions option \<Rightarrow> 's \<Rightarrow> 's \<times> (sdk_error + ObjectInfo list)" where
  "List_objects srv m opts s =
     (let pfx = (case opts of None \<Rightarrow> [] | Some p \<Rightarrow> prefixKey m (lo_Prefix p));
          recursive = (case opts of None \<Rightarrow> False | Some p \<Rightarrow> lo_Recursive p)
      in case srv (ListObjects (mc_bucketName m) pfx recursive) s of
           (s', Inl err) \<Rightarrow> (s', Inl err)
         | (s', Inr (SList objs)) \<Rightarrow> (s', list_loop (map_option lo_MaxKeys opts) [] objs)
         | (s', Inr _) \<Rightarrow> (s', Inl (OtherSdkError ''unexpected reply'')))"

definition Copy :: "'s store \<Rightarrow> MinIOClient \<Rightarrow> string \<Rightarrow> string \<Rightarrow> 's \<Rightarrow> 's \<times> minio_error option" where
  "Copy srv m srcKey dstKey s =
     (if srcKey = [] \<or> dstKey = [] then (s, Some ErrEmptyKey)
      else
        (case srv (CopyObject (mc_bucketName m) (prefixKey m dstKey) (prefixKey m srcKey)) s of
           (s', Inl err) \<Rightarrow> (s', Some (ErrSdk err))
         | (s', Inr _) \<Rightarrow> (s', None)))"

definition PutJSON :: "'s store \<Rightarrow> MinIOClient \<Rightarrow> string \<Rightarrow> string option \<Rightarrow> 's \<Rightarrow> 's \<times> minio_error option" where
  "PutJSON srv m key data s =
     Put srv m key data (Some \<lparr>po_ContentType = ContentTypeJSON, po_UserMetadata = [], po_CacheControl = [], po_Expires = None\<rparr>) s"

definition PutWithMetadata ::
  "'s store \<Rightarrow> MinIOClient \<Rightarrow> string \<Rightarrow> string option \<Rightarrow> string \<Rightarrow> (string \<times> string) list \<Rightarrow> 's \<Rightarrow> 's \<times> minio_error option" where
  "PutWithMetadata srv m key data contentType metadata s =
     Put srv m key data (Some \<lparr>po_ContentType = contentType, po_UserMetadata = metadata, po_CacheControl = [], po_Expires = None\<rparr>) s"

section \<open>Confinement\<close>

text \<open>The keys a request names, and a server that records its requests.\<close>

fun cmd_keys :: "store_cmd \<Rightarrow> string list" where
  "cmd_keys (PutObject b k d n p) = [k]"
| "cmd_keys (OpenObject b k) = [k]"
| "cmd_keys (StatOpened b k) = [k]"
| "cmd_keys (ReadOpened b k) = [k]"
| "cmd_keys (RemoveObject b k) = [k]"
| "cmd_keys (StatObject b k) = [k]"
| "cmd_keys (ListObjects b p r) = [p]"
| "cmd_keys (CopyObject b k k') = [k, k']"
| "cmd_keys ListBuckets = []"
| "cmd_keys (BucketExists b) = []"

fun cmd_bucket :: "store_cmd \<Rightarrow> string option" where
  "cmd_bucket (PutObject b k d n p) = Some b"
| "cmd_bucket (OpenObject b k) = Some b"
| "cmd_bucket (StatOpened b k) = Some b"
| "cmd_bucket (ReadOpened b k) = Some b"
| "cmd_bucket (RemoveObject b k) = Some b"
| "cmd_bucket (StatObject b k) = Some b"
| "cmd_bucket (ListObjects b p r) = Some b"
| "cmd_bucket (CopyObject b k k') = Some b"
| "cmd_bucket ListBuckets = None"
| "cmd_bucket (BucketExists b) = Some b"

definition recording :: "'s store \<Rightarrow> ('s \<times> store_cmd list) store" where
  "recording srv cmd s = (case srv cmd (fst s) of (s', r) \<Rightarrow> ((s', snd s @ [cmd]), r))"

datatype client_call =
    CPut string "string option" "PutOptions option" | CPutStream string string int "PutOptions option" | CGet string
  | CGetStream string | CDelete string | CExists string | CStat string | CList "ListOptions option" | CCopy string string
  | CPutJSON string "string option" | CPutWithMetadata string "string option" string "(string \<times> string) list" | CPing

fun run_call :: "'s store \<Rightarrow> MinIOClient \<Rightarrow> client_call \<Rightarrow> 's \<Rightarrow> 's" where
  "run_call srv m (CPut k d p) s = fst (Put srv m k d p s)"
| "run_call srv m (CPutStream k d n p) s = fst (PutStream srv m k d n p s)"
| "run_call srv m (CGet k) s = fst (Get_object srv m k s)"
| "run_call srv m (CGetStream k) s = fst (GetStream srv m k s)"
| "run_call srv m (CDelete k) s = fst (Delete srv m k s)"
| "run_call srv m (CExists k) s = fst (Exists srv m k s)"
| "run_call srv m (CStat k) s = fst (Stat srv m k s)"
| "run_call srv m (CList p) s = fst (List_objects srv m p s)"
| "run_call srv m (CCopy a b) s = fst (Copy srv m a b s)"
| "run_call srv m (CPutJSON k d) s = fst (PutJSON srv m k d s)"
| "run_call srv m (CPutWithMetadata k d c u) s = fst (PutWithMetadata srv m k d c u s)"
| "run_call srv m CPing s = fst (Ping srv s)"

definition confined :: "MinIOClient \<Rightarrow> store_cmd \<Rightarrow> bool" where
  "confined m cmd \<longleftrightarrow>
     (\<forall>k\<in>set (cmd_keys cmd). \<exists>key. k = prefixKey m key) \<and> cmd_bucket cmd \<in> {None, Some (mc_bucketName m)}"

lemma recording_eq: "recording srv cmd (s, l) = ((fst (srv cmd s), l @ [cmd]), snd (srv cmd s))"
  by (simp add: recording_def split_beta)

lemma run_call_log:
  assumes "call \<noteq> CList None"
  shows "\<exists>s' new. run_call (recording srv) m call (s, l) = (s', l @ new) \<and> list_all (confined m) new"
proof (cases call)
  case (CList p)
  then obtain q where "p = Some q" using assms by auto
  with CList show ?thesis
    by (auto simp: List_objects_def recording_eq confined_def Let_def split: sum.split store_reply.split)
qed (auto simp: Put_def PutStream_def Get_object_def GetStream_def Delete_def Exists_def Stat_def Copy_def PutJSON_def
    PutWithMetadata_def Ping_def recording_eq confined_def Let_def split: sum.split store_reply.split option.split)

lemma run_calls_confined:
  assumes "CList None \<notin> set calls" "list_all (confined m) l"
  shows "list_all (confined m) (snd (fold (run_call (recording srv) m) calls (s, l)))"
  using assms
proof (induction calls arbitrary: s l)
  case (Cons call calls)
  obtain s' new where "run_call (recording srv) m call (s, l) = (s', l @ new)" "list_all (confined m) new"
    using run_call_log [of call srv m s l] Cons.prems(1) by auto
  then show ?case using Cons by simp
qed simp

text \<open>
  C32. A client stays in its place. Whatever operations a client runs, except listing without options, every
  key it names in a request is one of its own, the prefix followed by the caller's key, and every
  request is for its own bucket.
\<close>

theorem minio_client_confined:
  assumes "CList None \<notin> set calls"
    and "cmd \<in> set (snd (fold (run_call (recording srv) m) calls (s, [])))"
  shows "(\<forall>k\<in>set (cmd_keys cmd). has_prefix k (mc_keyPrefix m) \<and> (\<exists>key. k = prefixKey m key)) \<and>
    cmd_bucket cmd \<in> {None, Some (mc_bucketName m)}"
proof -
  have "confined m cmd"
    using run_calls_confined [OF assms(1), of m "[]" srv s] assms(2) by (simp add: list_all_iff)
  moreover have "has_prefix (prefixKey m key) (mc_keyPrefix m)" for key
    by (simp add: prefixKey_def has_prefix_def)
  ultimately show ?thesis by (auto simp: confined_def)
qed

theorem minio_client_confined_witness:
  "has_prefix ''dev/a.json'' ''dev''"
proof -
  let ?m = "\<lparr>mc_bucketName = ''b'', mc_keyPrefix = ''dev''\<rparr>"
  let ?srv = "\<lambda>cmd s. (s :: unit, Inr SDone)"
  have "RemoveObject ''b'' ''dev/a.json'' \<in> set (snd (fold (run_call (recording ?srv) ?m) [CDelete ''a.json''] ((), [])))"
    by (simp add: Delete_def recording_eq prefixKey_def)
  from minio_client_confined [OF _ this] show ?thesis by simp
qed

text \<open>Listing without options does not carry the prefix, so it shows the objects of the other clients of the
  bucket; and the keys of a listing contain the prefix, so they do not name the same object when they are
  passed back.\<close>

lemma List_without_options_ignores_prefix:
  "snd (run_call (recording srv) m (CList None) (s, [])) = [ListObjects (mc_bucketName m) [] False]"
  by (auto simp: List_objects_def recording_eq split: sum.split store_reply.split)

lemma listed_key_is_not_a_client_key:
  assumes "mc_keyPrefix m \<noteq> []"
  shows "prefixKey m (prefixKey m key) \<noteq> prefixKey m key"
  using assms by (auto simp: prefixKey_def)

text \<open>Listing returns the objects in order, up to the limit.\<close>

lemma list_loop_all:
  "list_loop limit objects (map Inr objs) =
     Inr (case limit of
            Some n \<Rightarrow>
              if n > 0 \<and> int (length objects) < n
              then objects @ map convertObjectInfo (take (nat n - length objects) objs)
              else if n > 0 \<and> objs \<noteq> [] then objects @ [convertObjectInfo (hd objs)]
              else objects @ map convertObjectInfo objs
          | None \<Rightarrow> objects @ map convertObjectInfo objs)"
proof (induction objs arbitrary: objects)
  case (Cons obj objs)
  show ?case
  proof (cases limit)
    case (Some n)
    have "nat n - length objects = Suc (nat n - Suc (length objects))" if "int (length objects) < n"
      using that by linarith
    then show ?thesis
      using Cons.IH [of "objects @ [convertObjectInfo obj]"] Some by (auto simp: Let_def)
  qed (use Cons.IH [of "objects @ [convertObjectInfo obj]"] in \<open>simp add: Let_def\<close>)
qed (auto split: option.split)

section \<open>Put and get\<close>

text \<open>What the storage server promises: after a successful upload the object can be opened and holds what
  was uploaded.\<close>

definition store_laws :: "'s store \<Rightarrow> bool" where
  "store_laws srv \<longleftrightarrow>
     (\<forall>b k d n p s s' r. srv (PutObject b k d n p) s = (s', Inr r) \<longrightarrow>
        (\<exists>info. srv (OpenObject b k) s' = (s', Inr SDone) \<and> srv (StatOpened b k) s' = (s', Inr (SInfo info)) \<and>
           srv (ReadOpened b k) s' = (s', Inr (SData d)) \<and> mi_ContentType info = sp_ContentType p \<and>
           mi_UserMetadata info = sp_UserMetadata p))"

lemma Put_Get:
  assumes "store_laws srv" "Put srv m key (Some d) opts s = (s', None)"
  shows "\<exists>r. Get_object srv m key s' = (s', Inr r) \<and> gr_Data r = d \<and> gr_ContentType r \<noteq> []"
proof -
  from assms(2) obtain r where key: "key \<noteq> []"
    and put: "srv (PutObject (mc_bucketName m) (prefixKey m key) d (int (length d)) (buildPutOptions opts)) s = (s', Inr r)"
    by (auto simp: Put_def split: if_splits prod.splits sum.splits)
  from assms(1) [unfolded store_laws_def, rule_format, OF put] obtain info where
    "srv (OpenObject (mc_bucketName m) (prefixKey m key)) s' = (s', Inr SDone)"
    "srv (StatOpened (mc_bucketName m) (prefixKey m key)) s' = (s', Inr (SInfo info))"
    "srv (ReadOpened (mc_bucketName m) (prefixKey m key)) s' = (s', Inr (SData d))"
    "mi_ContentType info = sp_ContentType (buildPutOptions opts)"
    by blast
  moreover have "sp_ContentType (buildPutOptions opts) \<noteq> []"
    by (auto simp: buildPutOptions_def ContentTypeBinary_def Let_def split: option.split)
  ultimately show ?thesis using key by (simp add: Get_object_def)
qed

end
