(* ===== verification/Mqtt_Client.thy ===== *)
theory Mqtt_Client
  imports Kit_Prelude
begin

text \<open>
  The MQTT client of \<open>infrastructure/mqttclient\<close>. The paho client is a parameter: an operation
  returns a token that completes with or without an error or is still pending when the wait ends,
  and the context of the caller may be done first. The error of a pending token is nil.
\<close>

record MqttConfig =
  mq_BrokerURL :: string
  mq_ClientID :: string
  mq_Username :: string
  mq_Password :: string
  mq_KeepAlive :: duration
  mq_ConnectTimeout :: duration
  mq_CleanSession :: bool
  mq_AutoReconnect :: bool
  mq_TLSConfig :: "string option"

record 'k MqttClient =
  mqc_cfg :: MqttConfig
  mqc_c :: "'k option"

datatype token = TokDone "string option" | TokPending

primrec tok_error :: "token \<Rightarrow> string option" where
  "tok_error (TokDone e) = e"
| "tok_error TokPending = None"

text \<open>Which branch of the \<open>select\<close> is taken: the context's, with its error, or that of \<open>waitToken\<close>, which
  closes its channel when the token completes and also when the time is over.\<close>

datatype race = CtxDone string | Waited token

datatype mqtt_error = BrokerRequired | NotConnected | Cancelled string | Failed string

definition race_result :: "race \<Rightarrow> mqtt_error option" where
  "race_result r =
     (case r of
        CtxDone e \<Rightarrow> Some (Cancelled e)
      | Waited tok \<Rightarrow> (case tok_error tok of Some err \<Rightarrow> Some (Failed err) | None \<Rightarrow> None))"

definition applyDefaults :: "'k MqttClient \<Rightarrow> 'k MqttClient" where
  "applyDefaults c =
     (if \<not> mq_CleanSession (mqc_cfg c) then c\<lparr>mqc_cfg := (mqc_cfg c)\<lparr>mq_CleanSession := True\<rparr>\<rparr> else c)"

definition New_mqtt :: "int \<Rightarrow> MqttConfig \<Rightarrow> mqtt_error + 'k MqttClient" where
  "New_mqtt nowNanos cfg =
     (if mq_BrokerURL cfg = [] then Inl BrokerRequired
      else
        let cfg = (if mq_ClientID cfg = [] then cfg\<lparr>mq_ClientID := ''mapex-'' @ itoa nowNanos\<rparr> else cfg);
            cfg = (if mq_KeepAlive cfg = 0 then cfg\<lparr>mq_KeepAlive := 30 * 1000000000\<rparr> else cfg);
            cfg = (if mq_ConnectTimeout cfg = 0 then cfg\<lparr>mq_ConnectTimeout := 10 * 1000000000\<rparr> else cfg)
        in Inr (applyDefaults \<lparr>mqc_cfg = cfg, mqc_c = None\<rparr>))"

text \<open>The options handed to paho; user, password and TLS only when set.\<close>

record PahoOptions =
  pa_Broker :: string
  pa_ClientID :: string
  pa_CleanSession :: bool
  pa_AutoReconnect :: bool
  pa_KeepAlive :: duration
  pa_ConnectTimeout :: duration
  pa_Username :: "string option"
  pa_Password :: "string option"
  pa_TLS :: "string option"

definition paho_options :: "MqttConfig \<Rightarrow> PahoOptions" where
  "paho_options cfg =
     \<lparr>pa_Broker = mq_BrokerURL cfg, pa_ClientID = mq_ClientID cfg, pa_CleanSession = mq_CleanSession cfg,
      pa_AutoReconnect = mq_AutoReconnect cfg, pa_KeepAlive = mq_KeepAlive cfg, pa_ConnectTimeout = mq_ConnectTimeout cfg,
      pa_Username = (if mq_Username cfg \<noteq> [] then Some (mq_Username cfg) else None),
      pa_Password = (if mq_Password cfg \<noteq> [] then Some (mq_Password cfg) else None),
      pa_TLS = mq_TLSConfig cfg\<rparr>"

text \<open>\<open>up\<close> tells whether a paho client is connected at the moment of the call; \<open>connect\<close> makes a client
  for the options and waits for its token.\<close>

definition Connect ::
  "('k \<Rightarrow> bool) \<Rightarrow> (PahoOptions \<Rightarrow> 'k \<times> race) \<Rightarrow> 'k MqttClient \<Rightarrow> 'k MqttClient \<times> mqtt_error option" where
  "Connect up connect c =
     (if (case mqc_c c of Some k \<Rightarrow> up k | None \<Rightarrow> False) then (c, None)
      else
        (case connect (paho_options (mqc_cfg c)) of
           (client, r) \<Rightarrow>
             (case race_result r of
                Some err \<Rightarrow> (c, Some err)
              | None \<Rightarrow> (c\<lparr>mqc_c := Some client\<rparr>, None))))"

text \<open>\<open>Disconnect\<close>; the second result is the paho client that is told to disconnect.\<close>

definition Disconnect :: "('k \<Rightarrow> bool) \<Rightarrow> 'k MqttClient \<Rightarrow> 'k MqttClient \<times> 'k option" where
  "Disconnect up c =
     (case mqc_c c of
        None \<Rightarrow> (c, None)
      | Some k \<Rightarrow> (c\<lparr>mqc_c := None\<rparr>, if up k then Some k else None))"

definition mqtt_IsConnected :: "('k \<Rightarrow> bool) \<Rightarrow> 'k MqttClient \<Rightarrow> bool" where
  "mqtt_IsConnected up c = (case mqc_c c of Some k \<Rightarrow> up k | None \<Rightarrow> False)"

definition mqtt_Publish ::
  "('k \<Rightarrow> bool) \<Rightarrow> ('k \<Rightarrow> string \<Rightarrow> nat \<Rightarrow> bool \<Rightarrow> string \<Rightarrow> race) \<Rightarrow> 'k MqttClient \<Rightarrow> string \<Rightarrow> nat \<Rightarrow> bool \<Rightarrow> string \<Rightarrow> mqtt_error option" where
  "mqtt_Publish up publish c topic qos retained payload =
     (case mqc_c c of
        None \<Rightarrow> Some NotConnected
      | Some client \<Rightarrow>
          if \<not> up client then Some NotConnected
          else race_result (publish client topic qos retained payload))"

definition mqtt_Subscribe ::
  "('k \<Rightarrow> bool) \<Rightarrow> ('k \<Rightarrow> string \<Rightarrow> nat \<Rightarrow> race) \<Rightarrow> 'k MqttClient \<Rightarrow> string \<Rightarrow> nat \<Rightarrow> mqtt_error option" where
  "mqtt_Subscribe up subscribe c topic qos =
     (case mqc_c c of
        None \<Rightarrow> Some NotConnected
      | Some client \<Rightarrow>
          if \<not> up client then Some NotConnected
          else race_result (subscribe client topic qos))"

section \<open>What success means\<close>

lemma race_result_None: "race_result r = None \<longleftrightarrow> r = Waited (TokDone None) \<or> r = Waited TokPending"
proof (cases r)
  case (Waited tok)
  then show ?thesis by (cases tok) (auto simp: race_result_def split: option.splits)
qed (simp add: race_result_def)

text \<open>
  Without an acknowledgement a publish can still be reported as done. \<open>Publish\<close> returns nil exactly if the
  client was connected and the token completed without an error or had not completed when the connect
  timeout was over: in the second case the broker has acknowledged nothing. A client that never
  connected, or was disconnected, refuses to publish.
\<close>

theorem Publish_success_iff:
  "(mqtt_Publish up publish c topic qos retained payload = None \<longleftrightarrow>
     (\<exists>k. mqc_c c = Some k \<and> up k \<and>
        publish k topic qos retained payload \<in> {Waited (TokDone None), Waited TokPending})) \<and>
   mqtt_Publish up publish (fst (Disconnect up c)) topic qos retained payload = Some NotConnected"
  by (auto simp: mqtt_Publish_def Disconnect_def race_result_None split: option.splits)

lemma Connect_timeout_succeeds:
  assumes "mqc_c c = None" "connect (paho_options (mqc_cfg c)) = (k, Waited TokPending)" "\<not> up k"
  shows "snd (Connect up connect c) = None \<and> \<not> mqtt_IsConnected up (fst (Connect up connect c))"
  using assms by (simp add: Connect_def race_result_def mqtt_IsConnected_def)

text \<open>A session is always clean: the field of the configuration has no effect.\<close>

lemma New_clean_session: "New_mqtt now cfg = Inr c \<Longrightarrow> mq_CleanSession (mqc_cfg c)"
  by (auto simp: New_mqtt_def applyDefaults_def Let_def split: if_splits)

end
