(* ===== verification/Data_Utils.thy ===== *)
theory Data_Utils
  imports Envelope Typeconv "HOL-Library.AList"
begin

text \<open>
  The small utilities: \<open>slice.Reverse\<close>, \<open>zerovalue\<close>, the map accessors of the MongoDB model, deep copies,
  random identifiers and the results of transform scripts. The reversal in place is shown to be list reversal; the accessors return a value
  of the type asked for or its zero.
\<close>

section \<open>slice\<close>

text \<open>The loop with its two indices; \<open>j\<close> starts at \<open>len(s) - 1\<close>, which is -1 for the empty slice.\<close>

function reverse_loop :: "int \<Rightarrow> int \<Rightarrow> 'a list \<Rightarrow> 'a list" where
  "reverse_loop i j s =
     (if i < j
      then reverse_loop (i + 1) (j - 1) (s[nat i := s ! nat j, nat j := s ! nat i])
      else s)"
  by pat_completeness auto

termination
  by (relation "measure (\<lambda>(i, j, s). nat (j - i))") auto

declare reverse_loop.simps [simp del]

definition Reverse :: "'a list \<Rightarrow> 'a list" where
  "Reverse s = reverse_loop 0 (int (length s) - 1) s"

section \<open>zerovalue\<close>

datatype zero_value = ZInt int | ZString string | ZBool bool | ZSlice | ZMap | ZNil

definition TypeNumber :: string where "TypeNumber = ''number''"
definition TypeString :: string where "TypeString = ''string''"
definition TypeBoolean :: string where "TypeBoolean = ''boolean''"
definition TypeArray :: string where "TypeArray = ''array''"
definition TypeObject :: string where "TypeObject = ''object''"

definition GetZeroValue :: "string \<Rightarrow> zero_value" where
  "GetZeroValue fieldType =
     (if fieldType = TypeNumber then ZInt 0
      else if fieldType = TypeString then ZString []
      else if fieldType = TypeBoolean then ZBool False
      else if fieldType = TypeArray then ZSlice
      else if fieldType = TypeObject then ZMap
      else ZNil)"

definition GetZeroValueTyped :: "string \<Rightarrow> zero_value" where
  "GetZeroValueTyped fieldType = GetZeroValue fieldType"

definition IsValidType :: "string \<Rightarrow> bool" where
  "IsValidType fieldType \<longleftrightarrow> fieldType \<in> {TypeNumber, TypeString, TypeBoolean, TypeArray, TypeObject}"

section \<open>mapget.go\<close>

text \<open>A value of a decoded document: plain Go values and the driver's own map, document and array types. A nil
  slice or map is a value of its type.\<close>

datatype doc_val =
    DNil | DStr string | DBool bool | DInt int | DInt32 int | DInt64 int | DFloat f64 | DOtherVal string
  | DMap "(string \<times> doc_val) list option"
  | DBsonM "(string \<times> doc_val) list option"
  | DBsonD "(string \<times> doc_val) list"
  | DSlice "doc_val list option"
  | DBsonA "doc_val list option"

type_synonym doc_map = "(string \<times> doc_val) list"

definition map_value :: "doc_map \<Rightarrow> string \<Rightarrow> doc_val" where
  "map_value m key = (case map_of m key of None \<Rightarrow> DNil | Some v \<Rightarrow> v)"

definition MapGetString :: "doc_map \<Rightarrow> string \<Rightarrow> string" where
  "MapGetString m key = (case map_value m key of DStr s \<Rightarrow> s | _ \<Rightarrow> [])"

definition MapGetInt :: "(f64 \<Rightarrow> int) \<Rightarrow> doc_map \<Rightarrow> string \<Rightarrow> int" where
  "MapGetInt out m key =
     (case map_value m key of
        DInt i \<Rightarrow> i
      | DInt32 i \<Rightarrow> i
      | DInt64 i \<Rightarrow> i
      | DFloat f \<Rightarrow> int64_of out f
      | _ \<Rightarrow> 0)"

definition MapGetBool :: "doc_map \<Rightarrow> string \<Rightarrow> bool" where
  "MapGetBool m key = (case map_value m key of DBool b \<Rightarrow> b | _ \<Rightarrow> False)"

text \<open>An ordered document may repeat a key; the last occurrence is kept.\<close>

definition bsonDToMap :: "(string \<times> doc_val) list \<Rightarrow> doc_map" where
  "bsonDToMap d = fold (\<lambda>(k, v) result. AList.update k v result) d []"

definition ToMap :: "doc_val \<Rightarrow> doc_map option" where
  "ToMap v =
     (case v of
        DMap m \<Rightarrow> m
      | DBsonM m \<Rightarrow> m
      | DBsonD d \<Rightarrow> Some (bsonDToMap d)
      | _ \<Rightarrow> None)"

definition MapGetMap :: "doc_map \<Rightarrow> string \<Rightarrow> doc_map option" where
  "MapGetMap m key =
     (case map_value m key of
        DMap m' \<Rightarrow> m'
      | DBsonM m' \<Rightarrow> m'
      | DBsonD d \<Rightarrow> Some (bsonDToMap d)
      | _ \<Rightarrow> None)"

definition MapGetSlice :: "doc_map \<Rightarrow> string \<Rightarrow> doc_val list option" where
  "MapGetSlice m key = (case map_value m key of DSlice l \<Rightarrow> l | DBsonA l \<Rightarrow> l | _ \<Rightarrow> None)"

definition MapGetStringSlice :: "doc_map \<Rightarrow> string \<Rightarrow> string list option" where
  "MapGetStringSlice m key =
     (case MapGetSlice m key of
        None \<Rightarrow> None
      | Some raw \<Rightarrow> Some (List.map_filter (\<lambda>v. case v of DStr s \<Rightarrow> Some s | _ \<Rightarrow> None) raw))"

section \<open>deepcopy\<close>

text \<open>\<open>copy_json\<close> is the round trip through JSON: \<open>None\<close> when the destination stays nil.\<close>

definition deep_map :: "('m \<Rightarrow> 'm option) \<Rightarrow> 'm \<Rightarrow> 'm option \<Rightarrow> 'm" where
  "deep_map copy_json made src =
     (case src of
        None \<Rightarrow> made
      | Some m \<Rightarrow> (case copy_json m of None \<Rightarrow> made | Some d \<Rightarrow> d))"

definition MapOfMaps ::
  "('m \<Rightarrow> 'm option) \<Rightarrow> 'm \<Rightarrow> (string \<times> 'm option) list option \<Rightarrow> (string \<times> 'm) list option" where
  "MapOfMaps copy_json made src = map_option (map (\<lambda>(k, v). (k, deep_map copy_json made v))) src"

section \<open>random\<close>

text \<open>\<open>hex.EncodeToString\<close>.\<close>

definition hex_digit :: "nat \<Rightarrow> char" where
  "hex_digit n = (if n < 10 then char_of (48 + n) else char_of (87 + n))"

definition hex_encode :: "string \<Rightarrow> string" where
  "hex_encode bs = concat (map (\<lambda>b. [hex_digit (of_char b div 16), hex_digit (of_char b mod 16)]) bs)"

definition GenerateSessionID :: "string option \<Rightarrow> string + string" where
  "GenerateSessionID bytes = (case bytes of None \<Rightarrow> Inl ''random source'' | Some b \<Rightarrow> Inr (hex_encode b))"

text \<open>\<open>stamp\<close> is the formatted time and \<open>bytes\<close> the four random bytes.\<close>

definition NewRunID :: "string \<Rightarrow> string \<Rightarrow> string" where
  "NewRunID stamp bytes = stamp @ ''-'' @ hex_encode bytes"

section \<open>jsrunner\<close>

record 'n LabelValue =
  lv_Label :: string
  lv_Value :: "'n gval"

definition DefaultTimeout :: int where "DefaultTimeout = 10 * 1000000000"

text \<open>\<open>fmt\<close> prints a value with \<open>%v\<close> and \<open>typ\<close> with \<open>%T\<close>.\<close>

fun label_values :: "('n gval \<Rightarrow> string) \<Rightarrow> ('n gval \<Rightarrow> string) \<Rightarrow> nat \<Rightarrow> 'n gval list \<Rightarrow> string + 'n LabelValue list" where
  "label_values fmt typ i [] = Inr []"
| "label_values fmt typ i (item # items) =
     (case item of
        GMap obj \<Rightarrow>
          (case map_of obj ''value'' of
             None \<Rightarrow> Inl (''jsrunner: item['' @ itoa (int i) @ ''] missing 'value' field'')
           | Some v \<Rightarrow>
               (let label = (case map_of obj ''label'' of None \<Rightarrow> GNil | Some l \<Rightarrow> l) in
                case label_values fmt typ (Suc i) items of
                  Inl err \<Rightarrow> Inl err
                | Inr rest \<Rightarrow> Inr (\<lparr>lv_Label = fmt label, lv_Value = v\<rparr> # rest)))
      | _ \<Rightarrow> Inl (''jsrunner: item['' @ itoa (int i) @ ''] must be an object with {label, value}, got '' @ typ item))"

definition extractLabelValues :: "('n gval \<Rightarrow> string) \<Rightarrow> ('n gval \<Rightarrow> string) \<Rightarrow> 'n gval \<Rightarrow> string + 'n LabelValue list" where
  "extractLabelValues fmt typ exported =
     (case exported of
        GList arr \<Rightarrow> label_values fmt typ 0 arr
      | _ \<Rightarrow> Inl (''jsrunner: transform must return an array, got '' @ typ exported))"

text \<open>\<open>set_err\<close> is the error of \<open>vm.Set\<close>, \<open>run\<close> runs a program that is interrupted after the given time, and
  \<open>remaining\<close> is the time to the deadline of the context, when it has one.\<close>

definition RunTransform ::
  "('n gval \<Rightarrow> string) \<Rightarrow> ('n gval \<Rightarrow> string) \<Rightarrow> string option \<Rightarrow> (int \<Rightarrow> string \<Rightarrow> string + 'n gval) \<Rightarrow> int option \<Rightarrow> string \<Rightarrow>
     string + 'n LabelValue list" where
  "RunTransform fmt typ set_err run remaining script =
     (case set_err of
        Some err \<Rightarrow> Inl (''jsrunner: failed to set data: '' @ err)
      | None \<Rightarrow>
          (let timeout = (case remaining of None \<Rightarrow> DefaultTimeout | Some t \<Rightarrow> t);
               prog = script @ [CHR 0x0A] @ '';transform(data);''
           in case run timeout prog of
                Inl err \<Rightarrow> Inl (''jsrunner: script execution failed: '' @ err)
              | Inr val \<Rightarrow> extractLabelValues fmt typ val))"

text \<open>The result has one option per item in order, and there is a result exactly if every item is an object
  with a \<open>value\<close>; an item without a label is shown with the printed nil.\<close>

lemma label_values_map:
  "(\<exists>vs. label_values fmt typ i items = Inr vs) \<longleftrightarrow>
     (\<forall>item\<in>set items. \<exists>obj v. item = GMap obj \<and> map_of obj ''value'' = Some v)"
  "label_values fmt typ i items = Inr vs \<Longrightarrow> length vs = length items \<and>
     (\<forall>n < length items. \<exists>obj. items ! n = GMap obj \<and> map_of obj ''value'' = Some (lv_Value (vs ! n)) \<and>
        lv_Label (vs ! n) = fmt (case map_of obj ''label'' of None \<Rightarrow> GNil | Some l \<Rightarrow> l))"
proof -
  show "(\<exists>vs. label_values fmt typ i items = Inr vs) \<longleftrightarrow>
     (\<forall>item\<in>set items. \<exists>obj v. item = GMap obj \<and> map_of obj ''value'' = Some v)"
  proof (induction items arbitrary: i)
    case (Cons item items)
    show ?case
      using Cons.IH [of "Suc i", symmetric]
      by (cases item; cases "label_values fmt typ (Suc i) items") (auto simp: Let_def split: option.splits)
  qed simp
  show "length vs = length items \<and>
     (\<forall>n < length items. \<exists>obj. items ! n = GMap obj \<and> map_of obj ''value'' = Some (lv_Value (vs ! n)) \<and>
        lv_Label (vs ! n) = fmt (case map_of obj ''label'' of None \<Rightarrow> GNil | Some l \<Rightarrow> l))"
    if "label_values fmt typ i items = Inr vs"
    using that
  proof (induction items arbitrary: i vs)
    case (Cons item items)
    obtain obj v rest where item: "item = GMap obj" "map_of obj ''value'' = Some v"
      and rest: "label_values fmt typ (Suc i) items = Inr rest"
      and vs: "vs = \<lparr>lv_Label = fmt (case map_of obj ''label'' of None \<Rightarrow> GNil | Some l \<Rightarrow> l), lv_Value = v\<rparr> # rest"
      using Cons.prems by (auto simp: Let_def split: gval.splits option.splits sum.splits)
    show ?case
      using Cons.IH [OF rest] item by (auto simp: vs nth_Cons less_Suc_eq_0_disj split: nat.split)
  qed simp
qed

section \<open>Reversal\<close>

lemma reverse_loop_rev:
  assumes "length s = length a + length m + length b" "s = a @ m @ b"
    and "i = int (length a)" "j = int (length a + length m) - 1"
  shows "reverse_loop i j s = a @ rev m @ b"
  using assms
proof (induction "length m" arbitrary: i j s a b m rule: less_induct)
  case less
  show ?case
  proof (cases "length m \<le> 1")
    case True
    then have "rev m = m" by (cases m) auto
    with True less.prems show ?thesis by (subst reverse_loop.simps) auto
  next
    case False
    then obtain x n y where m: "m = x # n @ [y]"
      by (metis One_nat_def append_butlast_last_id le_SucI length_0_conv length_Cons list.exhaust list.size(3) order_refl)
    have i: "nat i = length a" and j: "nat j = length a + Suc (length n)" using less.prems m by auto
    have swap: "s[nat i := s ! nat j, nat j := s ! nat i] = (a @ [y]) @ n @ (x # b)"
      unfolding i j less.prems(2) m by (simp add: nth_append list_update_append)
    have "reverse_loop (i + 1) (j - 1) ((a @ [y]) @ n @ (x # b)) = (a @ [y]) @ rev n @ (x # b)"
      using less.prems m by (intro less.hyps) auto
    moreover have "i < j" using less.prems m by simp
    ultimately show ?thesis using swap m by (subst reverse_loop.simps) simp
  qed
qed

text \<open>The reversal in place is list reversal, for every length.\<close>

theorem Reverse_rev: "Reverse s = rev s"
  using reverse_loop_rev [of s "[]" s "[]" 0 "int (length s) - 1"] by (simp add: Reverse_def)

section \<open>Accessors and identifiers\<close>

lemma zero_value_defined_iff: "GetZeroValue t \<noteq> ZNil \<longleftrightarrow> IsValidType t"
  by (auto simp: GetZeroValue_def IsValidType_def TypeNumber_def TypeString_def TypeBoolean_def TypeArray_def TypeObject_def)

lemma MapGetMap_ToMap: "MapGetMap m key = ToMap (map_value m key)"
  by (simp add: MapGetMap_def ToMap_def split: doc_val.split)

lemma bsonDToMap_last: "map_of (bsonDToMap d) k = map_of (rev d) k"
proof -
  have "map_of (fold (\<lambda>(k, v) result. AList.update k v result) d acc) k = (map_of acc ++ map_of (rev d)) k" for acc
  proof (induction d arbitrary: acc)
    case (Cons e d)
    obtain a b where e: "e = (a, b)" by (cases e)
    show ?case
      using Cons.IH [of "AList.update a b acc"]
      by (simp add: e update_conv' map_add_def split: option.split)
  qed simp
  then show ?thesis by (simp add: bsonDToMap_def)
qed

lemma hex_val_digit: "n < 16 \<Longrightarrow> hex_val (hex_digit n) = Some n"
  by (auto simp: hex_val_def hex_digit_def Let_def)

lemma hex_roundtrip: "hex_decode (hex_encode bs) = Inr bs"
proof (induction bs)
  case (Cons b bs)
  have "(of_char b :: nat) < 256" by (rule nat_of_char_less_256)
  then have "hex_val (hex_digit (of_char b div 16)) = Some (of_char b div 16)"
    by (intro hex_val_digit) (simp add: less_mult_imp_div_less)
  moreover have "hex_val (hex_digit (of_char b mod 16)) = Some (of_char b mod 16)"
    by (intro hex_val_digit) simp
  moreover have "char_of (16 * (of_char b div 16) + of_char b mod 16 :: nat) = b" by simp
  ultimately show ?case using Cons by (simp add: hex_encode_def)
qed (simp add: hex_encode_def)

lemma length_hex_encode: "length (hex_encode bs) = 2 * length bs"
  by (induction bs) (simp_all add: hex_encode_def)

text \<open>Session identifiers are twice as long as the bytes they encode, and different bytes give different
  identifiers; run identifiers of equally long stamps sort by their stamps.\<close>

lemma session_ids_distinct: "GenerateSessionID (Some a) = GenerateSessionID (Some b) \<longleftrightarrow> a = b"
  by (simp add: GenerateSessionID_def) (metis hex_roundtrip sum.inject(2))

lemma run_ids_sorted: "length s = length t \<Longrightarrow> s < t \<Longrightarrow> NewRunID s a < NewRunID t b"
  by (simp add: NewRunID_def less_append_same_length)

end
