(* ===== verification/Credentials.thy ===== *)
theory Credentials
  imports Http_Core "HOL-Library.AList"
begin

text \<open>
  Packages \<open>utils/jwt\<close> and \<open>utils/natsjwt\<close>: session tokens and device tokens. The signature, the
  registered claims and the clock checks are the JWT libraries', arguments with the laws
  \<open>jwt_laws\<close> and \<open>nats_laws\<close>; what the kit writes into a token and reads back is modelled as JSON
  objects. Times are nanoseconds since the Unix epoch.
\<close>

section \<open>Session tokens\<close>

type_synonym claims_object = "(string \<times> int gval) list"

record RegisteredClaims =
  rg_Issuer :: string
  rg_Subject :: string
  rg_Audience :: "string list"
  rg_ExpiresAt :: "int option"
  rg_NotBefore :: "int option"
  rg_IssuedAt :: "int option"
  rg_ID :: string

definition no_claims :: RegisteredClaims where
  "no_claims = \<lparr>rg_Issuer = [], rg_Subject = [], rg_Audience = [], rg_ExpiresAt = None,
     rg_NotBefore = None, rg_IssuedAt = None, rg_ID = []\<rparr>"

record CustomClaims =
  cl_ID :: string
  cl_UserID :: string
  cl_Email :: string
  cl_FisrtName :: string
  cl_LastName :: string
  cl_Registered :: RegisteredClaims

text \<open>The JWT library: \<open>jl_text\<close> is how JSON writes a string (invalid UTF-8 is replaced), then the JSON
  form of the registered claims, HS256 signing, and parsing with the signature and clock checks.\<close>

record jwt_lib =
  jl_text :: "string \<Rightarrow> string"
  jl_NumericDate :: "int \<Rightarrow> int"
  jl_encode :: "RegisteredClaims \<Rightarrow> claims_object"
  jl_decode :: "claims_object \<Rightarrow> RegisteredClaims option"
  jl_sign :: "string \<Rightarrow> claims_object \<Rightarrow> string + string"
  jl_verify :: "int \<Rightarrow> string \<Rightarrow> string \<Rightarrow> claims_object option"

definition encode_custom :: "jwt_lib \<Rightarrow> CustomClaims \<Rightarrow> claims_object" where
  "encode_custom L c =
     [(''sessionId'', GStr (jl_text L (cl_ID c))), (''userId'', GStr (jl_text L (cl_UserID c))),
      (''email'', GStr (jl_text L (cl_Email c))), (''firtName'', GStr (jl_text L (cl_FisrtName c))),
      (''lastName'', GStr (jl_text L (cl_LastName c)))] @ jl_encode L (cl_Registered c)"

text \<open>A string field of a struct read from an object: keys match up to ASCII case, the last one counts, null
  changes nothing, and another type is an error.\<close>

fun string_field :: "string \<Rightarrow> claims_object \<Rightarrow> string \<Rightarrow> string option" where
  "string_field name [] acc = Some acc"
| "string_field name ((k, v) # rest) acc =
     (if to_lower k = to_lower name then
        (case v of
           GStr s \<Rightarrow> string_field name rest s
         | GNil \<Rightarrow> string_field name rest acc
         | _ \<Rightarrow> None)
      else string_field name rest acc)"

definition decode_custom :: "jwt_lib \<Rightarrow> claims_object \<Rightarrow> CustomClaims option" where
  "decode_custom L obj =
     (case (string_field ''sessionId'' obj [], string_field ''userId'' obj [], string_field ''email'' obj [],
            string_field ''firtName'' obj [], string_field ''lastName'' obj [], jl_decode L obj) of
        (Some sid, Some uid, Some em, Some fn, Some ln, Some reg) \<Rightarrow>
          Some \<lparr>cl_ID = sid, cl_UserID = uid, cl_Email = em, cl_FisrtName = fn, cl_LastName = ln, cl_Registered = reg\<rparr>
      | _ \<Rightarrow> None)"

text \<open>\<open>now\<close> and \<open>now'\<close> are the two readings of the clock.\<close>

definition SignJWT :: "jwt_lib \<Rightarrow> int \<Rightarrow> int \<Rightarrow> string \<Rightarrow> string \<Rightarrow> string \<Rightarrow> string \<Rightarrow> int \<Rightarrow> string + string" where
  "SignJWT L now now' secret userID sessionId email ttl =
     jl_sign L secret (encode_custom L
       \<lparr>cl_ID = sessionId, cl_UserID = userID, cl_Email = email, cl_FisrtName = [], cl_LastName = [],
        cl_Registered = no_claims\<lparr>rg_ExpiresAt := Some (jl_NumericDate L (now + ttl)),
          rg_IssuedAt := Some (jl_NumericDate L now')\<rparr>\<rparr>)"

definition ParseJWT :: "jwt_lib \<Rightarrow> int \<Rightarrow> string \<Rightarrow> string \<Rightarrow> string + CustomClaims" where
  "ParseJWT L now secret tokenStr =
     (case Option.bind (jl_verify L now secret tokenStr) (decode_custom L) of
        None \<Rightarrow> Inl ''invalid or expired token''
      | Some claims \<Rightarrow> Inr claims)"

definition SignRefreshToken :: "jwt_lib \<Rightarrow> int \<Rightarrow> int \<Rightarrow> string \<Rightarrow> string \<Rightarrow> string \<Rightarrow> int \<Rightarrow> string + string" where
  "SignRefreshToken L now now' secret userID sessionId ttl =
     jl_sign L secret (jl_encode L (no_claims\<lparr>rg_Subject := userID, rg_ID := sessionId,
       rg_ExpiresAt := Some (jl_NumericDate L (now + ttl)), rg_IssuedAt := Some (jl_NumericDate L now')\<rparr>))"

definition ParseRefreshToken :: "jwt_lib \<Rightarrow> int \<Rightarrow> string \<Rightarrow> string \<Rightarrow> string + RegisteredClaims" where
  "ParseRefreshToken L now secret tokenStr =
     (case Option.bind (jl_verify L now secret tokenStr) (jl_decode L) of
        None \<Rightarrow> Inl ''invalid or expired refresh token''
      | Some claims \<Rightarrow> Inr claims)"

section \<open>Device tokens\<close>

record PermissionList =
  pl_Allow :: "string list"
  pl_Deny :: "string list"

text \<open>The tags of \<open>UserClaims\<close> are a map, given by its entries in the order Go iterates over them.\<close>

record UserClaims =
  uc_Name :: string
  uc_Issuer :: string
  uc_BearerToken :: bool
  uc_Tags :: "(string \<times> string) list"
  uc_Pub :: PermissionList
  uc_Sub :: PermissionList

text \<open>The claims of the NATS library, as far as the kit uses them.\<close>

record nats_claims =
  nc_Subject :: string
  nc_Name :: string
  nc_Issuer :: string
  nc_BearerToken :: bool
  nc_Tags :: "string list"
  nc_Pub :: PermissionList
  nc_Sub :: PermissionList
  nc_Expires :: int
  nc_ID :: string

record 'k nats_lib =
  nl_FromSeed :: "string \<Rightarrow> string + 'k"
  nl_NewUserClaims :: "string \<Rightarrow> nats_claims"
  nl_AddTag :: "string \<Rightarrow> string list \<Rightarrow> string list"
  nl_AddSubject :: "string \<Rightarrow> string list \<Rightarrow> string list"
  nl_Encode :: "'k \<Rightarrow> nats_claims \<Rightarrow> string + string"
  nl_Decode :: "string \<Rightarrow> string + nats_claims"

definition device_claims :: "'k nats_lib \<Rightarrow> string \<Rightarrow> UserClaims \<Rightarrow> int \<Rightarrow> nats_claims" where
  "device_claims N userPubKey claims expiresAt =
     (let uc = nl_NewUserClaims N userPubKey;
          perms = (\<lambda>add old. \<lparr>pl_Allow = fold (nl_AddSubject N) (pl_Allow add) (pl_Allow old),
                              pl_Deny = fold (nl_AddSubject N) (pl_Deny add) (pl_Deny old)\<rparr>)
      in uc\<lparr>nc_Name := uc_Name claims, nc_BearerToken := uc_BearerToken claims,
            nc_Expires := expiresAt div 1000000000,
            nc_Tags := fold (\<lambda>(k, v). nl_AddTag N (k @ '':'' @ v)) (uc_Tags claims) (nc_Tags uc),
            nc_Pub := perms (uc_Pub claims) (nc_Pub uc), nc_Sub := perms (uc_Sub claims) (nc_Sub uc)\<rparr>)"

definition IssueUserJWT ::
  "'k nats_lib \<Rightarrow> int \<Rightarrow> string \<Rightarrow> string \<Rightarrow> UserClaims \<Rightarrow> int \<Rightarrow> string + string \<times> string \<times> int" where
  "IssueUserJWT N now signingKeySeed userPubKey claims ttl =
     (if signingKeySeed = [] then Inl ''natsjwt: signing key seed is empty''
      else if userPubKey = [] then Inl ''natsjwt: user public key is empty''
      else
        case nl_FromSeed N signingKeySeed of
          Inl err \<Rightarrow> Inl (''natsjwt: parse signing seed: '' @ err)
        | Inr signingKP \<Rightarrow>
            (let expiresAt = (now + ttl) - (now + ttl) mod 1000000000 in
             case nl_Encode N signingKP (device_claims N userPubKey claims expiresAt) of
               Inl err \<Rightarrow> Inl (''natsjwt: encode user jwt: '' @ err)
             | Inr token \<Rightarrow>
                 (case nl_Decode N token of
                    Inl err \<Rightarrow> Inl (''natsjwt: read assigned jti: '' @ err)
                  | Inr parsed \<Rightarrow> Inr (token, nc_ID parsed, expiresAt))))"

definition splitTag :: "string \<Rightarrow> (string \<times> string) option" where
  "splitTag raw =
     (case dropWhile (\<lambda>c. c \<noteq> CHR '':'') raw of
        [] \<Rightarrow> None
      | _ # v \<Rightarrow> Some (takeWhile (\<lambda>c. c \<noteq> CHR '':'') raw, v))"

definition ParseUserJWT :: "'k nats_lib \<Rightarrow> string \<Rightarrow> string + UserClaims \<times> string \<times> int" where
  "ParseUserJWT N jwtToken =
     (if jwtToken = [] then Inl ''natsjwt: jwt token is empty''
      else
        case nl_Decode N jwtToken of
          Inl err \<Rightarrow> Inl (''natsjwt: decode user jwt: '' @ err)
        | Inr uc \<Rightarrow>
            Inr (\<lparr>uc_Name = nc_Name uc, uc_Issuer = nc_Issuer uc, uc_BearerToken = nc_BearerToken uc,
                  uc_Tags = fold (\<lambda>raw tags. case splitTag raw of Some (k, v) \<Rightarrow> AList.update k v tags | None \<Rightarrow> tags)
                    (nc_Tags uc) [],
                  uc_Pub = nc_Pub uc, uc_Sub = nc_Sub uc\<rparr>,
                 nc_ID uc, nc_Expires uc * 1000000000))"

section \<open>What the libraries promise\<close>

definition ascii :: "string \<Rightarrow> bool" where
  "ascii s \<longleftrightarrow> list_all (\<lambda>c. (of_char c :: nat) < 128) s"

definition registered_keys :: "string list" where
  "registered_keys = [''iss'', ''sub'', ''aud'', ''exp'', ''nbf'', ''iat'', ''jti'']"

definition registered_text :: "RegisteredClaims \<Rightarrow> bool" where
  "registered_text r \<longleftrightarrow> ascii (rg_Issuer r) \<and> ascii (rg_Subject r) \<and> list_all ascii (rg_Audience r) \<and> ascii (rg_ID r)"

definition time_valid :: "int \<Rightarrow> RegisteredClaims \<Rightarrow> bool" where
  "time_valid now r \<longleftrightarrow>
     (case rg_ExpiresAt r of None \<Rightarrow> True | Some e \<Rightarrow> now < e * 1000000000) \<and>
     (case rg_NotBefore r of None \<Rightarrow> True | Some n \<Rightarrow> n * 1000000000 \<le> now)"

text \<open>Dates are whole seconds, JSON keeps ASCII text, the registered claims are written under the names
  of RFC 7519 and read back whatever other members the object has, and a token made with a key is
  accepted with that key while it is valid.\<close>

definition jwt_laws :: "jwt_lib \<Rightarrow> bool" where
  "jwt_laws L \<longleftrightarrow>
     (\<forall>t. jl_NumericDate L t = t div 1000000000) \<and>
     (\<forall>s. ascii s \<longrightarrow> jl_text L s = s) \<and>
     (\<forall>r. fst ` set (jl_encode L r) \<subseteq> set registered_keys) \<and>
     (\<forall>own r. registered_text r \<longrightarrow> (\<forall>(k, v)\<in>set own. to_lower k \<notin> set registered_keys) \<longrightarrow>
        jl_decode L (own @ jl_encode L r) = Some r) \<and>
     (\<forall>key obj r tok now. jl_sign L key obj = Inr tok \<longrightarrow> jl_decode L obj = Some r \<longrightarrow>
        jl_verify L now key tok = (if time_valid now r then Some obj else None))"

text \<open>The parser of the middleware accepts the tokens this library makes, with the object as claims.\<close>

definition parses_tokens_of :: "jwt_lib \<Rightarrow> int \<Rightarrow> int jwt_parser \<Rightarrow> bool" where
  "parses_tokens_of L now parse \<longleftrightarrow>
     (\<forall>key obj tok kf. jl_sign L key obj = Inr tok \<longrightarrow> jl_verify L now key tok = Some obj \<longrightarrow>
        kf ''HS256'' = Some key \<longrightarrow>
        (\<exists>parsed. parse tok kf = Inr parsed \<and> tok_Valid parsed \<and> tok_Claims parsed = Some obj))"

section \<open>Session tokens: what is signed is what is read\<close>

lemma string_field_absent:
  "(\<forall>(k, v)\<in>set obj. to_lower k \<noteq> to_lower name) \<Longrightarrow> string_field name obj acc = Some acc"
  by (induction obj) auto

lemma registered_no_custom:
  assumes "jwt_laws L" "to_lower name \<notin> set registered_keys"
  shows "string_field name (jl_encode L r) acc = Some acc"
proof (rule string_field_absent, clarify)
  fix k v assume kv: "(k, v) \<in> set (jl_encode L r)" "to_lower k = to_lower name"
  have "fst ` set (jl_encode L r) \<subseteq> set registered_keys" using assms(1) by (simp add: jwt_laws_def)
  with kv(1) have "k \<in> set registered_keys" by force
  then have "to_lower k = k" by (auto simp: registered_keys_def to_lower_def lower_char_def)
  with kv(2) assms(2) \<open>k \<in> set registered_keys\<close> show False by simp
qed

lemma own_keys_unregistered:
  "to_lower ''sessionId'' \<notin> set registered_keys" "to_lower ''userId'' \<notin> set registered_keys"
  "to_lower ''email'' \<notin> set registered_keys" "to_lower ''firtName'' \<notin> set registered_keys"
  "to_lower ''lastName'' \<notin> set registered_keys"
  by (simp_all add: registered_keys_def to_lower_def lower_char_def)

lemma jwt_lawsD:
  assumes "jwt_laws L"
  shows "jl_NumericDate L t = t div 1000000000" "ascii s \<Longrightarrow> jl_text L s = s"
    "registered_text r \<Longrightarrow> \<forall>(k, v)\<in>set own. to_lower k \<notin> set registered_keys \<Longrightarrow>
       jl_decode L (own @ jl_encode L r) = Some r"
    "jl_sign L key obj = Inr tok \<Longrightarrow> jl_decode L obj = Some r \<Longrightarrow>
       jl_verify L now key tok = (if time_valid now r then Some obj else None)"
    "fst ` set (jl_encode L r) \<subseteq> set registered_keys"
  using assms unfolding jwt_laws_def by blast+

definition custom_text :: "CustomClaims \<Rightarrow> bool" where
  "custom_text c \<longleftrightarrow> ascii (cl_ID c) \<and> ascii (cl_UserID c) \<and> ascii (cl_Email c) \<and> ascii (cl_FisrtName c) \<and>
     ascii (cl_LastName c) \<and> registered_text (cl_Registered c)"

lemma decode_custom_object:
  assumes "jwt_laws L" "custom_text c"
  shows "jl_decode L (encode_custom L c) = Some (cl_Registered c)"
    and "decode_custom L (encode_custom L c) = Some c"
proof -
  note c = assms(2) [unfolded custom_text_def]
  show dec: "jl_decode L (encode_custom L c) = Some (cl_Registered c)"
    unfolding encode_custom_def
    by (rule jwt_lawsD(3) [OF assms(1)]) (use c own_keys_unregistered in auto)
  have "string_field ''sessionId'' (encode_custom L c) [] = Some (cl_ID c)"
    "string_field ''userId'' (encode_custom L c) [] = Some (cl_UserID c)"
    "string_field ''email'' (encode_custom L c) [] = Some (cl_Email c)"
    "string_field ''firtName'' (encode_custom L c) [] = Some (cl_FisrtName c)"
    "string_field ''lastName'' (encode_custom L c) [] = Some (cl_LastName c)"
    using c by (simp_all add: encode_custom_def registered_no_custom [OF assms(1) own_keys_unregistered(1)]
        registered_no_custom [OF assms(1) own_keys_unregistered(2)]
        registered_no_custom [OF assms(1) own_keys_unregistered(3)]
        registered_no_custom [OF assms(1) own_keys_unregistered(4)]
        registered_no_custom [OF assms(1) own_keys_unregistered(5)]
        jwt_lawsD(2) [OF assms(1)] to_lower_def lower_char_def)
  with dec show "decode_custom L (encode_custom L c) = Some c"
    by (simp add: decode_custom_def)
qed

lemma decode_registered_object:
  assumes "jwt_laws L" "registered_text r"
  shows "jl_decode L (jl_encode L r) = Some r"
    and "decode_custom L (jl_encode L r) = Some \<lparr>cl_ID = [], cl_UserID = [], cl_Email = [], cl_FisrtName = [],
      cl_LastName = [], cl_Registered = r\<rparr>"
proof -
  show dec: "jl_decode L (jl_encode L r) = Some r"
    using jwt_lawsD(3) [OF assms(1,2), of "[]"] by simp
  show "decode_custom L (jl_encode L r) = Some \<lparr>cl_ID = [], cl_UserID = [], cl_Email = [], cl_FisrtName = [],
      cl_LastName = [], cl_Registered = r\<rparr>"
    by (simp add: decode_custom_def dec registered_no_custom [OF assms(1) own_keys_unregistered(1)]
        registered_no_custom [OF assms(1) own_keys_unregistered(2)]
        registered_no_custom [OF assms(1) own_keys_unregistered(3)]
        registered_no_custom [OF assms(1) own_keys_unregistered(4)]
        registered_no_custom [OF assms(1) own_keys_unregistered(5)])
qed

lemma ascii_Nil [simp]: "ascii []"
  by (simp add: ascii_def)

abbreviation session_claims :: "int \<Rightarrow> int \<Rightarrow> RegisteredClaims" where
  "session_claims expires issued \<equiv>
     no_claims\<lparr>rg_ExpiresAt := Some (expires div 1000000000), rg_IssuedAt := Some (issued div 1000000000)\<rparr>"

lemma session_token:
  assumes "jwt_laws L" "ascii userID" "ascii sessionId" "ascii email"
    and "SignJWT L t t' secret userID sessionId email ttl = Inr tok"
  defines "c \<equiv> \<lparr>cl_ID = sessionId, cl_UserID = userID, cl_Email = email, cl_FisrtName = [], cl_LastName = [],
    cl_Registered = session_claims (t + ttl) t'\<rparr>"
  shows "jl_sign L secret (encode_custom L c) = Inr tok" "custom_text c"
    "jl_verify L now secret tok =
       (if now < (t + ttl) div 1000000000 * 1000000000 then Some (encode_custom L c) else None)"
proof -
  show sign: "jl_sign L secret (encode_custom L c) = Inr tok"
    using assms(5) by (simp add: SignJWT_def c_def jwt_lawsD(1) [OF assms(1)])
  show plain: "custom_text c"
    using assms(2-4) by (simp add: custom_text_def c_def registered_text_def no_claims_def)
  show "jl_verify L now secret tok =
       (if now < (t + ttl) div 1000000000 * 1000000000 then Some (encode_custom L c) else None)"
    using jwt_lawsD(4) [OF assms(1) sign decode_custom_object(1) [OF assms(1) plain]]
    by (simp add: time_valid_def c_def no_claims_def)
qed

lemma refresh_token:
  assumes "jwt_laws L" "ascii userID" "ascii sessionId"
    and "SignRefreshToken L t t' secret userID sessionId ttl = Inr tok"
  defines "r \<equiv> (session_claims (t + ttl) t')\<lparr>rg_Subject := userID, rg_ID := sessionId\<rparr>"
  shows "jl_sign L secret (jl_encode L r) = Inr tok" "registered_text r"
    "jl_verify L now secret tok =
       (if now < (t + ttl) div 1000000000 * 1000000000 then Some (jl_encode L r) else None)"
proof -
  have r: "r = no_claims\<lparr>rg_Subject := userID, rg_ID := sessionId,
      rg_ExpiresAt := Some ((t + ttl) div 1000000000), rg_IssuedAt := Some (t' div 1000000000)\<rparr>"
    by (simp add: r_def no_claims_def)
  show sign: "jl_sign L secret (jl_encode L r) = Inr tok"
    using assms(4) by (simp add: SignRefreshToken_def r jwt_lawsD(1) [OF assms(1)])
  show plain: "registered_text r"
    using assms(2,3) by (simp add: r_def registered_text_def no_claims_def)
  show "jl_verify L now secret tok =
       (if now < (t + ttl) div 1000000000 * 1000000000 then Some (jl_encode L r) else None)"
    using jwt_lawsD(4) [OF assms(1) sign decode_registered_object(1) [OF assms(1) plain]]
    by (simp add: time_valid_def r_def no_claims_def)
qed

text \<open>Until its expiry, cut to whole seconds, a token parses to exactly the claims it was made with; from
  then on it is refused.\<close>

lemma session_tokens_roundtrip:
  assumes "jwt_laws L" "ascii userID" "ascii sessionId" "ascii email"
  shows "SignJWT L t t' secret userID sessionId email ttl = Inr tok \<Longrightarrow>
    ParseJWT L now secret tok =
      (if now < (t + ttl) div 1000000000 * 1000000000
       then Inr \<lparr>cl_ID = sessionId, cl_UserID = userID, cl_Email = email, cl_FisrtName = [], cl_LastName = [],
         cl_Registered = session_claims (t + ttl) t'\<rparr>
       else Inl ''invalid or expired token'')"
    and "SignRefreshToken L t t' secret userID sessionId ttl = Inr rtok \<Longrightarrow>
    ParseRefreshToken L now secret rtok =
      (if now < (t + ttl) div 1000000000 * 1000000000
       then Inr ((session_claims (t + ttl) t')\<lparr>rg_Subject := userID, rg_ID := sessionId\<rparr>)
       else Inl ''invalid or expired refresh token'')"
  using session_token [OF assms] decode_custom_object(2) [OF assms(1)]
    refresh_token [OF assms(1-3)] decode_registered_object(1) [OF assms(1)]
  by (simp_all add: ParseJWT_def ParseRefreshToken_def)

lemma middleware_passes_token:
  assumes "parses_tokens_of L now parse5" "jl_sign L secret obj = Inr tok" "jl_verify L now secret tok = Some obj"
    and cfg: "Strategy cfg = ''jwt''" "Algorithm cfg = ''HS256''" "Secret cfg = secret"
    and "fc_header c ''Authorization'' = ''Bearer '' @ tok"
  shows "\<exists>c'. AuthMiddleware parse5 parse4 jwks cfg c = Next c' \<and> get_local c' ''user'' = Some (LClaims obj)"
proof -
  obtain parsed where "parse5 tok (\<lambda>alg. if alg \<noteq> ''HS256'' then None else Some secret) = Inr parsed"
    "tok_Valid parsed" "tok_Claims parsed = Some obj"
    using assms(1) [unfolded parses_tokens_of_def, rule_format, OF assms(2,3),
        of "\<lambda>alg. if alg \<noteq> ''HS256'' then None else Some secret"] by auto
  moreover have "trim_prefix (fc_header c ''Authorization'') ''Bearer '' = tok" "fc_header c ''Authorization'' \<noteq> []"
    unfolding assms(7) by (rule trim_prefix_append) simp
  ultimately show ?thesis
    by (simp add: AuthMiddleware_def cfg ParseJWTTokenWithSecret_def checked_claims_def Let_def)
qed

text \<open>
  C11. The two kinds of tokens. An access token that has not expired passes \<open>AuthMiddleware\<close> and gives the
  handlers the user it was made for. A refresh token made with the same secret passes the middleware
  too, but identifies nobody. The parsers do not tell the kinds apart either: each accepts a token of
  the other kind and returns claims in which the user is empty.
\<close>

theorem only_access_tokens_identify:
  assumes laws: "jwt_laws L" "parses_tokens_of L now parse5"
    and plain: "ascii userID" "ascii sessionId" "ascii email" and user: "userID \<noteq> []"
    and access: "SignJWT L t t' secret userID sessionId email ttl = Inr tok"
    and refresh: "SignRefreshToken L t t' secret userID sessionId ttl = Inr rtok"
    and live: "now < (t + ttl) div 1000000000 * 1000000000"
    and cfg: "Strategy cfg = ''jwt''" "Algorithm cfg = ''HS256''" "Secret cfg = secret"
    and header: "fc_header c ''Authorization'' = ''Bearer '' @ tok" "fc_header d ''Authorization'' = ''Bearer '' @ rtok"
  shows "(\<exists>c'. AuthMiddleware parse5 parse4 jwks cfg c = Next c' \<and> GetUserIdFromToken c' = Some userID) \<and>
    (\<exists>d'. AuthMiddleware parse5 parse4 jwks cfg d = Next d' \<and> GetUserIdFromToken d' = None) \<and>
    (\<exists>claims. ParseJWT L now secret rtok = Inr claims \<and> cl_UserID claims = [] \<and>
       rg_Subject (cl_Registered claims) = userID) \<and>
    (\<exists>claims. ParseRefreshToken L now secret tok = Inr claims \<and> rg_Subject claims = [] \<and> rg_ID claims = [])"
proof -
  note A = session_token [OF laws(1) plain access] and R = refresh_token [OF laws(1) plain(1,2) refresh]
  let ?a = "encode_custom L \<lparr>cl_ID = sessionId, cl_UserID = userID, cl_Email = email, cl_FisrtName = [],
    cl_LastName = [], cl_Registered = session_claims (t + ttl) t'\<rparr>"
  let ?r = "(session_claims (t + ttl) t')\<lparr>rg_Subject := userID, rg_ID := sessionId\<rparr>"
  have va: "jl_verify L now secret tok = Some ?a" and vr: "jl_verify L now secret rtok = Some (jl_encode L ?r)"
    using A(3) R(3) live by simp_all
  obtain c' where c': "AuthMiddleware parse5 parse4 jwks cfg c = Next c'" "get_local c' ''user'' = Some (LClaims ?a)"
    using middleware_passes_token [OF laws(2) A(1) va cfg header(1)] by metis
  obtain d' where d': "AuthMiddleware parse5 parse4 jwks cfg d = Next d'"
    "get_local d' ''user'' = Some (LClaims (jl_encode L ?r))"
    using middleware_passes_token [OF laws(2) R(1) vr cfg header(2)] by metis
  have "''userId'' \<notin> fst ` set (jl_encode L ?r)"
    using jwt_lawsD(5) [OF laws(1), of ?r] by (auto simp: registered_keys_def)
  then have "map_of (jl_encode L ?r) ''userId'' = None" by (simp add: map_of_eq_None_iff)
  then have "GetUserIdFromToken d' = None" by (simp add: GetUserIdFromToken_def d'(2))
  moreover have "GetUserIdFromToken c' = Some userID"
    using user plain(1) by (simp add: GetUserIdFromToken_def c'(2) encode_custom_def jwt_lawsD(2) [OF laws(1)])
  moreover have "\<exists>claims. ParseJWT L now secret rtok = Inr claims \<and> cl_UserID claims = [] \<and>
       rg_Subject (cl_Registered claims) = userID"
    by (simp add: ParseJWT_def vr decode_registered_object(2) [OF laws(1) R(2)])
  moreover have "ParseRefreshToken L now secret tok = Inr (session_claims (t + ttl) t')"
    using decode_custom_object(1) [OF laws(1) A(2)] by (simp add: ParseRefreshToken_def va)
  then have "\<exists>claims. ParseRefreshToken L now secret tok = Inr claims \<and> rg_Subject claims = [] \<and> rg_ID claims = []"
    by (simp add: no_claims_def)
  ultimately show ?thesis using c'(1) d'(1) by blast
qed

text \<open>A library that signs two particular objects and reads registered claims by their names.\<close>

definition demo_encode :: "RegisteredClaims \<Rightarrow> claims_object" where
  "demo_encode r =
     (let str = (\<lambda>k v. if v = [] then [] else [(k, GStr v)]);
          num = (\<lambda>k v. case v of None \<Rightarrow> [] | Some n \<Rightarrow> [(k, GNum n)])
      in str ''iss'' (rg_Issuer r) @ str ''sub'' (rg_Subject r) @
         (if rg_Audience r = [] then [] else [(''aud'', GList (map GStr (rg_Audience r)))]) @
         num ''exp'' (rg_ExpiresAt r) @ num ''nbf'' (rg_NotBefore r) @ num ''iat'' (rg_IssuedAt r) @
         str ''jti'' (rg_ID r))"

definition demo_decode :: "claims_object \<Rightarrow> RegisteredClaims option" where
  "demo_decode obj =
     (let str = (\<lambda>k. case map_of obj k of Some (GStr v) \<Rightarrow> v | _ \<Rightarrow> []);
          num = (\<lambda>k. case map_of obj k of Some (GNum n) \<Rightarrow> Some n | _ \<Rightarrow> None)
      in Some \<lparr>rg_Issuer = str ''iss'', rg_Subject = str ''sub'',
           rg_Audience = (case map_of obj ''aud'' of
               Some (GList vs) \<Rightarrow> map (\<lambda>v. case v of GStr x \<Rightarrow> x | _ \<Rightarrow> []) vs | _ \<Rightarrow> []),
           rg_ExpiresAt = num ''exp'', rg_NotBefore = num ''nbf'', rg_IssuedAt = num ''iat'', rg_ID = str ''jti''\<rparr>)"

definition demo_access :: claims_object where
  "demo_access = [(''sessionId'', GStr ''s1''), (''userId'', GStr ''u1''), (''email'', GStr ''e1''),
     (''firtName'', GStr []), (''lastName'', GStr []), (''exp'', GNum 160), (''iat'', GNum 100)]"

definition demo_refresh :: claims_object where
  "demo_refresh = [(''sub'', GStr ''u1''), (''exp'', GNum 160), (''iat'', GNum 100), (''jti'', GStr ''s1'')]"

definition demo_jwt :: jwt_lib where
  "demo_jwt = \<lparr>jl_text = id, jl_NumericDate = (\<lambda>t. t div 1000000000), jl_encode = demo_encode,
     jl_decode = demo_decode,
     jl_sign = (\<lambda>key obj. if key \<noteq> ''k'' then Inl ''unknown key'' else if obj = demo_access then Inr ''a''
       else if obj = demo_refresh then Inr ''r'' else Inl ''unknown object''),
     jl_verify = (\<lambda>now key tok. let obj = (if tok = ''a'' then demo_access else demo_refresh) in
       if key = ''k'' \<and> tok \<in> {''a'', ''r''} \<and> time_valid now (the (demo_decode obj)) then Some obj else None)\<rparr>"

lemma map_of_other_members:
  assumes "\<forall>(k, v)\<in>set own. to_lower k \<notin> set registered_keys" "k \<in> set registered_keys"
  shows "map_of (own @ obj) k = map_of obj k"
proof -
  have "to_lower k = k" using assms(2) by (auto simp: registered_keys_def to_lower_def lower_char_def)
  then have "map_of own k = None" using assms by (force simp: map_of_eq_None_iff)
  then show ?thesis by (simp add: map_add_def)
qed

lemma demo_decode_encode: "demo_decode (demo_encode r) = Some r"
  by (cases "rg_Issuer r"; cases "rg_Subject r"; cases "rg_Audience r"; cases "rg_ExpiresAt r";
      cases "rg_NotBefore r"; cases "rg_IssuedAt r"; cases "rg_ID r")
    (simp_all add: demo_decode_def demo_encode_def comp_def)

lemma demo_jwt_laws: "jwt_laws demo_jwt"
proof -
  have "fst ` set (demo_encode r) \<subseteq> set registered_keys" for r
    by (auto simp: demo_encode_def registered_keys_def Let_def split: option.splits if_splits)
  moreover have "demo_decode (own @ demo_encode r) = Some r"
    if "\<forall>(k, v)\<in>set own. to_lower k \<notin> set registered_keys" for own r
  proof -
    have "map_of (own @ demo_encode r) k = map_of (demo_encode r) k" if "k \<in> set registered_keys" for k
      using that \<open>\<forall>(k, v)\<in>set own. to_lower k \<notin> set registered_keys\<close> by (intro map_of_other_members)
    then have "demo_decode (own @ demo_encode r) = demo_decode (demo_encode r)"
      unfolding demo_decode_def by (simp add: registered_keys_def)
    then show ?thesis by (simp add: demo_decode_encode)
  qed
  moreover have "demo_access \<noteq> demo_refresh" by (simp add: demo_access_def demo_refresh_def)
  ultimately show ?thesis
    by (auto simp: jwt_laws_def demo_jwt_def Let_def split: if_splits)
qed

theorem only_access_tokens_identify_witness:
  "\<exists>c'. AuthMiddleware (\<lambda>tok kf. case kf ''HS256'' of
        None \<Rightarrow> Inl ''refused''
      | Some key \<Rightarrow> (case jl_verify demo_jwt 120000000000 key tok of
          None \<Rightarrow> Inl ''invalid'' | Some obj \<Rightarrow> Inr \<lparr>tok_Valid = True, tok_Claims = Some obj\<rparr>))
      (\<lambda>_ _. Inl []) (\<lambda>_. Inl [])
      \<lparr>Strategy = ''jwt'', Secret = ''k'', JWKSURL = [], Algorithm = ''HS256'', RolesPath = [], RolesSource = [],
       RolesAPIURL = []\<rparr> \<lparr>fc_header = (\<lambda>_. ''Bearer a''), fc_query = (\<lambda>_. []), fc_locals = []\<rparr> = Next c' \<and>
    GetUserIdFromToken c' = Some ''u1''"
  (is "\<exists>c'. AuthMiddleware ?parse _ _ ?cfg ?c = Next c' \<and> _")
proof -
  have "parses_tokens_of demo_jwt 120000000000 ?parse" by (simp add: parses_tokens_of_def)
  moreover have "SignJWT demo_jwt 100000000000 100000000000 ''k'' ''u1'' ''s1'' ''e1'' 60000000000 = Inr ''a''"
    by (simp add: SignJWT_def demo_jwt_def encode_custom_def demo_encode_def no_claims_def demo_access_def)
  moreover have "SignRefreshToken demo_jwt 100000000000 100000000000 ''k'' ''u1'' ''s1'' 60000000000 = Inr ''r''"
    by (simp add: SignRefreshToken_def demo_jwt_def demo_encode_def no_claims_def demo_access_def demo_refresh_def)
  ultimately show ?thesis
    using only_access_tokens_identify [OF demo_jwt_laws, of 120000000000 ?parse "''u1''" "''s1''" "''e1''"
        100000000000 100000000000 "''k''" 60000000000 "''a''" "''r''" ?cfg ?c
        "\<lparr>fc_header = (\<lambda>_. ''Bearer r''), fc_query = (\<lambda>_. []), fc_locals = []\<rparr>" "\<lambda>_ _. Inl []" "\<lambda>_. Inl []"]
    by (simp add: ascii_def)
qed

section \<open>Device tokens: what is issued is what is read\<close>

definition permission_text :: "PermissionList \<Rightarrow> bool" where
  "permission_text p \<longleftrightarrow> list_all ascii (pl_Allow p) \<and> list_all ascii (pl_Deny p)"

definition nats_text :: "nats_claims \<Rightarrow> bool" where
  "nats_text uc \<longleftrightarrow> ascii (nc_Name uc) \<and> list_all ascii (nc_Tags uc) \<and> permission_text (nc_Pub uc) \<and> permission_text (nc_Sub uc)"

text \<open>New claims are empty, tags are kept in lower case, lists hold each entry once, and a token decodes to the
  claims it was encoded from, with the issuer's public key and an assigned identifier.\<close>

definition nats_laws :: "'k nats_lib \<Rightarrow> ('k \<Rightarrow> string) \<Rightarrow> bool" where
  "nats_laws N public \<longleftrightarrow>
     (\<forall>p. nc_Tags (nl_NewUserClaims N p) = [] \<and> nc_Pub (nl_NewUserClaims N p) = \<lparr>pl_Allow = [], pl_Deny = []\<rparr> \<and>
        nc_Sub (nl_NewUserClaims N p) = \<lparr>pl_Allow = [], pl_Deny = []\<rparr>) \<and>
     (\<forall>t ts. trim_space t = t \<longrightarrow> nl_AddTag N t ts = (if to_lower t \<in> set ts then ts else ts @ [to_lower t])) \<and>
     (\<forall>v vs. v \<noteq> [] \<longrightarrow> nl_AddSubject N v vs = (if v \<in> set vs then vs else vs @ [v])) \<and>
     (\<forall>k uc tok. nats_text uc \<longrightarrow> nl_Encode N k uc = Inr tok \<longrightarrow> tok \<noteq> [] \<and>
        (\<exists>jti. nl_Decode N tok = Inr (uc\<lparr>nc_Issuer := public k, nc_ID := jti\<rparr>)))"

text \<open>A tag that survives: no colon in its key, lower case, no blanks around it.\<close>

definition tag_ok :: "string \<times> string \<Rightarrow> bool" where
  "tag_ok kv \<longleftrightarrow> CHR '':'' \<notin> set (fst kv) \<and> ascii (fst kv) \<and> ascii (snd kv) \<and>
     to_lower (fst kv @ '':'' @ snd kv) = fst kv @ '':'' @ snd kv \<and>
     trim_space (fst kv @ '':'' @ snd kv) = fst kv @ '':'' @ snd kv"

definition subjects_ok :: "string list \<Rightarrow> bool" where
  "subjects_ok vs \<longleftrightarrow> distinct vs \<and> list_all (\<lambda>v. v \<noteq> [] \<and> ascii v) vs"

definition permission_ok :: "PermissionList \<Rightarrow> bool" where
  "permission_ok p \<longleftrightarrow> subjects_ok (pl_Allow p) \<and> subjects_ok (pl_Deny p)"

lemma splitTag_join: "CHR '':'' \<notin> set k \<Longrightarrow> splitTag (k @ '':'' @ v) = Some (k, v)"
proof -
  assume "CHR '':'' \<notin> set k"
  then have "\<forall>c\<in>set k. c \<noteq> CHR '':''" by auto
  then show ?thesis by (simp add: splitTag_def takeWhile_append2 dropWhile_append2)
qed

lemma splitTag_colon_in_key: "splitTag ((''a:b'') @ '':'' @ v) = Some (''a'', ''b:'' @ v)"
  by (simp add: splitTag_def)

lemma fold_add_distinct:
  assumes "\<And>x xs. x \<in> set ys \<Longrightarrow> add x xs = (if g x \<in> set xs then xs else xs @ [g x])"
    and "distinct (xs @ map g ys)"
  shows "fold add ys xs = xs @ map g ys"
  using assms by (induction ys arbitrary: xs) auto

lemma fold_update_fresh:
  assumes "distinct (map fst (acc @ kvs))"
  shows "fold (\<lambda>(k, v) m. AList.update k v m) kvs acc = acc @ kvs"
  using assms
proof (induction kvs arbitrary: acc)
  case (Cons kv kvs)
  have "AList.update (fst kv) (snd kv) acc = acc @ [kv]" if "fst kv \<notin> fst ` set acc"
    using that by (induction acc) auto
  then show ?case using Cons by (auto simp: case_prod_beta)
qed simp

lemma fold_subjects:
  assumes "nats_laws N public" "subjects_ok vs"
  shows "fold (nl_AddSubject N) vs [] = vs"
  using fold_add_distinct [of vs "nl_AddSubject N" id "[]"] assms
  by (auto simp: nats_laws_def subjects_ok_def list_all_iff)

lemma tags_distinct:
  assumes "list_all tag_ok tags" "distinct (map fst tags)"
  shows "distinct (map (\<lambda>(k, v). k @ '':'' @ v) tags)"
proof -
  have "map (\<lambda>t. map_option fst (splitTag t)) (map (\<lambda>(k, v). k @ '':'' @ v) tags) = map Some (map fst tags)"
    using assms(1) by (induction tags) (auto simp: tag_ok_def splitTag_join [simplified])
  moreover have "distinct (map Some (map fst tags))" using assms(2) by (simp only: distinct_map) simp
  ultimately have "distinct (map (\<lambda>t. map_option fst (splitTag t)) (map (\<lambda>(k, v). k @ '':'' @ v) tags))" by metis
  then show ?thesis using distinct_map by blast
qed

lemma fold_tags:
  assumes "nats_laws N public" "list_all tag_ok tags" "distinct (map fst tags)"
  shows "fold (\<lambda>(k, v). nl_AddTag N (k @ '':'' @ v)) tags [] = map (\<lambda>(k, v). k @ '':'' @ v) tags"
  using fold_add_distinct [of tags "\<lambda>(k, v). nl_AddTag N (k @ '':'' @ v)" "\<lambda>(k, v). k @ '':'' @ v" "[]"]
    assms tags_distinct [OF assms(2,3)]
  by (force simp: nats_laws_def tag_ok_def list_all_iff)

lemma read_tags:
  assumes "list_all tag_ok tags" "distinct (map fst tags)"
  shows "fold (\<lambda>raw m. case splitTag raw of Some (k, v) \<Rightarrow> AList.update k v m | None \<Rightarrow> m)
    (map (\<lambda>(k, v). k @ '':'' @ v) tags) [] = tags"
proof -
  have "fold (\<lambda>raw m. case splitTag raw of Some (k, v) \<Rightarrow> AList.update k v m | None \<Rightarrow> m)
      (map (\<lambda>(k, v). k @ '':'' @ v) tags) acc = fold (\<lambda>(k, v) m. AList.update k v m) tags acc" for acc
    using assms(1)
    by (induction tags arbitrary: acc) (auto simp: tag_ok_def splitTag_join [simplified])
  then show ?thesis using fold_update_fresh [of "[]" tags] assms(2) by simp
qed


definition demo_device :: UserClaims where
  "demo_device = \<lparr>uc_Name = ''pump'', uc_Issuer = [], uc_BearerToken = True,
     uc_Tags = [(''org'', ''o1''), (''asset'', ''a:2'')],
     uc_Pub = \<lparr>pl_Allow = [''t.up'', ''t.log''], pl_Deny = []\<rparr>, uc_Sub = \<lparr>pl_Allow = [''t.down''], pl_Deny = [''t.x'']\<rparr>\<rparr>"

definition demo_device_claims :: nats_claims where
  "demo_device_claims = \<lparr>nc_Subject = ''U'', nc_Name = ''pump'', nc_Issuer = [], nc_BearerToken = True,
     nc_Tags = [''org:o1'', ''asset:a:2''], nc_Pub = uc_Pub demo_device, nc_Sub = uc_Sub demo_device,
     nc_Expires = 65, nc_ID = []\<rparr>"

definition demo_nats :: "string nats_lib" where
  "demo_nats = \<lparr>nl_FromSeed = Inr,
     nl_NewUserClaims = (\<lambda>p. \<lparr>nc_Subject = p, nc_Name = [], nc_Issuer = [], nc_BearerToken = False, nc_Tags = [],
       nc_Pub = \<lparr>pl_Allow = [], pl_Deny = []\<rparr>, nc_Sub = \<lparr>pl_Allow = [], pl_Deny = []\<rparr>, nc_Expires = 0, nc_ID = []\<rparr>),
     nl_AddTag = (\<lambda>t ts. if to_lower t \<in> set ts then ts else ts @ [to_lower t]),
     nl_AddSubject = (\<lambda>v vs. if v \<in> set vs then vs else vs @ [v]),
     nl_Encode = (\<lambda>k uc. if k = ''S'' \<and> uc = demo_device_claims then Inr ''t'' else Inl ''unknown''),
     nl_Decode = (\<lambda>tok. if tok = ''t'' then Inr (demo_device_claims\<lparr>nc_Issuer := ''PS'', nc_ID := ''j''\<rparr>) else Inl ''bad'')\<rparr>"


end
