(* ===== verification/Connections.thy ===== *)
theory Connections
  imports Configuration Service_Health Tiered_Cache Mongo_Model
begin

text \<open>
  Opening and closing connections: the constructors of the NATS, Redis and older ClickHouse clients, of
  the MongoDB model, \<open>Close\<close> of the tiered cache and the transaction wrappers of the model. A
  constructor returns the calls it makes on the driver beside its result, so that it shows which
  connections it leaves open.
\<close>

section \<open>Calls on a driver\<close>

datatype conn_event =
    EOpen "string list"
  | EPing
  | EJetStream
  | EOnConnect
  | ESetReconnectHandler
  | EClose

section \<open>nats/nats.go\<close>

text \<open>What the NATS library answers; \<open>nd_closed\<close> and \<open>nd_rtt\<close> are the state of a connection later on.\<close>

record nats_driver =
  nd_Connect :: "NatsOptions \<Rightarrow> string option"
  nd_JetStream :: "string option"

definition New_nats :: "nats_driver \<Rightarrow> bool \<Rightarrow> NatsOptions \<Rightarrow> conn_event list \<times> string option" where
  "New_nats d hasOnConnect options =
     (case nd_Connect d options of
        Some err \<Rightarrow> ([EOpen [no_Url options]], Some err)
      | None \<Rightarrow>
          (case nd_JetStream d of
             Some err \<Rightarrow> ([EOpen [no_Url options], EJetStream], Some err)
           | None \<Rightarrow>
               ([EOpen [no_Url options], EJetStream] @
                (if hasOnConnect then [EOnConnect] else []) @
                (if hasOnConnect then [ESetReconnectHandler] else []), None)))"

text \<open>A client's connection: whether it is closed and the answer of \<open>RTT\<close>.\<close>

record nats_conn =
  cn_closed :: bool
  cn_rtt :: "int \<times> string option"

definition nats_Ping :: "nats_conn option \<Rightarrow> int \<times> string option" where
  "nats_Ping nc =
     (case nc of
        None \<Rightarrow> (0, Some ''nats: connection is closed'')
      | Some c \<Rightarrow> if cn_closed c then (0, Some ''nats: connection is closed'') else cn_rtt c)"

definition nats_IsConnected :: "nats_conn option \<Rightarrow> bool" where
  "nats_IsConnected nc = (case nc of None \<Rightarrow> False | Some c \<Rightarrow> \<not> cn_closed c)"

definition nats_Close :: "nats_conn option \<Rightarrow> nats_conn option \<times> conn_event list" where
  "nats_Close nc =
     (case nc of
        None \<Rightarrow> (None, [])
      | Some c \<Rightarrow> if \<not> cn_closed c then (Some (c\<lparr>cn_closed := True\<rparr>), [EClose]) else (Some c, []))"

section \<open>redis/redis.go and clickhouse/clickhouse.go\<close>

definition New_redis :: "string option \<Rightarrow> RedisConfig \<Rightarrow> conn_event list \<times> (string + RedisClient)" where
  "New_redis ping conf =
     ([EOpen [rc_Host conf @ '':'' @ itoa (rc_Port conf), rc_Username conf, rc_Password conf, itoa (rc_DB conf)], EPing],
      case ping of
        Some err \<Rightarrow> Inl (''redis ping failed: '' @ err)
      | None \<Rightarrow> Inr \<lparr>RedisClient.keyPrefix = rc_KeyPrefix conf\<rparr>)"

definition redis_Close :: "string option option \<Rightarrow> conn_event list \<times> string option" where
  "redis_Close client = (case client of Some err \<Rightarrow> ([EClose], err) | None \<Rightarrow> ([], None))"

text \<open>\<open>NewGoRedisClient\<close> panics (the right side is missing) when the ping fails.\<close>

definition NewGoRedisClient :: "string option \<Rightarrow> RedisConfig \<Rightarrow> conn_event list \<times> unit option" where
  "NewGoRedisClient ping conf =
     ([EOpen [rc_Host conf @ '':'' @ itoa (rc_Port conf), rc_Username conf, rc_Password conf, itoa (rc_DB conf)], EPing],
      case ping of Some err \<Rightarrow> None | None \<Rightarrow> Some ())"

definition New_clickhouse_client :: "(string list \<Rightarrow> string option) \<Rightarrow> string option \<Rightarrow> ClickHouseConfig \<Rightarrow>
     conn_event list \<times> string option" where
  "New_clickhouse_client open_err ping conf =
     (let options = [chc_Host conf @ '':'' @ itoa (chc_Port conf), chc_Database conf, chc_Username conf, chc_Password conf] in
      case open_err options of
        Some err \<Rightarrow> ([EOpen options], Some (''clickhouse connection failed: '' @ err))
      | None \<Rightarrow>
          ([EOpen options, EPing],
           map_option (\<lambda>err. ''clickhouse ping failed: '' @ err) ping))"

section \<open>mongodb/model: New and transactions\<close>

datatype db_call = CreateCollection string | CreateIndexes "IndexDefinition list"

text \<open>\<open>names\<close> is the listing of the collections with the given name; the errors of creating the collection
  or its indexes are logged only, so the model is returned in every case.\<close>

definition New_model ::
  "((string \<times> int) list \<Rightarrow> (string \<times> int) list) \<Rightarrow> (string + string list) \<Rightarrow> (string + string option list) \<Rightarrow>
     string option \<Rightarrow> string \<Rightarrow> IndexDefinition list \<Rightarrow> db_call list" where
  "New_model order names listing create_err collection indexes =
     (case names of
        Inl err \<Rightarrow> []
      | Inr collections \<Rightarrow> if collections = [] then [CreateCollection collection] else []) @
     (if indexes \<noteq> [] then
        (case fst (ensureIndexes order listing create_err indexes) of
           [] \<Rightarrow> []
         | todo \<Rightarrow> [CreateIndexes todo])
      else [])"

definition Model_NewSession :: "nat option \<Rightarrow> (nat \<Rightarrow> mongo_error + 's) \<Rightarrow> mongo_error + 's" where
  "Model_NewSession client open_session =
     (case client of None \<Rightarrow> Inl ErrNotConnected | Some c \<Rightarrow> open_session c)"

definition Model_RunTransaction ::
  "nat option \<Rightarrow> (nat \<Rightarrow> mongo_error + 's) \<Rightarrow> ('s, 'r) session \<Rightarrow> ('r txn_call list \<times> (mongo_error + 'r)) option" where
  "Model_RunTransaction client open_session se = RunTransactionWithClient client open_session se"

text \<open>The session passed in is not used.\<close>

definition RunTransactionWithRetry ::
  "nat option \<Rightarrow> (nat \<Rightarrow> mongo_error + 's) \<Rightarrow> 's \<Rightarrow> ('s, 'r) session \<Rightarrow> ('r txn_call list \<times> (mongo_error + 'r)) option" where
  "RunTransactionWithRetry client open_session given se = RunTransactionWithClient client open_session se"

definition Model_CommitWithRetry :: "('s \<Rightarrow> 's \<times> mongo_error option) \<Rightarrow> 's \<Rightarrow> 's \<times> mongo_error option" where
  "Model_CommitWithRetry commit s = commit s"

section \<open>tieredcache: Close\<close>

definition Close_cache :: "('r \<Rightarrow> 'r) \<Rightarrow> 'r TieredCacheClient \<Rightarrow> 'r TieredCacheClient" where
  "Close_cache close c = (case l0Cache c of None \<Rightarrow> c | Some r \<Rightarrow> c\<lparr>l0Cache := Some (close r)\<rparr>)"

section \<open>Lemmas\<close>

text \<open>\<open>Close\<close> may be called any number of times: the connection is closed once, and from then on the health
  check reports it as down.\<close>

lemma nats_Close_once:
  "nats_Close (fst (nats_Close nc)) = (fst (nats_Close nc), [])"
  "\<not> nats_IsConnected (fst (nats_Close nc))"
  "\<not> hs_Connected (nats_check name (nats_Ping (fst (nats_Close nc))) now)"
  by (auto simp: nats_Close_def nats_IsConnected_def nats_Ping_def nats_check_def ping_check_def Let_def
      split: option.split)

lemma healthy_nats_is_connected:
  "hs_Connected (nats_check name (nats_Ping nc) now) \<Longrightarrow> nats_IsConnected nc"
  by (auto simp: nats_IsConnected_def nats_Ping_def nats_check_def ping_check_def Let_def split: option.splits if_splits)

text \<open>A constructor that fails after opening the connection does not close it: the ping of Redis and of
  ClickHouse, and the JetStream context of NATS.\<close>

lemma failed_constructors_leak:
  "nd_Connect d options = None \<Longrightarrow> nd_JetStream d = Some err \<Longrightarrow>
     snd (New_nats d b options) = Some err \<and> EOpen [no_Url options] \<in> set (fst (New_nats d b options)) \<and>
     EClose \<notin> set (fst (New_nats d b options))"
  "(\<exists>o1. EOpen o1 \<in> set (fst (New_redis (Some err) conf))) \<and> EClose \<notin> set (fst (New_redis (Some err) conf)) \<and>
     snd (New_redis (Some err) conf) = Inl (''redis ping failed: '' @ err)"
  "EClose \<notin> set (fst (New_clickhouse_client open_err ping ch))"
  by (auto simp: New_nats_def New_redis_def New_clickhouse_client_def Let_def split: option.splits)

text \<open>A service's Redis client addresses the keys of its environment and service.\<close>

lemma configured_redis_prefix:
  assumes "GetRedisConfig st = Some conf" "snd (New_redis None conf) = Inr client"
    and "GetStringValue st ''go_env'' = Some (Inr e)" "GetStringValue st ''service_name'' = Some (Inr s)"
  shows "RedisClient.keyPrefix client = e @ '':'' @ s"
  using assms by (auto simp: New_redis_def GetRedisConfig_def getRedisConfigBase_def or_zero_def
      split: option.splits bind_splits)

text \<open>Building the model again on a database that has the collection and the indexes changes nothing.\<close>

lemma New_model_idempotent:
  assumes "collections \<noteq> []" "\<forall>idx\<in>set indexes. Some (ix_Name idx) \<in> set present"
  shows "New_model order (Inr collections) (Inr present) create_err collection indexes = []"
proof -
  have "filter (\<lambda>idx. ix_Name idx \<notin> set (map the (filter (\<lambda>n. n \<noteq> None) present))) indexes = []"
    using assms(2) by (force simp: filter_empty_conv)
  then show ?thesis
    using assms(1) by (simp add: New_model_def ensureIndexes_def getExistingIndexNames_def Let_def del: filter_empty_conv)
qed

text \<open>On a connected manager the model and the manager run transactions alike.\<close>

lemma Model_RunTransaction_manager:
  "IsConnected m \<Longrightarrow> mm_client m = Some c \<Longrightarrow>
   Model_RunTransaction (mm_client m) open_session se = RunTransaction m open_session se"
  by (simp add: Model_RunTransaction_def RunTransactionWithClient_def RunTransaction_def NewSession_def)

text \<open>Closing the cache keeps the contract of what it serves: the RAM tier then holds nothing, the files
  stay.\<close>

lemma served_Close_cache:
  assumes "served P e c" "\<And>r now k. rc_get e (close r) now k = None"
  shows "served P e (Close_cache close c)"
proof (cases "l0Cache c")
  case (Some r)
  have "served P e (c\<lparr>l0Cache := Some (close r)\<rparr>)"
    by (rule served_step [OF assms(1)]) (simp_all add: held_def assms(2))
  with Some show ?thesis by (simp add: Close_cache_def)
qed (simp add: Close_cache_def assms(1))

end
