(* ===== verification/Wire.thy ===== *)
theory Wire
  imports Kit_Prelude
begin

text \<open>
  Byte streams for the protocol servers: \<open>io.ReadFull\<close>, \<open>bufio.Reader.ReadString\<close>, \<open>strings.Fields\<close> and the
  big-endian integers of \<open>encoding/binary\<close>. A connection is read as the list of what the client sends
  before it closes; what a handler does is the list of its events, and the end of the list is its
  return.
\<close>

unbundle bit_operations_syntax

named_theorems wire \<open>readers applied to encoded data\<close>

type_synonym byte = "8 word"

text \<open>A write to the connection, a send on the channel of captured messages, or a panic.\<close>

datatype ('b, 'm) event = EWrite "'b list" | ESend 'm | EPanic

fun sends :: "('b, 'm) event list \<Rightarrow> 'm list" where
  "sends [] = []"
| "sends (ESend m # es) = m # sends es"
| "sends (_ # es) = sends es"

lemma sends_append [simp]: "sends (xs @ ys) = sends xs @ sends ys"
  by (induction xs rule: sends.induct) simp_all

lemma sends_map_EWrite [simp]: "sends (map EWrite ws) = []"
  by (induction ws) simp_all

lemma sends_concat: "sends (concat ess) = concat (map sends ess)"
  by (induction ess) simp_all

section \<open>Reading\<close>

text \<open>\<open>make([]byte, n)\<close> panics for a negative length and for one beyond the address space.\<close>

definition max_alloc :: int where "max_alloc = 2 ^ 48"

definition ReadFull :: "nat \<Rightarrow> 'b list \<Rightarrow> ('b list \<times> 'b list) option" where
  "ReadFull n s = (if n \<le> length s then Some (take n s, drop n s) else None)"

text \<open>\<open>ReadFull\<close> whose error is ignored: the rest of the buffer keeps its zero bytes.\<close>

definition ReadFull_lossy :: "nat \<Rightarrow> string \<Rightarrow> string \<times> string" where
  "ReadFull_lossy n s = (take n s @ replicate (n - length s) (CHR 0x00), drop n s)"

text \<open>\<open>ReadString\<close> up to a line feed; without one it consumes everything and fails.\<close>

definition ReadLine :: "string \<Rightarrow> (string \<times> string) option" where
  "ReadLine s =
     (case dropWhile (\<lambda>c. c \<noteq> CHR 0x0A) s of
        [] \<Rightarrow> None
      | nl # rest \<Rightarrow> Some (takeWhile (\<lambda>c. c \<noteq> CHR 0x0A) s @ [nl], rest))"

definition skip_line :: "string \<Rightarrow> string" where
  "skip_line s = (case ReadLine s of None \<Rightarrow> [] | Some (_, rest) \<Rightarrow> rest)"

text \<open>\<open>strings.TrimRight(line, "\r\n")\<close>.\<close>

definition trim_crlf :: "string \<Rightarrow> string" where
  "trim_crlf s = rev (dropWhile (\<lambda>c. c = CHR 0x0D \<or> c = CHR 0x0A) (rev s))"

abbreviation CRLF :: string where "CRLF \<equiv> [CHR 0x0D, CHR 0x0A]"

lemma ReadFull_append [wire, simp]: "length p = n \<Longrightarrow> ReadFull n (p @ s) = Some (p, s)"
  by (simp add: ReadFull_def)

lemma ReadFull_0 [simp]: "ReadFull 0 s = Some ([], s)"
  by (simp add: ReadFull_def)

lemma ReadFull_length: "ReadFull n s = Some (p, s') \<Longrightarrow> length p = n \<and> length s = n + length s'"
  by (auto simp: ReadFull_def split: if_splits)

lemma ReadFull_lossy_append [wire, simp]: "length p = n \<Longrightarrow> ReadFull_lossy n (p @ s) = (p, s)"
  by (simp add: ReadFull_lossy_def)

lemma ReadFull_lossy_length: "length (snd (ReadFull_lossy n s)) \<le> length s"
  by (simp add: ReadFull_lossy_def)

lemma ReadLine_append [wire, simp]:
  assumes "CHR 0x0A \<notin> set l"
  shows "ReadLine (l @ CHR 0x0D # CHR 0x0A # s) = Some (l @ CRLF, s)"
proof -
  have "\<forall>c\<in>set l. c \<noteq> CHR 0x0A" using assms by auto
  then show ?thesis by (simp add: ReadLine_def takeWhile_append2 dropWhile_append2)
qed

lemma ReadLine_length: "ReadLine s = Some (l, s') \<Longrightarrow> length s' < length s"
proof -
  assume "ReadLine s = Some (l, s')"
  then obtain nl where "dropWhile (\<lambda>c. c \<noteq> CHR 0x0A) s = nl # s'"
    by (auto simp: ReadLine_def split: list.splits)
  then show ?thesis
    using length_dropWhile_le [of "\<lambda>c. c \<noteq> CHR 0x0A" s] by simp
qed

lemma skip_line_length: "length (skip_line s) \<le> length s"
  by (auto simp: skip_line_def dest: ReadLine_length split: option.split)

lemma skip_line_CRLF [wire, simp]: "skip_line (CHR 0x0D # CHR 0x0A # s) = s"
  by (simp add: skip_line_def ReadLine_def)

lemma trim_crlf_CRLF [wire, simp]:
  assumes "l = [] \<or> last l \<noteq> CHR 0x0D \<and> last l \<noteq> CHR 0x0A"
  shows "trim_crlf (l @ CRLF) = l"
  using assms by (cases l rule: rev_cases) (auto simp: trim_crlf_def)

text \<open>\<open>strings.Cut\<close> and \<open>strings.Split\<close> at a line break.\<close>

fun go_cut :: "string \<Rightarrow> string \<Rightarrow> (string \<times> string) option" where
  "go_cut sep [] = (if sep = [] then Some ([], []) else None)"
| "go_cut sep (c # s) =
     (if has_prefix (c # s) sep then Some ([], drop (length sep) (c # s))
      else map_option (\<lambda>(k, v). (c # k, v)) (go_cut sep s))"

lemma go_cut_length: "go_cut sep s = Some (k, v) \<Longrightarrow> length s = length k + length sep + length v"
  by (induction sep s arbitrary: k rule: go_cut.induct) (auto simp: has_prefix_iff dest: prefix_length_le split: if_splits)

function split_crlf :: "string \<Rightarrow> string list" where
  "split_crlf s = (case go_cut CRLF s of None \<Rightarrow> [s] | Some (l, rest) \<Rightarrow> l # split_crlf rest)"
  by pat_completeness auto

termination
  by (relation "measure length") (auto dest: go_cut_length)

declare split_crlf.simps [simp del]

text \<open>A separator is found at the first place where its first character occurs.\<close>

lemma go_cut_append [wire, simp]: "d \<notin> set k \<Longrightarrow> go_cut (d # ds) (k @ d # ds @ v) = Some (k, v)"
  by (induction k) (auto simp: has_prefix_iff)

lemma go_cut_None [wire, simp]: "d \<notin> set s \<Longrightarrow> go_cut (d # ds) s = None"
  by (induction s) (auto simp: has_prefix_iff)

lemma split_crlf_append [wire]: "CHR 0x0D \<notin> set l \<Longrightarrow> split_crlf (l @ CRLF @ s) = l # split_crlf s"
  by (subst split_crlf.simps) (simp add: go_cut_append [of "CHR 0x0D" l "[CHR 0x0A]", simplified])

lemma split_crlf_Nil [simp]: "split_crlf [] = [[]]"
  by (subst split_crlf.simps) simp

text \<open>The value of \<open>strconv.Atoi\<close> when the error is ignored: 0 for a malformed number, the nearest bound for one out of
  range, which is noticed before a malformed rest once the digits exceed 64 bits.\<close>

definition atoi_value :: "string \<Rightarrow> int" where
  "atoi_value s =
     (let (neg, body) = sign_body s; ds = takeWhile is_dec body; n = int (dec_number ds) in
      if n < 2 ^ 64 \<and> (body = [] \<or> ds \<noteq> body) then 0
      else if neg then (if 2 ^ 63 < n then - (2 ^ 63) else - n)
      else (if 2 ^ 63 \<le> n then 2 ^ 63 - 1 else n))"

lemma atoi_value_atoi: "atoi s = Some i \<Longrightarrow> atoi_value s = i"
proof -
  have run: "takeWhile is_dec b = b" if "list_all is_dec b" for b
    using that by (simp add: list_all_iff takeWhile_eq_all_conv)
  show "atoi s = Some i \<Longrightarrow> atoi_value s = i"
    by (auto simp: atoi_def atoi_value_def in_int64_def run list_all_iff Let_def split: prod.splits if_splits)
qed

section \<open>strings.Fields\<close>

lemma fields_shrink:
  assumes "dropWhile is_space s \<noteq> []"
  shows "length (dropWhile (\<lambda>c. \<not> is_space c) (dropWhile is_space s)) < length s"
proof -
  obtain c cs where t: "dropWhile is_space s = c # cs" using assms by (cases "dropWhile is_space s") auto
  then have "\<not> is_space c" by (metis assms hd_dropWhile list.sel(1))
  then have "length (dropWhile (\<lambda>c. \<not> is_space c) (c # cs)) \<le> length cs" by (simp add: length_dropWhile_le)
  moreover have "length (c # cs) \<le> length s" using length_dropWhile_le [of is_space s] t by simp
  ultimately show ?thesis using t by simp
qed

function go_fields :: "string \<Rightarrow> string list" where
  "go_fields s =
     (let t = dropWhile is_space s in
      if t = [] then [] else takeWhile (\<lambda>c. \<not> is_space c) t # go_fields (dropWhile (\<lambda>c. \<not> is_space c) t))"
  by pat_completeness auto

termination
  by (relation "measure length") (simp_all add: fields_shrink del: dropWhile_eq_Nil_conv)

declare go_fields.simps [simp del]

lemma go_fields_Nil [simp]: "go_fields [] = []"
  by (simp add: go_fields.simps)

text \<open>A word, a blank, and more.\<close>

definition word_ok :: "string \<Rightarrow> bool" where
  "word_ok w \<longleftrightarrow> w \<noteq> [] \<and> list_all (\<lambda>c. \<not> is_space c) w"

lemma go_fields_word:
  assumes "word_ok w"
  shows "go_fields w = [w]"
proof -
  have ns: "\<forall>x\<in>set w. \<not> is_space x" "w \<noteq> []" using assms by (auto simp: word_ok_def list_all_iff)
  then have "dropWhile is_space w = w" by (cases w) auto
  moreover have "takeWhile (\<lambda>c. \<not> is_space c) w = w" "dropWhile (\<lambda>c. \<not> is_space c) w = []"
    using ns by (simp_all add: takeWhile_eq_all_conv)
  ultimately show ?thesis using ns(2) by (subst go_fields.simps) (simp only: Let_def if_False go_fields_Nil)
qed

lemma go_fields_Cons:
  assumes "word_ok w"
  shows "go_fields (w @ CHR '' '' # s) = w # go_fields s"
proof -
  obtain c cs where w: "w = c # cs" using assms by (cases w) (auto simp: word_ok_def)
  have ns: "\<forall>x\<in>set w. \<not> is_space x" and sp: "is_space (CHR '' '')"
    using assms by (auto simp: word_ok_def list_all_iff is_space_def)
  have "dropWhile is_space (w @ CHR '' '' # s) = w @ CHR '' '' # s" using w ns by simp
  moreover have "takeWhile (\<lambda>c. \<not> is_space c) (w @ CHR '' '' # s) = w"
    "dropWhile (\<lambda>c. \<not> is_space c) (w @ CHR '' '' # s) = CHR '' '' # s"
    using ns sp by (simp_all add: takeWhile_append2 dropWhile_append2)
  moreover have "go_fields (CHR '' '' # s) = go_fields s"
    using sp by (subst (1 2) go_fields.simps) simp
  ultimately show ?thesis using w by (subst go_fields.simps) (simp add: Let_def)
qed

lemma go_fields_join:
  assumes "list_all word_ok ws"
  shows "go_fields (go_join '' '' ws) = ws"
  using assms
proof (induction ws)
  case (Cons w ws)
  then show ?case by (cases ws) (simp_all add: go_fields_word go_fields_Cons)
qed simp

section \<open>Big-endian integers\<close>

definition be :: "byte list \<Rightarrow> nat" where
  "be bs = foldl (\<lambda>n b. 256 * n + unat b) 0 bs"

primrec be_put :: "nat \<Rightarrow> nat \<Rightarrow> byte list" where
  "be_put 0 n = []"
| "be_put (Suc k) n = be_put k (n div 256) @ [of_nat n]"

lemma length_be_put [simp]: "length (be_put k n) = k"
  by (induction k arbitrary: n) simp_all

lemma be_snoc [simp]: "be (bs @ [b]) = 256 * be bs + unat b"
  by (simp add: be_def)

lemma be_Nil [simp]: "be [] = 0"
  by (simp add: be_def)

lemma be_be_put: "be (be_put k n) = n mod 256 ^ k"
proof (induction k arbitrary: n)
  case (Suc k)
  have "unat (of_nat n :: byte) = n mod 256" by (simp add: unat_of_nat)
  then show ?case using Suc by (simp add: mod_mult2_eq mult.commute)
qed simp

lemma be_be_put_id [wire, simp]: "n < 256 ^ k \<Longrightarrow> be (be_put k n) = n"
  by (simp add: be_be_put)

lemma be_less: "be bs < 256 ^ length bs"
proof (induction bs rule: rev_induct)
  case (snoc b bs)
  have "unat b < 2 ^ LENGTH(8)" by (rule unsigned_less)
  with snoc show ?case by simp
qed simp

end
