(* ===== verification/Mock_Server.thy ===== *)
theory Mock_Server
  imports Wire "HOL-Library.Multiset"
begin

text \<open>
  The accept loop the four protocol servers of \<open>infrastructure/mock_servers\<close> share: \<open>startServer\<close> with its
  goroutine, the handlers, the buffered channel of captured messages and the cleanup function, as a
  step relation over every interleaving. The contract \<open>capture_server\<close> is what a protocol handler
  promises about the bytes of a conforming client; from it follows once what a test sees on the channel.
\<close>

section \<open>State and steps\<close>

datatype ('b, 'm) acceptor = Accepting | Holding "('b, 'm) event list" | Stopped

datatype cleanup_phase = NotCalled | WaitingGroup | GroupDone | CleanedUp

text \<open>A handler is the list of events it was started with and the events that are left. The fields
  \<open>sv_inputs\<close>, \<open>sv_finished\<close>, \<open>sv_received\<close> and \<open>sv_held_at_close\<close> record the history: the accepted inputs, the
  handlers that returned, what was received from the channel, and whether a connection was between
  \<open>Accept\<close> and \<open>wg.Add\<close> when the listener was closed.\<close>

record ('i, 'b, 'm) server =
  sv_listening :: bool
  sv_acceptor :: "('b, 'm) acceptor"
  sv_wg :: nat
  sv_handlers :: "(('b, 'm) event list \<times> ('b, 'm) event list) multiset"
  sv_chan :: "'m list"
  sv_chan_closed :: bool
  sv_cleanup :: cleanup_phase
  sv_panicked :: bool
  sv_inputs :: "'i list list"
  sv_finished :: "('b, 'm) event list multiset"
  sv_received :: "'m list"
  sv_held_at_close :: bool

definition chan_capacity :: nat where "chan_capacity = 10"

definition server_init :: "('i, 'b, 'm) server" where
  "server_init = \<lparr>sv_listening = True, sv_acceptor = Accepting, sv_wg = 0, sv_handlers = {#}, sv_chan = [],
     sv_chan_closed = False, sv_cleanup = NotCalled, sv_panicked = False, sv_inputs = [], sv_finished = {#},
     sv_received = [], sv_held_at_close = False\<rparr>"

text \<open>\<open>clients\<close> are the inputs a client may send; a client that never closes its connection is a handler
  that takes no further step. The process stops at a panic.\<close>

inductive server_step ::
  "('i list \<Rightarrow> ('b, 'm) event list) \<Rightarrow> 'i list set \<Rightarrow> ('i, 'b, 'm) server \<Rightarrow> ('i, 'b, 'm) server \<Rightarrow> bool"
  for handle clients where
  accept:
    "\<not> sv_panicked s \<Longrightarrow> sv_listening s \<Longrightarrow> sv_acceptor s = Accepting \<Longrightarrow> input \<in> clients \<Longrightarrow>
     server_step handle clients s
       (s\<lparr>sv_acceptor := Holding (handle input), sv_inputs := sv_inputs s @ [input]\<rparr>)"
| spawn:
    "\<not> sv_panicked s \<Longrightarrow> sv_acceptor s = Holding es \<Longrightarrow>
     server_step handle clients s
       (s\<lparr>sv_acceptor := Accepting, sv_wg := Suc (sv_wg s), sv_handlers := add_mset (es, es) (sv_handlers s)\<rparr>)"
| stop:
    "\<not> sv_panicked s \<Longrightarrow> \<not> sv_listening s \<Longrightarrow> sv_acceptor s = Accepting \<Longrightarrow>
     server_step handle clients s (s\<lparr>sv_acceptor := Stopped\<rparr>)"
| reply:
    "\<not> sv_panicked s \<Longrightarrow> sv_handlers s = add_mset (o1, EWrite b # es) hs \<Longrightarrow>
     server_step handle clients s (s\<lparr>sv_handlers := add_mset (o1, es) hs\<rparr>)"
| send:
    "\<not> sv_panicked s \<Longrightarrow> sv_handlers s = add_mset (o1, ESend m # es) hs \<Longrightarrow> \<not> sv_chan_closed s \<Longrightarrow>
     length (sv_chan s) < chan_capacity \<Longrightarrow>
     server_step handle clients s (s\<lparr>sv_handlers := add_mset (o1, es) hs, sv_chan := sv_chan s @ [m]\<rparr>)"
| send_closed:
    "\<not> sv_panicked s \<Longrightarrow> sv_handlers s = add_mset (o1, ESend m # es) hs \<Longrightarrow> sv_chan_closed s \<Longrightarrow>
     server_step handle clients s (s\<lparr>sv_panicked := True\<rparr>)"
| panic:
    "\<not> sv_panicked s \<Longrightarrow> sv_handlers s = add_mset (o1, EPanic # es) hs \<Longrightarrow>
     server_step handle clients s (s\<lparr>sv_panicked := True\<rparr>)"
| return:
    "\<not> sv_panicked s \<Longrightarrow> sv_handlers s = add_mset (o1, []) hs \<Longrightarrow>
     server_step handle clients s
       (s\<lparr>sv_handlers := hs, sv_wg := sv_wg s - 1, sv_finished := add_mset o1 (sv_finished s)\<rparr>)"
| receive:
    "\<not> sv_panicked s \<Longrightarrow> sv_chan s = m # ms \<Longrightarrow>
     server_step handle clients s (s\<lparr>sv_chan := ms, sv_received := sv_received s @ [m]\<rparr>)"
| close_listener:
    "\<not> sv_panicked s \<Longrightarrow> sv_cleanup s = NotCalled \<Longrightarrow>
     server_step handle clients s (s\<lparr>sv_listening := False, sv_cleanup := WaitingGroup,
       sv_held_at_close := (\<exists>es. sv_acceptor s = Holding es)\<rparr>)"
| wait_group:
    "\<not> sv_panicked s \<Longrightarrow> sv_cleanup s = WaitingGroup \<Longrightarrow> sv_wg s = 0 \<Longrightarrow>
     server_step handle clients s (s\<lparr>sv_cleanup := GroupDone\<rparr>)"
| close_chan:
    "\<not> sv_panicked s \<Longrightarrow> sv_cleanup s = GroupDone \<Longrightarrow>
     server_step handle clients s (s\<lparr>sv_chan_closed := True, sv_cleanup := CleanedUp\<rparr>)"

inductive server_reachable ::
  "('i list \<Rightarrow> ('b, 'm) event list) \<Rightarrow> 'i list set \<Rightarrow> ('i, 'b, 'm) server \<Rightarrow> bool" for handle clients where
  start: "server_reachable handle clients server_init"
| step: "server_reachable handle clients s \<Longrightarrow> server_step handle clients s t \<Longrightarrow> server_reachable handle clients t"

inductive_cases server_stepE: "server_step handle clients s t"

section \<open>Entry points\<close>

text \<open>\<open>StartServer\<close> and \<open>ForBenchmark\<close>, for the server's name: \<open>listen\<close> is \<open>net.Listen\<close>, which gives an error or the port.
  The first fails the test with a message or returns the port, the second returns an error or nothing;
  in both the server then runs. In a benchmark a goroutine receives until the channel is closed, which is
  the step \<open>receive\<close>.\<close>

definition StartServer :: "string \<Rightarrow> (string \<Rightarrow> string + int) \<Rightarrow> string + int" where
  "StartServer name listen =
     (case listen ''127.0.0.1:0'' of
        Inl err \<Rightarrow> Inl (''Failed to start mock '' @ name @ '': '' @ err)
      | Inr port \<Rightarrow> Inr port)"

definition ForBenchmark :: "string \<Rightarrow> (string \<Rightarrow> string + int) \<Rightarrow> int \<Rightarrow> string option" where
  "ForBenchmark name listen port =
     (case listen (''127.0.0.1:'' @ itoa port) of
        Inl err \<Rightarrow> Some (''mock '' @ name @ '' port '' @ itoa port @ '': '' @ err)
      | Inr _ \<Rightarrow> None)"

section \<open>Invariants\<close>

text \<open>What a handler has sent so far, and the messages still to come.\<close>

definition captured :: "('i, 'b, 'm) server \<Rightarrow> 'm list" where
  "captured s = sv_received s @ sv_chan s"

definition held_events :: "('i, 'b, 'm) server \<Rightarrow> ('b, 'm) event list multiset" where
  "held_events s = (case sv_acceptor s of Holding es \<Rightarrow> {#es#} | _ \<Rightarrow> {#})"

text \<open>The counter is the number of handlers, the buffer never overflows, every started handler runs on an
  accepted input, and every captured message was sent by one handler.\<close>

definition server_inv :: "('i list \<Rightarrow> ('b, 'm) event list) \<Rightarrow> 'i list set \<Rightarrow> ('i, 'b, 'm) server \<Rightarrow> bool" where
  "server_inv handle clients s \<longleftrightarrow>
     sv_wg s = size (sv_handlers s) \<and> length (sv_chan s) \<le> chan_capacity \<and> set (sv_inputs s) \<subseteq> clients \<and>
     image_mset fst (sv_handlers s) + sv_finished s + held_events s = image_mset handle (mset (sv_inputs s)) \<and>
     (\<forall>(o1, es) \<in># sv_handlers s. \<exists>gone. o1 = gone @ es \<and> subseq (sends gone) (captured s)) \<and>
     (\<forall>o1 \<in># sv_finished s. subseq (sends o1) (captured s)) \<and>
     mset (captured s) + (\<Sum>h \<in># sv_handlers s. mset (sends (snd h))) + (\<Sum>es \<in># held_events s. mset (sends es)) =
       (\<Sum>i \<in># mset (sv_inputs s). mset (sends (handle i)))"

lemma server_inv_init: "server_inv handle clients server_init"
  by (simp add: server_inv_def server_init_def captured_def held_events_def)

lemma subseq_snoc: "subseq xs ys \<Longrightarrow> subseq xs (ys @ [y])"
  by (meson subseq_order.order_trans subseq_rev_drop_many subseq_order.refl)

lemma server_inv_step:
  assumes "server_step handle clients s t" "server_inv handle clients s"
  shows "server_inv handle clients t"
  using assms
proof (cases rule: server_step.cases)
  case (send o1 m es hs)
  have old: "\<exists>gone. o2 = gone @ es2 \<and> subseq (sends gone) (captured s)" if "(o2, es2) \<in># sv_handlers s" for o2 es2
    using assms(2) that unfolding server_inv_def by fast
  have cap: "captured t = captured s @ [m]" by (simp add: captured_def send)
  have "\<exists>gone. o2 = gone @ es2 \<and> subseq (sends gone) (captured t)" if h: "(o2, es2) \<in># sv_handlers t" for o2 es2
  proof (cases "(o2, es2) = (o1, es)")
    case True
    obtain gone where "o1 = gone @ ESend m # es" "subseq (sends gone) (captured s)"
      using old [of o1 "ESend m # es"] send by auto
    then have "o2 = (gone @ [ESend m]) @ es2" "subseq (sends (gone @ [ESend m])) (captured t)"
      using True by (simp_all add: cap)
    then show ?thesis by blast
  next
    case False
    then have "(o2, es2) \<in># sv_handlers s" using h send by auto
    then show ?thesis using old [of o2 es2] by (auto simp: cap intro: subseq_snoc)
  qed
  moreover have "\<forall>o2 \<in># sv_finished s. subseq (sends o2) (captured s)"
    using assms(2) by (simp add: server_inv_def)
  then have "\<forall>o2 \<in># sv_finished t. subseq (sends o2) (captured t)"
    unfolding cap by (simp add: send subseq_snoc)
  ultimately show ?thesis
    using assms(2) send(1,3-) unfolding server_inv_def by (auto simp: captured_def held_events_def)
next
  case (reply o1 b es hs)
  have "\<exists>gone. o2 = gone @ es2 \<and> subseq (sends gone) (captured s)" if "(o2, es2) \<in># sv_handlers t" for o2 es2
  proof (cases "(o2, es2) = (o1, es)")
    case True
    obtain gone where "o1 = gone @ EWrite b # es" "subseq (sends gone) (captured s)"
      using assms(2) reply by (auto simp: server_inv_def)
    then have "o2 = (gone @ [EWrite b]) @ es2" "subseq (sends (gone @ [EWrite b])) (captured s)"
      using True by simp_all
    then show ?thesis by blast
  qed (use assms(2) reply that in \<open>auto simp: server_inv_def\<close>)
  then show ?thesis
    using assms(2) reply unfolding server_inv_def by (auto simp: captured_def held_events_def)
qed (auto simp: server_inv_def captured_def held_events_def ac_simps)

lemma server_inv: "server_reachable handle clients s \<Longrightarrow> server_inv handle clients s"
  by (induction rule: server_reachable.induct) (auto intro: server_inv_init server_inv_step)

text \<open>When the listener is closed while no connection is between \<open>Accept\<close> and \<open>wg.Add\<close>, the channel is
  closed only after the last handler has returned.\<close>

definition phase_inv :: "('i list \<Rightarrow> ('b, 'm) event list) \<Rightarrow> ('i, 'b, 'm) server \<Rightarrow> bool" where
  "phase_inv handle s \<longleftrightarrow>
     (sv_chan_closed s \<longleftrightarrow> sv_cleanup s = CleanedUp) \<and> (sv_listening s \<longleftrightarrow> sv_cleanup s = NotCalled) \<and>
     (sv_cleanup s \<noteq> NotCalled \<longrightarrow> \<not> sv_held_at_close s \<longrightarrow> held_events s = {#}) \<and>
     (sv_cleanup s \<in> {GroupDone, CleanedUp} \<longrightarrow> \<not> sv_held_at_close s \<longrightarrow> sv_handlers s = {#}) \<and>
     (sv_panicked s \<longrightarrow> sv_held_at_close s \<or> (\<exists>i\<in>set (sv_inputs s). EPanic \<in> set (handle i)))"

lemma handler_events:
  assumes "server_inv handle clients s" "(o1, es) \<in># sv_handlers s"
  shows "\<exists>i\<in>set (sv_inputs s). o1 = handle i \<and> set es \<subseteq> set (handle i)"
proof -
  have eq: "image_mset handle (mset (sv_inputs s)) = image_mset fst (sv_handlers s) + sv_finished s + held_events s"
    using assms(1) by (simp add: server_inv_def)
  have "o1 \<in># image_mset fst (sv_handlers s)" using assms(2) by force
  then have "o1 \<in># image_mset handle (mset (sv_inputs s))" unfolding eq by simp
  then obtain i where "i \<in> set (sv_inputs s)" "o1 = handle i" by auto
  moreover obtain gone where "o1 = gone @ es" using assms unfolding server_inv_def by fast
  ultimately show ?thesis by (metis Un_upper2 set_append)
qed

lemma phase_inv_step:
  assumes "server_step handle clients s t" "server_inv handle clients s" "phase_inv handle s"
  shows "phase_inv handle t"
  using assms(1)
proof (cases rule: server_step.cases)
  case (panic o1 es hs)
  then have "(o1, EPanic # es) \<in># sv_handlers s" by simp
  then obtain i where "i \<in> set (sv_inputs s)" "EPanic \<in> set (handle i)"
    using handler_events [OF assms(2)] by fastforce
  with panic assms(3) show ?thesis by (auto simp: phase_inv_def held_events_def)
next
  case wait_group
  then have "sv_handlers s = {#}" using assms(2) by (simp add: server_inv_def)
  with wait_group assms(3) show ?thesis by (simp add: phase_inv_def held_events_def)
qed (use assms(3) in \<open>auto simp: phase_inv_def held_events_def split: acceptor.splits\<close>)

lemma phase_inv: "server_reachable handle clients s \<Longrightarrow> phase_inv handle s"
proof (induction rule: server_reachable.induct)
  case start
  show ?case by (simp add: phase_inv_def server_init_def held_events_def)
next
  case (step s t)
  then show ?case using phase_inv_step server_inv by blast
qed

text \<open>The buffer of the channel is never exceeded, the wait group counts the handlers, every captured message was
  sent by a handler, and when the cleanup has returned, unless a connection was being accepted at
  that moment, every message of every connection has been captured.\<close>

lemma capture_complete:
  assumes "server_reachable handle clients s" "sv_cleanup s = CleanedUp" "\<not> sv_held_at_close s"
  shows "mset (captured s) = (\<Sum>i \<in># mset (sv_inputs s). mset (sends (handle i)))"
    and "i \<in> set (sv_inputs s) \<Longrightarrow> subseq (sends (handle i)) (captured s)"
proof -
  have empty: "sv_handlers s = {#}" "held_events s = {#}"
    using phase_inv [OF assms(1)] assms(2,3) by (simp_all add: phase_inv_def)
  note inv = server_inv [OF assms(1), unfolded server_inv_def empty]
  show "mset (captured s) = (\<Sum>i \<in># mset (sv_inputs s). mset (sends (handle i)))" using inv by simp
  show "subseq (sends (handle i)) (captured s)" if "i \<in> set (sv_inputs s)"
  proof -
    have "handle i \<in># sv_finished s" using inv that by auto
    then show ?thesis using inv by blast
  qed
qed

text \<open>The window between \<open>Accept\<close> and \<open>wg.Add\<close>: the cleanup may find the counter at zero, close the channel, and
  the handler started afterwards sends on the closed channel.\<close>

lemma cleanup_races_with_accept:
  assumes "handle i = ESend m # es" "i \<in> clients"
  shows "\<exists>s. server_reachable handle clients s \<and> sv_panicked s \<and> sv_held_at_close s"
proof -
  let ?s1 = "server_init\<lparr>sv_acceptor := Holding (handle i), sv_inputs := [i]\<rparr>"
  let ?s2 = "?s1\<lparr>sv_listening := False, sv_cleanup := WaitingGroup, sv_held_at_close := True\<rparr>"
  let ?s3 = "?s2\<lparr>sv_cleanup := GroupDone\<rparr>"
  let ?s4 = "?s3\<lparr>sv_chan_closed := True, sv_cleanup := CleanedUp\<rparr>"
  let ?s5 = "?s4\<lparr>sv_acceptor := Accepting, sv_wg := 1, sv_handlers := {#(handle i, handle i)#}\<rparr>"
  let ?s6 = "?s5\<lparr>sv_panicked := True\<rparr>"
  have "server_step handle clients server_init ?s1"
    using server_step.accept [of server_init i clients handle] assms(2) by (simp add: server_init_def)
  moreover have "server_step handle clients ?s1 ?s2"
    using server_step.close_listener [of ?s1 handle clients] by (simp add: server_init_def)
  moreover have "server_step handle clients ?s2 ?s3"
    using server_step.wait_group [of ?s2 handle clients] by (simp add: server_init_def)
  moreover have "server_step handle clients ?s3 ?s4"
    using server_step.close_chan [of ?s3 handle clients] by (simp add: server_init_def)
  moreover have "server_step handle clients ?s4 ?s5"
    using server_step.spawn [of ?s4 "handle i" handle clients] by (simp add: server_init_def)
  moreover have "server_step handle clients ?s5 ?s6"
    using server_step.send_closed [of ?s5 "handle i" m es "{#}" handle clients] assms(1)
    by (simp add: server_init_def)
  ultimately have "server_reachable handle clients ?s6"
    by (meson server_reachable.intros)
  then show ?thesis by (intro exI [of _ ?s6]) simp
qed

text \<open>A full channel that nobody reads keeps the cleanup waiting: the only step left is to receive.\<close>

lemma full_channel_blocks_cleanup:
  assumes "server_step handle clients s t" "sv_handlers s = {#(o1, ESend m # es)#}" "sv_wg s = 1"
    and "sv_cleanup s = WaitingGroup" "\<not> sv_listening s" "\<not> sv_chan_closed s" "sv_acceptor s = Stopped"
    and "length (sv_chan s) = chan_capacity"
  shows "\<exists>m ms. sv_chan s = m # ms \<and> t = s\<lparr>sv_chan := ms, sv_received := sv_received s @ [m]\<rparr>"
  using assms(1) by (cases rule: server_step.cases) (use assms(2-) in \<open>auto simp: single_is_union add_mset_eq_single\<close>)

section \<open>Cleaning up when the channel is read\<close>

text \<open>What a handler's steps and the receiver leave alone.\<close>

definition same_phase :: "('i, 'b, 'm) server \<Rightarrow> ('i, 'b, 'm) server \<Rightarrow> bool" where
  "same_phase s t \<longleftrightarrow> sv_cleanup t = sv_cleanup s \<and> sv_acceptor t = sv_acceptor s \<and> sv_listening t = sv_listening s \<and>
     sv_held_at_close t = sv_held_at_close s \<and> sv_inputs t = sv_inputs s \<and> sv_panicked t = sv_panicked s \<and>
     sv_chan_closed t = sv_chan_closed s"

definition calm :: "('i, 'b, 'm) server \<Rightarrow> bool" where
  "calm s \<longleftrightarrow> \<not> sv_panicked s \<and> \<not> sv_chan_closed s \<and> length (sv_chan s) \<le> chan_capacity \<and>
     (\<forall>h \<in># sv_handlers s. EPanic \<notin> set (snd h))"

definition events_left :: "('i, 'b, 'm) server \<Rightarrow> nat" where
  "events_left s = (\<Sum>h \<in># sv_handlers s. Suc (length (snd h)))"

text \<open>A handler about to send sends, after the receiver has made room if the channel is full.\<close>

lemma send_progress:
  assumes "calm s" and h: "sv_handlers s = add_mset (o1, ESend m # rest) hs"
  shows "\<exists>t. (server_step handle clients)\<^sup>*\<^sup>* s t \<and> calm t \<and> same_phase s t \<and> events_left t < events_left s"
proof -
  let ?sent = "\<lambda>u. u\<lparr>sv_handlers := add_mset (o1, rest) hs, sv_chan := sv_chan u @ [m]\<rparr>"
  note facts = assms(1) [unfolded calm_def] h
  have send: "server_step handle clients u (?sent u)"
    if "sv_handlers u = sv_handlers s" "\<not> sv_panicked u" "\<not> sv_chan_closed u" "length (sv_chan u) < chan_capacity" for u
    using that h by (intro server_step.send) auto
  obtain u where u: "(server_step handle clients)\<^sup>*\<^sup>* s u" "calm u" "same_phase s u"
      "sv_handlers u = sv_handlers s" "length (sv_chan u) < chan_capacity"
  proof (cases "length (sv_chan s) < chan_capacity")
    case True
    then show thesis using that [of s] assms(1) by (simp add: same_phase_def)
  next
    case False
    then obtain m1 ms where ms: "sv_chan s = m1 # ms" by (cases "sv_chan s") (auto simp: chan_capacity_def)
    have "(server_step handle clients)\<^sup>*\<^sup>* s (s\<lparr>sv_chan := ms, sv_received := sv_received s @ [m1]\<rparr>)"
      using facts ms by (intro r_into_rtranclp server_step.receive) auto
    then show thesis using that facts ms by (auto simp: calm_def same_phase_def)
  qed
  have "(server_step handle clients)\<^sup>*\<^sup>* s (?sent u)"
    using u send [of u] by (meson calm_def rtranclp.rtrancl_into_rtrancl)
  moreover have "calm (?sent u)" "same_phase s (?sent u)" "events_left (?sent u) < events_left s"
    using u h by (auto simp: calm_def same_phase_def events_left_def)
  ultimately show ?thesis by blast
qed

lemma handler_progress:
  assumes "calm s" "sv_handlers s \<noteq> {#}"
  shows "\<exists>t. (server_step handle clients)\<^sup>*\<^sup>* s t \<and> calm t \<and> same_phase s t \<and> events_left t < events_left s"
proof -
  obtain o1 es hs where h: "sv_handlers s = add_mset (o1, es) hs"
    using assms(2) by (metis multiset_cases surj_pair)
  note facts = assms(1) [unfolded calm_def] h
  have found: ?thesis
    if "server_step handle clients s t" "calm t" "same_phase s t" "events_left t < events_left s" for t
    using that by blast
  consider (return) "es = []" | (reply) b rest where "es = EWrite b # rest" | (send) m rest where "es = ESend m # rest"
    | (panic) rest where "es = EPanic # rest"
    by (metis event.exhaust list.exhaust)
  then show ?thesis
  proof cases
    case return
    have "server_step handle clients s (s\<lparr>sv_handlers := hs, sv_wg := sv_wg s - 1, sv_finished := add_mset o1 (sv_finished s)\<rparr>)"
      using facts return by (intro server_step.return) auto
    from found [OF this] show ?thesis using facts return by (auto simp: calm_def same_phase_def events_left_def)
  next
    case reply
    have "server_step handle clients s (s\<lparr>sv_handlers := add_mset (o1, rest) hs\<rparr>)"
      using facts reply by (intro server_step.reply) auto
    from found [OF this] show ?thesis using facts reply by (auto simp: calm_def same_phase_def events_left_def)
  next
    case send
    show ?thesis by (rule send_progress [OF assms(1) h [unfolded send]])
  qed (use facts in auto)
qed

lemma drain_handlers:
  "calm s \<Longrightarrow> \<exists>t. (server_step handle clients)\<^sup>*\<^sup>* s t \<and> calm t \<and> same_phase s t \<and> sv_handlers t = {#}"
proof (induction "events_left s" arbitrary: s rule: less_induct)
  case less
  show ?case
  proof (cases "sv_handlers s = {#}")
    case False
    obtain u where u: "(server_step handle clients)\<^sup>*\<^sup>* s u" "calm u" "same_phase s u" "events_left u < events_left s"
      using handler_progress [OF less.prems False] by blast
    then obtain t where "(server_step handle clients)\<^sup>*\<^sup>* u t" "calm t" "same_phase u t" "sv_handlers t = {#}"
      using less.hyps by blast
    moreover have "same_phase s t" using u(3) \<open>same_phase u t\<close> by (simp add: same_phase_def)
    ultimately show ?thesis using u(1) by (meson rtranclp_trans)
  qed (use less.prems in \<open>auto simp: same_phase_def\<close>)
qed

lemma reachable_steps: "(server_step handle clients)\<^sup>*\<^sup>* s t \<Longrightarrow> server_reachable handle clients s \<Longrightarrow> server_reachable handle clients t"
  by (induction rule: rtranclp_induct) (auto intro: server_reachable.step)

lemma waiting_can_finish:
  assumes "server_reachable handle clients s" "calm s" "sv_cleanup s = WaitingGroup"
  shows "\<exists>t. (server_step handle clients)\<^sup>*\<^sup>* s t \<and> sv_cleanup t = CleanedUp \<and> sv_held_at_close t = sv_held_at_close s \<and>
    sv_inputs t = sv_inputs s \<and> \<not> sv_panicked t"
proof -
  obtain u where u: "(server_step handle clients)\<^sup>*\<^sup>* s u" "calm u" "same_phase s u" "sv_handlers u = {#}"
    using drain_handlers [OF assms(2)] by blast
  have "sv_wg u = 0" using server_inv [OF reachable_steps [OF u(1) assms(1)]] u(4) by (simp add: server_inv_def)
  then have "server_step handle clients u (u\<lparr>sv_cleanup := GroupDone\<rparr>)"
    using u assms(3) by (intro server_step.wait_group) (auto simp: calm_def same_phase_def)
  moreover have "server_step handle clients (u\<lparr>sv_cleanup := GroupDone\<rparr>)
      (u\<lparr>sv_cleanup := GroupDone, sv_chan_closed := True, sv_cleanup := CleanedUp\<rparr>)"
    using u server_step.close_chan [of "u\<lparr>sv_cleanup := GroupDone\<rparr>" handle clients] by (simp add: calm_def)
  ultimately have steps: "(server_step handle clients)\<^sup>*\<^sup>* s (u\<lparr>sv_cleanup := GroupDone, sv_chan_closed := True, sv_cleanup := CleanedUp\<rparr>)"
    using u(1) by (meson rtranclp.rtrancl_into_rtrancl)
  have "sv_held_at_close u = sv_held_at_close s" "sv_inputs u = sv_inputs s" "\<not> sv_panicked u"
    using u by (auto simp: same_phase_def calm_def)
  with steps show ?thesis
    by (intro exI [of _ "u\<lparr>sv_cleanup := GroupDone, sv_chan_closed := True, sv_cleanup := CleanedUp\<rparr>"]) simp
qed

lemma reachable_calm:
  assumes "server_reachable handle clients s" "\<forall>i\<in>clients. EPanic \<notin> set (handle i)" "\<not> sv_held_at_close s"
  shows "\<not> sv_panicked s" "sv_cleanup s \<noteq> CleanedUp \<Longrightarrow> calm s"
proof -
  note inv = server_inv [OF assms(1)] and phase = phase_inv [OF assms(1), unfolded phase_inv_def]
  have inputs: "EPanic \<notin> set (handle i)" if "i \<in> set (sv_inputs s)" for i
    using inv that assms(2) by (auto simp: server_inv_def)
  then show "\<not> sv_panicked s" using phase assms(3) by blast
  have "EPanic \<notin> set (snd h)" if "h \<in># sv_handlers s" for h
    using handler_events [OF inv, of "fst h" "snd h"] inputs that by fastforce
  with \<open>\<not> sv_panicked s\<close> show "sv_cleanup s \<noteq> CleanedUp \<Longrightarrow> calm s"
    using inv phase by (simp add: calm_def server_inv_def)
qed



section \<open>A run with one connection\<close>

lemma run_handler:
  assumes "server_reachable handle clients (s\<lparr>sv_handlers := {#(o1, es)#}\<rparr>)" "\<not> sv_panicked s" "\<not> sv_chan_closed s"
    and "length (sv_chan s) + length (sends es) \<le> chan_capacity" "EPanic \<notin> set es"
  shows "server_reachable handle clients (s\<lparr>sv_handlers := {#(o1, [])#}, sv_chan := sv_chan s @ sends es\<rparr>)"
  using assms
proof (induction es arbitrary: s)
  case (Cons e es)
  let ?s = "s\<lparr>sv_handlers := {#(o1, e # es)#}\<rparr>"
  show ?case
  proof (cases e)
    case (EWrite b)
    have "server_step handle clients ?s (s\<lparr>sv_handlers := {#(o1, es)#}\<rparr>)"
      using server_step.reply [of ?s o1 b es "{#}" handle clients] Cons.prems EWrite by simp
    then have "server_reachable handle clients (s\<lparr>sv_handlers := {#(o1, es)#}\<rparr>)"
      using Cons.prems(1) server_reachable.step by blast
    then show ?thesis using Cons.IH [of s] Cons.prems EWrite by simp
  next
    case (ESend m)
    have "server_step handle clients ?s (s\<lparr>sv_handlers := {#(o1, es)#}, sv_chan := sv_chan s @ [m]\<rparr>)"
      using server_step.send [of ?s o1 m es "{#}" handle clients] Cons.prems ESend by simp
    moreover have "s\<lparr>sv_handlers := {#(o1, es)#}, sv_chan := sv_chan s @ [m]\<rparr> =
        s\<lparr>sv_chan := sv_chan s @ [m], sv_handlers := {#(o1, es)#}\<rparr>" by (cases s) simp
    ultimately have "server_reachable handle clients (s\<lparr>sv_chan := sv_chan s @ [m], sv_handlers := {#(o1, es)#}\<rparr>)"
      using Cons.prems(1) server_reachable.step by metis
    then show ?thesis using Cons.IH [of "s\<lparr>sv_chan := sv_chan s @ [m]\<rparr>"] Cons.prems ESend by simp
  qed (use Cons.prems in simp)
qed simp

text \<open>A connection whose messages fit the buffer can be served and cleaned up without anybody reading.\<close>

lemma single_run:
  assumes "i \<in> clients" "EPanic \<notin> set (handle i)" "length (sends (handle i)) \<le> chan_capacity"
  shows "\<exists>s. server_reachable handle clients s \<and> sv_cleanup s = CleanedUp \<and> \<not> sv_held_at_close s \<and>
    sv_inputs s = [i] \<and> captured s = sends (handle i)"
proof -
  let ?h = "handle i"
  let ?s1 = "server_init\<lparr>sv_acceptor := Holding ?h, sv_inputs := [i]\<rparr>"
  let ?s2 = "?s1\<lparr>sv_acceptor := Accepting, sv_wg := 1\<rparr>"
  let ?s3 = "?s2\<lparr>sv_handlers := {#(?h, [])#}, sv_chan := sends ?h\<rparr>"
  let ?s4 = "?s3\<lparr>sv_handlers := {#}, sv_wg := 0, sv_finished := {#?h#}\<rparr>"
  let ?s5 = "?s4\<lparr>sv_listening := False, sv_cleanup := WaitingGroup, sv_held_at_close := False\<rparr>"
  let ?s6 = "?s5\<lparr>sv_cleanup := GroupDone\<rparr>"
  let ?s7 = "?s6\<lparr>sv_chan_closed := True, sv_cleanup := CleanedUp\<rparr>"
  have "server_step handle clients server_init ?s1"
    using server_step.accept [of server_init i clients handle] assms(1) by (simp add: server_init_def)
  moreover have "server_step handle clients ?s1 (?s2\<lparr>sv_handlers := {#(?h, ?h)#}\<rparr>)"
    using server_step.spawn [of ?s1 ?h handle clients] by (simp add: server_init_def)
  ultimately have "server_reachable handle clients (?s2\<lparr>sv_handlers := {#(?h, ?h)#}\<rparr>)"
    by (meson server_reachable.intros)
  then have "server_reachable handle clients ?s3"
    using run_handler [of handle clients ?h ?h ?s2] assms(2,3) by (simp add: server_init_def)
  moreover have "server_step handle clients ?s3 ?s4"
    using server_step.return [of ?s3 ?h "{#}" handle clients] by (simp add: server_init_def)
  moreover have "server_step handle clients ?s4 ?s5"
    using server_step.close_listener [of ?s4 handle clients] by (simp add: server_init_def)
  moreover have "server_step handle clients ?s5 ?s6"
    using server_step.wait_group [of ?s5 handle clients] by (simp add: server_init_def)
  moreover have "server_step handle clients ?s6 ?s7"
    using server_step.close_chan [of ?s6 handle clients] by (simp add: server_init_def)
  ultimately have "server_reachable handle clients ?s7" by (meson server_reachable.step)
  then show ?thesis by (intro exI [of _ ?s7]) (simp add: captured_def server_init_def)
qed

section \<open>What a protocol handler promises\<close>

lemma lift_image: "set ys \<subseteq> f ` {x. P x} \<Longrightarrow> \<exists>xs. ys = map f xs \<and> list_all P xs"
proof (induction ys)
  case (Cons y ys)
  then obtain xs x where "ys = map f xs" "list_all P xs" "y = f x" "P x" by auto
  then show ?case by (intro exI [of _ "x # xs"]) simp
qed simp

text \<open>\<open>client xs\<close> are the bytes of a client that follows the protocol and publishes \<open>xs\<close>; the handler sends
  exactly their messages, in order, and does not panic.\<close>

locale capture_server =
  fixes handle :: "'i list \<Rightarrow> ('b, 'm) event list"
    and client :: "'x list \<Rightarrow> 'i list"
    and msg :: "'x \<Rightarrow> 'm"
    and good :: "'x \<Rightarrow> bool"
  assumes captures: "list_all good xs \<Longrightarrow> sends (handle (client xs)) = map msg xs"
    and no_panic: "list_all good xs \<Longrightarrow> EPanic \<notin> set (handle (client xs))"
begin

abbreviation sessions :: "'i list set" where
  "sessions \<equiv> client ` {xs. list_all good xs}"

lemma inputs_are_sessions:
  assumes "server_reachable handle sessions s"
  shows "\<exists>xss. sv_inputs s = map client xss \<and> list_all (list_all good) xss"
proof -
  have "set (sv_inputs s) \<subseteq> sessions" using server_inv [OF assms] by (simp add: server_inv_def)
  then show ?thesis using lift_image [of "sv_inputs s" client "list_all good"] by blast
qed

lemma no_server_panic:
  assumes "server_reachable handle sessions s" "\<not> sv_held_at_close s"
  shows "\<not> sv_panicked s"
proof -
  obtain xss where "sv_inputs s = map client xss" "list_all (list_all good) xss"
    using inputs_are_sessions [OF assms(1)] by blast
  then have "\<forall>i\<in>set (sv_inputs s). EPanic \<notin> set (handle i)" using no_panic by (auto simp: list_all_iff)
  then show ?thesis using phase_inv [OF assms(1)] assms(2) by (auto simp: phase_inv_def)
qed

text \<open>After a clean shutdown the test has seen every published message exactly once, and the messages of each
  connection in the order in which they were published.\<close>

lemma clean_run_captures_all:
  assumes "server_reachable handle sessions s" "sv_cleanup s = CleanedUp" "\<not> sv_held_at_close s"
  shows "\<exists>xss. list_all (list_all good) xss \<and> sv_inputs s = map client xss \<and>
    mset (captured s) = mset (map msg (concat xss)) \<and> (\<forall>xs\<in>set xss. subseq (map msg xs) (captured s)) \<and>
    \<not> sv_panicked s"
proof -
  obtain xss where xss: "sv_inputs s = map client xss" "list_all (list_all good) xss"
    using inputs_are_sessions [OF assms(1)] by blast
  have "(\<Sum>i \<in># mset (map client xss). mset (sends (handle i))) = mset (map msg (concat xss))"
    using xss(2) by (induction xss) (simp_all add: captures)
  moreover have "subseq (map msg xs) (captured s)" if "xs \<in> set xss" for xs
    using capture_complete(2) [OF assms, of "client xs"] that xss captures [of xs] by (auto simp: list_all_iff)
  ultimately show ?thesis using capture_complete(1) [OF assms] no_server_panic [OF assms(1,3)] xss by auto
qed

lemma session_runs:
  assumes "list_all good xs" "length xs \<le> chan_capacity"
  shows "\<exists>s. server_reachable handle sessions s \<and> sv_cleanup s = CleanedUp \<and> \<not> sv_held_at_close s \<and>
    sv_inputs s = [client xs] \<and> captured s = map msg xs"
  using single_run [of "client xs" sessions handle] assms captures [OF assms(1)] no_panic [OF assms(1)] by auto

end

end
