(* ===== verification/Mock_Mqtt.thy ===== *)
theory Mock_Mqtt
  imports Mock_Server
begin

text \<open>
  The mock MQTT 3.1.1 broker (\<open>infrastructure/mock_servers/mqtt/server.go\<close>): variable-length integers with
  64-bit wrap-around, packets, acknowledgements. A client that follows the protocol is captured exactly,
  each QoS 1 publish acknowledged after it was captured; a length field of nine or more continuation
  bytes makes the broker panic.
\<close>

section \<open>server.go\<close>

record mqtt_message =
  mq_Topic :: "byte list"
  mq_Payload :: "byte list"
  mq_QoS :: byte

text \<open>\<open>readVarInt\<close>: \<open>value\<close> and \<open>multiplier\<close> are 64-bit integers.\<close>

fun read_var :: "int \<Rightarrow> int \<Rightarrow> byte list \<Rightarrow> (int \<times> byte list) option" where
  "read_var multiplier value [] = None"
| "read_var multiplier value (b # bs) =
     (let value = wrap64 (value + wrap64 (uint (b AND 0x7F) * multiplier)) in
      if b AND 0x80 = 0 then Some (value, bs) else read_var (wrap64 (multiplier * 128)) value bs)"

definition readVarInt :: "byte list \<Rightarrow> (int \<times> byte list) option" where
  "readVarInt s = read_var 1 0 s"

lemma read_var_length: "read_var m v s = Some (n, s') \<Longrightarrow> length s' < length s"
  by (induction m v s rule: read_var.induct) (auto simp: Let_def split: if_splits)

lemma readVarInt_length: "readVarInt s = Some (n, s') \<Longrightarrow> length s' < length s"
  by (simp add: readVarInt_def read_var_length)

definition CONNACK :: "byte list" where "CONNACK = [0x20, 0x02, 0x00, 0x00]"
definition PINGRESP :: "byte list" where "PINGRESP = [0xD0, 0x00]"
definition PUBACK :: "16 word \<Rightarrow> byte list" where
  "PUBACK packetID = [0x40, 0x02, ucast (drop_bit 8 packetID), ucast (packetID AND 0xFF)]"

text \<open>A PUBLISH packet; \<open>None\<close> when the handler returns because the packet is too short.\<close>

definition mqtt_publish :: "byte \<Rightarrow> byte list \<Rightarrow> (byte, mqtt_message) event list option" where
  "mqtt_publish flags payload =
     (let qos = drop_bit 1 flags AND 0x03 in
      if 2 > length payload then None
      else
        let topicLen = 256 * unat (payload ! 0) + unat (payload ! 1) in
        if 2 + topicLen > length payload then None
        else
          let topic = take topicLen (drop 2 payload);
              offset = 2 + topicLen
          in if qos > 0 then
               if offset + 2 > length payload then None
               else
                 let packetID = push_bit 8 (ucast (payload ! offset)) OR ucast (payload ! (offset + 1)) :: 16 word
                 in Some (ESend \<lparr>mq_Topic = topic, mq_Payload = drop (offset + 2) payload, mq_QoS = qos\<rparr> #
                      (if qos = 1 then [EWrite (PUBACK packetID)] else []))
             else Some [ESend \<lparr>mq_Topic = topic, mq_Payload = drop offset payload, mq_QoS = qos\<rparr>])"

text \<open>The packet switch: the events of a packet, and \<open>None\<close> when the handler returns.\<close>

definition mqtt_packet :: "byte \<Rightarrow> byte list \<Rightarrow> (byte, mqtt_message) event list option" where
  "mqtt_packet header payload =
     (let packetType = drop_bit 4 header AND 0x0F; flags = header AND 0x0F in
      if packetType = 1 then Some [EWrite CONNACK]
      else if packetType = 3 then mqtt_publish flags payload
      else if packetType = 12 then Some [EWrite PINGRESP]
      else if packetType = 14 then None
      else Some [])"

function mqtt_handleConnection :: "byte list \<Rightarrow> (byte, mqtt_message) event list" where
  "mqtt_handleConnection s =
     (case s of
        [] \<Rightarrow> []
      | header # s1 \<Rightarrow>
          (case readVarInt s1 of
             None \<Rightarrow> []
           | Some (remainingLength, s2) \<Rightarrow>
               if remainingLength < 0 \<or> max_alloc < remainingLength then [EPanic]
               else
                 (case ReadFull (nat remainingLength) s2 of
                    None \<Rightarrow> []
                  | Some (payload, s3) \<Rightarrow>
                      (case mqtt_packet header payload of
                         None \<Rightarrow> []
                       | Some es \<Rightarrow> es @ mqtt_handleConnection s3))))"
  by pat_completeness auto

termination
  by (relation "measure length") (auto dest!: readVarInt_length ReadFull_length)

declare mqtt_handleConnection.simps [simp del]

text \<open>\<open>startServer\<close> runs the accept loop on this handler.\<close>

definition mqtt_startServer :: "byte list set \<Rightarrow> (byte, byte, mqtt_message) server \<Rightarrow> bool" where
  "mqtt_startServer clients s = server_reachable mqtt_handleConnection clients s"

definition mqtt_StartServer :: "(string \<Rightarrow> string + int) \<Rightarrow> string + int" where
  "mqtt_StartServer = StartServer ''MQTT broker''"

definition mqtt_ForBenchmark :: "(string \<Rightarrow> string + int) \<Rightarrow> int \<Rightarrow> string option" where
  "mqtt_ForBenchmark = ForBenchmark ''MQTT broker''"

section \<open>Variable-length integers\<close>

text \<open>The encoding of the MQTT standard: seven bits per byte, least significant first.\<close>

fun encode_var :: "nat \<Rightarrow> byte list" where
  "encode_var n = (if n < 128 then [of_nat n] else (of_nat (n mod 128) OR 0x80) # encode_var (n div 128))"

declare encode_var.simps [simp del]

text \<open>The value of a length field.\<close>

fun var_value :: "byte list \<Rightarrow> int" where
  "var_value [] = 0"
| "var_value (b # bs) = uint (b AND 0x7F) + 128 * var_value bs"

definition var_field :: "byte list \<Rightarrow> bool" where
  "var_field bs \<longleftrightarrow> bs \<noteq> [] \<and> list_all (\<lambda>b. b AND 0x80 \<noteq> 0) (butlast bs) \<and> last bs AND 0x80 = 0"

lemma low_bits: "0 \<le> uint (b AND 0x7F :: byte)" "uint (b AND 0x7F :: byte) < 128"
proof -
  have "b AND 0x7F = take_bit 7 b" by (simp add: take_bit_eq_mask mask_eq_exp_minus_1)
  then show "uint (b AND 0x7F :: byte) < 128" by (simp add: unsigned_take_bit_eq take_bit_int_less_exp [of 7, simplified])
qed simp

lemma var_value_bounds: "0 \<le> var_value bs \<and> var_value bs < 2 ^ (7 * length bs)"
proof (induction bs)
  case (Cons b bs)
  have "2 ^ (7 * length (b # bs)) = (128 :: int) * 2 ^ (7 * length bs)" by (simp add: power_add)
  with Cons low_bits [of b] show ?case by simp
qed simp

lemma read_var_exact:
  assumes "var_field bs" "k + length bs \<le> 9" "0 \<le> v" "v < 2 ^ (7 * k)"
  shows "read_var (2 ^ (7 * k)) v (bs @ rest) = Some (v + 2 ^ (7 * k) * var_value bs, rest)"
  using assms
proof (induction bs arbitrary: k v)
  case (Cons b bs)
  let ?d = "uint (b AND 0x7F :: byte)"
  have d: "0 \<le> ?d" "?d < 128" by (rule low_bits)+
  have "?d * 2 ^ (7 * k) \<le> 127 * 2 ^ (7 * k)" using d by (intro mult_right_mono) auto
  moreover have "(2::int) ^ (7 * Suc k) = 128 * 2 ^ (7 * k)" by (simp add: power_add)
  ultimately have new: "v + ?d * 2 ^ (7 * k) < 2 ^ (7 * Suc k)" using Cons.prems(4) by linarith
  have "(2::int) ^ (7 * Suc k) \<le> 2 ^ 63"
    using Cons.prems(2) by (intro power_increasing) auto
  moreover have "0 \<le> ?d * 2 ^ (7 * k)" using d by simp
  ultimately have "wrap64 (?d * 2 ^ (7 * k)) = ?d * 2 ^ (7 * k)"
    "wrap64 (v + ?d * 2 ^ (7 * k)) = v + ?d * 2 ^ (7 * k)"
    using new Cons.prems(3) by - (rule wrap64_id; linarith)+
  then have wrap: "wrap64 (v + wrap64 (?d * 2 ^ (7 * k))) = v + ?d * 2 ^ (7 * k)" by simp
  show ?case
  proof (cases "bs = []")
    case True
    then have "b AND 0x80 = 0" using Cons.prems(1) by (simp add: var_field_def)
    then show ?thesis using True wrap by (simp add: Let_def mult.commute)
  next
    case False
    then have more: "b AND 0x80 \<noteq> 0" "var_field bs" using Cons.prems(1) by (simp_all add: var_field_def)
    have "(2::int) ^ (7 * Suc k) < 2 ^ 63"
    proof (rule power_strict_increasing)
      show "7 * Suc k < 63" using Cons.prems(2) False by (cases bs) auto
    qed simp
    moreover have "0 \<le> (2::int) ^ (7 * Suc k)" by simp
    ultimately have "wrap64 (2 ^ (7 * Suc k)) = 2 ^ (7 * Suc k)" by - (rule wrap64_id; linarith)
    then have "wrap64 (2 ^ (7 * k) * 128) = 2 ^ (7 * Suc k)" by (simp add: power_add mult.commute)
    then have "read_var (2 ^ (7 * k)) v ((b # bs) @ rest) =
        read_var (2 ^ (7 * Suc k)) (v + ?d * 2 ^ (7 * k)) (bs @ rest)"
      using more(1) wrap by (simp only: append_Cons read_var.simps Let_def if_False)
    also have "\<dots> = Some (v + ?d * 2 ^ (7 * k) + 2 ^ (7 * Suc k) * var_value bs, rest)"
      using Cons.prems(2,3) new d more(2) by (intro Cons.IH) auto
    finally show ?thesis by (simp add: power_add algebra_simps)
  qed
qed (simp add: var_field_def)

lemma read_var_continue: "read_var m 0 (0x80 # bs) = read_var (wrap64 (m * 128)) 0 bs"
  by (simp add: wrap64_def)

text \<open>
  C35. Length fields. A field of at most nine bytes is read without wrap-around as the number it encodes, below two to
  the seventh power per byte. If the number is within the address space, as it is for the four bytes the
  standard allows and up to six, the broker goes on to the packet of that length; if not, it panics. The
  broker does not stop at four bytes: ten bytes whose value wraps around to a negative number make it
  panic as well.
\<close>

theorem readVarInt_bounds:
  assumes "var_field bs" "length bs \<le> 9"
  shows "readVarInt (bs @ rest) = Some (var_value bs, rest) \<and>
    0 \<le> var_value bs \<and> var_value bs < 2 ^ (7 * length bs) \<and> (length bs \<le> 6 \<longrightarrow> var_value bs \<le> max_alloc) \<and>
    mqtt_handleConnection (header # bs @ rest) =
      (if max_alloc < var_value bs then [EPanic]
       else case ReadFull (nat (var_value bs)) rest of
              None \<Rightarrow> []
            | Some (payload, rest') \<Rightarrow>
                (case mqtt_packet header payload of
                   None \<Rightarrow> []
                 | Some es \<Rightarrow> es @ mqtt_handleConnection rest')) \<and>
    mqtt_handleConnection (header # replicate 9 0x80 @ 0x01 # rest) = [EPanic]"
proof -
  have read: "readVarInt (bs @ rest) = Some (var_value bs, rest)"
    using read_var_exact [of bs 0 0 rest] assms by (simp add: readVarInt_def)
  have range: "0 \<le> var_value bs" "var_value bs < 2 ^ (7 * length bs)" using var_value_bounds [of bs] by auto
  have "var_value bs \<le> max_alloc" if "length bs \<le> 6"
  proof -
    have "(2::int) ^ (7 * length bs) \<le> 2 ^ 48" using that by (intro power_increasing) auto
    with range show ?thesis by (simp add: max_alloc_def)
  qed
  moreover have "readVarInt (replicate 9 0x80 @ 0x01 # rest) = Some (- (2 ^ 63), rest)"
  proof -
    have nine: "replicate 9 (0x80 :: byte) = [0x80, 0x80, 0x80, 0x80, 0x80, 0x80, 0x80, 0x80, 0x80]"
      by (simp add: eval_nat_numeral)
    show ?thesis by (simp only: nine append_Cons append_Nil readVarInt_def read_var_continue) (simp add: wrap64_def)
  qed
  then have "mqtt_handleConnection (header # replicate 9 0x80 @ 0x01 # rest) = [EPanic]"
    by (subst mqtt_handleConnection.simps) simp
  moreover have "mqtt_handleConnection (header # bs @ rest) =
      (if max_alloc < var_value bs then [EPanic]
       else case ReadFull (nat (var_value bs)) rest of
              None \<Rightarrow> []
            | Some (payload, rest') \<Rightarrow>
                (case mqtt_packet header payload of
                   None \<Rightarrow> []
                 | Some es \<Rightarrow> es @ mqtt_handleConnection rest'))"
    using range(1) by (subst mqtt_handleConnection.simps) (simp add: read)
  ultimately show ?thesis using read range by blast
qed

theorem readVarInt_bounds_witness:
  "readVarInt ([0xC1, 0x02] @ [0x07]) = Some (321, [0x07]) \<and>
   mqtt_handleConnection (0x10 # replicate 9 0x80 @ 0x01 # [0x07]) = [EPanic]"
  using readVarInt_bounds [of "[0xC1, 0x02]" "[0x07]" "0x10"] by (simp add: var_field_def)

section \<open>A client that follows the protocol\<close>

text \<open>A publish is a message and its packet identifier, which only QoS 1 and 2 send.\<close>

type_synonym mqtt_pub = "mqtt_message \<times> 16 word"

definition packet :: "byte \<Rightarrow> byte list \<Rightarrow> byte list" where
  "packet header body = header # encode_var (length body) @ body"

definition publish_body :: "mqtt_pub \<Rightarrow> byte list" where
  "publish_body x = (case x of (m, packetID) \<Rightarrow>
     be_put 2 (length (mq_Topic m)) @ mq_Topic m @
     (if mq_QoS m > 0 then [ucast (drop_bit 8 packetID), ucast packetID] else []) @ mq_Payload m)"

definition publish_header :: "mqtt_message \<Rightarrow> byte" where
  "publish_header m = 0x30 OR push_bit 1 (mq_QoS m)"

definition mqtt_session :: "byte list \<Rightarrow> mqtt_pub list \<Rightarrow> byte list" where
  "mqtt_session connect xs =
     packet 0x10 connect @ concat (map (\<lambda>x. packet (publish_header (fst x)) (publish_body x)) xs) @ packet 0xE0 []"

definition mqtt_good :: "mqtt_pub \<Rightarrow> bool" where
  "mqtt_good x \<longleftrightarrow> length (mq_Topic (fst x)) < 2 ^ 16 \<and> mq_QoS (fst x) \<in> {0, 1, 2} \<and> length (publish_body x) < 2 ^ 28"

text \<open>What the broker does with a publish: capture it, then acknowledge QoS 1.\<close>

definition publish_events :: "mqtt_pub \<Rightarrow> (byte, mqtt_message) event list" where
  "publish_events x = ESend (fst x) # (if mq_QoS (fst x) = 1 then [EWrite (PUBACK (snd x))] else [])"

lemma encode_var_not_Nil [simp]: "encode_var n \<noteq> []"
  by (subst encode_var.simps) simp

text \<open>The 128 digits, by evaluation.\<close>

lemma digit_bytes:
  "list_all (\<lambda>n. (of_nat n OR 0x80 :: byte) AND 0x80 \<noteq> 0 \<and> uint ((of_nat n OR 0x80 :: byte) AND 0x7F) = int n \<and>
     (of_nat n :: byte) AND 0x80 = 0 \<and> uint ((of_nat n :: byte) AND 0x7F) = int n) [0..<128]"
  by (simp add: upt_conv_Cons)

lemma low_continue: "n < 128 \<Longrightarrow> (of_nat n OR 0x80 :: byte) AND 0x80 \<noteq> 0 \<and> uint ((of_nat n OR 0x80 :: byte) AND 0x7F) = int n"
  and low_final: "n < 128 \<Longrightarrow> (of_nat n :: byte) AND 0x80 = 0 \<and> uint ((of_nat n :: byte) AND 0x7F) = int n"
  using digit_bytes unfolding list_all_iff by simp_all

lemma encode_var_field: "var_field (encode_var n) \<and> var_value (encode_var n) = int n"
proof (induction n rule: encode_var.induct)
  case (1 n)
  show ?case
  proof (cases "n < 128")
    case True
    then show ?thesis using low_final [of n] by (simp add: encode_var.simps [of n] var_field_def)
  next
    case False
    have "int (n mod 128) + 128 * int (n div 128) = int n" using mod_mult_div_eq [of n 128] by linarith
    with False show ?thesis
      using 1 low_continue [of "n mod 128"] by (simp add: encode_var.simps [of n] var_field_def)
  qed
qed

lemma length_encode_var: "n < 128 ^ Suc k \<Longrightarrow> length (encode_var n) \<le> Suc k"
proof (induction k arbitrary: n)
  case (Suc k)
  then have "n div 128 < 128 ^ Suc k" by (simp add: less_mult_imp_div_less)
  with Suc.IH [of "n div 128"] show ?case by (subst encode_var.simps) simp
qed (simp add: encode_var.simps)

lemma read_packet:
  assumes "length body < 2 ^ 28"
  shows "mqtt_handleConnection (packet header body @ rest) =
    (case mqtt_packet header body of None \<Rightarrow> [] | Some es \<Rightarrow> es @ mqtt_handleConnection rest)"
proof -
  have "length (encode_var (length body)) \<le> Suc 3"
    using assms by (intro length_encode_var) simp
  then have "readVarInt (encode_var (length body) @ body @ rest) = Some (int (length body), body @ rest)"
    using read_var_exact [of "encode_var (length body)" 0 0 "body @ rest"] encode_var_field [of "length body"]
    by (simp add: readVarInt_def)
  moreover have "\<not> max_alloc < int (length body)" using assms by (simp add: max_alloc_def)
  ultimately show ?thesis
    unfolding packet_def by (subst mqtt_handleConnection.simps) (simp split: option.split)
qed

lemma packet_id_roundtrip:
  "push_bit 8 (ucast (ucast (drop_bit 8 w) :: byte)) OR ucast (ucast w :: byte) = (w :: 16 word)"
  by (rule bit_word_eqI) (auto simp: bit_simps)

lemma read_publish:
  assumes "mqtt_good x"
  shows "mqtt_packet (publish_header (fst x)) (publish_body x) = Some (publish_events x)"
proof -
  obtain m pid where x: "x = (m, pid)" by (cases x)
  let ?n = "length (mq_Topic m)"
  have n: "?n < 2 ^ 16" and q: "mq_QoS m = 0 \<or> mq_QoS m = 1 \<or> mq_QoS m = 2" using assms by (auto simp: mqtt_good_def x)
  have two: "be_put 2 ?n = [of_nat (?n div 256), of_nat ?n]" by (simp add: numeral_2_eq_2)
  have len: "256 * unat (of_nat (?n div 256) :: byte) + unat (of_nat ?n :: byte) = ?n"
    using n be_be_put_id [of ?n 2] by (simp add: two be_def)
  let ?p = "of_nat (?n div 256) # of_nat ?n # mq_Topic m @
      (if mq_QoS m > 0 then [ucast (drop_bit 8 pid), ucast pid] else []) @ mq_Payload m"
  have body: "publish_body x = ?p" by (simp add: publish_body_def x two)
  have head: "drop_bit 4 (publish_header m) AND 0x0F = 3" using q by (auto simp: publish_header_def)
  have "mqtt_publish (publish_header m AND 0x0F) ?p = Some (publish_events x)"
    using q
    by (elim disjE) (simp_all add: mqtt_publish_def publish_header_def Let_def len nth_append packet_id_roundtrip
        publish_events_def x)
  then show ?thesis by (simp add: mqtt_packet_def body [unfolded x] head x)
qed

text \<open>For a client that connects, publishes and disconnects as the protocol prescribes, the handler answers the
  connection, sends every message with its topic, payload and quality of service on the channel in order,
  acknowledges each QoS 1 publish with its packet identifier after the message was captured, and returns.\<close>

lemma mqtt_session_captured:
  assumes "length connect < 2 ^ 28" "list_all mqtt_good xs"
  shows "mqtt_handleConnection (mqtt_session connect xs) = EWrite CONNACK # concat (map publish_events xs)"
proof -
  have "mqtt_handleConnection (concat (map (\<lambda>x. packet (publish_header (fst x)) (publish_body x)) xs) @ packet 0xE0 []) =
      concat (map publish_events xs)"
    using assms(2)
  proof (induction xs)
    case Nil
    show ?case using read_packet [of "[]" "0xE0" "[]"] by (simp add: mqtt_packet_def)
  next
    case (Cons x xs)
    then have "length (publish_body x) < 2 ^ 28" by (simp add: mqtt_good_def)
    with Cons show ?case by (simp add: read_packet read_publish)
  qed
  moreover have "mqtt_packet 0x10 connect = Some [EWrite CONNACK]" by (simp add: mqtt_packet_def)
  ultimately show ?thesis using assms(1) by (simp add: mqtt_session_def read_packet)
qed

text \<open>The CONNECT of MQTT 3.1.1 with a clean session, a keep-alive of 60 seconds and no client identifier.\<close>

definition mqtt_connect :: "byte list" where
  "mqtt_connect = [0x00, 0x04, 0x4D, 0x51, 0x54, 0x54, 0x04, 0x02, 0x00, 0x3C, 0x00, 0x00]"

interpretation mqtt: capture_server mqtt_handleConnection "mqtt_session mqtt_connect" fst mqtt_good
proof
  fix xs assume good: "list_all mqtt_good xs"
  have events: "mqtt_handleConnection (mqtt_session mqtt_connect xs) = EWrite CONNACK # concat (map publish_events xs)"
    by (rule mqtt_session_captured) (simp_all add: good mqtt_connect_def)
  show "sends (mqtt_handleConnection (mqtt_session mqtt_connect xs)) = map fst xs"
    unfolding events by (induction xs) (simp_all add: publish_events_def)
  show "EPanic \<notin> set (mqtt_handleConnection (mqtt_session mqtt_connect xs))"
    unfolding events by (auto simp: publish_events_def)
qed



end
