(* ===== verification/Mock_Amqp.thy ===== *)
theory Mock_Amqp
  imports Mock_Server
begin

text \<open>
  The mock AMQP 0-9-1 server (\<open>infrastructure/mock_servers/rabbitmq/server.go\<close>): frames, method payloads, the
  connection handshake and publishes. Frames read back as they were built; a client that sends each
  body in one frame is captured exactly; a body split over several frames is captured as several messages.
\<close>

section \<open>Frame builders\<close>

record amqp_message =
  am_Exchange :: "byte list"
  am_RoutingKey :: "byte list"
  am_Body :: "byte list"

definition no_message :: amqp_message where
  "no_message = \<lparr>am_Exchange = [], am_RoutingKey = [], am_Body = []\<rparr>"

definition buildFrame :: "byte \<Rightarrow> nat \<Rightarrow> byte list \<Rightarrow> byte list" where
  "buildFrame frameType channel payload =
     frameType # be_put 2 channel @ be_put 4 (length payload) @ payload @ [0xCE]"

definition buildMethodPayload :: "nat \<Rightarrow> nat \<Rightarrow> byte list \<Rightarrow> byte list" where
  "buildMethodPayload classID methodID args = be_put 2 classID @ be_put 2 methodID @ args"

text \<open>The bytes of a Go string literal.\<close>

definition str_bytes :: "string \<Rightarrow> byte list" where
  "str_bytes s = map of_char s"

definition longstr :: "byte list \<Rightarrow> byte list" where
  "longstr v = be_put 4 (length v) @ v"

text \<open>The entries in the order in which the iteration over the map visits them.\<close>

definition buildTable :: "(byte list \<times> byte list) list \<Rightarrow> byte list" where
  "buildTable entries =
     (let content = concat (map (\<lambda>(k, v). of_nat (length k) # k @ [0x53] @ longstr v) entries)
      in be_put 4 (length content) @ content)"

definition buildConnectionStartArgs :: "byte list" where
  "buildConnectionStartArgs =
     [0, 9] @ buildTable [(str_bytes ''product'', str_bytes ''mock'')] @
     longstr (str_bytes ''PLAIN'') @ longstr (str_bytes ''en_US'')"

definition buildConnectionTuneArgs :: "byte list" where
  "buildConnectionTuneArgs = be_put 2 2047 @ be_put 4 131072 @ be_put 2 0"

section \<open>Frame readers\<close>

definition readFrame :: "byte list \<Rightarrow> (byte \<times> nat \<times> byte list \<times> byte list) option" where
  "readFrame s =
     (case ReadFull 7 s of
        None \<Rightarrow> None
      | Some (header, s1) \<Rightarrow>
          (let frameType = header ! 0;
               channel = be (take 2 (drop 1 header));
               size = be (take 4 (drop 3 header))
           in case ReadFull size s1 of
                None \<Rightarrow> None
              | Some (payload, s2) \<Rightarrow>
                  (case ReadFull 1 s2 of
                     None \<Rightarrow> None
                   | Some (end_mark, s3) \<Rightarrow>
                       if end_mark ! 0 \<noteq> 0xCE then None else Some (frameType, channel, payload, s3))))"

text \<open>\<open>extractPublishArgs\<close>, with its running offset.\<close>

definition extractPublishArgs :: "byte list \<Rightarrow> amqp_message" where
  "extractPublishArgs args =
     (if length args < 2 then no_message
      else if 2 \<ge> length args then no_message
      else
        let exchangeLen = unat (args ! 2);
            exchange = (if exchangeLen > 0 \<and> 3 + exchangeLen \<le> length args then take exchangeLen (drop 3 args) else []);
            offset = 3 + exchangeLen
        in if offset \<ge> length args then no_message\<lparr>am_Exchange := exchange\<rparr>
           else
             let routingKeyLen = unat (args ! offset);
                 routingKey = (if routingKeyLen > 0 \<and> offset + 1 + routingKeyLen \<le> length args
                               then take routingKeyLen (drop (offset + 1) args) else [])
             in no_message\<lparr>am_Exchange := exchange, am_RoutingKey := routingKey\<rparr>)"

section \<open>handleConnection\<close>

text \<open>The switch over the methods: what is written, the current message, and whether the handler goes on.\<close>

definition amqp_method :: "nat \<Rightarrow> byte list \<Rightarrow> amqp_message \<Rightarrow> byte list list \<times> amqp_message \<times> bool" where
  "amqp_method channel payload msg =
     (let classID = be (take 2 payload); methodID = be (take 2 (drop 2 payload)) in
      if classID = 10 \<and> methodID = 11 then ([buildFrame 1 0 (buildMethodPayload 10 30 buildConnectionTuneArgs)], msg, True)
      else if classID = 10 \<and> methodID = 31 then ([], msg, True)
      else if classID = 10 \<and> methodID = 40 then ([buildFrame 1 0 (buildMethodPayload 10 41 [0])], msg, True)
      else if classID = 20 \<and> methodID = 10 then ([buildFrame 1 channel (buildMethodPayload 20 11 [0, 0, 0, 0])], msg, True)
      else if classID = 40 \<and> methodID = 10 then ([buildFrame 1 channel (buildMethodPayload 40 11 [])], msg, True)
      else if classID = 60 \<and> methodID = 40 then ([], extractPublishArgs (drop 4 payload), True)
      else if classID = 20 \<and> methodID = 40 then ([buildFrame 1 channel (buildMethodPayload 20 41 [])], msg, True)
      else if classID = 10 \<and> methodID = 50 then ([buildFrame 1 0 (buildMethodPayload 10 51 [])], msg, False)
      else ([], msg, True))"

lemma readFrame_length: "readFrame s = Some (t, c, p, s') \<Longrightarrow> length s' < length s"
  by (auto simp: readFrame_def Let_def dest!: ReadFull_length split: option.splits if_splits)

function amqp_loop :: "amqp_message \<Rightarrow> nat \<Rightarrow> byte list \<Rightarrow> (byte, amqp_message) event list" where
  "amqp_loop currentMsg contentBodySize s =
     (case readFrame s of
        None \<Rightarrow> []
      | Some (frameType, channel, payload, s') \<Rightarrow>
          if frameType = 1 then
            if length payload < 4 then []
            else
              (case amqp_method channel payload currentMsg of
                 (writes, msg, go_on) \<Rightarrow>
                   map EWrite writes @ (if go_on then amqp_loop msg contentBodySize s' else []))
          else if frameType = 2 then
            (let bodySize = (if length payload \<ge> 12 then be (take 8 (drop 4 payload)) else contentBodySize) in
             if bodySize = 0 then ESend currentMsg # amqp_loop no_message bodySize s'
             else amqp_loop currentMsg bodySize s')
          else if frameType = 3 then
            ESend (currentMsg\<lparr>am_Body := payload\<rparr>) # amqp_loop no_message 0 s'
          else amqp_loop currentMsg contentBodySize s')"
  by pat_completeness auto

termination
  by (relation "measure (\<lambda>(_, _, s). length s)") (auto dest!: readFrame_length)

declare amqp_loop.simps [simp del]

definition amqp_handleConnection :: "byte list \<Rightarrow> (byte, amqp_message) event list" where
  "amqp_handleConnection s =
     (case ReadFull 8 s of
        None \<Rightarrow> []
      | Some (protoHeader, s') \<Rightarrow>
          EWrite (buildFrame 1 0 (buildMethodPayload 10 10 buildConnectionStartArgs)) # amqp_loop no_message 0 s')"

definition amqp_startServer :: "byte list set \<Rightarrow> (byte, byte, amqp_message) server \<Rightarrow> bool" where
  "amqp_startServer clients s = server_reachable amqp_handleConnection clients s"

definition amqp_StartServer :: "(string \<Rightarrow> string + int) \<Rightarrow> string + int" where
  "amqp_StartServer = StartServer ''AMQP server''"

definition amqp_ForBenchmark :: "(string \<Rightarrow> string + int) \<Rightarrow> int \<Rightarrow> string option" where
  "amqp_ForBenchmark = ForBenchmark ''AMQP server''"

section \<open>Frames\<close>

text \<open>Frames. A frame reads back as the type, channel and payload it was built from, whatever follows it, as long as the
  channel and the length fit their fields.\<close>

lemma readFrame_buildFrame:
  assumes "channel < 2 ^ 16" "length payload < 2 ^ 32"
  shows "readFrame (buildFrame frameType channel payload @ rest) = Some (frameType, channel, payload, rest)"
proof -
  let ?h = "frameType # be_put 2 channel @ be_put 4 (length payload)"
  have "readFrame (?h @ payload @ [0xCE] @ rest) = Some (frameType, channel, payload, rest)"
    unfolding readFrame_def using assms
    by (simp add: ReadFull_append [of ?h 7 "payload @ [0xCE] @ rest", simplified]
        ReadFull_append [of "[0xCE]" 1 rest, simplified] Let_def)
  then show ?thesis by (simp add: buildFrame_def)
qed

section \<open>A client that follows the protocol\<close>

text \<open>A publish: the message, the flag octet of the method and the properties of the content header.\<close>

type_synonym amqp_pub = "amqp_message \<times> byte \<times> byte list"

definition shortstr :: "byte list \<Rightarrow> byte list" where
  "shortstr v = of_nat (length v) # v"

definition method_frame :: "nat \<Rightarrow> nat \<Rightarrow> nat \<Rightarrow> byte list \<Rightarrow> byte list" where
  "method_frame channel classID methodID args = buildFrame 1 channel (buildMethodPayload classID methodID args)"

definition content_header :: "nat \<Rightarrow> byte list \<Rightarrow> byte list" where
  "content_header n props = buildFrame 2 1 (be_put 2 60 @ be_put 2 0 @ be_put 8 n @ props)"

definition amqp_publish :: "amqp_pub \<Rightarrow> byte list" where
  "amqp_publish x = (case x of (m, bits, props) \<Rightarrow>
     method_frame 1 60 40 ([0, 0] @ shortstr (am_Exchange m) @ shortstr (am_RoutingKey m) @ [bits]) @
     content_header (length (am_Body m)) props @
     (if am_Body m = [] then [] else buildFrame 3 1 (am_Body m)))"

text \<open>\<open>args\<close> are the arguments of StartOk, TuneOk and Open, which the server does not look at.\<close>

definition amqp_session :: "byte list \<times> byte list \<times> byte list \<Rightarrow> amqp_pub list \<Rightarrow> byte list" where
  "amqp_session args xs = (case args of (startOk, tuneOk, opn) \<Rightarrow>
     str_bytes ''AMQP'' @ [0, 0, 9, 1] @ method_frame 0 10 11 startOk @ method_frame 0 10 31 tuneOk @
     method_frame 0 10 40 opn @ method_frame 1 20 10 [0] @ concat (map amqp_publish xs) @
     method_frame 1 20 40 [] @ method_frame 0 10 50 [])"

definition amqp_good :: "amqp_pub \<Rightarrow> bool" where
  "amqp_good x \<longleftrightarrow> length (am_Exchange (fst x)) < 256 \<and> length (am_RoutingKey (fst x)) < 256 \<and>
     length (am_Body (fst x)) < 2 ^ 32 \<and> length (snd (snd x)) < 2 ^ 32 - 12"

definition amqp_args_ok :: "byte list \<times> byte list \<times> byte list \<Rightarrow> bool" where
  "amqp_args_ok args \<longleftrightarrow> (case args of (a, b, c) \<Rightarrow> list_all (\<lambda>x. length x < 2 ^ 32 - 4) [a, b, c])"

lemma amqp_loop_frame:
  assumes "channel < 2 ^ 16" "length payload < 2 ^ 32"
  shows "amqp_loop m n (buildFrame frameType channel payload @ rest) =
    (if frameType = 1 then
       if length payload < 4 then []
       else (case amqp_method channel payload m of
               (writes, msg, go_on) \<Rightarrow> map EWrite writes @ (if go_on then amqp_loop msg n rest else []))
     else if frameType = 2 then
       (let bodySize = (if length payload \<ge> 12 then be (take 8 (drop 4 payload)) else n) in
        if bodySize = 0 then ESend m # amqp_loop no_message bodySize rest else amqp_loop m bodySize rest)
     else if frameType = 3 then ESend (m\<lparr>am_Body := payload\<rparr>) # amqp_loop no_message 0 rest
     else amqp_loop m n rest)"
  by (subst amqp_loop.simps) (simp only: readFrame_buildFrame [OF assms] option.case prod.case)

lemma amqp_method_payload:
  assumes "classID < 2 ^ 16" "methodID < 2 ^ 16"
  shows "be (take 2 (buildMethodPayload classID methodID args)) = classID"
    "be (take 2 (drop 2 (buildMethodPayload classID methodID args))) = methodID"
    "be (drop 2 (buildMethodPayload classID methodID [])) = methodID"
    "drop 4 (buildMethodPayload classID methodID args) = args"
    "length (buildMethodPayload classID methodID args) = 4 + length args"
  using assms by (simp_all add: buildMethodPayload_def)

lemma extractPublishArgs_exact:
  assumes "length (am_Exchange m) < 256" "length (am_RoutingKey m) < 256"
  shows "extractPublishArgs ([0, 0] @ shortstr (am_Exchange m) @ shortstr (am_RoutingKey m) @ [bits]) = m\<lparr>am_Body := []\<rparr>"
proof -
  have len: "unat (of_nat (length v) :: byte) = length v" if "length v < 256" for v :: "byte list"
    using that by (simp add: unat_of_nat)
  have skip: "drop (4 + length v) (a # b # c # v @ d # w) = w" for a b c d :: byte and v w
    by (simp add: eval_nat_numeral)
  show ?thesis
    using assms by (cases m) (simp add: extractPublishArgs_def shortstr_def no_message_def len skip nth_append Let_def)
qed

lemma amqp_publish_method:
  assumes "length (am_Exchange m) < 256" "length (am_RoutingKey m) < 256"
  shows "amqp_loop m0 n (method_frame 1 60 40 ([0, 0] @ shortstr (am_Exchange m) @ shortstr (am_RoutingKey m) @ [bits]) @ rest) =
    amqp_loop (m\<lparr>am_Body := []\<rparr>) n rest"
  unfolding method_frame_def using assms extractPublishArgs_exact [of m bits]
  by (subst amqp_loop_frame) (auto simp: amqp_method_def amqp_method_payload shortstr_def Let_def)

lemma amqp_content_header:
  assumes "k < 2 ^ 32" "length props < 2 ^ 32 - 12"
  shows "amqp_loop m n (content_header k props @ rest) =
    (if k = 0 then ESend m # amqp_loop no_message 0 rest else amqp_loop m k rest)"
proof -
  let ?head = "be_put 2 60 @ be_put 2 0 @ be_put 8 k @ props"
  have "be (take 8 (drop 4 ?head)) = k" "12 \<le> length ?head" "length ?head < 2 ^ 32"
    using assms by simp_all
  then show ?thesis
    unfolding content_header_def by (subst amqp_loop_frame) (simp_all add: Let_def del: append_assoc)
qed

lemma amqp_body_frame:
  assumes "length c < 2 ^ 32"
  shows "amqp_loop m n (buildFrame 3 1 c @ rest) = ESend (m\<lparr>am_Body := c\<rparr>) # amqp_loop no_message 0 rest"
  using assms by (subst amqp_loop_frame) simp_all

text \<open>One publish is captured as one message, and the handler is ready for the next.\<close>

lemma amqp_publish_captured:
  assumes "amqp_good x"
  shows "amqp_loop m0 n (amqp_publish x @ rest) = ESend (fst x) # amqp_loop no_message 0 rest"
proof -
  obtain m bits props where x: "x = (m, bits, props)" by (cases x)
  have "m\<lparr>am_Body := []\<rparr> = m" if "am_Body m = []" using that by (cases m) simp
  with assms show ?thesis
    unfolding x amqp_publish_def amqp_good_def
    by (simp add: amqp_publish_method [simplified] amqp_content_header amqp_body_frame [simplified])
qed

lemma amqp_publishes_captured:
  "list_all amqp_good xs \<Longrightarrow>
   amqp_loop no_message 0 (concat (map amqp_publish xs) @ rest) = map (ESend \<circ> fst) xs @ amqp_loop no_message 0 rest"
  by (induction xs) (simp_all add: amqp_publish_captured)

definition amqp_session_events :: "amqp_pub list \<Rightarrow> (byte, amqp_message) event list" where
  "amqp_session_events xs =
     EWrite (method_frame 0 10 10 buildConnectionStartArgs) # EWrite (method_frame 0 10 30 buildConnectionTuneArgs) #
     EWrite (method_frame 0 10 41 [0]) # EWrite (method_frame 1 20 11 [0, 0, 0, 0]) # map (ESend \<circ> fst) xs @
     [EWrite (method_frame 1 20 41 []), EWrite (method_frame 0 10 51 [])]"

lemma amqp_loop_method:
  assumes "channel < 2 ^ 16" "classID < 2 ^ 16" "methodID < 2 ^ 16" "length args < 2 ^ 32 - 4"
  shows "amqp_loop m n (method_frame channel classID methodID args @ rest) =
    (case amqp_method channel (buildMethodPayload classID methodID args) m of
       (writes, msg, go_on) \<Rightarrow> map EWrite writes @ (if go_on then amqp_loop msg n rest else []))"
  unfolding method_frame_def using assms by (subst amqp_loop_frame) (simp_all add: amqp_method_payload)

lemma amqp_session_events:
  assumes "amqp_args_ok args" "list_all amqp_good xs"
  shows "amqp_handleConnection (amqp_session args xs) = amqp_session_events xs"
proof -
  obtain a b c where args: "args = (a, b, c)" by (cases args)
  let ?body = "method_frame 0 10 11 a @ method_frame 0 10 31 b @ method_frame 0 10 40 c @ method_frame 1 20 10 [0] @
    concat (map amqp_publish xs) @ method_frame 1 20 40 [] @ method_frame 0 10 50 [] @ []"
  have "amqp_handleConnection (amqp_session args xs) =
      EWrite (method_frame 0 10 10 buildConnectionStartArgs) # amqp_loop no_message 0 ?body"
    unfolding amqp_handleConnection_def amqp_session_def args method_frame_def
    by (simp add: str_bytes_def ReadFull_def eval_nat_numeral)
  also have "amqp_loop no_message 0 ?body =
      EWrite (method_frame 0 10 30 buildConnectionTuneArgs) # EWrite (method_frame 0 10 41 [0]) #
      EWrite (method_frame 1 20 11 [0, 0, 0, 0]) # map (ESend \<circ> fst) xs @
      [EWrite (method_frame 1 20 41 []), EWrite (method_frame 0 10 51 [])]"
    using assms by (simp add: amqp_args_ok_def args amqp_loop_method amqp_publishes_captured amqp_method_def
        amqp_method_payload method_frame_def [symmetric] del: append_Nil2)
  finally show ?thesis by (simp add: amqp_session_events_def)
qed

interpretation amqp: capture_server amqp_handleConnection "amqp_session ([], [], [])" fst amqp_good
proof
  fix xs assume good: "list_all amqp_good xs"
  have events: "amqp_handleConnection (amqp_session ([], [], []) xs) = amqp_session_events xs"
    by (rule amqp_session_events) (simp_all add: good amqp_args_ok_def)
  show "sends (amqp_handleConnection (amqp_session ([], [], []) xs)) = map fst xs"
    unfolding events amqp_session_events_def by (induction xs) simp_all
  show "EPanic \<notin> set (amqp_handleConnection (amqp_session ([], [], []) xs))"
    unfolding events by (auto simp: amqp_session_events_def)
qed

text \<open>What a test sees after a clean shutdown of the AMQP server.\<close>

lemma amqp_run_captures_all:
  assumes "amqp_startServer (amqp_session ([], [], []) ` {xs. list_all amqp_good xs}) s"
    and "sv_cleanup s = CleanedUp" "\<not> sv_held_at_close s"
  shows "\<exists>xss. list_all (list_all amqp_good) xss \<and> sv_inputs s = map (amqp_session ([], [], [])) xss \<and>
    mset (captured s) = mset (map fst (concat xss)) \<and> (\<forall>xs\<in>set xss. subseq (map fst xs) (captured s)) \<and>
    \<not> sv_panicked s"
  using amqp.clean_run_captures_all assms unfolding amqp_startServer_def by blast

section \<open>Bodies of several frames\<close>

text \<open>A publish whose body the client splits into the chunks \<open>cs\<close>, as it must when the body exceeds the frame size
  that was tuned.\<close>

definition amqp_publish_split :: "amqp_message \<Rightarrow> byte \<Rightarrow> byte list \<Rightarrow> byte list list \<Rightarrow> byte list" where
  "amqp_publish_split m bits props cs =
     method_frame 1 60 40 ([0, 0] @ shortstr (am_Exchange m) @ shortstr (am_RoutingKey m) @ [bits]) @
     content_header (length (concat cs)) props @ concat (map (buildFrame 3 1) cs)"

lemma amqp_bodies:
  "list_all (\<lambda>c. length c < 2 ^ 32) cs \<Longrightarrow>
   amqp_loop no_message 0 (concat (map (buildFrame 3 1) cs) @ rest) =
   map (\<lambda>c. ESend (no_message\<lparr>am_Body := c\<rparr>)) cs @ amqp_loop no_message 0 rest"
  by (induction cs) (simp_all add: amqp_body_frame [simplified])

text \<open>
  C37. Content bodies. Every non-empty body frame becomes a message of its own: the first carries the exchange, the routing key
  and its part of the body, each further part is captured with an empty exchange and routing key. A
  published message is captured as itself exactly when its body is sent in one frame; the 131072 bytes
  the server tunes the frame size to are such a limit.
\<close>

theorem amqp_body_per_frame:
  assumes "amqp_good (m, bits, props)" "concat (c # cs) = am_Body m" "list_all (\<lambda>x. x \<noteq> []) (c # cs)"
  shows "amqp_loop no_message 0 (amqp_publish_split m bits props (c # cs) @ rest) =
    ESend (m\<lparr>am_Body := c\<rparr>) # map (\<lambda>x. ESend (no_message\<lparr>am_Body := x\<rparr>)) cs @ amqp_loop no_message 0 rest \<and>
    (sends (amqp_loop no_message 0 (amqp_publish_split m bits props (c # cs))) = [m] \<longleftrightarrow> cs = [])"
proof -
  have len: "length x \<le> length (concat xs)" if "x \<in> set xs" for x :: "byte list" and xs
    using that by (induction xs) auto
  have "length x < 2 ^ 32" if "x \<in> set (c # cs)" for x
    using len [OF that] assms(1) unfolding assms(2) by (simp add: amqp_good_def)
  then have small: "list_all (\<lambda>x. length x < 2 ^ 32) (c # cs)" unfolding list_all_iff by blast
  have "length (concat (c # cs)) < 2 ^ 32" using assms(1) unfolding assms(2) by (simp add: amqp_good_def)
  moreover have "0 < length (concat (c # cs))" using assms(3) by simp
  ultimately have size: "length (concat (c # cs)) < 2 ^ 32" "length (concat (c # cs)) \<noteq> 0" by auto
  have all: "amqp_loop no_message 0 (amqp_publish_split m bits props (c # cs) @ rest) =
      ESend (m\<lparr>am_Body := c\<rparr>) # map (\<lambda>x. ESend (no_message\<lparr>am_Body := x\<rparr>)) cs @ amqp_loop no_message 0 rest" for rest
    using assms(1,3) size small
    by (simp add: amqp_publish_split_def amqp_good_def amqp_publish_method [simplified] amqp_content_header
        amqp_body_frame [simplified] amqp_bodies [simplified])
  have "sends (map (\<lambda>x. ESend (no_message\<lparr>am_Body := x\<rparr>)) cs) = map (\<lambda>x. no_message\<lparr>am_Body := x\<rparr>) cs"
    by (induction cs) simp_all
  moreover have "amqp_loop no_message 0 [] = []" by (subst amqp_loop.simps) (simp add: readFrame_def ReadFull_def)
  ultimately have "sends (amqp_loop no_message 0 (amqp_publish_split m bits props (c # cs))) = [m] \<longleftrightarrow> cs = []"
    using all [of "[]"] assms(2) by (cases m; cases cs) auto
  with all show ?thesis by blast
qed

theorem amqp_body_per_frame_witness:
  "sends (amqp_loop no_message 0 (amqp_publish_split \<lparr>am_Exchange = [0x65], am_RoutingKey = [0x6B], am_Body = [1, 2, 3]\<rparr> 0 []
     [[1, 2], [3]])) \<noteq> [\<lparr>am_Exchange = [0x65], am_RoutingKey = [0x6B], am_Body = [1, 2, 3]\<rparr>]"
  using amqp_body_per_frame [of "\<lparr>am_Exchange = [0x65], am_RoutingKey = [0x6B], am_Body = [1, 2, 3]\<rparr>" 0 "[]" "[1, 2]" "[[3]]" "[]"]
  by (simp add: amqp_good_def)

end
