(* ===== verification/Mock_Nats.thy ===== *)
theory Mock_Nats
  imports Mock_Server
begin

text \<open>
  The mock NATS server (\<open>infrastructure/mock_servers/nats/server.go\<close>): the line protocol with CONNECT, PING, PUB and
  HPUB, the sizes read with ignored errors, and the header block. A client that follows the protocol is
  captured exactly, headers included.
\<close>

section \<open>server.go\<close>

record nats_capture =
  nc_Subject :: string
  nc_Data :: string
  nc_Headers :: "(string \<rightharpoonup> string) option"

definition INFO :: string where
  "INFO = ''INFO {\"server_id\":\"mock\",\"server_name\":\"mock\",\"version\":\"2.10.0\",\"proto\":1,\"max_payload\":1048576,\"headers\":true,\"auth_required\":false}'' @ CRLF"

text \<open>The loop over the lines of the header block, after the first.\<close>

definition parse_headers :: "string \<Rightarrow> string \<rightharpoonup> string" where
  "parse_headers headerStr =
     foldl (\<lambda>m hl. if hl = [] then m else case go_cut '': '' hl of None \<Rightarrow> m | Some (k, v) \<Rightarrow> m(k \<mapsto> v)) (\<lambda>_. None)
       (tl (split_crlf headerStr))"

text \<open>\<open>make\<close>, \<open>io.ReadFull\<close> with its error ignored, and the rest of the line; \<open>None\<close> is the panic of \<open>make\<close>.\<close>

definition read_payload :: "int \<Rightarrow> string \<Rightarrow> (string \<times> string) option" where
  "read_payload n s =
     (if n < 0 \<or> max_alloc < n then None
      else case ReadFull_lossy (nat n) s of (payload, s') \<Rightarrow> Some (payload, skip_line s'))"

text \<open>One command: its events, and where the connection goes on; \<open>None\<close> after a panic.\<close>

definition nats_pub :: "string \<Rightarrow> string \<Rightarrow> (char, nats_capture) event list \<times> string option" where
  "nats_pub line s =
     (let parts = go_fields line in
      if length parts < 3 then ([], Some s)
      else case read_payload (atoi_value (last parts)) s of
             None \<Rightarrow> ([EPanic], None)
           | Some (payload, s') \<Rightarrow>
               ([ESend \<lparr>nc_Subject = parts ! 1, nc_Data = payload, nc_Headers = None\<rparr>], Some s'))"

definition nats_hpub :: "string \<Rightarrow> string \<Rightarrow> (char, nats_capture) event list \<times> string option" where
  "nats_hpub line s =
     (let parts = go_fields line in
      if length parts < 4 then ([], Some s)
      else
        let headerSize = sscanf_d (parts ! (length parts - 2));
            totalSize = sscanf_d (parts ! (length parts - 1))
        in case read_payload totalSize s of
             None \<Rightarrow> ([EPanic], None)
           | Some (totalPayload, s') \<Rightarrow>
               ([ESend
                  (if headerSize > 0 \<and> headerSize \<le> int (length totalPayload) then
                     \<lparr>nc_Subject = parts ! 1, nc_Data = drop (nat headerSize) totalPayload,
                      nc_Headers = Some (parse_headers (take (nat headerSize) totalPayload))\<rparr>
                   else \<lparr>nc_Subject = parts ! 1, nc_Data = totalPayload, nc_Headers = Some (\<lambda>_. None)\<rparr>)], Some s'))"

definition nats_command :: "string \<Rightarrow> string \<Rightarrow> (char, nats_capture) event list \<times> string option" where
  "nats_command line s =
     (if has_prefix line ''CONNECT'' then ([], Some s)
      else if has_prefix line ''PING'' then ([EWrite (''PONG'' @ CRLF)], Some s)
      else if has_prefix line ''PUB '' then nats_pub line s
      else if has_prefix line ''HPUB '' then nats_hpub line s
      else ([], Some s))"

lemma read_payload_length: "read_payload n s = Some (p, s') \<Longrightarrow> length s' \<le> length s"
  using skip_line_length [of "snd (ReadFull_lossy (nat n) s)"] ReadFull_lossy_length [of "nat n" s]
  by (auto simp: read_payload_def split: if_splits prod.splits)

lemma nats_command_length: "nats_command line s = (es, Some s') \<Longrightarrow> length s' \<le> length s"
  by (auto simp: nats_command_def nats_pub_def nats_hpub_def Let_def dest: read_payload_length split: if_splits option.splits)

function nats_loop :: "string \<Rightarrow> (char, nats_capture) event list" where
  "nats_loop s =
     (case ReadLine s of
        None \<Rightarrow> []
      | Some (line, s1) \<Rightarrow>
          (case nats_command (trim_crlf line) s1 of
             (es, None) \<Rightarrow> es
           | (es, Some s2) \<Rightarrow> es @ nats_loop s2))"
  by pat_completeness auto

termination
  by (relation "measure length") (auto dest!: ReadLine_length nats_command_length [OF sym])

declare nats_loop.simps [simp del]

definition nats_handleConnection :: "string \<Rightarrow> (char, nats_capture) event list" where
  "nats_handleConnection s = EWrite INFO # nats_loop s"

definition nats_startServer :: "string set \<Rightarrow> (char, char, nats_capture) server \<Rightarrow> bool" where
  "nats_startServer clients s = server_reachable nats_handleConnection clients s"

definition nats_StartServer :: "(string \<Rightarrow> string + int) \<Rightarrow> string + int" where
  "nats_StartServer = StartServer ''NATS server''"

definition nats_ForBenchmark :: "(string \<Rightarrow> string + int) \<Rightarrow> int \<Rightarrow> string option" where
  "nats_ForBenchmark = ForBenchmark ''NATS server''"

section \<open>A client that follows the protocol\<close>

text \<open>A publish: the subject, an optional reply subject, the headers of an HPUB, and the payload.\<close>

record nats_publish =
  np_subject :: string
  np_reply :: "string option"
  np_headers :: "(string \<times> string) list option"
  np_payload :: string

definition header_block :: "(string \<times> string) list \<Rightarrow> string" where
  "header_block hs = ''NATS/1.0'' @ CRLF @ concat (map (\<lambda>(k, v). k @ '': '' @ v @ CRLF) hs) @ CRLF"

definition publish_line :: "nats_publish \<Rightarrow> string list" where
  "publish_line p =
     (case np_headers p of None \<Rightarrow> [''PUB''] | Some _ \<Rightarrow> [''HPUB'']) @ [np_subject p] @
     (case np_reply p of None \<Rightarrow> [] | Some r \<Rightarrow> [r]) @
     (case np_headers p of
        None \<Rightarrow> [itoa (int (length (np_payload p)))]
      | Some hs \<Rightarrow> [itoa (int (length (header_block hs))), itoa (int (length (header_block hs @ np_payload p)))])"

definition nats_publish_bytes :: "nats_publish \<Rightarrow> string" where
  "nats_publish_bytes p =
     go_join '' '' (publish_line p) @ CRLF @
     (case np_headers p of None \<Rightarrow> [] | Some hs \<Rightarrow> header_block hs) @ np_payload p @ CRLF"

definition nats_session :: "string \<Rightarrow> nats_publish list \<Rightarrow> string" where
  "nats_session options ps = ''CONNECT '' @ options @ CRLF @ ''PING'' @ CRLF @ concat (map nats_publish_bytes ps)"

text \<open>The largest payload is well below the address space.\<close>

definition nats_good :: "nats_publish \<Rightarrow> bool" where
  "nats_good p \<longleftrightarrow> word_ok (np_subject p) \<and> (case np_reply p of None \<Rightarrow> True | Some r \<Rightarrow> word_ok r) \<and>
     (case np_headers p of
        None \<Rightarrow> int (length (np_payload p)) \<le> max_alloc
      | Some hs \<Rightarrow> list_all (\<lambda>(k, v). CHR '':'' \<notin> set k \<and> CHR 0x0D \<notin> set k \<and> CHR 0x0D \<notin> set v) hs \<and>
          int (length (header_block hs @ np_payload p)) \<le> max_alloc)"

text \<open>The last value of a repeated header wins.\<close>

definition nats_msg :: "nats_publish \<Rightarrow> nats_capture" where
  "nats_msg p = \<lparr>nc_Subject = np_subject p, nc_Data = np_payload p, nc_Headers = map_option (map_of \<circ> rev) (np_headers p)\<rparr>"

lemma split_header_lines:
  assumes "list_all (\<lambda>(k, v). CHR 0x0D \<notin> set k \<and> CHR 0x0D \<notin> set v) hs"
  shows "split_crlf (concat (map (\<lambda>(k, v). k @ '': '' @ v @ CRLF) hs) @ CRLF) = map (\<lambda>(k, v). k @ '': '' @ v) hs @ [[], []]"
  using assms
proof (induction hs)
  case Nil
  show ?case using split_crlf_append [of "[]" "[]"] by simp
next
  case (Cons h hs)
  obtain k v where h: "h = (k, v)" by (cases h)
  have "CHR 0x0D \<notin> set (k @ '': '' @ v)" using Cons.prems by (simp add: h)
  from split_crlf_append [OF this] show ?case using Cons by (simp add: h)
qed

lemma parse_header_block:
  assumes "list_all (\<lambda>(k, v). CHR '':'' \<notin> set k \<and> CHR 0x0D \<notin> set k \<and> CHR 0x0D \<notin> set v) hs"
  shows "parse_headers (header_block hs) = map_of (rev hs)"
proof -
  let ?f = "\<lambda>m hl. if hl = [] then m else case go_cut '': '' hl of None \<Rightarrow> m | Some (k, v) \<Rightarrow> m(k \<mapsto> v)"
  have "list_all (\<lambda>(k, v). CHR 0x0D \<notin> set k \<and> CHR 0x0D \<notin> set v) hs"
    using assms by (auto simp: list_all_iff)
  then have "split_crlf (header_block hs) = ''NATS/1.0'' # map (\<lambda>(k, v). k @ '': '' @ v) hs @ [[], []]"
    unfolding header_block_def using split_header_lines by (subst split_crlf_append) simp_all
  moreover have "foldl ?f m (map (\<lambda>(k, v). k @ '': '' @ v) hs) = m ++ map_of (rev hs)" for m
    using assms
  proof (induction hs arbitrary: m)
    case (Cons h hs)
    obtain k v where h: "h = (k, v)" by (cases h)
    have "?f m (k @ '': '' @ v) = m(k \<mapsto> v)"
      using Cons.prems go_cut_append [of "CHR '':''" k "'' ''" v] by (simp add: h)
    then have "foldl ?f m (map (\<lambda>(k, v). k @ '': '' @ v) (h # hs)) = m(k \<mapsto> v) ++ map_of (rev hs)"
      using Cons by (simp only: h list.map prod.case foldl.simps list.pred_inject)
    then show ?case by (simp add: h map_add_assoc)
  qed simp
  ultimately show ?thesis by (simp add: parse_headers_def)
qed

lemma itoa_word: "0 \<le> i \<Longrightarrow> word_ok (itoa i)"
proof -
  assume "0 \<le> i"
  then have "itoa i \<noteq> [] \<and> list_all is_dec (itoa i)" using show_nat_digits [of "nat i"] by (simp add: itoa_def)
  then show ?thesis by (auto simp: word_ok_def list_all_iff is_dec_def is_space_def Let_def)
qed

lemma publish_line_ok: "nats_good p \<Longrightarrow> list_all word_ok (publish_line p)"
  by (auto simp: publish_line_def nats_good_def itoa_word split: option.splits) (simp_all add: word_ok_def is_space_def)

text \<open>A line of words has neither a line break inside nor one to trim.\<close>

lemma line_of_words:
  assumes "list_all word_ok ws" "ws \<noteq> []"
  shows "CHR 0x0A \<notin> set (go_join '' '' ws)"
    and "trim_crlf (go_join '' '' ws @ CRLF) = go_join '' '' ws"
proof -
  have clean: "c = CHR '' '' \<or> \<not> is_space c" if "list_all word_ok vs" "c \<in> set (go_join '' '' vs)" for vs c
    using that by (induction vs rule: induct_list012) (auto simp: word_ok_def list_all_iff)
  have "\<not> is_space (last (go_join '' '' vs)) \<and> go_join '' '' vs \<noteq> []" if "list_all word_ok vs" "vs \<noteq> []" for vs
    using that by (induction vs rule: induct_list012) (auto simp: word_ok_def list_all_iff)
  from this [OF assms] show "trim_crlf (go_join '' '' ws @ CRLF) = go_join '' '' ws"
    by (intro trim_crlf_CRLF) (auto simp: is_space_def)
  show "CHR 0x0A \<notin> set (go_join '' '' ws)" using clean [OF assms(1), of "CHR 0x0A"] by (auto simp: is_space_def)
qed

lemma nats_loop_line:
  assumes "CHR 0x0A \<notin> set l" "trim_crlf (l @ CRLF) = l"
  shows "nats_loop (l @ CRLF @ s) = (case nats_command l s of (es, None) \<Rightarrow> es | (es, Some s2) \<Rightarrow> es @ nats_loop s2)"
  using assms by (subst nats_loop.simps) (simp add: ReadLine_append)

lemma read_payload_exact: "int (length p) \<le> max_alloc \<Longrightarrow> read_payload (int (length p)) (p @ CRLF @ s) = Some (p, s)"
  by (simp add: read_payload_def)

lemma size_in_range: "int n \<le> max_alloc \<Longrightarrow> in_int64 (int n)"
  by (simp add: max_alloc_def in_int64_def)

lemma nats_pub_command:
  assumes "nats_good p" "np_headers p = None"
  shows "nats_command (go_join '' '' (publish_line p)) s =
    (case read_payload (int (length (np_payload p))) s of
       None \<Rightarrow> ([EPanic], None)
     | Some (payload, s') \<Rightarrow> ([ESend ((nats_msg p)\<lparr>nc_Data := payload\<rparr>)], Some s'))"
proof -
  let ?l = "go_join '' '' (publish_line p)" and ?n = "int (length (np_payload p))"
  have n: "?n \<le> max_alloc" using assms by (simp add: nats_good_def)
  have fields: "go_fields ?l = publish_line p" by (rule go_fields_join [OF publish_line_ok [OF assms(1)]])
  have parts: "3 \<le> length (publish_line p)" "publish_line p ! 1 = np_subject p" "last (publish_line p) = itoa ?n"
    using assms(2) by (simp_all add: publish_line_def split: option.splits)
  have "atoi_value (itoa ?n) = ?n" using atoi_value_atoi atoi_itoa size_in_range [OF n] by blast
  moreover have "has_prefix ?l ''PUB ''" "\<not> has_prefix ?l ''CONNECT''" "\<not> has_prefix ?l ''PING''"
    using assms(2) by (simp_all add: publish_line_def has_prefix_def split: option.splits)
  ultimately show ?thesis
    using parts assms(2) by (simp add: nats_command_def nats_pub_def fields nats_msg_def Let_def split: option.split)
qed

lemma nats_pub_exact:
  assumes "nats_good p" "np_headers p = None"
  shows "nats_command (go_join '' '' (publish_line p)) (np_payload p @ CRLF @ s) = ([ESend (nats_msg p)], Some s)"
  using nats_pub_command [OF assms] read_payload_exact [of "np_payload p" s] assms
  by (simp add: nats_good_def nats_msg_def)

lemma nats_hpub_exact:
  assumes "nats_good p" "np_headers p = Some hs"
  shows "nats_command (go_join '' '' (publish_line p)) (header_block hs @ np_payload p @ CRLF @ s) =
    ([ESend (nats_msg p)], Some s)"
proof -
  let ?l = "go_join '' '' (publish_line p)" and ?h = "int (length (header_block hs))"
    and ?n = "int (length (header_block hs @ np_payload p))"
  have n: "?n \<le> max_alloc" using assms by (simp add: nats_good_def)
  then have h: "?h \<le> max_alloc" by simp
  have fields: "go_fields ?l = publish_line p" by (rule go_fields_join [OF publish_line_ok [OF assms(1)]])
  have parts: "4 \<le> length (publish_line p)" "publish_line p ! 1 = np_subject p"
    "publish_line p ! (length (publish_line p) - 2) = itoa ?h" "publish_line p ! (length (publish_line p) - 1) = itoa ?n"
    using assms(2) by (simp_all add: publish_line_def split: option.splits)
  have sizes: "sscanf_d (itoa ?h) = ?h" "sscanf_d (itoa ?n) = ?n"
    using sscanf_itoa size_in_range [OF n] size_in_range [OF h] by blast+
  have pos: "0 < ?h" by (simp add: header_block_def)
  have headers: "parse_headers (header_block hs) = map_of (rev hs)"
    using assms by (intro parse_header_block) (simp add: nats_good_def)
  have read: "read_payload ?n (header_block hs @ np_payload p @ CRLF @ s) = Some (header_block hs @ np_payload p, s)"
    using read_payload_exact [OF n, of s] by (simp only: append_assoc)
  have "nats_hpub ?l (header_block hs @ np_payload p @ CRLF @ s) = ([ESend (nats_msg p)], Some s)"
    unfolding nats_hpub_def fields Let_def parts sizes read using parts(1,2) pos headers assms(2) by (simp add: nats_msg_def)
  moreover have "has_prefix ?l ''HPUB ''" "\<not> has_prefix ?l ''CONNECT''" "\<not> has_prefix ?l ''PING''" "\<not> has_prefix ?l ''PUB ''"
    using assms(2) by (simp_all add: publish_line_def has_prefix_def split: option.splits)
  ultimately show ?thesis by (simp add: nats_command_def)
qed

lemma nats_publish_captured:
  assumes "nats_good p"
  shows "nats_loop (nats_publish_bytes p @ s) = ESend (nats_msg p) # nats_loop s"
proof -
  have "publish_line p \<noteq> []" by (simp add: publish_line_def split: option.splits)
  note line = line_of_words [OF publish_line_ok [OF assms] this]
  show ?thesis
    unfolding nats_publish_bytes_def
    using nats_loop_line [OF line] nats_pub_exact [OF assms] nats_hpub_exact [OF assms]
    by (cases "np_headers p") simp_all
qed

text \<open>For a client that connects, pings and publishes, the handler greets it, answers the ping and captures every
  publish with its subject, payload and headers, in order.\<close>

lemma nats_session_captured:
  assumes "list_all nats_good ps" "CHR 0x0A \<notin> set options" "options \<noteq> []" "last options = CHR ''}''"
  shows "nats_handleConnection (nats_session options ps) = EWrite INFO # EWrite (''PONG'' @ CRLF) # map (ESend \<circ> nats_msg) ps"
proof -
  have "nats_loop (concat (map nats_publish_bytes ps)) = map (ESend \<circ> nats_msg) ps"
    using assms(1)
  proof (induction ps)
    case Nil
    show ?case by (subst nats_loop.simps) (simp add: ReadLine_def)
  qed (simp add: nats_publish_captured)
  moreover have "nats_loop ((''CONNECT '' @ options) @ CRLF @ s) = nats_loop s" for s
    using assms(2-) by (subst nats_loop_line) (simp_all add: nats_command_def has_prefix_def trim_crlf_CRLF [of "''CONNECT '' @ options", simplified])
  moreover have "nats_loop (''PING'' @ CRLF @ s) = EWrite (''PONG'' @ CRLF) # nats_loop s" for s
    by (subst nats_loop_line) (simp_all add: nats_command_def has_prefix_def trim_crlf_def)
  ultimately show ?thesis by (simp add: nats_handleConnection_def nats_session_def)
qed

abbreviation nats_options :: string where
  "nats_options \<equiv> ''{\"verbose\":false,\"headers\":true}''"

interpretation nats: capture_server nats_handleConnection "nats_session nats_options" nats_msg nats_good
proof
  fix ps assume "list_all nats_good ps"
  then have events: "nats_handleConnection (nats_session nats_options ps) =
      EWrite INFO # EWrite (''PONG'' @ CRLF) # map (ESend \<circ> nats_msg) ps"
    by (rule nats_session_captured) simp_all
  show "sends (nats_handleConnection (nats_session nats_options ps)) = map nats_msg ps"
    unfolding events by (induction ps) simp_all
  show "EPanic \<notin> set (nats_handleConnection (nats_session nats_options ps))"
    unfolding events by auto
qed

text \<open>What a test sees after a clean shutdown of the NATS server.\<close>

lemma nats_run_captures_all:
  assumes "nats_startServer (nats_session nats_options ` {ps. list_all nats_good ps}) s"
    and "sv_cleanup s = CleanedUp" "\<not> sv_held_at_close s"
  shows "\<exists>pss. list_all (list_all nats_good) pss \<and> sv_inputs s = map (nats_session nats_options) pss \<and>
    mset (captured s) = mset (map nats_msg (concat pss)) \<and> (\<forall>ps\<in>set pss. subseq (map nats_msg ps) (captured s)) \<and>
    \<not> sv_panicked s"
  using nats.clean_run_captures_all assms unfolding nats_startServer_def by blast

section \<open>Ignored errors\<close>

text \<open>A size that is negative or beyond the address space panics in \<open>make\<close>; one that is not a number counts as zero, so that
  the payload is read as the next command.\<close>

lemma nats_bad_size:
  "nats_loop (''PUB a -1'' @ CRLF @ s) = [EPanic]"
  "nats_loop (''PUB a 9999999999999999999999'' @ CRLF @ s) = [EPanic]"
  "nats_loop (''PUB a x'' @ CRLF @ CRLF @ s) = ESend \<lparr>nc_Subject = ''a'', nc_Data = [], nc_Headers = None\<rparr> # nats_loop s"
proof -
  have command: "nats_loop (go_join '' '' [''PUB'', ''a'', n] @ CRLF @ r) =
      (case nats_command (go_join '' '' [''PUB'', ''a'', n]) r of (es, None) \<Rightarrow> es | (es, Some s2) \<Rightarrow> es @ nats_loop s2)"
    "go_fields (go_join '' '' [''PUB'', ''a'', n]) = [''PUB'', ''a'', n]" if "word_ok n" for n r
  proof -
    have ok: "list_all word_ok [''PUB'', ''a'', n]" using that by (simp add: word_ok_def is_space_def)
    show "nats_loop (go_join '' '' [''PUB'', ''a'', n] @ CRLF @ r) =
      (case nats_command (go_join '' '' [''PUB'', ''a'', n]) r of (es, None) \<Rightarrow> es | (es, Some s2) \<Rightarrow> es @ nats_loop s2)"
      using line_of_words [OF ok] by (intro nats_loop_line) simp_all
    show "go_fields (go_join '' '' [''PUB'', ''a'', n]) = [''PUB'', ''a'', n]" by (rule go_fields_join [OF ok])
  qed
  note evaluate = nats_command_def nats_pub_def has_prefix_def read_payload_def atoi_value_def sign_body_def is_dec_def
    dec_number_def dec_val_def max_alloc_def word_ok_def is_space_def
  show "nats_loop (''PUB a -1'' @ CRLF @ s) = [EPanic]"
    using command [of "''-1''"] by (simp add: evaluate)
  show "nats_loop (''PUB a 9999999999999999999999'' @ CRLF @ s) = [EPanic]"
    using command [of "''9999999999999999999999''"] by (simp add: evaluate)
  show "nats_loop (''PUB a x'' @ CRLF @ CRLF @ s) = ESend \<lparr>nc_Subject = ''a'', nc_Data = [], nc_Headers = None\<rparr> # nats_loop s"
    using command [of "''x''"] by (simp add: evaluate ReadFull_lossy_def)
qed

text \<open>
  Cut connections. When the connection ends inside the payload of a PUB, the handler still captures a message of the
  announced size: the bytes that arrived, followed by zero bytes.
\<close>

theorem nats_truncated_payload:
  assumes "nats_good p" "np_headers p = None" "k < length (np_payload p)"
  shows "nats_loop (go_join '' '' (publish_line p) @ CRLF @ take k (np_payload p)) =
    [ESend ((nats_msg p)\<lparr>nc_Data := take k (np_payload p) @ replicate (length (np_payload p) - k) (CHR 0x00)\<rparr>)]"
proof -
  have "int (length (np_payload p)) \<le> max_alloc" using assms by (simp add: nats_good_def)
  then have "read_payload (int (length (np_payload p))) (take k (np_payload p)) =
      Some (take k (np_payload p) @ replicate (length (np_payload p) - k) (CHR 0x00), [])"
    using assms(3) by (simp add: read_payload_def ReadFull_lossy_def skip_line_def ReadLine_def min_def)
  moreover have "publish_line p \<noteq> []" by (simp add: publish_line_def split: option.splits)
  note line = line_of_words [OF publish_line_ok [OF assms(1)] this]
  moreover have "nats_loop [] = []" by (subst nats_loop.simps) (simp add: ReadLine_def)
  ultimately show ?thesis
    using nats_loop_line [OF line, of "take k (np_payload p)"] nats_pub_command [OF assms(1,2)] by simp
qed

theorem nats_truncated_payload_witness:
  "nats_loop (''PUB a 3'' @ CRLF @ ''x'') = [ESend \<lparr>nc_Subject = ''a'', nc_Data = [CHR ''x'', CHR 0x00, CHR 0x00], nc_Headers = None\<rparr>]"
proof -
  let ?p = "\<lparr>np_subject = ''a'', np_reply = None, np_headers = None, np_payload = ''xyz''\<rparr>"
  have "publish_line ?p = [''PUB'', ''a'', ''3'']" by code_simp
  moreover have "nats_good ?p" by (simp add: nats_good_def word_ok_def is_space_def max_alloc_def)
  ultimately show ?thesis
    using nats_truncated_payload [of ?p 1] by (simp add: nats_msg_def numeral_2_eq_2)
qed

end
