(* ===== verification/Mock_Smtp.thy ===== *)
theory Mock_Smtp
  imports Mock_Server
begin

text \<open>
  The mock SMTP server (\<open>infrastructure/mock_servers/smtp/server.go\<close>): the dialogue of EHLO, AUTH, MAIL FROM, RCPT TO,
  DATA and QUIT with its message state. Commands are compared in upper case, for ASCII text. Mails are
  captured with their envelope; the dots that a client doubles at the start of a line stay doubled, and
  RSET resets nothing.
\<close>

section \<open>server.go\<close>

record smtp_message =
  sm_From :: string
  sm_Recipients :: "string list"
  sm_Data :: string

record smtp_state =
  st_msg :: smtp_message
  st_inData :: bool
  st_dataBuilder :: string

definition smtp_no_message :: smtp_message where
  "smtp_no_message = \<lparr>sm_From = [], sm_Recipients = [], sm_Data = []\<rparr>"

definition smtp_init :: smtp_state where
  "smtp_init = \<lparr>st_msg = smtp_no_message, st_inData = False, st_dataBuilder = []\<rparr>"

definition char_index :: "char \<Rightarrow> string \<Rightarrow> nat option" where
  "char_index c s = (if c \<in> set s then Some (length (takeWhile (\<lambda>d. d \<noteq> c) s)) else None)"

definition extractAngleBracketAddr :: "string \<Rightarrow> string" where
  "extractAngleBracketAddr line =
     (case (char_index (CHR ''<'') line, char_index (CHR ''>'') line) of
        (Some start, Some end_pos) \<Rightarrow>
          if end_pos > start then take (end_pos - (start + 1)) (drop (start + 1) line) else line
      | _ \<Rightarrow> line)"

definition smtp_reply :: "string \<Rightarrow> (char, smtp_message) event" where
  "smtp_reply s = EWrite (s @ CRLF)"

text \<open>One line: the events, the new state, and whether the handler goes on.\<close>

definition smtp_data_line :: "smtp_state \<Rightarrow> string \<Rightarrow> (char, smtp_message) event list \<times> smtp_state" where
  "smtp_data_line st line =
     (if line = ''.'' then
        ([smtp_reply ''250 2.0.0 OK'', ESend ((st_msg st)\<lparr>sm_Data := st_dataBuilder st\<rparr>)], smtp_init)
      else ([], st\<lparr>st_dataBuilder := st_dataBuilder st @ line @ CRLF\<rparr>))"

definition smtp_command :: "smtp_state \<Rightarrow> string \<Rightarrow> (char, smtp_message) event list \<times> smtp_state \<times> bool" where
  "smtp_command st line =
     (let upper = to_upper line; msg = st_msg st in
      if has_prefix upper ''EHLO'' \<or> has_prefix upper ''HELO'' then
        ([EWrite (''250-mock Hello'' @ CRLF @ ''250-AUTH PLAIN LOGIN'' @ CRLF @ ''250 OK'' @ CRLF)], st, True)
      else if has_prefix upper ''AUTH'' then ([smtp_reply ''235 2.7.0 Authentication successful''], st, True)
      else if has_prefix upper ''MAIL FROM:'' then
        ([smtp_reply ''250 2.1.0 OK''], st\<lparr>st_msg := msg\<lparr>sm_From := extractAngleBracketAddr line\<rparr>\<rparr>, True)
      else if has_prefix upper ''RCPT TO:'' then
        ([smtp_reply ''250 2.1.5 OK''],
         st\<lparr>st_msg := msg\<lparr>sm_Recipients := sm_Recipients msg @ [extractAngleBracketAddr line]\<rparr>\<rparr>, True)
      else if has_prefix upper ''DATA'' then
        ([smtp_reply ''354 Start mail input; end with <CRLF>.<CRLF>''], st\<lparr>st_inData := True\<rparr>, True)
      else if has_prefix upper ''QUIT'' then ([smtp_reply ''221 2.0.0 Bye''], st, False)
      else ([smtp_reply ''250 OK''], st, True))"

definition smtp_line :: "smtp_state \<Rightarrow> string \<Rightarrow> (char, smtp_message) event list \<times> smtp_state \<times> bool" where
  "smtp_line st line =
     (if st_inData st then (case smtp_data_line st line of (es, st') \<Rightarrow> (es, st', True)) else smtp_command st line)"

function smtp_loop :: "smtp_state \<Rightarrow> string \<Rightarrow> (char, smtp_message) event list" where
  "smtp_loop st s =
     (case ReadLine s of
        None \<Rightarrow> []
      | Some (line, s') \<Rightarrow>
          (case smtp_line st (trim_crlf line) of
             (es, st', go_on) \<Rightarrow> es @ (if go_on then smtp_loop st' s' else [])))"
  by pat_completeness auto

termination
  by (relation "measure (\<lambda>(_, s). length s)") (auto dest!: ReadLine_length)

declare smtp_loop.simps [simp del]

definition smtp_handleConnection :: "string \<Rightarrow> (char, smtp_message) event list" where
  "smtp_handleConnection s = smtp_reply ''220 mock ESMTP ready'' # smtp_loop smtp_init s"

definition smtp_startServer :: "string set \<Rightarrow> (char, char, smtp_message) server \<Rightarrow> bool" where
  "smtp_startServer clients s = server_reachable smtp_handleConnection clients s"

definition smtp_StartServer :: "(string \<Rightarrow> string + int) \<Rightarrow> string + int" where
  "smtp_StartServer = StartServer ''SMTP server''"

definition smtp_ForBenchmark :: "(string \<Rightarrow> string + int) \<Rightarrow> int \<Rightarrow> string option" where
  "smtp_ForBenchmark = ForBenchmark ''SMTP server''"

section \<open>A client that follows the protocol\<close>

text \<open>A mail: the envelope and the lines of its text. The client doubles a dot at the start of a line.\<close>

record mail =
  ml_from :: string
  ml_to :: "string list"
  ml_text :: "string list"

definition stuff :: "string \<Rightarrow> string" where
  "stuff l = (if has_prefix l ''.'' then CHR ''.'' # l else l)"

definition mail_lines :: "mail \<Rightarrow> string list" where
  "mail_lines x =
     (''MAIL FROM:<'' @ ml_from x @ ''>'') # map (\<lambda>r. ''RCPT TO:<'' @ r @ ''>'') (ml_to x) @
     ''DATA'' # map stuff (ml_text x) @ [''.'']"

definition smtp_lines :: "string \<Rightarrow> mail list \<Rightarrow> string list" where
  "smtp_lines host xs = (''EHLO '' @ host) # concat (map mail_lines xs) @ [''QUIT'']"

definition smtp_session :: "string \<Rightarrow> mail list \<Rightarrow> string" where
  "smtp_session host xs = concat (map (\<lambda>l. l @ CRLF) (smtp_lines host xs))"

text \<open>A line without line breaks.\<close>

definition line_ok :: "string \<Rightarrow> bool" where
  "line_ok l \<longleftrightarrow> CHR 0x0A \<notin> set l \<and> CHR 0x0D \<notin> set l"

definition address_ok :: "string \<Rightarrow> bool" where
  "address_ok a \<longleftrightarrow> line_ok a \<and> CHR ''<'' \<notin> set a \<and> CHR ''>'' \<notin> set a"

definition smtp_good :: "mail \<Rightarrow> bool" where
  "smtp_good x \<longleftrightarrow> address_ok (ml_from x) \<and> list_all address_ok (ml_to x) \<and> list_all line_ok (ml_text x)"

text \<open>The text as the client has it, and as it is sent.\<close>

definition text_of :: "mail \<Rightarrow> string" where
  "text_of x = concat (map (\<lambda>l. l @ CRLF) (ml_text x))"

definition smtp_msg :: "mail \<Rightarrow> smtp_message" where
  "smtp_msg x = \<lparr>sm_From = ml_from x, sm_Recipients = ml_to x, sm_Data = concat (map (\<lambda>l. stuff l @ CRLF) (ml_text x))\<rparr>"

lemma smtp_loop_line:
  assumes "line_ok l"
  shows "smtp_loop st (l @ CRLF @ s) =
    (case smtp_line st l of (es, st', go_on) \<Rightarrow> es @ (if go_on then smtp_loop st' s else []))"
proof -
  have "trim_crlf (l @ CRLF) = l"
    using assms by (intro trim_crlf_CRLF) (metis last_in_set line_ok_def)
  with assms show ?thesis by (subst smtp_loop.simps) (simp add: line_ok_def)
qed

lemma extract_address:
  assumes "address_ok a" "CHR ''<'' \<notin> set p" "CHR ''>'' \<notin> set p"
  shows "extractAngleBracketAddr (p @ ''<'' @ a @ ''>'') = a"
proof -
  have "takeWhile (\<lambda>d. d \<noteq> CHR ''<'') (p @ ''<'' @ a @ ''>'') = p"
    using assms(2) by (subst takeWhile_append2) auto
  moreover have "takeWhile (\<lambda>d. d \<noteq> CHR ''>'') ((p @ ''<'' @ a) @ ''>'') = p @ ''<'' @ a"
    using assms by (subst takeWhile_append2) (auto simp: address_ok_def)
  ultimately show ?thesis by (simp add: extractAngleBracketAddr_def char_index_def)
qed

lemma smtp_mail_from:
  assumes "address_ok a" "\<not> st_inData st"
  shows "smtp_loop st ((''MAIL FROM:<'' @ a @ ''>'') @ CRLF @ s) =
    smtp_reply ''250 2.1.0 OK'' # smtp_loop (st\<lparr>st_msg := (st_msg st)\<lparr>sm_From := a\<rparr>\<rparr>) s"
proof -
  have "extractAngleBracketAddr (''MAIL FROM:<'' @ a @ ''>'') = a"
    using extract_address [OF assms(1), of "''MAIL FROM:''"] by simp
  then have "smtp_line st (''MAIL FROM:<'' @ a @ ''>'') =
      ([smtp_reply ''250 2.1.0 OK''], st\<lparr>st_msg := (st_msg st)\<lparr>sm_From := a\<rparr>\<rparr>, True)"
    using assms(2) by (simp add: smtp_line_def smtp_command_def to_upper_def upper_char_def has_prefix_def)
  moreover have "line_ok (''MAIL FROM:<'' @ a @ ''>'')" using assms(1) by (simp add: address_ok_def line_ok_def)
  ultimately show ?thesis by (subst smtp_loop_line) simp_all
qed

lemma smtp_rcpt_to:
  assumes "list_all address_ok rs" "\<not> st_inData st"
  shows "smtp_loop st (concat (map (\<lambda>l. l @ CRLF) (map (\<lambda>r. ''RCPT TO:<'' @ r @ ''>'') rs)) @ s) =
    map (\<lambda>_. smtp_reply ''250 2.1.5 OK'') rs @
    smtp_loop (st\<lparr>st_msg := (st_msg st)\<lparr>sm_Recipients := sm_Recipients (st_msg st) @ rs\<rparr>\<rparr>) s"
  using assms
proof (induction rs arbitrary: st)
  case (Cons r rs)
  let ?st = "st\<lparr>st_msg := (st_msg st)\<lparr>sm_Recipients := sm_Recipients (st_msg st) @ [r]\<rparr>\<rparr>"
  have "extractAngleBracketAddr (''RCPT TO:<'' @ r @ ''>'') = r"
    using extract_address [of r "''RCPT TO:''"] Cons.prems(1) by simp
  then have "smtp_line st (''RCPT TO:<'' @ r @ ''>'') = ([smtp_reply ''250 2.1.5 OK''], ?st, True)"
    using Cons.prems(2) by (simp add: Let_def smtp_line_def smtp_command_def to_upper_def upper_char_def has_prefix_def)
  moreover have "line_ok (''RCPT TO:<'' @ r @ ''>'')" using Cons.prems(1) by (simp add: address_ok_def line_ok_def)
  ultimately have "smtp_loop st ((''RCPT TO:<'' @ r @ ''>'') @ CRLF @ t) = smtp_reply ''250 2.1.5 OK'' # smtp_loop ?st t" for t
    by (subst smtp_loop_line) simp_all
  then show ?case using Cons.IH [of ?st] Cons.prems by simp
qed simp

lemma smtp_text_lines:
  assumes "list_all line_ok ls" "st_inData st"
  shows "smtp_loop st (concat (map (\<lambda>l. l @ CRLF) (map stuff ls)) @ s) =
    smtp_loop (st\<lparr>st_dataBuilder := st_dataBuilder st @ concat (map (\<lambda>l. stuff l @ CRLF) ls)\<rparr>) s"
  using assms
proof (induction ls arbitrary: st)
  case (Cons l ls)
  let ?st = "st\<lparr>st_dataBuilder := st_dataBuilder st @ stuff l @ CRLF\<rparr>"
  have "stuff l \<noteq> ''.''" by (cases l) (auto simp: stuff_def has_prefix_def)
  then have "smtp_line st (stuff l) = ([], ?st, True)"
    using Cons.prems(2) by (simp add: smtp_line_def smtp_data_line_def)
  moreover have "line_ok (stuff l)" using Cons.prems(1) by (simp add: stuff_def line_ok_def)
  ultimately have "smtp_loop st (stuff l @ CRLF @ t) = smtp_loop ?st t" for t
    by (subst smtp_loop_line) simp_all
  then show ?case using Cons.IH [of ?st] Cons.prems by simp
qed simp

definition mail_events :: "mail \<Rightarrow> (char, smtp_message) event list" where
  "mail_events x =
     smtp_reply ''250 2.1.0 OK'' # map (\<lambda>_. smtp_reply ''250 2.1.5 OK'') (ml_to x) @
     [smtp_reply ''354 Start mail input; end with <CRLF>.<CRLF>'', smtp_reply ''250 2.0.0 OK'', ESend (smtp_msg x)]"

lemma smtp_mail_captured:
  assumes "smtp_good x"
  shows "smtp_loop smtp_init (concat (map (\<lambda>l. l @ CRLF) (mail_lines x)) @ s) = mail_events x @ smtp_loop smtp_init s"
proof -
  note good = assms [unfolded smtp_good_def]
  have "smtp_loop st (''DATA'' @ CRLF @ t) =
      smtp_reply ''354 Start mail input; end with <CRLF>.<CRLF>'' # smtp_loop (st\<lparr>st_inData := True\<rparr>) t"
    if "\<not> st_inData st" for st t
    using that by (subst smtp_loop_line)
      (simp_all add: line_ok_def smtp_line_def smtp_command_def to_upper_def upper_char_def has_prefix_def)
  moreover have "smtp_loop st (''.'' @ CRLF @ t) =
      smtp_reply ''250 2.0.0 OK'' # ESend ((st_msg st)\<lparr>sm_Data := st_dataBuilder st\<rparr>) # smtp_loop smtp_init t"
    if "st_inData st" for st t
    using that by (subst smtp_loop_line) (simp_all add: line_ok_def smtp_line_def smtp_data_line_def)
  ultimately show ?thesis
    unfolding mail_lines_def mail_events_def
    using smtp_mail_from [of "ml_from x" smtp_init] smtp_rcpt_to [of "ml_to x"] smtp_text_lines [of "ml_text x"] good
    by (simp add: smtp_init_def smtp_msg_def smtp_no_message_def)
qed

lemma smtp_session_captured:
  assumes "list_all smtp_good xs" "line_ok host"
  shows "smtp_handleConnection (smtp_session host xs) =
    smtp_reply ''220 mock ESMTP ready'' #
    EWrite (''250-mock Hello'' @ CRLF @ ''250-AUTH PLAIN LOGIN'' @ CRLF @ ''250 OK'' @ CRLF) #
    concat (map mail_events xs) @ [smtp_reply ''221 2.0.0 Bye'']"
proof -
  let ?bytes = "\<lambda>ls. concat (map (\<lambda>l. l @ CRLF) ls)"
  have "smtp_loop st ((''EHLO '' @ host) @ CRLF @ t) =
      EWrite (''250-mock Hello'' @ CRLF @ ''250-AUTH PLAIN LOGIN'' @ CRLF @ ''250 OK'' @ CRLF) # smtp_loop st t"
    if "\<not> st_inData st" for st t
    using that assms(2) by (subst smtp_loop_line)
      (simp_all add: line_ok_def smtp_line_def smtp_command_def to_upper_def upper_char_def has_prefix_def)
  moreover have "smtp_loop smtp_init (?bytes (concat (map mail_lines xs)) @ t) =
      concat (map mail_events xs) @ smtp_loop smtp_init t" for t
    using assms(1) by (induction xs) (simp_all add: smtp_mail_captured)
  moreover have "smtp_loop smtp_init (''QUIT'' @ CRLF @ []) = [smtp_reply ''221 2.0.0 Bye'']"
    by (subst smtp_loop_line)
      (simp_all add: smtp_init_def line_ok_def smtp_line_def smtp_command_def to_upper_def upper_char_def has_prefix_def)
  ultimately show ?thesis
    by (simp add: smtp_handleConnection_def smtp_session_def smtp_lines_def smtp_init_def)
qed

interpretation smtp: capture_server smtp_handleConnection "smtp_session ''localhost''" smtp_msg smtp_good
proof
  fix xs assume "list_all smtp_good xs"
  then have events: "smtp_handleConnection (smtp_session ''localhost'' xs) =
      smtp_reply ''220 mock ESMTP ready'' #
      EWrite (''250-mock Hello'' @ CRLF @ ''250-AUTH PLAIN LOGIN'' @ CRLF @ ''250 OK'' @ CRLF) #
      concat (map mail_events xs) @ [smtp_reply ''221 2.0.0 Bye'']"
    by (rule smtp_session_captured) (simp add: line_ok_def)
  have mail: "sends (mail_events x) = [smtp_msg x]" for x
    using sends_map_EWrite [of "map (\<lambda>_. ''250 2.1.5 OK'' @ CRLF) (ml_to x)"]
    by (simp add: mail_events_def smtp_reply_def comp_def)
  show "sends (smtp_handleConnection (smtp_session ''localhost'' xs)) = map smtp_msg xs"
    unfolding events by (simp add: smtp_reply_def sends_concat mail comp_def)
  show "EPanic \<notin> set (smtp_handleConnection (smtp_session ''localhost'' xs))"
    unfolding events by (auto simp: mail_events_def smtp_reply_def)
qed

text \<open>What a test sees after a clean shutdown of the SMTP server.\<close>

lemma smtp_run_captures_all:
  assumes "smtp_startServer (smtp_session ''localhost'' ` {xs. list_all smtp_good xs}) s"
    and "sv_cleanup s = CleanedUp" "\<not> sv_held_at_close s"
  shows "\<exists>xss. list_all (list_all smtp_good) xss \<and> sv_inputs s = map (smtp_session ''localhost'') xss \<and>
    mset (captured s) = mset (map smtp_msg (concat xss)) \<and> (\<forall>xs\<in>set xss. subseq (map smtp_msg xs) (captured s)) \<and>
    \<not> sv_panicked s"
  using smtp.clean_run_captures_all assms unfolding smtp_startServer_def by blast

section \<open>Transparency\<close>

lemma stuffed_length: "length (concat (map (\<lambda>l. l @ CRLF) ls)) \<le> length (concat (map (\<lambda>l. stuff l @ CRLF) ls))"
  by (induction ls) (simp_all add: stuff_def)

lemma stuffed_text:
  "concat (map (\<lambda>l. stuff l @ CRLF) ls) = concat (map (\<lambda>l. l @ CRLF) ls) \<longleftrightarrow> list_all (\<lambda>l. \<not> has_prefix l ''.'') ls"
proof (induction ls)
  case (Cons l ls)
  show ?case
  proof (cases "has_prefix l ''.''")
    case True
    have "length (concat (map (\<lambda>l. l @ CRLF) (l # ls))) < length (concat (map (\<lambda>l. stuff l @ CRLF) (l # ls)))"
      using stuffed_length [of ls] True by (simp add: stuff_def)
    then have "concat (map (\<lambda>l. stuff l @ CRLF) (l # ls)) \<noteq> concat (map (\<lambda>l. l @ CRLF) (l # ls))"
      by (metis less_irrefl)
    with True show ?thesis by simp
  next
    case False
    then show ?thesis using Cons by (simp add: stuff_def)
  qed
qed simp

text \<open>
  C38. Captured mails. A session that sends mails is captured mail by mail, each with its sender and its recipients in order; the
  captured text is the text the client was given exactly for the mails of which no line starts with a
  dot, because the server does not remove the dots that the client doubled.
\<close>

theorem smtp_mail_text:
  assumes "list_all smtp_good xs"
  shows "list_all2 (\<lambda>m x. sm_From m = ml_from x \<and> sm_Recipients m = ml_to x \<and>
      (sm_Data m = text_of x \<longleftrightarrow> list_all (\<lambda>l. \<not> has_prefix l ''.'') (ml_text x)))
    (sends (smtp_handleConnection (smtp_session ''localhost'' xs))) xs"
  unfolding smtp.captures [OF assms]
  by (simp add: list_all2_map1 list.rel_refl smtp_msg_def text_of_def stuffed_text)

theorem smtp_mail_text_witness:
  "\<exists>m. sends (smtp_handleConnection (smtp_session ''localhost''
       [\<lparr>ml_from = ''a@b'', ml_to = [''c@d''], ml_text = [''.x'']\<rparr>])) = [m] \<and>
     sm_From m = ''a@b'' \<and> sm_Recipients m = [''c@d''] \<and> sm_Data m \<noteq> ''.x'' @ CRLF"
  using smtp_mail_text [of "[\<lparr>ml_from = ''a@b'', ml_to = [''c@d''], ml_text = [''.x'']\<rparr>]"]
  by (auto simp: smtp_good_def address_ok_def line_ok_def text_of_def has_prefix_def list_all2_Cons2)

text \<open>RSET answers with success and keeps the envelope of the transaction that it should drop.\<close>

lemma smtp_rset_keeps_envelope:
  assumes "\<not> st_inData st"
  shows "smtp_loop st (''RSET'' @ CRLF @ s) = smtp_reply ''250 OK'' # smtp_loop st s"
  using assms by (subst smtp_loop_line)
    (simp_all add: line_ok_def smtp_line_def smtp_command_def to_upper_def upper_char_def has_prefix_def)

end
