(* ===== verification/Request_Pipeline.thy ===== *)
theory Request_Pipeline
  imports Coverage_Mw Credentials
begin

text \<open>
  Middlewares in a chain. The contract \<open>middleware\<close> says which locals of the request a middleware reads and which it sets;
  a pair that satisfies it satisfies it as a chain, and two middlewares that do not touch each other's
  locals may be mounted in either order. Every middleware of the kit satisfies it; from that follows
  what the handlers behind the whole chain can rely on.
\<close>

section \<open>The contract\<close>

text \<open>Two requests that look the same to a middleware that reads the locals \<open>K\<close>.\<close>

definition same_view :: "string set \<Rightarrow> 'n fiber_ctx \<Rightarrow> 'n fiber_ctx \<Rightarrow> bool" where
  "same_view K c d \<longleftrightarrow> fc_header d = fc_header c \<and> fc_query d = fc_query c \<and> (\<forall>k\<in>K. get_local d k = get_local c k)"

text \<open>\<open>c.Next()\<close> runs the next middleware on the changed context.\<close>

definition and_then :: "('n fiber_ctx \<Rightarrow> 'n outcome) \<Rightarrow> ('n fiber_ctx \<Rightarrow> 'n outcome) \<Rightarrow> 'n fiber_ctx \<Rightarrow> 'n outcome" where
  "and_then mw1 mw2 c = (case mw1 c of Next c' \<Rightarrow> mw2 c' | Reply r \<Rightarrow> Reply r)"

lemma and_then_Next: "and_then mw1 mw2 c = Next c' \<longleftrightarrow> (\<exists>c1. mw1 c = Next c1 \<and> mw2 c1 = Next c')"
  by (simp add: and_then_def split: outcome.split)

locale middleware =
  fixes mw :: "'n fiber_ctx \<Rightarrow> 'n outcome"
    and reads :: "string set"
    and owned :: "string set"
  assumes keeps: "mw c = Next c' \<Longrightarrow> same_view (- owned) c c'"
    and depends: "same_view reads c d \<Longrightarrow> mw c = Next c' \<Longrightarrow>
      \<exists>d'. mw d = Next d' \<and> (\<forall>k\<in>owned. get_local d' k = get_local c' k)"
begin

text \<open>Whether a request passes depends only on what the middleware reads.\<close>

lemma passes_iff:
  assumes "same_view reads c d"
  shows "(\<exists>c'. mw c = Next c') \<longleftrightarrow> (\<exists>d'. mw d = Next d')"
proof -
  have "same_view reads d c" using assms by (simp add: same_view_def)
  then show ?thesis using depends assms by blast
qed

text \<open>A context that a middleware let through is seen unchanged by whoever reads other locals.\<close>

lemma untouched: "mw c = Next c' \<Longrightarrow> K \<inter> owned = {} \<Longrightarrow> same_view K c c'"
  using keeps [of c c'] by (auto simp: same_view_def)

end

locale middleware_pair = first: middleware mw1 reads1 owned1 + second: middleware mw2 reads2 owned2
  for mw1 mw2 :: "'n fiber_ctx \<Rightarrow> 'n outcome" and reads1 owned1 reads2 owned2

sublocale middleware_pair \<subseteq> pair: middleware "and_then mw1 mw2" "reads1 \<union> reads2" "owned1 \<union> owned2"
proof
  fix c c' :: "'n fiber_ctx"
  assume "and_then mw1 mw2 c = Next c'"
  then obtain c1 where "mw1 c = Next c1" "mw2 c1 = Next c'" by (auto simp: and_then_Next)
  then show "same_view (- (owned1 \<union> owned2)) c c'"
    using first.keeps [of c c1] second.keeps [of c1 c'] by (simp add: same_view_def)
next
  fix c d c' :: "'n fiber_ctx"
  assume view: "same_view (reads1 \<union> reads2) c d" and "and_then mw1 mw2 c = Next c'"
  then obtain c1 where c: "mw1 c = Next c1" "mw2 c1 = Next c'" by (auto simp: and_then_Next)
  have "same_view reads1 c d" using view by (simp add: same_view_def)
  then obtain d1 where d1: "mw1 d = Next d1" "\<forall>k\<in>owned1. get_local d1 k = get_local c1 k"
    using first.depends c(1) by blast
  have "same_view reads2 c1 d1"
    using view d1(2) first.keeps [OF c(1)] first.keeps [OF d1(1)] unfolding same_view_def by (metis ComplI UnI2)
  then obtain d' where d': "mw2 d1 = Next d'" "\<forall>k\<in>owned2. get_local d' k = get_local c' k"
    using second.depends c(2) by blast
  have "get_local d' k = get_local c' k" if "k \<in> owned1 \<union> owned2" for k
    using that d1(2) d'(2) second.keeps [OF c(2)] second.keeps [OF d'(1)] unfolding same_view_def by (metis ComplI UnE)
  with d1(1) d'(1) show "\<exists>d'. and_then mw1 mw2 d = Next d' \<and> (\<forall>k\<in>owned1 \<union> owned2. get_local d' k = get_local c' k)"
    by (auto simp: and_then_Next)
qed

locale independent_middlewares = middleware_pair +
  assumes disjoint: "owned1 \<inter> (reads2 \<union> owned2) = {}" "owned2 \<inter> reads1 = {}"
begin

lemma swap:
  assumes "and_then mw1 mw2 c = Next c'"
  shows "\<exists>d'. and_then mw2 mw1 c = Next d' \<and> same_view UNIV c' d'"
proof -
  obtain c1 where c: "mw1 c = Next c1" "mw2 c1 = Next c'" using assms by (auto simp: and_then_Next)
  have apart: "reads2 \<inter> owned1 = {}" "reads1 \<inter> owned2 = {}" "owned1 \<inter> owned2 = {}" using disjoint by blast+
  have "same_view reads2 c1 c" using first.untouched [OF c(1) apart(1)] by (simp add: same_view_def)
  then obtain d1 where d1: "mw2 c = Next d1" "\<forall>k\<in>owned2. get_local d1 k = get_local c' k"
    using second.depends c(2) by blast
  have "same_view reads1 c d1" by (rule second.untouched [OF d1(1) apart(2)])
  then obtain d' where d': "mw1 d1 = Next d'" "\<forall>k\<in>owned1. get_local d' k = get_local c1 k"
    using first.depends c(1) by blast
  have "get_local d' k = get_local c' k" for k
    using d1(2) d'(2) apart(3) first.keeps [OF c(1)] first.keeps [OF d'(1)] second.keeps [OF c(2)] second.keeps [OF d1(1)]
    unfolding same_view_def by (cases "k \<in> owned1"; cases "k \<in> owned2") auto
  then have "same_view UNIV c' d'"
    using first.keeps [OF c(1)] first.keeps [OF d'(1)] second.keeps [OF c(2)] second.keeps [OF d1(1)]
    by (simp add: same_view_def)
  with d1(1) d'(1) show ?thesis by (auto simp: and_then_Next)
qed

end

section \<open>The middlewares of the kit\<close>

lemma query_set_local [simp]: "fc_query (set_local c k v) = fc_query c"
  by (simp add: set_local_def)

lemma GetUserIdFromToken_view: "same_view {''user''} c d \<Longrightarrow> GetUserIdFromToken d = GetUserIdFromToken c"
  by (simp add: GetUserIdFromToken_def same_view_def)

lemma same_view_refl [simp]: "same_view K c c"
  by (simp add: same_view_def)

interpretation auth: middleware "AuthMiddleware parse5 parse4 jwks cfg" "{}" "{''user'', ''token''}"
  for parse5 parse4 jwks cfg
proof
  fix c c' :: "'a fiber_ctx"
  assume "AuthMiddleware parse5 parse4 jwks cfg c = Next c'"
  then show "same_view (- {''user'', ''token''}) c c'"
    by (auto simp: AuthMiddleware_def same_view_def Let_def split: if_splits option.splits prod.splits)
next
  fix c d c' :: "'a fiber_ctx"
  assume "same_view {} c d" "AuthMiddleware parse5 parse4 jwks cfg c = Next c'"
  then show "\<exists>d'. AuthMiddleware parse5 parse4 jwks cfg d = Next d' \<and> (\<forall>k\<in>{''user'', ''token''}. get_local d' k = get_local c' k)"
    by (auto simp: AuthMiddleware_def same_view_def Let_def split: if_splits option.splits prod.splits)
qed

interpretation api_key: middleware "ApiKeyAuthMiddleware key" "{}" "{}" for key
  by unfold_locales (auto simp: ApiKeyAuthMiddleware_def ValidateAPIKey_def same_view_def split: if_splits)

interpretation refresh_token: middleware RefreshTokenExtractor "{''refreshToken''}" "{''refreshToken''}"
  by unfold_locales (auto simp: RefreshTokenExtractor_def same_view_def Let_def split: if_splits)

interpretation permissions: middleware "RequirePermissions sc client req" "{''user''}" "{}" for sc client req
proof
  fix c c' :: "'a fiber_ctx"
  assume "RequirePermissions sc client req c = Next c'"
  then have "c' = c" using RequirePermissions_Next by blast
  then show "same_view (- {}) c c'" by simp
next
  fix c d c' :: "'a fiber_ctx"
  assume view: "same_view {''user''} c d" and pass: "RequirePermissions sc client req c = Next c'"
  have "check_required f req d = Next d" if "check_required f req c = Next c'" for f
    using that by (auto simp: check_required_def split: sum.splits if_splits)
  then have "RequirePermissions sc client req d = Next d"
    using pass view GetUserIdFromToken_view [OF view]
    by (auto simp: RequirePermissions_def same_view_def Let_def split: option.splits if_splits prod.splits sum.splits)
  then show "\<exists>d'. RequirePermissions sc client req d = Next d' \<and> (\<forall>k\<in>{}. get_local d' k = get_local c' k)" by simp
qed

interpretation request_context: middleware "InjectRequestContext sc client" "{''user''}" "{''requestContext''}" for sc client
proof
  fix c c' :: "'a fiber_ctx"
  assume "InjectRequestContext sc client c = Next c'"
  then show "same_view (- {''requestContext''}) c c'"
    by (auto simp: InjectRequestContext_def same_view_def Let_def split: option.splits prod.splits sum.splits if_splits)
next
  fix c d c' :: "'a fiber_ctx"
  assume view: "same_view {''user''} c d" and pass: "InjectRequestContext sc client c = Next c'"
  then show "\<exists>d'. InjectRequestContext sc client d = Next d' \<and> (\<forall>k\<in>{''requestContext''}. get_local d' k = get_local c' k)"
    using GetUserIdFromToken_view [OF view]
    by (auto simp: InjectRequestContext_def same_view_def Let_def split: option.splits prod.splits sum.splits if_splits)
qed

text \<open>The body of the request, and so what the extractor finds in it, is the same for every middleware.\<close>

interpretation org_hierarchy: middleware "ValidateOrgHierarchy (\<lambda>_. dto)" "{''requestContext''}" "{}" for dto
  by unfold_locales
    (auto simp: ValidateOrgHierarchy_def same_view_def Let_def split: option.splits sum.splits local_val.splits if_splits)

interpretation authorisation: independent_middlewares "RequirePermissions psc pclient req" "InjectRequestContext csc cclient"
  "{''user''}" "{}" "{''user''}" "{''requestContext''}" for psc pclient req csc cclient
  by unfold_locales simp_all

interpretation authorisation_rev: independent_middlewares "InjectRequestContext csc cclient" "RequirePermissions psc pclient req"
  "{''user''}" "{''requestContext''}" "{''user''}" "{}" for psc pclient req csc cclient
  by unfold_locales simp_all

section \<open>What the handlers rely on\<close>


lemma pipeline_user:
  assumes "AuthMiddleware parse5 parse4 jwks cfg c = Next c1" "and_then (RequirePermissions psc pclient req) (InjectRequestContext csc cclient) c1 = Next c'"
  shows "GetUserIdFromToken c' = GetUserIdFromToken c1" "fc_header c' = fc_header c" "fc_header c1 = fc_header c"
    "RequirePermissions psc pclient req c1 = Next c1" "InjectRequestContext csc cclient c1 = Next c'"
proof -
  have c2: "RequirePermissions psc pclient req c1 = Next c1" "InjectRequestContext csc cclient c1 = Next c'"
    using assms(2) RequirePermissions_Next [of psc pclient req c1] by (auto simp: and_then_Next)
  then show "RequirePermissions psc pclient req c1 = Next c1" "InjectRequestContext csc cclient c1 = Next c'" by blast+
  have "same_view {''user''} c1 c'" using request_context.untouched [OF c2(2), of "{''user''}"] by simp
  then show "GetUserIdFromToken c' = GetUserIdFromToken c1" by (rule GetUserIdFromToken_view)
  show "fc_header c1 = fc_header c" using auth.keeps [OF assms(1)] by (simp add: same_view_def)
  then show "fc_header c' = fc_header c" using request_context.keeps [OF c2(2)] by (simp add: same_view_def)
qed

text \<open>
  C2. The whole chain. A request that passes \<open>AuthMiddleware\<close> with strategy \<open>jwt\<close>, \<open>RequirePermissions\<close> and \<open>InjectRequestContext\<close> carries a
  token signed with the service's secret under its algorithm; the user its claims name is the user of
  the request context and the one the permissions were read for, and holds a permission that grants a
  required one for the organization of the header; the context is scoped to that organization, which is
  in the user's coverage, unless the header is missing and the user is ROOT.
\<close>

theorem request_pipeline_sound:
  assumes "jwt_sound parse5 alg_of sig_ok" "Strategy cfg = ''jwt''"
    and pass: "and_then (AuthMiddleware parse5 parse4 jwks cfg)
      (and_then (RequirePermissions psc pclient req) (InjectRequestContext csc cclient)) c = Next c'"
  defines "tok \<equiv> trim_prefix (fc_header c ''Authorization'') ''Bearer ''" and "org \<equiv> fc_header c ''X-Org-Context''"
  shows "alg_of tok = Algorithm cfg \<and> sig_ok (Secret cfg) tok \<and>
    (\<exists>parsed claims userId rc.
       parse5 tok (\<lambda>alg. if alg \<noteq> Algorithm cfg then None else Some (Secret cfg)) = Inr parsed \<and>
       tok_Claims parsed = Some claims \<and> map_of claims ''userId'' = Some (GStr userId) \<and> userId \<noteq> [] \<and>
       get_local c' ''requestContext'' = Some (LReqCtx rc) \<and> UserId rc = userId \<and> GetUserIdFromToken c' = Some userId \<and>
       (\<exists>t perms u r. fst (getUserPermissions psc pclient userId org t) = Inr perms \<and>
          u \<in> set perms \<and> r \<in> set req \<and> matchesPermission u r) \<and>
       (if org = [] then root_in_cache csc userId \<and> OrgContext rc = None
        else OrgContext rc = Some org \<and> (\<exists>o1 \<in> set (CoverageOrgs rc). OrgContextData rc = Some o1 \<and> co_ID o1 = org)))"
proof -
  obtain c1 where c1: "AuthMiddleware parse5 parse4 jwks cfg c = Next c1"
    "and_then (RequirePermissions psc pclient req) (InjectRequestContext csc cclient) c1 = Next c'"
    using pass by (auto simp: and_then_Next)
  note chain = pipeline_user [OF c1]
  obtain parsed claims where auth: "alg_of tok = Algorithm cfg" "sig_ok (Secret cfg) tok"
    "parse5 tok (\<lambda>alg. if alg \<noteq> Algorithm cfg then None else Some (Secret cfg)) = Inr parsed"
    "tok_Claims parsed = Some claims" "get_local c1 ''user'' = Some (LClaims claims)"
    using AuthMiddleware_jwt_sound [OF assms(1,2) c1(1)] unfolding tok_def by blast
  obtain userId t perms u r where perm: "GetUserIdFromToken c1 = Some userId"
    "fst (getUserPermissions psc pclient userId org t) = Inr perms" "u \<in> set perms" "r \<in> set req" "matchesPermission u r"
    using RequirePermissions_Next [OF chain(4)] unfolding org_def chain(3) by blast
  have claim: "map_of claims ''userId'' = Some (GStr userId)" "userId \<noteq> []"
    using perm(1) auth(5) by (auto simp: GetUserIdFromToken_def split: option.splits gval.splits if_splits)
  obtain rc where rc: "get_local c' ''requestContext'' = Some (LReqCtx rc)" "UserId rc = userId"
    "if org = [] then root_in_cache csc userId \<and> OrgContext rc = None
     else OrgContext rc = Some org \<and> (\<exists>o1 \<in> set (CoverageOrgs rc). OrgContextData rc = Some o1 \<and> co_ID o1 = org)"
  proof (rule InjectRequestContext_Next [OF chain(5)], unfold chain(3) org_def [symmetric])
    fix userId' access t org'
    assume "GetUserIdFromToken c1 = Some userId'"
      and none: "org = [] \<Longrightarrow> root_in_cache csc userId' \<and> c' = set_local c1 ''requestContext'' (LReqCtx \<lparr>ScopedOrgIds = [],
         CoverageOrgs = map coverage_org (Organizations access), OrgContext = None, OrgContextData = None, UserId = userId'\<rparr>)"
      and some: "org \<noteq> [] \<Longrightarrow> org \<in> set (AccessibleOrgIds access) \<and> org' \<in> set (map coverage_org (Organizations access)) \<and>
         co_ID org' = org \<and> c' = set_local c1 ''requestContext'' (LReqCtx \<lparr>ScopedOrgIds = AccessibleOrgIds access,
         CoverageOrgs = map coverage_org (Organizations access), OrgContext = Some org, OrgContextData = Some org', UserId = userId'\<rparr>)"
    then have "userId' = userId" using perm(1) by simp
    then show thesis using none some that by (cases "org = []") auto
  qed
  show ?thesis using auth(1-4) claim rc perm chain(1) by auto
qed

definition demo_pipeline_cache :: shared_cache where
  "demo_pipeline_cache = demo_coverage_cache\<lparr>sc_string := \<lambda>_ _. Inr ''7'', sc_perms := \<lambda>_ _. Inr [''user.*'']\<rparr>"

definition demo_request :: "nat fiber_ctx" where
  "demo_request = \<lparr>fc_header = (\<lambda>h. if h = ''Authorization'' then ''Bearer k1u1'' else if h = ''X-Org-Context'' then ''o1'' else []),
     fc_query = (\<lambda>_. []), fc_locals = []\<rparr>"

definition demo_auth_config :: AuthConfig where
  "demo_auth_config = \<lparr>Strategy = ''jwt'', Secret = ''k1'', JWKSURL = [], Algorithm = ''HS256'',
     RolesPath = [], RolesSource = [], RolesAPIURL = []\<rparr>"

lemma demo_pipeline_fetch: "getUserPermissions demo_pipeline_cache client user org t = (Inr [''user.*''], t + 2)"
proof -
  have "atoi ''7'' = Some 7" by code_simp
  then show ?thesis
    by (simp add: getUserPermissions_def getUserPermissionsWithVersioning_def demo_pipeline_cache_def
        maxRetries_def numeral_eq_Suc Let_def)
qed

lemma demo_pipeline_passes:
  "\<exists>c'. and_then (AuthMiddleware demo_parser demo_parser (\<lambda>_. Inl []) demo_auth_config)
     (and_then (RequirePermissions demo_pipeline_cache None [''user.read'']) (InjectRequestContext demo_pipeline_cache None))
     demo_request = Next c'"
proof -
  let ?c = "set_local (set_local demo_request ''user'' (LClaims [(''userId'', GStr ''u1'')])) ''token'' (LStr ''k1u1'')"
  have "AuthMiddleware demo_parser demo_parser (\<lambda>_. Inl []) demo_auth_config demo_request = Next ?c"
    by (simp add: AuthMiddleware_def demo_request_def demo_auth_config_def demo_parser_def ParseJWTTokenWithSecret_def
        checked_claims_def trim_prefix_def has_prefix_def Let_def)
  moreover have user: "GetUserIdFromToken ?c = Some ''u1''" by (simp add: GetUserIdFromToken_def)
  have "matchesPermission ''user.*'' ''user.read''" by code_simp
  then have "RequirePermissions demo_pipeline_cache None [''user.read''] ?c = Next ?c"
    by (simp add: RequirePermissions_def user demo_pipeline_fetch check_required_cases Let_def) (simp add: demo_request_def)
  moreover have "\<exists>c'. InjectRequestContext demo_pipeline_cache None ?c = Next c'"
    by (simp add: InjectRequestContext_def user getCoverageWithLazyBuild_def demo_pipeline_cache_def
        demo_coverage_cache_def ValidateOrgContext_def FindOrgInCoverage_def coverage_org_def Let_def)
      (simp add: demo_request_def)
  ultimately show ?thesis by (simp add: and_then_Next)
qed

theorem request_pipeline_sound_witness:
  "\<exists>c' rc. and_then (AuthMiddleware demo_parser demo_parser (\<lambda>_. Inl []) demo_auth_config)
     (and_then (RequirePermissions demo_pipeline_cache None [''user.read'']) (InjectRequestContext demo_pipeline_cache None))
     demo_request = Next c' \<and> get_local c' ''requestContext'' = Some (LReqCtx rc) \<and> OrgContext rc = Some ''o1''"
proof -
  have "jwt_sound demo_parser (\<lambda>_. ''HS256'') (\<lambda>key t. take 2 t = key)"
    by (auto simp: jwt_sound_def demo_parser_def split: if_splits)
  moreover obtain c' where c': "and_then (AuthMiddleware demo_parser demo_parser (\<lambda>_. Inl []) demo_auth_config)
     (and_then (RequirePermissions demo_pipeline_cache None [''user.read'']) (InjectRequestContext demo_pipeline_cache None))
     demo_request = Next c'" using demo_pipeline_passes by blast
  moreover have "Strategy demo_auth_config = ''jwt''" by (simp add: demo_auth_config_def)
  moreover have "fc_header demo_request ''X-Org-Context'' = ''o1''" by (simp add: demo_request_def)
  ultimately obtain rc where "get_local c' ''requestContext'' = Some (LReqCtx rc)" "OrgContext rc = Some ''o1''"
    using request_pipeline_sound [of demo_parser "\<lambda>_. ''HS256''" "\<lambda>key t. take 2 t = key" demo_auth_config] by fastforce
  with c' show ?thesis by blast
qed

end
