(* ===== verification/Service_Support.thy ===== *)
theory Service_Support
  imports Kit_Prelude
begin

text \<open>
  What every service sets up first: the logger (\<open>microservices/logger\<close>), the metrics registry (\<open>microservices/metrics\<close>), the container
  and the lifecycle hooks (\<open>microservices/container\<close>, \<open>microservices/common\<close>), request deadlines (\<open>contextInjector\<close>,
  \<open>resquestTimeout\<close>), and the helpers for passwords, JSON text and times (\<open>utils/bcrypt\<close>, \<open>utils/serialize\<close>, \<open>utils/time\<close>).
  zerolog, Prometheus, dig, bcrypt and Fiber's timeout handler are parameters.
\<close>

section \<open>logger\<close>

type_synonym log_level = int

definition TraceLevel :: log_level where "TraceLevel = -1"
definition DebugLevel :: log_level where "DebugLevel = 0"
definition InfoLevel :: log_level where "InfoLevel = 1"
definition WarnLevel :: log_level where "WarnLevel = 2"
definition ErrorLevel :: log_level where "ErrorLevel = 3"
definition FatalLevel :: log_level where "FatalLevel = 4"
definition PanicLevel :: log_level where "PanicLevel = 5"
definition DisabledLevel :: log_level where "DisabledLevel = 7"

record LoggerOptions =
  lo_ServiceName :: string
  lo_ServiceVersion :: string
  lo_Environment :: string
  lo_Level :: log_level

record 'v log_line =
  ll_level :: log_level
  ll_fields :: "(string \<times> 'v) list"
  ll_msg :: string

text \<open>The package's variable \<open>instance\<close>, unset before \<open>InitLogger\<close>, and the lines written.\<close>

record 'v log_state =
  ls_instance :: "LoggerOptions option"
  ls_lines :: "'v log_line list"

text \<open>\<open>enabled\<close> is zerolog's test whether an event of a level is written by a logger.\<close>

type_synonym enabled = "LoggerOptions option \<Rightarrow> log_level \<Rightarrow> bool"

definition toZerologLevel :: "log_level \<Rightarrow> log_level" where
  "toZerologLevel level = level"

definition InitLogger :: "LoggerOptions \<Rightarrow> 'v log_state \<Rightarrow> LoggerOptions \<times> 'v log_state" where
  "InitLogger options st =
     (case ls_instance st of
        None \<Rightarrow> let inst = options\<lparr>lo_Level := toZerologLevel (lo_Level options)\<rparr> in (inst, st\<lparr>ls_instance := Some inst\<rparr>)
      | Some inst \<Rightarrow> (inst, st))"

definition emit :: "enabled \<Rightarrow> log_level \<Rightarrow> (string \<times> 'v) list \<Rightarrow> string \<Rightarrow> 'v log_state \<Rightarrow> 'v log_state" where
  "emit on level fs msg st =
     (if on (ls_instance st) level
      then st\<lparr>ls_lines := ls_lines st @ [\<lparr>ll_level = level, ll_fields = fs, ll_msg = msg\<rparr>]\<rparr> else st)"

text \<open>The left side is the value of a panic.\<close>

definition Log :: "enabled \<Rightarrow> log_level \<Rightarrow> string \<Rightarrow> (string \<times> 'v) list \<Rightarrow> 'v log_state \<Rightarrow> string + 'v log_state" where
  "Log on level msg fs st =
     (if msg = [] then Inl ''logger: message cannot be empty'' else Inr (emit on level fs msg st))"

definition Info :: "enabled \<Rightarrow> string \<Rightarrow> (string \<times> 'v) list \<Rightarrow> 'v log_state \<Rightarrow> string + 'v log_state" where
  "Info on msg fs = Log on InfoLevel msg fs"

definition Debug :: "enabled \<Rightarrow> string \<Rightarrow> (string \<times> 'v) list \<Rightarrow> 'v log_state \<Rightarrow> string + 'v log_state" where
  "Debug on msg fs = Log on DebugLevel msg fs"

definition Warn :: "enabled \<Rightarrow> string \<Rightarrow> (string \<times> 'v) list \<Rightarrow> 'v log_state \<Rightarrow> string + 'v log_state" where
  "Warn on msg fs = Log on WarnLevel msg fs"

text \<open>\<open>Err\<close> adds the field \<open>error\<close> unless the error is nil; \<open>val\<close> is the value of that field.\<close>

definition Error_log :: "enabled \<Rightarrow> (string \<Rightarrow> 'v) \<Rightarrow> string option \<Rightarrow> string \<Rightarrow> (string \<times> 'v) list \<Rightarrow> 'v log_state \<Rightarrow> string + 'v log_state" where
  "Error_log on val err msg fs st =
     (let err_field = (case err of None \<Rightarrow> [] | Some e \<Rightarrow> [(''error'', val e)]) in
      if msg = [] then
        (case err of
           None \<Rightarrow> Inl ''invalid memory address or nil pointer dereference''
         | Some e \<Rightarrow> Inr (emit on ErrorLevel (err_field @ fs) e st))
      else Inr (emit on ErrorLevel (err_field @ fs) msg st))"

definition Panic :: "string \<Rightarrow> (string \<times> 'v) list \<Rightarrow> 'v log_state \<Rightarrow> string + 'v log_state" where
  "Panic msg fs st = Inl (CHR 0x1B # ''[31m'' @ msg @ CHR 0x1B # ''[0m'')"

text \<open>The first options win, however often the logger is initialised.\<close>

lemma InitLogger_once:
  "snd (InitLogger o2 (snd (InitLogger o1 st))) = snd (InitLogger o1 st)"
  "fst (InitLogger o2 (snd (InitLogger o1 st))) = fst (InitLogger o1 st)"
  by (simp_all add: InitLogger_def Let_def split: option.split)

text \<open>Logging appends at most one line and fails exactly for an empty message; \<open>Error\<close> fails only when there is neither
  a message nor an error; \<open>Panic\<close> writes no line.\<close>

lemma Log_fails_iff: "(\<exists>p. Log on level msg fs st = Inl p) \<longleftrightarrow> msg = []"
  by (simp add: Log_def)

lemma Error_log_fails_iff: "(\<exists>p. Error_log on val err msg fs st = Inl p) \<longleftrightarrow> msg = [] \<and> err = None"
  by (simp add: Error_log_def Let_def split: option.split)

lemma Log_appends: "Log on level msg fs st = Inr st' \<Longrightarrow> \<exists>ls. ls_lines st' = ls_lines st @ ls \<and> length ls \<le> 1 \<and> ls_instance st' = ls_instance st"
  by (auto simp: Log_def emit_def split: if_splits)

section \<open>lifecycle and container\<close>

text \<open>A service is its \<open>OnMount\<close>, if it has one.\<close>

definition RunLifecycleHooks :: "enabled \<Rightarrow> ('v log_state \<Rightarrow> 'v log_state) option \<Rightarrow> string \<Rightarrow> 'v log_state \<Rightarrow> string + 'v log_state" where
  "RunLifecycleHooks on service moduleName st =
     (case service of
        None \<Rightarrow> Inr st
      | Some OnMount \<Rightarrow>
          (case Info on (''[MODULE:'' @ moduleName @ ''] Running OnMount lifecycle hook'') [] st of
             Inl p \<Rightarrow> Inl p
           | Inr st1 \<Rightarrow> Inr (OnMount st1)))"

definition InitContainer :: "'c \<Rightarrow> 'c option \<Rightarrow> 'c \<times> 'c option" where
  "InitContainer fresh inst = (case inst of None \<Rightarrow> (fresh, Some fresh) | Some c \<Rightarrow> (c, Some c))"

lemma RunLifecycleHooks_returns: "\<exists>st'. RunLifecycleHooks on service moduleName st = Inr st'"
  by (auto simp: RunLifecycleHooks_def Info_def Log_def split: option.split)

lemma InitContainer_singleton: "fst (InitContainer b (snd (InitContainer a inst))) = fst (InitContainer a inst)"
  by (simp add: InitContainer_def split: option.split)

section \<open>metrics\<close>

record CounterOpts =
  mo_Subsystem :: string
  mo_Name :: string
  mo_Help :: string

type_synonym GaugeOpts = CounterOpts

record 'f HistogramOpts = CounterOpts +
  mo_Buckets :: "'f list"

datatype metric_kind = MCounter | MHistogram | MGauge

text \<open>The options handed to Prometheus; \<open>me_labels\<close> is unset for a metric without labels.\<close>

record 'f metric =
  me_kind :: metric_kind
  me_Namespace :: string
  me_Subsystem :: string
  me_Name :: string
  me_Help :: string
  me_Buckets :: "'f list"
  me_labels :: "string list option"

datatype 'f collector = CMetric "'f metric" | GoCollector | ProcessCollector

text \<open>\<open>register\<close> is \<open>MustRegister\<close> of the library, whose value \<open>None\<close> is a panic.\<close>

record ('f, 'r) prometheus =
  pr_new :: 'r
  pr_register :: "'f collector \<Rightarrow> 'r \<Rightarrow> 'r option"
  pr_serve :: "'r \<Rightarrow> string"

record 'r Registry =
  re_namespace :: string
  re_registry :: 'r

definition NewRegistry :: "('f, 'r) prometheus \<Rightarrow> string \<Rightarrow> 'r Registry" where
  "NewRegistry L namespace = \<lparr>re_namespace = namespace, re_registry = pr_new L\<rparr>"

definition must_register :: "('f, 'r) prometheus \<Rightarrow> 'f collector \<Rightarrow> 'r Registry \<Rightarrow> 'r Registry option" where
  "must_register L m r = map_option (\<lambda>reg. r\<lparr>re_registry := reg\<rparr>) (pr_register L m (re_registry r))"

definition create :: "('f, 'r) prometheus \<Rightarrow> 'f metric \<Rightarrow> 'r Registry \<Rightarrow> ('f metric \<times> 'r Registry) option" where
  "create L m r = map_option (\<lambda>r'. (m, r')) (must_register L (CMetric m) r)"

definition NewCounterVec :: "('f, 'r) prometheus \<Rightarrow> CounterOpts \<Rightarrow> string list \<Rightarrow> 'r Registry \<Rightarrow> ('f metric \<times> 'r Registry) option" where
  "NewCounterVec L opts labels r =
     create L \<lparr>me_kind = MCounter, me_Namespace = re_namespace r, me_Subsystem = mo_Subsystem opts, me_Name = mo_Name opts,
       me_Help = mo_Help opts, me_Buckets = [], me_labels = Some labels\<rparr> r"

definition NewCounter :: "('f, 'r) prometheus \<Rightarrow> CounterOpts \<Rightarrow> 'r Registry \<Rightarrow> ('f metric \<times> 'r Registry) option" where
  "NewCounter L opts r =
     create L \<lparr>me_kind = MCounter, me_Namespace = re_namespace r, me_Subsystem = mo_Subsystem opts, me_Name = mo_Name opts,
       me_Help = mo_Help opts, me_Buckets = [], me_labels = None\<rparr> r"

definition NewHistogramVec :: "('f, 'r) prometheus \<Rightarrow> 'f HistogramOpts \<Rightarrow> string list \<Rightarrow> 'r Registry \<Rightarrow> ('f metric \<times> 'r Registry) option" where
  "NewHistogramVec L opts labels r =
     create L \<lparr>me_kind = MHistogram, me_Namespace = re_namespace r, me_Subsystem = mo_Subsystem opts, me_Name = mo_Name opts,
       me_Help = mo_Help opts, me_Buckets = mo_Buckets opts, me_labels = Some labels\<rparr> r"

definition NewHistogram :: "('f, 'r) prometheus \<Rightarrow> 'f HistogramOpts \<Rightarrow> 'r Registry \<Rightarrow> ('f metric \<times> 'r Registry) option" where
  "NewHistogram L opts r =
     create L \<lparr>me_kind = MHistogram, me_Namespace = re_namespace r, me_Subsystem = mo_Subsystem opts, me_Name = mo_Name opts,
       me_Help = mo_Help opts, me_Buckets = mo_Buckets opts, me_labels = None\<rparr> r"

definition NewGauge :: "('f, 'r) prometheus \<Rightarrow> GaugeOpts \<Rightarrow> 'r Registry \<Rightarrow> ('f metric \<times> 'r Registry) option" where
  "NewGauge L opts r =
     create L \<lparr>me_kind = MGauge, me_Namespace = re_namespace r, me_Subsystem = mo_Subsystem opts, me_Name = mo_Name opts,
       me_Help = mo_Help opts, me_Buckets = [], me_labels = None\<rparr> r"

definition NewGaugeVec :: "('f, 'r) prometheus \<Rightarrow> GaugeOpts \<Rightarrow> string list \<Rightarrow> 'r Registry \<Rightarrow> ('f metric \<times> 'r Registry) option" where
  "NewGaugeVec L opts labels r =
     create L \<lparr>me_kind = MGauge, me_Namespace = re_namespace r, me_Subsystem = mo_Subsystem opts, me_Name = mo_Name opts,
       me_Help = mo_Help opts, me_Buckets = [], me_labels = Some labels\<rparr> r"

definition EnableGoCollector :: "('f, 'r) prometheus \<Rightarrow> 'r Registry \<Rightarrow> 'r Registry option" where
  "EnableGoCollector L r = must_register L GoCollector r"

definition EnableProcessCollector :: "('f, 'r) prometheus \<Rightarrow> 'r Registry \<Rightarrow> 'r Registry option" where
  "EnableProcessCollector L r = must_register L ProcessCollector r"

definition metrics_Handler :: "('f, 'r) prometheus \<Rightarrow> 'r Registry \<Rightarrow> string" where
  "metrics_Handler L r = pr_serve L (re_registry r)"

text \<open>The routes of the application, as method, path and handler.\<close>

definition RegisterEndpoint :: "('f, 'r) prometheus \<Rightarrow> 'r Registry \<Rightarrow> (string \<times> string \<times> string) list \<Rightarrow> (string \<times> string \<times> string) list" where
  "RegisterEndpoint L r app = app @ [(''GET'', ''/metrics'', metrics_Handler L r)]"

text \<open>The full name of a metric joins its non-empty parts with underscores. The registry keeps what was registered and
  refuses a name it already has.\<close>

definition full_name :: "'f metric \<Rightarrow> string" where
  "full_name m = go_join ''_'' (filter (\<lambda>p. p \<noteq> []) [me_Namespace m, me_Subsystem m, me_Name m])"

definition prometheus_laws :: "('f, 'r) prometheus \<Rightarrow> ('r \<Rightarrow> 'f collector list) \<Rightarrow> bool" where
  "prometheus_laws L contents \<longleftrightarrow> contents (pr_new L) = [] \<and>
     (\<forall>m r r'. pr_register L m r = Some r' \<longrightarrow> contents r' = contents r @ [m]) \<and>
     (\<forall>m r r' k. pr_register L (CMetric m) r = Some r' \<longrightarrow> CMetric k \<in> set (contents r) \<longrightarrow> full_name k \<noteq> full_name m)"

lemma prometheus_laws_hold:
  "prometheus_laws \<lparr>pr_new = [], pr_register = (\<lambda>c cs. case c of
       CMetric m \<Rightarrow> if list_ex (\<lambda>d. case d of CMetric k \<Rightarrow> full_name k = full_name m | _ \<Rightarrow> False) cs then None else Some (cs @ [c])
     | _ \<Rightarrow> Some (cs @ [c])), pr_serve = (\<lambda>_. [])\<rparr> id"
  by (auto simp: prometheus_laws_def list_ex_iff split: collector.splits if_splits)

text \<open>What holds of a registry: its metrics carry the namespace of the service, and no two have the same name.\<close>

fun metrics_of :: "'f collector list \<Rightarrow> 'f metric list" where
  "metrics_of [] = []"
| "metrics_of (CMetric m # cs) = m # metrics_of cs"
| "metrics_of (_ # cs) = metrics_of cs"

lemma metrics_of_append: "metrics_of (cs @ ds) = metrics_of cs @ metrics_of ds"
  by (induction cs rule: metrics_of.induct) simp_all

lemma in_metrics_of: "m \<in> set (metrics_of cs) \<longleftrightarrow> CMetric m \<in> set cs"
  by (induction cs rule: metrics_of.induct) auto

definition registry_inv :: "('r \<Rightarrow> 'f collector list) \<Rightarrow> 'r Registry \<Rightarrow> bool" where
  "registry_inv contents r \<longleftrightarrow>
     (let ms = metrics_of (contents (re_registry r))
      in list_all (\<lambda>m. me_Namespace m = re_namespace r) ms \<and> distinct (map full_name ms))"

definition registered :: "('r \<Rightarrow> 'f collector list) \<Rightarrow> 'r Registry \<Rightarrow> ('f metric \<times> 'r Registry) option \<Rightarrow> bool" where
  "registered contents r result \<longleftrightarrow>
     (case result of
        None \<Rightarrow> True
      | Some (m, r') \<Rightarrow> registry_inv contents r' \<and> re_namespace r' = re_namespace r \<and>
          metrics_of (contents (re_registry r')) = metrics_of (contents (re_registry r)) @ [m])"

lemma create_registered:
  assumes "prometheus_laws L contents" "registry_inv contents r" "me_Namespace m = re_namespace r"
  shows "registered contents r (create L m r)"
proof (cases "pr_register L (CMetric m) (re_registry r)")
  case (Some reg)
  have "contents reg = contents (re_registry r) @ [CMetric m]" using assms(1) Some by (simp add: prometheus_laws_def)
  then have ms: "metrics_of (contents reg) = metrics_of (contents (re_registry r)) @ [m]" by (simp add: metrics_of_append)
  have "full_name k \<noteq> full_name m" if "k \<in> set (metrics_of (contents (re_registry r)))" for k
    using assms(1) Some that unfolding prometheus_laws_def in_metrics_of by blast
  then have "full_name m \<notin> full_name ` set (metrics_of (contents (re_registry r)))" by force
  with assms(2,3) ms Some show ?thesis
    by (simp add: registered_def create_def must_register_def registry_inv_def Let_def)
qed (simp add: registered_def create_def must_register_def)

lemma registry_constructors:
  assumes "prometheus_laws L contents" "registry_inv contents r"
  shows "registered contents r (NewCounterVec L co labels r)" "registered contents r (NewCounter L co r)"
    "registered contents r (NewHistogramVec L ho labels r)" "registered contents r (NewHistogram L ho r)"
    "registered contents r (NewGauge L co r)" "registered contents r (NewGaugeVec L co labels r)"
  unfolding NewCounterVec_def NewCounter_def NewHistogramVec_def NewHistogram_def NewGauge_def NewGaugeVec_def
  by (rule create_registered [OF assms], simp)+

section \<open>Request deadlines\<close>

text \<open>\<open>time.Duration(seconds) * time.Second\<close> in 64 bits; \<open>context.WithTimeout\<close> keeps an earlier deadline of the parent. Times are
  nanoseconds on the clock.\<close>

definition seconds_duration :: "int \<Rightarrow> int" where
  "seconds_duration seconds = wrap64 (wrap64 seconds * 1000000000)"

definition WithTimeout :: "int \<Rightarrow> int option \<Rightarrow> int \<Rightarrow> int option" where
  "WithTimeout now parent d = (case parent of None \<Rightarrow> Some (now + d) | Some p \<Rightarrow> Some (min p (now + d)))"

text \<open>The deadline of the user context with which the next handlers run, and what they answer.\<close>

definition ContextInjector :: "int \<Rightarrow> int \<Rightarrow> int option \<Rightarrow> (int option \<Rightarrow> 'a) \<Rightarrow> 'a" where
  "ContextInjector seconds now userContext c_Next = c_Next (WithTimeout now userContext (seconds_duration seconds))"

text \<open>\<open>NewWithContext\<close> is Fiber's timeout handler: a handler and a duration give a handler.\<close>

definition TimeoutMiddlewareFactory :: "(('c \<Rightarrow> 'a) \<Rightarrow> int \<Rightarrow> 'c \<Rightarrow> 'a) \<Rightarrow> int \<Rightarrow> ('c \<Rightarrow> 'a) \<Rightarrow> 'c \<Rightarrow> 'a" where
  "TimeoutMiddlewareFactory NewWithContext seconds c_Next c = NewWithContext (\<lambda>cc. c_Next cc) (seconds_duration seconds) c"

text \<open>
  Deadlines. Up to 9223372036 seconds the handlers behind \<open>ContextInjector\<close> run with a deadline that many seconds after the request
  arrived, or an earlier one of the server; the handler's answer is returned whenever it comes. One more
  second wraps the duration around, and the context has expired before the handlers run.
\<close>

theorem ContextInjector_deadline:
  assumes "0 \<le> seconds" "seconds \<le> 9223372036"
  shows "ContextInjector seconds now parent h = h (Some (case parent of None \<Rightarrow> now + seconds * 1000000000
      | Some p \<Rightarrow> min p (now + seconds * 1000000000))) \<and>
    (\<exists>deadline. ContextInjector 9223372037 now parent h = h (Some deadline) \<and> deadline < now)"
proof -
  have id: "wrap64 x = x" if "0 \<le> x" "x \<le> 9223372036854775807" for x
    using that by (intro wrap64_id) simp_all
  have "seconds_duration seconds = seconds * 1000000000"
    unfolding seconds_duration_def using assms by (simp add: id)
  moreover have "wrap64 9223372037 = 9223372037" by (rule id) simp_all
  then have "seconds_duration 9223372037 < 0" by (simp add: seconds_duration_def wrap64_def)
  ultimately show ?thesis by (auto simp: ContextInjector_def WithTimeout_def split: option.split)
qed

theorem ContextInjector_deadline_witness:
  "ContextInjector 30 100 (Some 5) id = Some 5 \<and> (\<exists>deadline. ContextInjector 9223372037 100 (Some 5) id = Some deadline \<and> deadline < 100)"
  using ContextInjector_deadline [of 30 100 "Some 5" id] by simp

section \<open>Passwords and JSON text\<close>

text \<open>\<open>generate\<close> and \<open>compare\<close> are bcrypt's, with its default cost.\<close>

definition HashPassword :: "(string \<Rightarrow> int \<Rightarrow> string + string) \<Rightarrow> int \<Rightarrow> string \<Rightarrow> string \<times> string option" where
  "HashPassword generate DefaultCost password =
     (case generate password DefaultCost of Inl err \<Rightarrow> ([], Some err) | Inr hashed \<Rightarrow> (hashed, None))"

definition CheckPassword :: "(string \<Rightarrow> string \<Rightarrow> string option) \<Rightarrow> string \<Rightarrow> string \<Rightarrow> bool" where
  "CheckPassword compare_hash hashedPassword plainPassword = (compare_hash hashedPassword plainPassword = None)"

text \<open>A hash that bcrypt made is accepted for its password; a password of more than 72 bytes is refused.\<close>

definition bcrypt_laws :: "(string \<Rightarrow> int \<Rightarrow> string + string) \<Rightarrow> (string \<Rightarrow> string \<Rightarrow> string option) \<Rightarrow> bool" where
  "bcrypt_laws generate compare_hash \<longleftrightarrow>
     (\<forall>p cost h. generate p cost = Inr h \<longrightarrow> compare_hash h p = None) \<and> (\<forall>p cost. length p > 72 \<longrightarrow> isl (generate p cost))"

lemma bcrypt_laws_hold: "bcrypt_laws (\<lambda>p cost. if length p > 72 then Inl ''too long'' else Inr p) (\<lambda>h p. if h = p then None else Some ''mismatch'')"
  by (auto simp: bcrypt_laws_def split: if_splits)

lemma HashPassword_checks:
  assumes "bcrypt_laws generate compare_hash" "HashPassword generate cost password = (hashed, None)"
  shows "CheckPassword compare_hash hashed password \<and> length password \<le> 72"
proof -
  have h: "generate password cost = Inr hashed"
    using assms(2) by (simp add: HashPassword_def split: sum.splits)
  then have "\<not> length password > 72" using assms(1) unfolding bcrypt_laws_def by (metis sum.disc(2))
  with h assms(1) show ?thesis by (auto simp: CheckPassword_def bcrypt_laws_def)
qed

text \<open>\<open>encode\<close> and \<open>decode\<close> are those of \<open>encoding/json\<close>; the error of \<open>Marshal\<close> is the package's own.\<close>

definition ErrMarshal_serialize :: string where
  "ErrMarshal_serialize = ''failed to marshal data''"

definition Marshal :: "('v \<Rightarrow> string + string) \<Rightarrow> 'v \<Rightarrow> string \<times> string option" where
  "Marshal encode v = (case encode v of Inl err \<Rightarrow> ([], Some ErrMarshal_serialize) | Inr bytes \<Rightarrow> (bytes, None))"

definition Unmarshal :: "(string \<Rightarrow> 'v \<Rightarrow> 'v \<times> string option) \<Rightarrow> string \<Rightarrow> 'v \<Rightarrow> 'v \<times> string option" where
  "Unmarshal decode data v = decode data v"

lemma Marshal_Unmarshal:
  assumes "\<forall>v bytes w. encode v = Inr bytes \<longrightarrow> decode bytes w = (v, None)" "Marshal encode v = (text, None)"
  shows "Unmarshal decode text w = (v, None)"
  using assms by (auto simp: Marshal_def Unmarshal_def split: sum.splits)

end
