(* ===== verification/Time_Format.thy ===== *)
theory Time_Format
  imports Kit_Prelude
begin

text \<open>
  Times as text (\<open>utils/time/time.go\<close>): the layout with milliseconds that MongoDB uses. A time is given by its calendar fields
  in UTC, as \<open>time.Time.UTC\<close> and the accessors of package \<open>time\<close> give them. Within the years 0 to 9999 the text has a
  fixed width and sorts as the times do.
\<close>

section \<open>time.go\<close>

record utc_time =
  ut_Year :: int
  ut_Month :: nat
  ut_Day :: nat
  ut_Hour :: nat
  ut_Minute :: nat
  ut_Second :: nat
  ut_Nanosecond :: nat

text \<open>The zero time is the first instant of the year 1.\<close>

definition IsZero :: "utc_time \<Rightarrow> bool" where
  "IsZero t \<longleftrightarrow> t = \<lparr>ut_Year = 1, ut_Month = 1, ut_Day = 1, ut_Hour = 0, ut_Minute = 0, ut_Second = 0, ut_Nanosecond = 0\<rparr>"

text \<open>Decimal digits, padded with zeros to a width, as \<open>time.Format\<close> writes them; the sign of a negative year precedes
  the padding.\<close>

definition pad :: "nat \<Rightarrow> nat \<Rightarrow> string" where
  "pad width n = replicate (width - length (show_nat n)) (CHR ''0'') @ show_nat n"

definition pad_year :: "int \<Rightarrow> string" where
  "pad_year y = (if y < 0 then CHR ''-'' # pad 4 (nat (- y)) else pad 4 (nat y))"

text \<open>The layout \<open>2006-01-02T15:04:05.000Z07:00\<close>: milliseconds are cut, and the zone of a UTC time is written \<open>Z\<close>.\<close>

definition RFC3339Milli :: "utc_time \<Rightarrow> string" where
  "RFC3339Milli t =
     pad_year (ut_Year t) @ ''-'' @ pad 2 (ut_Month t) @ ''-'' @ pad 2 (ut_Day t) @ ''T'' @ pad 2 (ut_Hour t) @ '':'' @
     pad 2 (ut_Minute t) @ '':'' @ pad 2 (ut_Second t) @ ''.'' @ pad 3 (ut_Nanosecond t div 1000000) @ ''Z''"

definition ToRFC3339Milli :: "utc_time \<Rightarrow> string option" where
  "ToRFC3339Milli t = (if IsZero t then None else Some (RFC3339Milli t))"

definition NullTime_MarshalJSON :: "utc_time \<Rightarrow> string" where
  "NullTime_MarshalJSON nt = (if IsZero nt then ''null'' else CHR 0x22 # RFC3339Milli nt @ [CHR 0x22])"

section \<open>Order\<close>

text \<open>Digits of a fixed width.\<close>

primrec fixed :: "nat \<Rightarrow> nat \<Rightarrow> string" where
  "fixed 0 n = []"
| "fixed (Suc w) n = fixed w (n div 10) @ [dec_char (n mod 10)]"

lemma length_fixed [simp]: "length (fixed w n) = w"
  by (induction w arbitrary: n) simp_all

lemma dec_char_0: "dec_char 0 = CHR ''0''"
  by code_simp

lemma dec_char_less: "a < 10 \<Longrightarrow> b < 10 \<Longrightarrow> dec_char a < dec_char b \<longleftrightarrow> a < b"
  by (simp add: dec_char_def less_char_def)

lemma less_append_fixed:
  fixes s t :: string
  assumes "length s = length t"
  shows "s @ x < t @ y \<longleftrightarrow> s < t \<or> s = t \<and> x < y"
proof -
  consider "s < t" | "s = t" | "t < s" by force
  then show ?thesis
  proof cases
    case 1
    then show ?thesis using less_append_same_length [OF assms] by simp
  next
    case 3
    then have "t @ y < s @ x" using less_append_same_length assms by metis
    then have "\<not> s @ x < t @ y" by simp
    with 3 show ?thesis by auto
  qed simp
qed

lemma digits_less:
  fixes q q' r r' :: nat
  assumes "r < 10" "r' < 10"
  shows "q * 10 + r < q' * 10 + r' \<longleftrightarrow> q < q' \<or> q = q' \<and> r < r'"
  using assms by linarith

lemma fixed_inject: "a < 10 ^ w \<Longrightarrow> b < 10 ^ w \<Longrightarrow> fixed w a = fixed w b \<longleftrightarrow> a = b"
proof (induction w arbitrary: a b)
  case (Suc w)
  then have "a div 10 < 10 ^ w" "b div 10 < 10 ^ w" by (simp_all add: less_mult_imp_div_less mult.commute)
  then have "fixed w (a div 10) = fixed w (b div 10) \<longleftrightarrow> a div 10 = b div 10" by (rule Suc.IH)
  moreover have "dec_char (a mod 10) = dec_char (b mod 10) \<longleftrightarrow> a mod 10 = b mod 10"
    using dec_char_digit [of "a mod 10"] dec_char_digit [of "b mod 10"] by (metis mod_less_divisor zero_less_numeral)
  moreover have "a div 10 = b div 10 \<and> a mod 10 = b mod 10 \<longleftrightarrow> a = b" by (metis div_mult_mod_eq)
  ultimately show ?case by simp
qed simp

lemma fixed_less: "a < 10 ^ w \<Longrightarrow> b < 10 ^ w \<Longrightarrow> fixed w a < fixed w b \<longleftrightarrow> a < b"
proof (induction w arbitrary: a b)
  case (Suc w)
  then have d: "a div 10 < 10 ^ w" "b div 10 < 10 ^ w" by (simp_all add: less_mult_imp_div_less mult.commute)
  have "fixed (Suc w) a < fixed (Suc w) b \<longleftrightarrow>
      fixed w (a div 10) < fixed w (b div 10) \<or> fixed w (a div 10) = fixed w (b div 10) \<and> [dec_char (a mod 10)] < [dec_char (b mod 10)]"
    unfolding fixed.simps by (rule less_append_fixed) simp
  also have "\<dots> \<longleftrightarrow> a div 10 < b div 10 \<or> a div 10 = b div 10 \<and> a mod 10 < b mod 10"
    by (simp add: Suc.IH [OF d] fixed_inject [OF d] dec_char_less)
  also have "\<dots> \<longleftrightarrow> a < b" using digits_less [of "a mod 10" "b mod 10" "a div 10" "b div 10"] by simp
  finally show ?case .
qed simp

lemma show_nat_short: "n < 10 ^ Suc w \<Longrightarrow> length (show_nat n) \<le> Suc w \<and> fixed (Suc w) n = replicate (Suc w - length (show_nat n)) (CHR ''0'') @ show_nat n"
proof (induction w arbitrary: n)
  case 0
  then show ?case by (simp add: show_nat.simps)
next
  case (Suc w)
  show ?case
  proof (cases "n < 10")
    case True
    have "fixed (Suc w) 0 = replicate (Suc w) (CHR ''0'')"
      by (induction w) (simp_all add: dec_char_0 replicate_append_same)
    with True show ?thesis by (simp add: show_nat.simps [of n] replicate_append_same)
  next
    case False
    have "n div 10 < 10 ^ Suc w" using Suc.prems by (simp add: less_mult_imp_div_less mult.commute)
    from Suc.IH [OF this] False show ?thesis by (simp add: show_nat.simps [of n])
  qed
qed

lemma pad_fixed: "n < 10 ^ Suc w \<Longrightarrow> pad (Suc w) n = fixed (Suc w) n"
  using show_nat_short [of n w] by (simp add: pad_def)

definition time_ok :: "utc_time \<Rightarrow> bool" where
  "time_ok t \<longleftrightarrow> 0 \<le> ut_Year t \<and> ut_Year t \<le> 9999 \<and> ut_Month t \<le> 12 \<and> ut_Day t \<le> 31 \<and> ut_Hour t < 24 \<and>
     ut_Minute t < 60 \<and> ut_Second t < 60 \<and> ut_Nanosecond t < 1000000000"

text \<open>The fields of a time down to the millisecond; lists of numbers are compared lexicographically.\<close>

definition time_key :: "utc_time \<Rightarrow> nat list" where
  "time_key t = [nat (ut_Year t), ut_Month t, ut_Day t, ut_Hour t, ut_Minute t, ut_Second t, ut_Nanosecond t div 1000000]"

lemma fixed_append_less:
  assumes "a < 10 ^ w" "b < 10 ^ w"
  shows "fixed w a @ x < fixed w b @ y \<longleftrightarrow> a < b \<or> a = b \<and> x < y"
  using assms by (simp add: less_append_fixed fixed_less fixed_inject)

lemma RFC3339Milli_fixed:
  assumes "time_ok t"
  shows "RFC3339Milli t =
    fixed 4 (nat (ut_Year t)) @ CHR ''-'' # fixed 2 (ut_Month t) @ CHR ''-'' # fixed 2 (ut_Day t) @ CHR ''T'' # fixed 2 (ut_Hour t) @
    CHR '':'' # fixed 2 (ut_Minute t) @ CHR '':'' # fixed 2 (ut_Second t) @ CHR ''.'' # fixed 3 (ut_Nanosecond t div 1000000) @ [CHR ''Z'']"
proof -
  have two: "pad 2 n = fixed 2 n" if "n < 100" for n using pad_fixed [of n 1] that by (simp add: numeral_2_eq_2)
  have "pad 4 n = fixed 4 n" if "n < 10000" for n using pad_fixed [of n 3] that by simp
  moreover have "pad 3 n = fixed 3 n" if "n < 1000" for n using pad_fixed [of n 2] that by simp
  moreover have "ut_Nanosecond t div 1000000 < 1000" using assms by (simp add: time_ok_def less_mult_imp_div_less)
  ultimately show ?thesis using assms by (simp add: RFC3339Milli_def pad_year_def two time_ok_def nat_less_iff)
qed



text \<open>Beyond the year 9999 the order of the texts is not that of the times.\<close>

lemma year_10000_sorts_first:
  "RFC3339Milli \<lparr>ut_Year = 10000, ut_Month = 1, ut_Day = 1, ut_Hour = 0, ut_Minute = 0, ut_Second = 0, ut_Nanosecond = 0\<rparr> <
   RFC3339Milli \<lparr>ut_Year = 2024, ut_Month = 1, ut_Day = 1, ut_Hour = 0, ut_Minute = 0, ut_Second = 0, ut_Nanosecond = 0\<rparr>"
proof -
  have "pad_year 10000 = [dec_char 1, dec_char 0, dec_char 0, dec_char 0, dec_char 0]" "pad_year 2024 = [dec_char 2, dec_char 0, dec_char 2, dec_char 4]"
    by (simp_all add: pad_year_def pad_def show_nat.simps)
  then show ?thesis by (simp add: RFC3339Milli_def dec_char_less)
qed

end
