(* ===== verification/Message_Lifecycle.thy ===== *)
theory Message_Lifecycle
  imports Nats_Consumer "HOL-Library.Sublist"
begin

text \<open>
  The consumers of \<open>infrastructure/nats\<close> together with the server: one message from its first
  delivery to the end. \<open>StartConsumer\<close> creates the durable consumer whose \<open>MaxDeliver\<close> comes from
  the retry policy; the server delivers the message again until it is acknowledged or has been
  delivered that often; each delivery runs \<open>processBatch\<close>, whose handler settles the message through
  \<open>Ack\<close>, \<open>Nack\<close> and \<open>Reject\<close>, and with them the backoff and the dead letter. The server's part is the
  guard \<open>deliverable\<close>; everything else is the code's model of the theories imported.
\<close>

section \<open>Handlers and deliveries\<close>

text \<open>A handler works on a message, publishing what it likes, and then settles it in one of the ways
  the wrapper offers, or never does.\<close>

datatype verdict = Accept | Fail string | Refuse string | Silent

definition answer :: "'b jetstream \<Rightarrow> verdict \<Rightarrow> Message \<Rightarrow> 'b nats_st \<Rightarrow> 'b nats_st" where
  "answer js v m s =
     (case v of
        Accept \<Rightarrow> fst (Ack js m s)
      | Fail e \<Rightarrow> fst (Nack js m (Some e) s)
      | Refuse e \<Rightarrow> fst (Reject js m e s)
      | Silent \<Rightarrow> s)"

definition no_acks :: "log_entry list \<Rightarrow> bool" where
  "no_acks es \<longleftrightarrow> (\<forall>k n r. LAck k n r \<notin> set es)"

definition answering ::
  "'b jetstream \<Rightarrow> (Message \<Rightarrow> verdict) \<Rightarrow> (Message \<Rightarrow> 'b nats_st \<Rightarrow> 'b nats_st) \<Rightarrow> bool" where
  "answering js verdict h \<longleftrightarrow>
     (\<forall>m s. \<exists>s' es. calls s' = calls s @ es \<and> no_acks es \<and> h m s = answer js (verdict m) m s')"

text \<open>The message as the server hands it out the \<open>k\<close>-th time, and as the handler sees it then.\<close>

definition delivered :: "js_msg \<Rightarrow> int \<Rightarrow> nat \<Rightarrow> js_msg" where
  "delivered jm ts k = jm\<lparr>jm_Metadata := Inr (of_nat k, ts)\<rparr>"

definition handed :: "consumer_info \<Rightarrow> js_msg \<Rightarrow> int \<Rightarrow> nat \<Rightarrow> Message" where
  "handed c jm ts k = projr (newMessage (delivered jm ts k) c 0)"

text \<open>The history of a message: the calls made during each of its deliveries.\<close>

record 'b history =
  hi_log :: "log_entry list list"
  hi_nats :: "'b nats_st"

definition settles :: "nat \<Rightarrow> log_entry list \<Rightarrow> bool" where
  "settles n es \<longleftrightarrow> LAck DoAck n None \<in> set es \<or> LAck DoTerm n None \<in> set es"

definition settled :: "nat \<Rightarrow> 'b history \<Rightarrow> bool" where
  "settled n h \<longleftrightarrow> (\<exists>es \<in> set (hi_log h). settles n es)"

text \<open>The server delivers a message that was neither acknowledged nor terminated, up to the
  \<open>MaxDeliver\<close> of the consumer (0 is no limit).\<close>

definition deliverable :: "ConsumerConfig \<Rightarrow> nat \<Rightarrow> 'b history \<Rightarrow> bool" where
  "deliverable cfg n h \<longleftrightarrow>
     \<not> settled n h \<and> (cc_MaxDeliver cfg \<le> 0 \<or> int (length (hi_log h)) < cc_MaxDeliver cfg)"

definition deliver ::
  "'b jetstream \<Rightarrow> 'b ConsumerOptions \<Rightarrow> js_msg \<Rightarrow> 'b history \<Rightarrow> 'b history" where
  "deliver js opts msg h =
     (let s' = processBatch js opts [(0, msg)] [msg] (hi_nats h)
      in h\<lparr>hi_log := hi_log h @ [drop (length (calls (hi_nats h))) (calls s')], hi_nats := s'\<rparr>)"

text \<open>Between two deliveries anything may happen to the broker and the log.\<close>

inductive lifecycle ::
  "'b jetstream \<Rightarrow> 'b ConsumerOptions \<Rightarrow> ConsumerConfig \<Rightarrow> js_msg \<Rightarrow> int \<Rightarrow> 'b history \<Rightarrow> bool"
  for js opts cfg jm ts where
  published: "lifecycle js opts cfg jm ts \<lparr>hi_log = [], hi_nats = s\<rparr>"
| delivery: "lifecycle js opts cfg jm ts h \<Longrightarrow> deliverable cfg (jm_id jm) h \<Longrightarrow>
    lifecycle js opts cfg jm ts (deliver js opts (delivered jm ts (Suc (length (hi_log h)))) h)"
| other: "lifecycle js opts cfg jm ts h \<Longrightarrow> lifecycle js opts cfg jm ts (h\<lparr>hi_nats := s\<rparr>)"

section \<open>One delivery\<close>

lemma handed_simps [simp]:
  "newMessage (delivered jm ts k) c 0 = Inr (handed c jm ts k)"
  "m_rawMsg (handed c jm ts k) = jm_id jm" "m_Data (handed c jm ts k) = jm_Data jm"
  "from_consumer (handed c jm ts k) c"
  by (simp_all add: handed_def newMessage_def delivered_def from_consumer_def)

lemma handed_count [simp]: "k < 2 ^ 63 \<Longrightarrow> m_DeliveryCount (handed c jm ts k) = int k"
  by (simp add: handed_def newMessage_def delivered_def sint_of_nat64)

text \<open>The calls with which each verdict ends a delivery.\<close>

inductive answer_trace ::
  "'b jetstream \<Rightarrow> Message \<Rightarrow> consumer_info \<Rightarrow> RetryPolicy \<Rightarrow> verdict \<Rightarrow> log_entry list \<Rightarrow> bool"
  for js m c p where
  accepted: "answer_trace js m c p Accept [LAck DoAck (m_rawMsg m) r]"
| retried: "ShouldRetry (Some p) (m_DeliveryCount m) \<Longrightarrow>
    answer_trace js m c p (Fail e)
      [LAck (DoNakDelay (GetDelayForAttempt (Some p) (m_DeliveryCount m))) (m_rawMsg m) r]"
| given_up: "\<not> ShouldRetry (Some p) (m_DeliveryCount m) \<Longrightarrow>
    dlq_trace js m c (dlq_envelope js m c (the (ci_DLQPolicy c)) e s) tr \<Longrightarrow>
    answer_trace js m c p (Fail e) tr"
| refused: "dlq_trace js m c (dlq_envelope js m c (the (ci_DLQPolicy c)) e s) tr \<Longrightarrow>
    answer_trace js m c p (Refuse e) tr"
| silent: "answer_trace js m c p Silent []"

inductive_cases answer_traceE: "answer_trace js m c p v tr"

text \<open>The results in the log are those of the library.\<close>

fun genuine_entry :: "'b jetstream \<Rightarrow> log_entry \<Rightarrow> bool" where
  "genuine_entry js (LAck k n r) = (r \<in> range (\<lambda>b. snd (js_ack js b k n)))"
| "genuine_entry js (LPublish msg r) = (r \<in> range (\<lambda>b. snd (js_publish js b msg)))"
| "genuine_entry js (LCore msg r) = True"

abbreviation genuine :: "'b jetstream \<Rightarrow> log_entry list \<Rightarrow> bool" where
  "genuine js es \<equiv> list_all (genuine_entry js) es"

lemma genuine_call_ack:
  "calls (fst (call_ack js k n s)) = calls s @ tr \<Longrightarrow> genuine js tr"
  by (auto simp: eq_commute [of _ tr])

lemma genuine_sendToDLQAndAck:
  assumes "calls (fst (sendToDLQAndAck js m e s)) = calls s @ tr"
  shows "genuine js tr"
proof -
  have img: "snd (js_publish js b msg) \<in> range (\<lambda>b. snd (js_publish js b msg))" for b msg by blast
  show ?thesis
    using assms img
    by (auto simp: sendToDLQAndAck_def no_consumer_def Push_dlq Let_def image_iff
        split: option.splits prod.splits) (metis snd_conv)+
qed

lemma answer_log:
  assumes "from_consumer m c" "ci_RetryPolicy c = Some p"
  shows "\<exists>tr. calls (answer js v m s) = calls s @ tr \<and> answer_trace js m c p v tr \<and> genuine js tr"
proof (cases v)
  case Accept
  then show ?thesis using assms
    by (auto simp: answer_def Ack_def from_consumer_def intro: answer_trace.intros)
next
  case (Fail e)
  then show ?thesis
  proof (cases "ShouldRetry (Some p) (m_DeliveryCount m)")
    case True
    with assms Fail show ?thesis by (auto simp: answer_def Nack_consumer intro: answer_trace.intros)
  next
    case False
    with assms Fail sendToDLQAndAck_trace [of m c js e s] genuine_sendToDLQAndAck show ?thesis
      by (fastforce simp: answer_def Nack_consumer from_consumer_def intro: answer_trace.intros)
  qed
next
  case (Refuse e)
  with assms sendToDLQAndAck_trace [of m c js e s] genuine_sendToDLQAndAck show ?thesis
    by (fastforce simp: answer_def Reject_consumer from_consumer_def intro: answer_trace.intros)
qed (auto simp: answer_def intro: answer_trace.intros)

section \<open>The consumer that StartConsumer sets up\<close>

definition service ::
  "'b js_admin \<Rightarrow> 'b ConsumerOptions \<Rightarrow> 'b \<Rightarrow> RetryPolicy \<Rightarrow> DLQPolicy \<Rightarrow>
     (Message \<Rightarrow> 'b nats_st \<Rightarrow> 'b nats_st) \<Rightarrow> 'b ConsumerOptions \<Rightarrow> ConsumerConfig \<Rightarrow> bool" where
  "service ja opts0 b p pol h opts cfg \<longleftrightarrow>
     co_RetryPolicy opts0 = Some p \<and> co_DLQPolicy opts0 = Some pol \<and> co_MessageHandlerV2 opts0 = Some h \<and>
     ja_Consumer ja b (co_Stream opts0) (co_Durable opts0) = Inl NotFoundErr \<and>
     (\<exists>fuel b'. StartConsumer fuel ja opts0 b = Some (b', Inr opts) \<and>
        ja_Consumer ja b' (co_Stream opts0) (co_Durable opts0) = Inr cfg)"

lemma setConsumerDefaults_simps [simp]:
  "co_RetryPolicy (setConsumerDefaults opts) = co_RetryPolicy opts"
  "co_DLQPolicy (setConsumerDefaults opts) = co_DLQPolicy opts"
  "co_MessageHandlerV2 (setConsumerDefaults opts) = co_MessageHandlerV2 opts"
  "co_BatchMessageHandlerV2 (setConsumerDefaults opts) = co_BatchMessageHandlerV2 opts"
  "co_Stream (setConsumerDefaults opts) = co_Stream opts"
  "co_Durable (setConsumerDefaults opts) = co_Durable opts"
  by (simp_all add: setConsumerDefaults_def)

text \<open>A new consumer gets its limit of deliveries from the retry policy.\<close>

lemma service_setup:
  assumes "service ja opts0 b p pol h opts cfg" "admin_laws ja"
  shows "cc_MaxDeliver cfg = GetMaxDeliver (Some p)" "ci_RetryPolicy (info_of opts) = Some p"
    "ci_DLQPolicy (info_of opts) = Some pol" "co_MessageHandlerV2 opts = Some h"
    "co_BatchMessageHandlerV2 opts = None"
proof -
  note def = assms(1) [unfolded service_def]
  obtain fuel b' where start: "StartConsumer fuel ja opts0 b = Some (b', Inr opts)"
    and cfg: "ja_Consumer ja b' (co_Stream opts0) (co_Durable opts0) = Inr cfg"
    using def by blast
  let ?so = "subscribe_options (setConsumerDefaults opts0)"
  have valid: "validateConsumerOptions opts0 = None"
    and create: "createOrGetConsumer fuel ja ?so b = Some (b', None)" and opts: "opts = setConsumerDefaults opts0"
    using start by (auto simp: StartConsumer_def Let_def split: option.splits prod.splits sum.splits)
  obtain n where fuel: "fuel = Suc n" using create by (cases fuel) auto
  have so: "so_Stream ?so = co_Stream opts0" "so_Durable ?so = co_Durable opts0" "so_RetryPolicy ?so = Some p"
    using def by (simp_all add: subscribe_options_def)
  with createOrGetConsumer_unknown [OF assms(2), of b ?so n] create fuel cfg def
  have "cfg = new_consumer ?so" by (auto simp del: createOrGetConsumer.simps)
  with so show "cc_MaxDeliver cfg = GetMaxDeliver (Some p)" by (simp add: new_consumer_def Let_def)
  show "ci_RetryPolicy (info_of opts) = Some p" "ci_DLQPolicy (info_of opts) = Some pol"
    "co_MessageHandlerV2 opts = Some h" "co_BatchMessageHandlerV2 opts = None"
    using def valid
    by (auto simp: opts info_of_def validateConsumerOptions_def handlerCount_def count_some_def split: if_splits)
qed

text \<open>What one delivery adds to the log.\<close>

lemma deliver_log:
  fixes jm :: js_msg and ts :: int and k :: nat
  assumes "ci_RetryPolicy (info_of opts) = Some p" "co_MessageHandlerV2 opts = Some h"
    "co_BatchMessageHandlerV2 opts = None" "answering js verdict h"
  defines "m \<equiv> handed (info_of opts) jm ts k"
  shows "\<exists>es tr. hi_log (deliver js opts (delivered jm ts k) hist) = hi_log hist @ [es @ tr] \<and> no_acks es \<and>
    answer_trace js m (info_of opts) p (verdict m) tr \<and> genuine js tr"
proof -
  obtain s' es where s': "calls s' = calls (hi_nats hist) @ es" "no_acks es"
    "h m (hi_nats hist) = answer js (verdict m) m s'"
    using assms(4) unfolding answering_def by blast
  obtain tr where tr: "calls (answer js (verdict m) m s') = calls s' @ tr"
    "answer_trace js m (info_of opts) p (verdict m) tr" "genuine js tr"
    using answer_log [of m "info_of opts" p js "verdict m" s'] assms(1) by (auto simp: m_def)
  have "processBatch js opts [(0, delivered jm ts k)] [delivered jm ts k] (hi_nats hist) =
      answer js (verdict m) m s'"
    using assms(2,3) s'(3) by (simp add: processBatch_def processParallelV2_def m_def)
  with s' tr show ?thesis by (auto simp: deliver_def Let_def)
qed

section \<open>Whole histories\<close>

definition entry_ok ::
  "'b jetstream \<Rightarrow> (Message \<Rightarrow> verdict) \<Rightarrow> consumer_info \<Rightarrow> RetryPolicy \<Rightarrow> js_msg \<Rightarrow> int \<Rightarrow> nat \<Rightarrow> log_entry list \<Rightarrow> bool" where
  "entry_ok js verdict c p jm ts k entry \<longleftrightarrow>
     (\<exists>es tr. entry = es @ tr \<and> no_acks es \<and>
        answer_trace js (handed c jm ts k) c p (verdict (handed c jm ts k)) tr \<and> genuine js tr)"

lemma hi_log_deliver: "\<exists>entry. hi_log (deliver js opts msg hist) = hi_log hist @ [entry]"
  by (simp add: deliver_def Let_def)

lemma settled_snoc:
  "hi_log h' = hi_log h @ [entry] \<Longrightarrow> settled n h' \<longleftrightarrow> settled n h \<or> settles n entry"
  by (auto simp: settled_def)

text \<open>Every delivery is accounted for, the server keeps to the limit, and an acknowledged message is
  not delivered again.\<close>

lemma lifecycle_invariant:
  assumes svc: "service ja opts0 b p pol h opts cfg" "admin_laws ja" and ans: "answering js verdict h"
    and p: "0 < rp_MaxRetries p" "rp_MaxRetries p < 2 ^ 63 - 1" and life: "lifecycle js opts cfg jm ts hist"
  shows "(\<forall>i < length (hi_log hist). entry_ok js verdict (info_of opts) p jm ts (Suc i) (hi_log hist ! i)) \<and>
    int (length (hi_log hist)) \<le> rp_MaxRetries p + 1 \<and>
    (\<forall>i. Suc i < length (hi_log hist) \<longrightarrow> \<not> settles (jm_id jm) (hi_log hist ! i))"
  using life
proof (induction rule: lifecycle.induct)
  case (delivery hist)
  let ?h' = "deliver js opts (delivered jm ts (Suc (length (hi_log hist)))) hist"
  note facts = service_setup [OF svc]
  obtain entry where e: "hi_log ?h' = hi_log hist @ [entry]" using hi_log_deliver by blast
  have "entry_ok js verdict (info_of opts) p jm ts (Suc (length (hi_log hist))) entry"
    using deliver_log [OF facts(2,4,5) ans, of jm ts "Suc (length (hi_log hist))" hist] e
    by (auto simp: entry_ok_def)
  moreover have "int (length (hi_log hist)) < rp_MaxRetries p + 1"
    using delivery.hyps(2) p facts(1) by (auto simp: deliverable_def GetMaxDeliver_def wrap64_id)
  moreover have "\<forall>es \<in> set (hi_log hist). \<not> settles (jm_id jm) es"
    using delivery.hyps(2) by (auto simp: deliverable_def settled_def)
  ultimately show ?case
    using delivery.IH unfolding e by (auto simp: nth_append less_Suc_eq)
qed (use p in auto)

text \<open>How a history can end: with the acknowledgement that accepts the message, with the one that
  follows its dead letter, or without.\<close>

lemma no_acks_settles [simp]: "no_acks es \<Longrightarrow> settles n (es @ tr) \<longleftrightarrow> settles n tr"
  by (auto simp: settles_def no_acks_def)

lemma settling_entry:
  assumes "entry_ok js verdict c p jm ts k entry" "settles (jm_id jm) entry" "ci_DLQPolicy c = Some pol"
  defines "m \<equiv> handed c jm ts k"
  shows "verdict m = Accept \<or>
    (\<exists>e before data s. (verdict m = Refuse e \<or> verdict m = Fail e \<and> \<not> ShouldRetry (Some p) (m_DeliveryCount m)) \<and>
       dlq_json js (dlq_envelope js m c pol e s) = Some data \<and>
       entry = before @ [LPublish \<lparr>nm_Subject = GetSubject pol, nm_Data = data, nm_Header = []\<rparr> None,
         LAck DoAck (jm_id jm) None])"
proof -
  obtain es tr where tr: "entry = es @ tr" "no_acks es" "answer_trace js m c p (verdict m) tr"
    using assms(1) unfolding entry_ok_def m_def by blast
  have msg: "push_msg (dlq_push pol data) = \<lparr>nm_Subject = GetSubject pol, nm_Data = data, nm_Header = []\<rparr>"
    for data by (simp add: push_msg_def dlq_push_def set_nonempty_def)
  have "settles (jm_id jm) tr" using assms(2) tr by simp
  with tr(3) assms(3) tr(1) msg show ?thesis
    by (elim answer_traceE) (auto simp: dlq_trace_iff settles_def m_def)
qed

lemma exhausted_entry:
  assumes "entry_ok js verdict c p jm ts k entry" "\<not> settles (jm_id jm) entry" "ci_DLQPolicy c = Some pol"
    and "\<not> ShouldRetry (Some p) (m_DeliveryCount (handed c jm ts k))"
  defines "m \<equiv> handed c jm ts k"
  shows "verdict m = Silent \<or> (\<exists>before kind err. entry = before @ [LAck kind (jm_id jm) (Some err)]) \<or>
    (\<exists>e s before r. verdict m \<in> {Refuse e, Fail e} \<and> entry = before @ [LAck DoNak (jm_id jm) r] \<and>
       (dlq_json js (dlq_envelope js m c pol e s) = None \<or>
        (\<exists>data err. dlq_json js (dlq_envelope js m c pol e s) = Some data \<and>
           last before = LPublish \<lparr>nm_Subject = GetSubject pol, nm_Data = data, nm_Header = []\<rparr> (Some err))))"
proof -
  obtain es tr where tr: "entry = es @ tr" "no_acks es" "answer_trace js m c p (verdict m) tr"
    using assms(1) unfolding entry_ok_def m_def by blast
  have msg: "push_msg (dlq_push pol data) = \<lparr>nm_Subject = GetSubject pol, nm_Data = data, nm_Header = []\<rparr>"
    for data by (simp add: push_msg_def dlq_push_def set_nonempty_def)
  have dlq: ?thesis
    if d: "dlq_trace js m c (dlq_envelope js m c pol e s) tr" and v: "verdict m \<in> {Refuse e, Fail e}" for e s
    using d
  proof cases
    case (unencodable pol' r)
    with v tr(1) assms(3) show ?thesis by (auto simp: m_def)
  next
    case (unpublished pol' data err r)
    have "entry = (es @ [LPublish \<lparr>nm_Subject = GetSubject pol, nm_Data = data, nm_Header = []\<rparr> (Some err)]) @
        [LAck DoNak (jm_id jm) r]"
      using unpublished tr(1) assms(3) msg by (simp add: m_def)
    with v unpublished assms(3) show ?thesis by (metis last_snoc option.inject)
  next
    case (published pol' data r)
    then obtain err where "r = Some err"
      using assms(2) tr by (cases r) (auto simp: settles_def m_def)
    with published tr(1) show ?thesis by (auto simp: m_def)
  qed (use assms(3) in simp)
  from tr(3) show ?thesis
  proof (cases rule: answer_trace.cases)
    case (accepted r)
    then obtain err where "r = Some err" using assms(2) tr by (cases r) (auto simp: settles_def m_def)
    with accepted tr(1) show ?thesis by (auto simp: m_def)
  qed (use assms(3,4) dlq in \<open>auto simp: m_def\<close>)
qed


section \<open>A message that always fails\<close>

definition calls_succeed :: "'b jetstream \<Rightarrow> bool" where
  "calls_succeed js \<longleftrightarrow>
     (\<forall>env. dlq_json js env \<noteq> None) \<and> (\<forall>b msg. snd (js_publish js b msg) = None) \<and>
     (\<forall>b k n. snd (js_ack js b k n) = None)"

lemma calls_succeed_simps [simp]:
  assumes "calls_succeed js"
  shows "(dlq_json js env = None) = False" "snd (js_publish js b msg) = None" "snd (js_ack js b k n) = None"
  using assms by (simp_all add: calls_succeed_def)

lemma failing_entry:
  assumes "entry_ok js (\<lambda>m. Fail (err m)) c p jm ts (Suc i) entry" "ci_DLQPolicy c = Some pol"
    and "calls_succeed js" "int (Suc i) \<le> rp_MaxRetries p + 1" "rp_MaxRetries p < 2 ^ 63 - 1"
  defines "m \<equiv> handed c jm ts (Suc i)"
  shows "\<exists>before s. entry = before @
    (if int i < rp_MaxRetries p
     then [LAck (DoNakDelay (GetBackoffDurations (Some p) ! min i (length (GetBackoffDurations (Some p)) - 1)))
             (jm_id jm) None]
     else [LPublish \<lparr>nm_Subject = GetSubject pol,
             nm_Data = the (dlq_json js (dlq_envelope js m c pol (err m) s)), nm_Header = []\<rparr> None,
           LAck DoAck (jm_id jm) None])"
proof -
  obtain es tr where tr: "entry = es @ tr" "answer_trace js m c p (Fail (err m)) tr" "genuine js tr"
    using assms(1) unfolding entry_ok_def m_def by blast
  have msg: "push_msg (dlq_push pol data) = \<lparr>nm_Subject = GetSubject pol, nm_Data = data, nm_Header = []\<rparr>"
    for data by (simp add: push_msg_def dlq_push_def set_nonempty_def)
  have count: "m_DeliveryCount m = int (Suc i)" using assms(4,5) by (simp add: m_def del: of_nat_Suc)
  have delay: "GetDelayForAttempt (Some p) (int (Suc i)) =
      GetBackoffDurations (Some p) ! min i (length (GetBackoffDurations (Some p)) - 1)"
    using GetDelayForAttempt_clamped [of "int (Suc i)" "Some p"] by (simp del: of_nat_Suc)
  from tr(2) show ?thesis
  proof (cases rule: answer_trace.cases)
    case (retried r)
    with tr assms(3) count delay show ?thesis
      by (auto simp: m_def ShouldRetry_def)
  next
    case (given_up s)
    then have "\<not> int i < rp_MaxRetries p" using count by (simp add: ShouldRetry_def)
    moreover obtain data where "dlq_json js (dlq_envelope js m c pol (err m) s) = Some data"
      "tr = [LPublish (push_msg (dlq_push pol data)) None, LAck DoAck (jm_id jm) None]"
      using given_up(2) assms(2,3) tr(3) by (auto simp: dlq_trace_iff m_def)
    ultimately show ?thesis by (intro exI [of _ es] exI [of _ s]) (simp add: tr(1) msg)
  qed
qed

lemma failing_settles:
  assumes "entry_ok js (\<lambda>m. Fail (err m)) c p jm ts (Suc i) entry" "ci_DLQPolicy c = Some pol"
    and "calls_succeed js" "int (Suc i) \<le> rp_MaxRetries p + 1" "rp_MaxRetries p < 2 ^ 63 - 1"
  shows "settles (jm_id jm) entry \<longleftrightarrow> int i = rp_MaxRetries p"
proof -
  obtain es tr where tr: "entry = es @ tr" "no_acks es"
    "answer_trace js (handed c jm ts (Suc i)) c p (Fail (err (handed c jm ts (Suc i)))) tr" "genuine js tr"
    using assms(1) unfolding entry_ok_def by blast
  have "m_DeliveryCount (handed c jm ts (Suc i)) = int (Suc i)" using assms(4,5) by (simp del: of_nat_Suc)
  moreover have "settles (jm_id jm) entry \<longleftrightarrow> settles (jm_id jm) tr" using tr(1,2) by simp
  ultimately show ?thesis using tr(3,4) assms(2-4)
    by (elim answer_traceE) (auto simp: settles_def ShouldRetry_def dlq_trace_iff)
qed

text \<open>While the calls succeed, such a message is delivered again until its retries are used up.\<close>

lemma failing_deliverable:
  assumes svc: "service ja opts0 b p pol h opts cfg" "admin_laws ja"
    and ans: "answering js (\<lambda>m. Fail (err m)) h" and ok: "calls_succeed js"
    and p: "0 < rp_MaxRetries p" "rp_MaxRetries p < 2 ^ 63 - 1" and life: "lifecycle js opts cfg jm ts hist"
  shows "settled (jm_id jm) hist \<longleftrightarrow> rp_MaxRetries p < int (length (hi_log hist))"
    "deliverable cfg (jm_id jm) hist \<longleftrightarrow> int (length (hi_log hist)) \<le> rp_MaxRetries p"
proof -
  note facts = service_setup [OF svc]
  note inv = lifecycle_invariant [OF svc ans p life]
  have entry: "entry_ok js (\<lambda>m. Fail (err m)) (info_of opts) p jm ts (Suc i) (hi_log hist ! i)"
    "int (Suc i) \<le> rp_MaxRetries p + 1" if "i < length (hi_log hist)" for i
    using inv that by auto
  have "settled (jm_id jm) hist \<longleftrightarrow> (\<exists>i < length (hi_log hist). settles (jm_id jm) (hi_log hist ! i))"
    unfolding settled_def by (metis in_set_conv_nth)
  also have "\<dots> \<longleftrightarrow> (\<exists>i < length (hi_log hist). int i = rp_MaxRetries p)"
    using failing_settles [OF entry(1) facts(3) ok entry(2) p(2)] by blast
  also have "\<dots> \<longleftrightarrow> rp_MaxRetries p < int (length (hi_log hist))"
    using p(1) by (auto intro!: exI [of _ "nat (rp_MaxRetries p)"])
  finally show s: "settled (jm_id jm) hist \<longleftrightarrow> rp_MaxRetries p < int (length (hi_log hist))" .
  show "deliverable cfg (jm_id jm) hist \<longleftrightarrow> int (length (hi_log hist)) \<le> rp_MaxRetries p"
    using facts(1) p s by (auto simp: deliverable_def GetMaxDeliver_def wrap64_id)
qed

lemma failing_progress:
  assumes svc: "service ja opts0 b p pol h opts cfg" "admin_laws ja"
    and ans: "answering js (\<lambda>m. Fail (err m)) h" and ok: "calls_succeed js"
    and p: "0 < rp_MaxRetries p" "rp_MaxRetries p < 2 ^ 63 - 1"
  shows "lifecycle js opts cfg jm ts hist \<Longrightarrow>
    \<exists>hist'. lifecycle js opts cfg jm ts hist' \<and> prefix (hi_log hist) (hi_log hist') \<and> settled (jm_id jm) hist'"
proof (induction "nat (rp_MaxRetries p + 1) - length (hi_log hist)" arbitrary: hist rule: less_induct)
  case less
  note fd = failing_deliverable [OF svc ans ok p less.prems]
  show ?case
  proof (cases "settled (jm_id jm) hist")
    case False
    with fd have d: "deliverable cfg (jm_id jm) hist" by auto
    note next1 = lifecycle.delivery [OF less.prems d]
    obtain entry where e: "hi_log (deliver js opts (delivered jm ts (Suc (length (hi_log hist)))) hist) = hi_log hist @ [entry]"
      using hi_log_deliver by blast
    have "nat (rp_MaxRetries p + 1) - Suc (length (hi_log hist)) < nat (rp_MaxRetries p + 1) - length (hi_log hist)"
      using d fd(2) by (auto simp: le_nat_iff)
    with less.hyps [OF _ next1] e show ?thesis by (auto simp: prefix_def)
  qed (use less.prems in blast)
qed

text \<open>When the dead letters cannot be published, the message is delivered \<open>MaxRetries + 1\<close> times and
  then neither acknowledged nor delivered again.\<close>

lemma lost_without_dead_letter:
  assumes svc: "service ja opts0 b p pol h opts cfg" "admin_laws ja"
    and ans: "answering js (\<lambda>m. Fail (err m)) h" and down: "\<And>b msg. snd (js_publish js b msg) \<noteq> None"
    and p: "0 < rp_MaxRetries p" "rp_MaxRetries p < 2 ^ 63 - 1" and life: "lifecycle js opts cfg jm ts hist"
  shows "\<not> settled (jm_id jm) hist" "deliverable cfg (jm_id jm) hist \<longleftrightarrow> int (length (hi_log hist)) \<le> rp_MaxRetries p"
proof -
  note facts = service_setup [OF svc]
  have "\<not> settles (jm_id jm) (hi_log hist ! i)" if i: "i < length (hi_log hist)" for i
  proof -
    let ?m = "handed (info_of opts) jm ts (Suc i)"
    have "entry_ok js (\<lambda>m. Fail (err m)) (info_of opts) p jm ts (Suc i) (hi_log hist ! i)"
      using lifecycle_invariant [OF svc ans p life] i by simp
    then obtain es tr where tr: "hi_log hist ! i = es @ tr" "no_acks es" "genuine js tr"
      "answer_trace js ?m (info_of opts) p (Fail (err ?m)) tr"
      unfolding entry_ok_def by blast
    have "\<not> settles (jm_id jm) tr"
      using tr(3,4) facts(3) down [symmetric]
      by (elim answer_traceE) (auto simp: settles_def dlq_trace_iff image_iff simp del: not_None_eq not_Some_eq)
    with tr show ?thesis by simp
  qed
  then show s: "\<not> settled (jm_id jm) hist" unfolding settled_def by (metis in_set_conv_nth)
  show "deliverable cfg (jm_id jm) hist \<longleftrightarrow> int (length (hi_log hist)) \<le> rp_MaxRetries p"
    using facts(1) p s by (auto simp: deliverable_def GetMaxDeliver_def wrap64_id)
qed


section \<open>A concrete service\<close>

type_synonym demo_broker = "string \<times> string \<Rightarrow> ConsumerConfig option"

definition demo_server :: "demo_broker jetstream" where
  "demo_server =
     \<lparr>js_publish = (\<lambda>b msg. (b, None)), js_publish_async = (\<lambda>b msg ctx. (b, FutureOk)),
      js_core_publish = (\<lambda>b msg. (b, None)), js_flush = (\<lambda>b. (b, None)),
      js_ack = (\<lambda>b kind n. (b, None)), js_uuid = (\<lambda>b. ''id''), js_now = (\<lambda>b. 0),
      dlq_json = (\<lambda>dm. Some (dm_OriginalData dm))\<rparr>"

definition failing_handler :: "Message \<Rightarrow> demo_broker nats_st \<Rightarrow> demo_broker nats_st" where
  "failing_handler m s = answer demo_server (Fail ''boom'') m s"

definition demo_service_opts :: "demo_broker ConsumerOptions" where
  "demo_service_opts =
     \<lparr>co_Stream = ''EVENTS'', co_Subject = ''events.a'', co_Durable = ''worker'', co_QueueGroup = [],
      co_BatchSize = 0, co_FetchTimeout = 0, co_RetryDelay = 0, co_MaxRetries = 0, co_StopOnError = False,
      co_DuplicateWindow = 0, co_RetryPolicy = Some DefaultRetryPolicy,
      co_DLQPolicy = Some (DefaultDLQPolicy ''svc''), co_Handler = None, co_BatchHandler = None,
      co_MessageHandlerV2 = Some failing_handler, co_BatchMessageHandlerV2 = None\<rparr>"

abbreviation "demo_running \<equiv> setConsumerDefaults demo_service_opts"
abbreviation "demo_cfg \<equiv> new_consumer (subscribe_options demo_running)"

lemma demo_service:
  "service demo_admin demo_service_opts Map.empty DefaultRetryPolicy (DefaultDLQPolicy ''svc'') failing_handler
     demo_running demo_cfg"
proof -
  have "StartConsumer (Suc 0) demo_admin demo_service_opts Map.empty =
      Some (Map.empty((''EVENTS'', ''worker'') \<mapsto> demo_cfg), Inr demo_running)"
    by (simp add: StartConsumer_def Let_def validateConsumerOptions_def handlerCount_def count_some_def
        demo_service_opts_def subscribe_options_def setConsumerDefaults_def demo_admin_def ensure_stream_def)
  moreover have "ja_Consumer demo_admin (Map.empty((''EVENTS'', ''worker'') \<mapsto> demo_cfg))
      (co_Stream demo_service_opts) (co_Durable demo_service_opts) = Inr demo_cfg"
    "ja_Consumer demo_admin Map.empty (co_Stream demo_service_opts) (co_Durable demo_service_opts) = Inl NotFoundErr"
    "co_RetryPolicy demo_service_opts = Some DefaultRetryPolicy"
    "co_DLQPolicy demo_service_opts = Some (DefaultDLQPolicy ''svc'')"
    "co_MessageHandlerV2 demo_service_opts = Some failing_handler"
    by (simp_all add: demo_service_opts_def demo_admin_def)
  ultimately show ?thesis unfolding service_def by blast
qed

lemma demo_answering: "answering demo_server (\<lambda>m. Fail ''boom'') failing_handler"
  by (auto simp: answering_def failing_handler_def no_acks_def intro!: exI [of _ "[]"])

lemma demo_succeeds: "calls_succeed demo_server"
  by (simp add: calls_succeed_def demo_server_def)

lemma DefaultRetryPolicy_MaxRetries [simp]: "rp_MaxRetries DefaultRetryPolicy = 5"
  by (simp add: DefaultRetryPolicy_def)

definition demo_delivery :: "demo_broker history" where
  "demo_delivery = deliver demo_server demo_running (delivered (demo_js_msg 7 ''x'') 0 (Suc 0))
     \<lparr>hi_log = [], hi_nats = \<lparr>broker = Map.empty, calls = []\<rparr>\<rparr>"

lemma demo_lifecycle: "lifecycle demo_server demo_running demo_cfg (demo_js_msg 7 ''x'') 0 demo_delivery"
  using lifecycle.delivery [OF lifecycle.published, of demo_cfg "demo_js_msg 7 ''x''"
      "\<lparr>broker = Map.empty, calls = []\<rparr>" demo_server demo_running 0]
    failing_deliverable(2) [OF demo_service demo_admin_laws demo_answering demo_succeeds _ _ lifecycle.published,
      of "demo_js_msg 7 ''x''"]
  by (simp add: demo_delivery_def)

lemma demo_delivery_count: "length (hi_log demo_delivery) = 1"
  by (simp add: demo_delivery_def deliver_def Let_def)



end
