(* ===== verification/Nats_Doubles.thy ===== *)
theory Nats_Doubles
  imports Kit_Prelude "HOL-Library.Word"
begin

text \<open>
  \<open>infrastructure/nats/mocks/mocks.go\<close>: the test doubles of the interfaces of \<open>ports.go\<close>. A double
  embeds testify's \<open>mock.Mock\<close>: every method hands its arguments to \<open>Called\<close> and returns what the
  test configured, read through \<open>Get\<close>, \<open>Error\<close>, \<open>Bool\<close> and \<open>String\<close> and asserted to the type of
  the method. The library is a parameter; \<open>Panics\<close> is a panic of it or of a type assertion.
\<close>

section \<open>The library and the assertions\<close>

text \<open>A Go interface value: nil, or a value with its dynamic type.\<close>

datatype 'p iface =
    INil
  | IError string
  | IUint "64 word"
  | IBool bool
  | IString string
  | IStrings "string list"
  | ISubscription 'p
  | IStop 'p
  | IConn 'p
  | IEntry 'p

text \<open>Arguments of a call; configurations, contexts and handlers are opaque.\<close>

datatype 'c call_arg = ArgString string | ArgBytes string | ArgUint "64 word" | ArgOpaque 'c

record ('m, 'c, 'p) testify =
  tm_Called :: "'m \<Rightarrow> string \<Rightarrow> 'c call_arg list \<Rightarrow> 'm \<times> 'p iface list option"
  tm_Get :: "'p iface list \<Rightarrow> nat \<Rightarrow> 'p iface option"
  tm_Error :: "'p iface list \<Rightarrow> nat \<Rightarrow> string option option"
  tm_Bool :: "'p iface list \<Rightarrow> nat \<Rightarrow> bool option"
  tm_String :: "'p iface list \<Rightarrow> nat \<Rightarrow> string option"

datatype 'a outcome_of = Panics | Returns 'a

fun or_panic :: "'a option \<Rightarrow> 'a outcome_of" where
  "or_panic None = Panics"
| "or_panic (Some x) = Returns x"

fun as_uint :: "'p iface \<Rightarrow> 64 word option" where
  "as_uint (IUint n) = Some n"
| "as_uint _ = None"

fun as_strings :: "'p iface \<Rightarrow> string list option" where
  "as_strings (IStrings ss) = Some ss"
| "as_strings _ = None"

fun as_subscription :: "'p iface \<Rightarrow> 'p option" where
  "as_subscription (ISubscription x) = Some x"
| "as_subscription _ = None"

fun as_stop :: "'p iface \<Rightarrow> 'p option" where
  "as_stop (IStop x) = Some x"
| "as_stop _ = None"

fun as_conn :: "'p iface \<Rightarrow> 'p option" where
  "as_conn (IConn x) = Some x"
| "as_conn _ = None"

fun as_entry :: "'p iface \<Rightarrow> 'p option" where
  "as_entry (IEntry x) = Some x"
| "as_entry _ = None"

text \<open>The shapes of the methods: \<open>return args.Error(0)\<close>; a nil test before the assertion of the first
  result; an assertion without it.\<close>

definition call_with ::
  "('m, 'c, 'p) testify \<Rightarrow> string \<Rightarrow> 'c call_arg list \<Rightarrow> ('p iface list \<Rightarrow> 'a option) \<Rightarrow> 'm \<Rightarrow> 'm \<times> 'a outcome_of" where
  "call_with T name args read_results m =
     (case tm_Called T m name args of
        (m', None) \<Rightarrow> (m', Panics)
      | (m', Some rets) \<Rightarrow> (m', or_panic (read_results rets)))"

definition error_result :: "('m, 'c, 'p) testify \<Rightarrow> 'p iface list \<Rightarrow> string option option" where
  "error_result T rets = tm_Error T rets 0"

definition nilable_result ::
  "('m, 'c, 'p) testify \<Rightarrow> ('p iface \<Rightarrow> 'a option) \<Rightarrow> 'p iface list \<Rightarrow> ('a option \<times> string option) option" where
  "nilable_result T as_type rets =
     Option.bind (tm_Get T rets 0) (\<lambda>x.
       if x = INil then map_option (\<lambda>e. (None, e)) (tm_Error T rets 1)
       else Option.bind (as_type x) (\<lambda>v. map_option (\<lambda>e. (Some v, e)) (tm_Error T rets 1)))"

definition uint_result :: "('m, 'c, 'p) testify \<Rightarrow> 'p iface list \<Rightarrow> (64 word \<times> string option) option" where
  "uint_result T rets =
     Option.bind (tm_Get T rets 0) (\<lambda>x. Option.bind (as_uint x) (\<lambda>n. map_option (\<lambda>e. (n, e)) (tm_Error T rets 1)))"

definition conn_result :: "('m, 'c, 'p) testify \<Rightarrow> 'p iface list \<Rightarrow> 'p option option" where
  "conn_result T rets =
     Option.bind (tm_Get T rets 0) (\<lambda>x. if x = INil then Some None else map_option Some (as_conn x))"

definition bool_result :: "('m, 'c, 'p) testify \<Rightarrow> 'p iface list \<Rightarrow> (bool \<times> string option) option" where
  "bool_result T rets = Option.bind (tm_Bool T rets 0) (\<lambda>x. map_option (\<lambda>e. (x, e)) (tm_Error T rets 1))"

section \<open>The doubles\<close>

definition MockFanout_PublishFanout ::
  "('m, 'c, 'p) testify \<Rightarrow> 'c \<Rightarrow> string \<Rightarrow> string \<Rightarrow> 'm \<Rightarrow> 'm \<times> string option outcome_of" where
  "MockFanout_PublishFanout T cx subject data = call_with T ''PublishFanout'' [ArgOpaque cx, ArgString subject, ArgBytes data] (error_result T)"

definition MockFanout_SubscribeFanout ::
  "('m, 'c, 'p) testify \<Rightarrow> string \<Rightarrow> string \<Rightarrow> string \<Rightarrow> 'c \<Rightarrow> 'm \<Rightarrow> 'm \<times> ('p option \<times> string option) outcome_of" where
  "MockFanout_SubscribeFanout T stream serviceName subject handler = call_with T ''SubscribeFanout'' [ArgString stream, ArgString serviceName, ArgString subject, ArgOpaque handler] (nilable_result T as_subscription)"

definition MockFanout_EnsureFanoutStream ::
  "('m, 'c, 'p) testify \<Rightarrow> 'c \<Rightarrow> 'm \<Rightarrow> 'm \<times> string option outcome_of" where
  "MockFanout_EnsureFanoutStream T config = call_with T ''EnsureFanoutStream'' [ArgOpaque config] (error_result T)"

definition MockSubscriber_Subscribe ::
  "('m, 'c, 'p) testify \<Rightarrow> 'c \<Rightarrow> 'm \<Rightarrow> 'm \<times> ('p option \<times> string option) outcome_of" where
  "MockSubscriber_Subscribe T config = call_with T ''Subscribe'' [ArgOpaque config] (nilable_result T as_stop)"

definition MockPublisher_Publish ::
  "('m, 'c, 'p) testify \<Rightarrow> 'c \<Rightarrow> 'm \<Rightarrow> 'm \<times> string option outcome_of" where
  "MockPublisher_Publish T config = call_with T ''Publish'' [ArgOpaque config] (error_result T)"

definition MockFetcher_Fetch ::
  "('m, 'c, 'p) testify \<Rightarrow> 'c \<Rightarrow> 'm \<Rightarrow> 'm \<times> ('p option \<times> string option) outcome_of" where
  "MockFetcher_Fetch T config = call_with T ''Fetch'' [ArgOpaque config] (nilable_result T as_stop)"

definition MockConnectionProvider_GetConn ::
  "('m, 'c, 'p) testify \<Rightarrow> 'm \<Rightarrow> 'm \<times> 'p option outcome_of" where
  "MockConnectionProvider_GetConn T = call_with T ''GetConn'' [] (conn_result T)"

definition MockCorePublisher_PublishCore ::
  "('m, 'c, 'p) testify \<Rightarrow> 'c \<Rightarrow> 'm \<Rightarrow> 'm \<times> string option outcome_of" where
  "MockCorePublisher_PublishCore T config = call_with T ''PublishCore'' [ArgOpaque config] (error_result T)"

definition MockCorePublisher_FlushConnection ::
  "('m, 'c, 'p) testify \<Rightarrow> 'm \<Rightarrow> 'm \<times> string option outcome_of" where
  "MockCorePublisher_FlushConnection T = call_with T ''FlushConnection'' [] (error_result T)"

definition MockBus_PublishFanout ::
  "('m, 'c, 'p) testify \<Rightarrow> 'c \<Rightarrow> string \<Rightarrow> string \<Rightarrow> 'm \<Rightarrow> 'm \<times> string option outcome_of" where
  "MockBus_PublishFanout T cx subject data = call_with T ''PublishFanout'' [ArgOpaque cx, ArgString subject, ArgBytes data] (error_result T)"

definition MockBus_SubscribeFanout ::
  "('m, 'c, 'p) testify \<Rightarrow> string \<Rightarrow> string \<Rightarrow> string \<Rightarrow> 'c \<Rightarrow> 'm \<Rightarrow> 'm \<times> ('p option \<times> string option) outcome_of" where
  "MockBus_SubscribeFanout T stream serviceName subject handler = call_with T ''SubscribeFanout'' [ArgString stream, ArgString serviceName, ArgString subject, ArgOpaque handler] (nilable_result T as_subscription)"

definition MockBus_EnsureFanoutStream ::
  "('m, 'c, 'p) testify \<Rightarrow> 'c \<Rightarrow> 'm \<Rightarrow> 'm \<times> string option outcome_of" where
  "MockBus_EnsureFanoutStream T config = call_with T ''EnsureFanoutStream'' [ArgOpaque config] (error_result T)"

definition MockBus_Subscribe ::
  "('m, 'c, 'p) testify \<Rightarrow> 'c \<Rightarrow> 'm \<Rightarrow> 'm \<times> ('p option \<times> string option) outcome_of" where
  "MockBus_Subscribe T config = call_with T ''Subscribe'' [ArgOpaque config] (nilable_result T as_stop)"

definition MockBus_Publish ::
  "('m, 'c, 'p) testify \<Rightarrow> 'c \<Rightarrow> 'm \<Rightarrow> 'm \<times> string option outcome_of" where
  "MockBus_Publish T config = call_with T ''Publish'' [ArgOpaque config] (error_result T)"

definition MockBus_Fetch ::
  "('m, 'c, 'p) testify \<Rightarrow> 'c \<Rightarrow> 'm \<Rightarrow> 'm \<times> ('p option \<times> string option) outcome_of" where
  "MockBus_Fetch T config = call_with T ''Fetch'' [ArgOpaque config] (nilable_result T as_stop)"

definition MockBus_GetConn ::
  "('m, 'c, 'p) testify \<Rightarrow> 'm \<Rightarrow> 'm \<times> 'p option outcome_of" where
  "MockBus_GetConn T = call_with T ''GetConn'' [] (conn_result T)"

definition MockBus_PublishCore ::
  "('m, 'c, 'p) testify \<Rightarrow> 'c \<Rightarrow> 'm \<Rightarrow> 'm \<times> string option outcome_of" where
  "MockBus_PublishCore T config = call_with T ''PublishCore'' [ArgOpaque config] (error_result T)"

definition MockBus_FlushConnection ::
  "('m, 'c, 'p) testify \<Rightarrow> 'm \<Rightarrow> 'm \<times> string option outcome_of" where
  "MockBus_FlushConnection T = call_with T ''FlushConnection'' [] (error_result T)"

definition MockKeyValueStore_Get ::
  "('m, 'c, 'p) testify \<Rightarrow> string \<Rightarrow> 'm \<Rightarrow> 'm \<times> ('p option \<times> string option) outcome_of" where
  "MockKeyValueStore_Get T key = call_with T ''Get'' [ArgString key] (nilable_result T as_entry)"

definition MockKeyValueStore_Put ::
  "('m, 'c, 'p) testify \<Rightarrow> string \<Rightarrow> string \<Rightarrow> 'm \<Rightarrow> 'm \<times> (64 word \<times> string option) outcome_of" where
  "MockKeyValueStore_Put T key value = call_with T ''Put'' [ArgString key, ArgBytes value] (uint_result T)"

definition MockKeyValueStore_Create ::
  "('m, 'c, 'p) testify \<Rightarrow> string \<Rightarrow> string \<Rightarrow> 'm \<Rightarrow> 'm \<times> (64 word \<times> string option) outcome_of" where
  "MockKeyValueStore_Create T key value = call_with T ''Create'' [ArgString key, ArgBytes value] (uint_result T)"

definition MockKeyValueStore_Update ::
  "('m, 'c, 'p) testify \<Rightarrow> string \<Rightarrow> string \<Rightarrow> 64 word \<Rightarrow> 'm \<Rightarrow> 'm \<times> (64 word \<times> string option) outcome_of" where
  "MockKeyValueStore_Update T key value expectedRevision = call_with T ''Update'' [ArgString key, ArgBytes value, ArgUint expectedRevision] (uint_result T)"

definition MockKeyValueStore_Delete ::
  "('m, 'c, 'p) testify \<Rightarrow> string \<Rightarrow> 'm \<Rightarrow> 'm \<times> string option outcome_of" where
  "MockKeyValueStore_Delete T key = call_with T ''Delete'' [ArgString key] (error_result T)"

definition MockKeyValueStore_Purge ::
  "('m, 'c, 'p) testify \<Rightarrow> string \<Rightarrow> 'm \<Rightarrow> 'm \<times> string option outcome_of" where
  "MockKeyValueStore_Purge T key = call_with T ''Purge'' [ArgString key] (error_result T)"

definition MockKeyValueStore_Keys ::
  "('m, 'c, 'p) testify \<Rightarrow> 'm \<Rightarrow> 'm \<times> (string list option \<times> string option) outcome_of" where
  "MockKeyValueStore_Keys T = call_with T ''Keys'' [] (nilable_result T as_strings)"

definition MockKeyValueStore_Bucket ::
  "('m, 'c, 'p) testify \<Rightarrow> 'm \<Rightarrow> 'm \<times> string outcome_of" where
  "MockKeyValueStore_Bucket T = call_with T ''Bucket'' [] (\<lambda>rets. tm_String T rets 0)"

definition MockScheduleManager_PublishScheduled ::
  "('m, 'c, 'p) testify \<Rightarrow> 'c \<Rightarrow> 'm \<Rightarrow> 'm \<times> string option outcome_of" where
  "MockScheduleManager_PublishScheduled T config = call_with T ''PublishScheduled'' [ArgOpaque config] (error_result T)"

definition MockScheduleManager_PurgeStreamSubject ::
  "('m, 'c, 'p) testify \<Rightarrow> string \<Rightarrow> string \<Rightarrow> 'm \<Rightarrow> 'm \<times> string option outcome_of" where
  "MockScheduleManager_PurgeStreamSubject T stream subject = call_with T ''PurgeStreamSubject'' [ArgString stream, ArgString subject] (error_result T)"

definition MockScheduleManager_HasPendingMessages ::
  "('m, 'c, 'p) testify \<Rightarrow> string \<Rightarrow> string \<Rightarrow> 'm \<Rightarrow> 'm \<times> (bool \<times> string option) outcome_of" where
  "MockScheduleManager_HasPendingMessages T stream subject = call_with T ''HasPendingMessages'' [ArgString stream, ArgString subject] (bool_result T)"

section \<open>Properties\<close>

text \<open>The library's documented reading of the results a test configured.\<close>

definition testify_laws :: "('m, 'c, 'p) testify \<Rightarrow> bool" where
  "testify_laws T \<longleftrightarrow>
     (\<forall>rets i. tm_Get T rets i = (if i < length rets then Some (rets ! i) else None)) \<and>
     (\<forall>rets i. tm_Error T rets i =
        (case tm_Get T rets i of Some INil \<Rightarrow> Some None | Some (IError e) \<Rightarrow> Some (Some e) | _ \<Rightarrow> None))"

lemma call_with_configured:
  "tm_Called T m name args = (m', Some rets) \<Longrightarrow> call_with T name args f m = (m', or_panic (f rets))"
  by (simp add: call_with_def)

text \<open>A double that is configured with a value and an error returns both; nil is the nil pointer.\<close>

lemma nilable_result_value:
  assumes "testify_laws T" "as_type x = Some v" "x \<noteq> INil"
  shows "nilable_result T as_type [x, INil] = Some (Some v, None)"
    "nilable_result T as_type [x, IError e] = Some (Some v, Some e)"
    "nilable_result T as_type [INil, IError e] = Some (None, Some e)"
  using assms by (simp_all add: testify_laws_def nilable_result_def)

text \<open>A key-value double cannot be configured with a nil revision: \<open>Return(nil, err)\<close>, the usual way of
  scripting a failure, panics in \<open>Put\<close>, \<open>Create\<close> and \<open>Update\<close>.\<close>

lemma kv_double_nil_revision_panics:
  assumes "testify_laws T" "tm_Called T m ''Update'' [ArgString key, ArgBytes value, ArgUint rv] = (m', Some [INil, IError e])"
  shows "MockKeyValueStore_Update T key value rv m = (m', Panics)"
  using assms by (simp add: MockKeyValueStore_Update_def call_with_def uint_result_def testify_laws_def)

lemma kv_double_conflict:
  assumes "testify_laws T" "tm_Called T m ''Update'' [ArgString key, ArgBytes value, ArgUint rv] = (m', Some [IUint 0, IError e])"
  shows "MockKeyValueStore_Update T key value rv m = (m', Returns (0, Some e))"
  using assms by (simp add: MockKeyValueStore_Update_def call_with_def uint_result_def testify_laws_def)

text \<open>The combined double behaves as the double of each interface.\<close>

lemma MockBus_as_interfaces:
  "MockBus_PublishFanout = MockFanout_PublishFanout" "MockBus_SubscribeFanout = MockFanout_SubscribeFanout"
  "MockBus_EnsureFanoutStream = MockFanout_EnsureFanoutStream" "MockBus_Subscribe = MockSubscriber_Subscribe"
  "MockBus_Publish = MockPublisher_Publish" "MockBus_Fetch = MockFetcher_Fetch"
  "MockBus_GetConn = MockConnectionProvider_GetConn" "MockBus_PublishCore = MockCorePublisher_PublishCore"
  "MockBus_FlushConnection = MockCorePublisher_FlushConnection"
  by (simp_all add: fun_eq_iff MockBus_PublishFanout_def MockFanout_PublishFanout_def MockBus_SubscribeFanout_def
      MockFanout_SubscribeFanout_def MockBus_EnsureFanoutStream_def MockFanout_EnsureFanoutStream_def
      MockBus_Subscribe_def MockSubscriber_Subscribe_def MockBus_Publish_def MockPublisher_Publish_def
      MockBus_Fetch_def MockFetcher_Fetch_def MockBus_GetConn_def MockConnectionProvider_GetConn_def
      MockBus_PublishCore_def MockCorePublisher_PublishCore_def MockBus_FlushConnection_def
      MockCorePublisher_FlushConnection_def)

end
