(* ===== verification/Spec2Isabelle.thy ===== *)
theory Spec2Isabelle
  imports Coverage_Mw Tiered_Cache Nats_Bus Mongo_Manager Mongo_Model Redis_Client ClickHouse_Model Flatten
    Configuration Typeconv Template_Replace Mapper Shutdown Service_Health Request_Validation Ip_Whitelist
    Minio_Client Mqtt_Client Data_Utils Credentials Connections Mock_Mqtt Mock_Amqp Mock_Nats Mock_Smtp
    Request_Pipeline Service_Support Time_Format Message_Lifecycle Nats_Doubles
begin

text \<open>
  \<^bold>\<open>Verification of mapexGoKit\<close>

  mapexGoKit is the shared library of the MapexOS services: utilities (\<open>src/utils\<close>), adapters for
  the infrastructure (\<open>src/infrastructure\<close>) and the building blocks of HTTP microservices
  (\<open>src/microservices\<close>). A request enters through the Fiber middlewares: \<open>auth\<close> verifies a token,
  \<open>permission\<close> checks the permissions cached for the user and organization, \<open>coverage\<close> builds the
  request context; the handlers turn that context into a database filter with \<open>orgfilter\<close>, whose
  hierarchical case relies on the byte order of \<open>pathkey\<close>. Services talk to each other with
  \<open>httpclient\<close> and NATS, keep hot data in \<open>tieredcache\<close> and store documents through
  \<open>mongodb\<close>.

  \<^bold>\<open>Theories and what they model\<close>

  \<^item> \<open>Kit_Prelude\<close>: 64-bit wrap-around, the string functions and decimal conversions of the Go
    library the sources use, byte order of strings, dynamic values.
  \<^item> \<open>Path_Key\<close> (\<open>utils/pathkey/pathkey.go\<close>): next sibling, ancestors, descendants of a
    materialised path. The range from a key to its next sibling selects exactly the subtree; the
    range is empty when the last segment is full.
  \<^item> \<open>Org_Filter\<close> (\<open>utils/orgfilter\<close>, \<open>common/context\<close>): request contexts and the filters built
    from them, for MongoDB, for ClickHouse and for templates. When a filter is unrestricted, that
    the two databases get the same filter, and which organizations a template filter allows.
  \<^item> \<open>Http_Core\<close> (\<open>http/response\<close>, \<open>http/customErrors\<close>, \<open>http/auth\<close>, the middlewares \<open>auth\<close>,
    \<open>apiKey\<close>, \<open>refreshTokenExtractor\<close>): replies, error classification, token checks. A
    middleware is a function from the Fiber context to \<open>Next\<close> or \<open>Reply\<close>.
  \<^item> \<open>Permission_Mw\<close> (\<open>middlewares/permission\<close>): the versioned permission cache with its lazy
    build and retries, wildcard matching, \<open>RequirePermissions\<close>. The cache is a function of the
    number of reads made, so that concurrent rebuilds are visible between two reads.
  \<^item> \<open>Coverage_Mw\<close> (\<open>middlewares/coverage\<close>, \<open>middlewares/orghierarchy\<close>): the access record of a
    user, the request context, and the rules for creating organizations.
  \<^item> \<open>Http_Client\<close> (\<open>infrastructure/httpclient\<close>): requests, headers and errors of the JSON client.
  \<^item> \<open>Cache_Interface\<close>: the contract of a cache as a locale, with the lemmas about any sequence of
    operations; \<open>Tiered_Cache\<close> (\<open>infrastructure/tieredcache\<close>) interprets it on the RAM, disk,
    loader and HTTP tiers, with files that fail and evictions.
  \<^item> \<open>Nats_Message\<close>, \<open>Nats_Setup\<close>, \<open>Nats_Consumer\<close>, \<open>Nats_Bus\<close> (\<open>infrastructure/nats\<close>):
    publishing, the retry and dead-letter protocol of a message, the setup of streams and
    consumers, key-value buckets, the fetch loop as a step relation that interleaves with \<open>Stop\<close>,
    batches whose goroutines run in any order, the consumer manager, fan-out and the bus adapter.
  \<^item> \<open>Message_Lifecycle\<close>: these parts together with the redelivery of the server. One message from its first
    delivery to the end, as an inductive set of histories: how it can end, the schedule of a message that
    always fails, and the one way in which a message is left behind. \<open>Nats_Doubles\<close> (\<open>nats/mocks\<close>): the
    test doubles over the testify library.
  \<^item> \<open>Mongo_Manager\<close> (\<open>infrastructure/mongodb/manager\<close>): the latency window, its P99 and the
    modes; connection state; the transaction loops as partial functions whose value \<open>None\<close> is
    not returning. \<open>Mongo_Model\<close> (\<open>infrastructure/mongodb/model\<close>): CRUD and the paginations.
  \<^item> \<open>Cursor_Interface\<close>: the contract of a paged read as a locale, interpreted by the MongoDB and the
    ClickHouse tables. \<open>ClickHouse_Model\<close> (\<open>infrastructure/clickhouse/model\<close>): the query builder and its
    placeholders, field metadata, batches, offset and time-cursor pages.
  \<^item> \<open>Redis_Client\<close> (\<open>infrastructure/redis\<close>, \<open>infrastructure/redisLock\<close>): the key, hash, set and
    sorted-set commands, read-through and locks; a second interpretation of \<open>Cache_Interface\<close>.
  \<^item> \<open>Minio_Client\<close> (\<open>infrastructure/minio\<close>) and \<open>Mqtt_Client\<close> (\<open>infrastructure/mqttclient\<close>): the
    requests each operation sends, and which outcomes count as success.
  \<^item> \<open>Configuration\<close> (\<open>microservices/config\<close>): loading, the guard against development defaults, the
    typed getters and the names derived per environment; the property about missing credentials
    composes it with the authentication middlewares.
  \<^item> \<open>Shutdown\<close> (\<open>microservices/shutdown\<close>): \<open>WaitForSignal\<close> as a step relation over running hooks.
  \<^item> \<open>Service_Health\<close> (\<open>clickhouse/manager\<close>, \<open>http/health\<close>): connection managers, adapters, the health
    service with concurrent checks, the endpoint.
  \<^item> \<open>Request_Validation\<close> (\<open>http/requestValidation\<close>, \<open>microservices/validator\<close>, \<open>utils/validations\<close>):
    binding, messages, the reflective walk that runs transforms; \<open>Ip_Whitelist\<close>
    (\<open>http/auth/ipWhiteList.go\<close>): addresses as words.
  \<^item> \<open>Credentials\<close> (\<open>utils/jwt\<close>, \<open>utils/natsjwt\<close>): session and device tokens, composed with the
    authentication middleware. \<open>Connections\<close>: the constructors and \<open>Close\<close> operations of the NATS, Redis,
    ClickHouse, MongoDB and cache clients as the calls they make on their drivers.
  \<^item> \<open>Flatten\<close>, \<open>Typeconv\<close>, \<open>Template_Replace\<close>, \<open>Mapper\<close>, \<open>Envelope\<close>, \<open>Data_Utils\<close> (\<open>src/utils\<close>, and the map
    accessors of the MongoDB model): flattening and lookup by path, conversions over IEEE doubles,
    templates, struct mapping, envelope encryption, reversal, zero values, identifiers and the
    results of transform scripts.
  \<^item> \<open>Request_Pipeline\<close>: the contract \<open>middleware\<close> (which locals a middleware reads and sets) as a locale, the pair and
    the independent pair that extend it, and their interpretations on the authentication, API-key,
    refresh-token, permission, coverage and hierarchy middlewares; what a handler behind the whole chain
    can rely on, and that the two authorisation checks may be mounted in either order.
  \<^item> \<open>Wire\<close>, \<open>Mock_Server\<close>, \<open>Mock_Mqtt\<close>, \<open>Mock_Amqp\<close>, \<open>Mock_Nats\<close>, \<open>Mock_Smtp\<close> (\<open>infrastructure/mock_servers\<close>): the test servers.
    A connection is the list of bytes the client sends, a handler the list of its events. The accept loop,
    its wait group, the channel and the cleanup are a step relation over all interleavings;
    \<open>capture_server\<close> is the contract of a protocol handler, interpreted by the four protocols on the
    sessions of a conforming client, and gives that a test sees exactly what its clients published.
  \<^item> \<open>Service_Support\<close> and \<open>Time_Format\<close> (\<open>microservices/logger\<close>, \<open>metrics\<close>, \<open>container\<close>, \<open>common\<close>, the deadline middlewares, \<open>utils/bcrypt\<close>,
    \<open>utils/serialize\<close>, \<open>utils/time\<close>): logging, metric names, singletons, deadlines, passwords and timestamps.
  \<^item> This theory: the property that spans the middlewares, the filters and the path keys.

  \<^bold>\<open>Conventions\<close>

  Go's \<open>error\<close> is an option or the left side of a sum; nil pointers, maps and slices that the
  code distinguishes are options. Integers are mathematical where the code cannot overflow on
  its inputs, words or \<open>wrap64\<close> where it can. Maps are association lists where iteration order
  or rendering matters. Code outside the repository (JWT libraries, Redis, ristretto, the NATS
  client and server, the MongoDB driver, SHA-256, JSON) is an argument of the definitions, a
  record of operations over an abstract state; what is relied on is a named predicate
  (\<open>ristretto_laws\<close>, \<open>admin_laws\<close>, \<open>kv_laws\<close>, \<open>redis_laws\<close>, \<open>store_laws\<close>, \<open>serves\<close>, \<open>answers\<close>,
  \<open>finite_retries\<close>, \<open>jwt_sound\<close>, \<open>jwt_complete\<close>, \<open>jwt_laws\<close>, \<open>nats_laws\<close>,
  \<open>gcm_correct\<close>, \<open>validator_ok\<close>, \<open>oid_codec_ok\<close>,
  \<open>dst_field\<close>, \<open>prometheus_laws\<close>, \<open>bcrypt_laws\<close>, \<open>calls_succeed\<close>, \<open>testify_laws\<close>) that a concrete instance
  satisfies in the witnesses. The components' calls of the logger and of their metrics are left out.

  \<^bold>\<open>Bounds and fuel\<close>

  \<open>createOrGetConsumer\<close> takes fuel for its recursion; two rounds are proved to be enough.
  \<open>follow\<close> takes fuel for the pages a client asks for; one more than the number of documents is
  enough. The commit and transaction loops may run for ever and are proved to return when the
  session reports finitely many retriable errors. A message is delivered at most \<open>MaxRetries + 1\<close> times. Path-key segments have at most twelve Base36
  digits, so that they fit 63 bits.

  \<^bold>\<open>Not modelled\<close>

  Interface declarations (\<open>infrastructure/common/ports\<close>, the ports of the packages; what clients rely on of the
  caches is the locale of \<open>Cache_Interface\<close>), pointer helpers, accessors and wrappers of one line around a library. The mock servers are
  modelled on complete inputs: when the client closes a connection, and how its bytes are cut into
  packets, makes no difference to a handler that reads with \<open>ReadFull\<close> and \<open>ReadString\<close>; a client that waits for an
  answer is not told apart from one that does not.
\<close>

section \<open>From the request to the documents\<close>

text \<open>A tenant document, and when a filter of \<open>BuildOrgFilter\<close> selects it.\<close>

record 'oid tenant_doc =
  td_orgId :: 'oid
  td_pathKey :: string

fun selects_field :: "'oid tenant_doc \<Rightarrow> string \<times> 'oid filter_val \<Rightarrow> bool" where
  "selects_field d (field, FOid i) = (field = ''orgId'' \<and> td_orgId d = i)"
| "selects_field d (field, FDoc [(op1, FStr lo), (op2, FStr hi)]) =
     (field = ''pathKey'' \<and> op1 = ''$gte'' \<and> op2 = ''$lt'' \<and> lo \<le> td_pathKey d \<and> td_pathKey d < hi)"
| "selects_field d (field, FDoc [(op1, FList vs)]) =
     (field = ''orgId'' \<and> op1 = ''$in'' \<and> FOid (td_orgId d) \<in> set vs)"
| "selects_field d _ = False"

definition selects :: "'oid filter \<Rightarrow> 'oid tenant_doc \<Rightarrow> bool" where
  "selects flt d = list_all (selects_field d) flt"

text \<open>A path key of an organization and one of a document for which the range test is exact.\<close>

definition comparable_keys :: "string \<Rightarrow> string \<Rightarrow> bool" where
  "comparable_keys org doc \<longleftrightarrow>
     (\<exists>pre s ts. org = pathkey_of (pre @ [s]) \<and> doc = pathkey_of ts \<and> wf_segments (pre @ [s]) \<and>
        wf_segments ts \<and> seg_val s + 1 < 36 ^ length s \<and>
        (length pre < length ts \<longrightarrow> length (ts ! length pre) = length s))"

lemma range_selects_below:
  assumes "selects (pathKey_range org) d" "comparable_keys org (td_pathKey d)" "org \<noteq> []"
  shows "prefix (go_split (CHR ''/'') org) (go_split (CHR ''/'') (td_pathKey d))"
proof -
  obtain pre s ts where k: "org = pathkey_of (pre @ [s])" "td_pathKey d = pathkey_of ts"
    "wf_segments (pre @ [s])" "wf_segments ts" "seg_val s + 1 < 36 ^ length s"
    "length pre < length ts \<longrightarrow> length (ts ! length pre) = length s"
    using assms(2) unfolding comparable_keys_def by blast
  have "org \<le> td_pathKey d" "td_pathKey d < CalculateNextSiblingPathKey org"
    using assms(1,3) by (simp_all add: selects_def pathKey_range_def NextSiblingPathKey_def)
  then have "prefix (pre @ [s]) ts"
    using in_range_below [OF k(3,5,4,6)] by (simp add: k)
  then show ?thesis by (simp add: k(1,2) go_split_pathkey k(3,4))
qed



end
